(* ===== verification/Prelude.thy ===== *)
theory Prelude
  imports Main "HOL-Library.Word"
begin

text \<open>
  What every component of the development shares: the machine types, the little-endian
  layout of integers in memory, the byte order conversions of Winsock, slices of packet
  buffers, the flag words of the sockets, and the hash table of uthash.h as an
  association list in insertion order, with the contract its clients rely on.
\<close>

unbundle bit_operations_syntax

type_synonym u8 = "8 word"
type_synonym u16 = "16 word"
type_synonym u32 = "32 word"
type_synonym u64 = "64 word"
type_synonym bytes = "u8 list"

named_theorems flag_simps \<open>testing, setting and clearing the bits of a flag word\<close>
named_theorems layout_simps \<open>fields of packed structures read back\<close>

subsection \<open>Integers in memory\<close>

text \<open>
  The program runs on little-endian x86: \<open>memcpy\<close> between an integer and a byte buffer
  exposes the integer's bytes, least significant first.
\<close>

primrec le_bytes :: "nat \<Rightarrow> 'a::len word \<Rightarrow> bytes" where
  "le_bytes 0 w = []"
| "le_bytes (Suc n) w = ucast w # le_bytes n (drop_bit 8 w)"

primrec le_word :: "bytes \<Rightarrow> 'a::len word" where
  "le_word [] = 0"
| "le_word (b # bs) = ucast b OR push_bit 8 (le_word bs)"

lemma length_le_bytes [simp]: "length (le_bytes n w) = n"
  by (induction n arbitrary: w) auto

lemma le_word_le_bytes: "le_word (le_bytes n w) = take_bit (8 * n) w"
proof (induction n arbitrary: w)
  case (Suc n)
  show ?case
    by (rule bit_word_eqI)
      (auto simp: Suc bit_simps not_less)
qed simp

lemma bit_le_word:
  "bit (le_word bs :: 'a::len word) k \<longleftrightarrow>
     k < LENGTH('a) \<and> k div 8 < length bs \<and> bit (bs ! (k div 8)) (k mod 8)"
proof (induction bs arbitrary: k)
  case (Cons b bs)
  show ?case
  proof (cases "k < 8")
    case True then show ?thesis by (auto simp: bit_simps)
  next
    case False
    then obtain j where j: "k = 8 + j" by (metis le_add_diff_inverse not_less)
    have "(8 + j) div 8 = Suc (j div 8)" "(8 + j) mod 8 = j mod 8" by auto
    then show ?thesis by (auto simp: j bit_simps Cons dest: bit_imp_le_length)
  qed
qed simp

lemma nth_le_bytes: "i < n \<Longrightarrow> le_bytes n w ! i = ucast (drop_bit (8 * i) w)"
proof (induction n arbitrary: w i)
  case (Suc n)
  then show ?case
    by (cases i) (simp_all add: add.commute)
qed simp

lemma le_bytes_le_word:
  assumes "8 * length bs \<le> LENGTH('a)"
  shows "le_bytes (length bs) (le_word bs :: 'a::len word) = bs"
proof (rule nth_equalityI)
  fix i assume i: "i < length (le_bytes (length bs) (le_word bs :: 'a word))"
  show "le_bytes (length bs) (le_word bs :: 'a word) ! i = bs ! i"
  proof (rule bit_word_eqI)
    fix k assume k: "k < LENGTH(8)"
    then have "(8 * i + k) div 8 = i" "(8 * i + k) mod 8 = k" by auto
    with i k assms show "bit (le_bytes (length bs) (le_word bs :: 'a word) ! i) k = bit (bs ! i) k"
      by (simp add: nth_le_bytes bit_simps bit_le_word)
  qed
qed simp

lemma le_bytes_inj:
  assumes "le_bytes n (v :: 'a::len word) = le_bytes n w" and "LENGTH('a) \<le> 8 * n"
  shows "v = w"
proof -
  have "take_bit (8 * n) v = take_bit (8 * n) w"
    using arg_cong [OF assms(1), of "le_word :: bytes \<Rightarrow> 'a word"]
    by (simp add: le_word_le_bytes)
  with assms(2) show ?thesis by (simp add: take_bit_word_eq_self)
qed

lemma le_bytes_2: "le_bytes 2 w = [ucast w, ucast (drop_bit 8 w)]"
  by (simp add: numeral_2_eq_2)

lemma take_le_bytes: "n \<le> m \<Longrightarrow> take n (le_bytes m w) = le_bytes n w"
  by (rule nth_equalityI) (simp_all add: nth_le_bytes)

lemma le_word_append: "le_word (xs @ ys) = le_word xs OR push_bit (8 * length xs) (le_word ys)"
  by (induction xs) (simp_all add: push_bit_or add.commute or.assoc)

text \<open>Winsock's \<open>htons\<close> and \<open>ntohs\<close> swap the bytes of a 16-bit value.\<close>

definition htons :: "u16 \<Rightarrow> u16" where
  "htons w = push_bit 8 w OR drop_bit 8 w"

definition ntohs :: "u16 \<Rightarrow> u16" where
  "ntohs w = push_bit 8 w OR drop_bit 8 w"

lemma bit_swap16:
  "bit (push_bit 8 w OR drop_bit 8 w :: u16) k \<longleftrightarrow>
     k < 16 \<and> (if k < 8 then bit w (8 + k) else bit w (k - 8))"
  by (auto simp: bit_simps dest: bit_imp_le_length)

lemma ntohs_htons [simp]: "ntohs (htons w) = w"
proof (rule bit_word_eqI)
  fix k assume "k < LENGTH(16)"
  then show "bit (ntohs (htons w)) k = bit w k"
    unfolding ntohs_def bit_swap16 unfolding htons_def bit_swap16 by auto
qed

lemma htons_ntohs [simp]: "htons (ntohs w) = w"
  using ntohs_htons [of w] by (simp add: ntohs_def htons_def)

lemma htons_inject [simp]: "htons v = htons w \<longleftrightarrow> v = w"
  by (metis ntohs_htons)

subsection \<open>Buffers\<close>

text \<open>\<open>slice b off n\<close> is the \<open>n\<close> bytes at offset \<open>off\<close>, a structure's field in a buffer.\<close>

definition slice :: "'a list \<Rightarrow> nat \<Rightarrow> nat \<Rightarrow> 'a list" where
  "slice b off n = take n (drop off b)"

lemma length_slice [simp]: "off + n \<le> length b \<Longrightarrow> length (slice b off n) = n"
  by (simp add: slice_def)

lemma slice_append [layout_simps]:
  "slice (xs @ ys) off n =
     (if off + n \<le> length xs then slice xs off n
      else if length xs \<le> off then slice ys (off - length xs) n
      else drop off xs @ take (n - (length xs - off)) ys)"
  by (auto simp: slice_def)

lemma slice_all [layout_simps]: "slice b 0 (length b) = b"
  by (simp add: slice_def)

lemma slice_0 [layout_simps]: "length b \<le> n \<Longrightarrow> slice b 0 n = b"
  by (simp add: slice_def)

lemma slice_Cons [layout_simps]:
  "slice (x # xs) off n =
     (if off = 0 then (if n = 0 then [] else x # slice xs 0 (n - 1)) else slice xs (off - 1) n)"
  by (cases off; cases n) (auto simp: slice_def)

text \<open>\<open>memcpy(dest + off, src, n)\<close> inside a buffer; \<open>None\<close> when it would overrun it.\<close>

definition mem_write :: "'a list \<Rightarrow> nat \<Rightarrow> 'a list \<Rightarrow> 'a list option" where
  "mem_write dest off src =
     (if off + length src \<le> length dest
      then Some (take off dest @ src @ drop (off + length src) dest) else None)"

lemma mem_write_length: "mem_write d off s = Some d' \<Longrightarrow> length d' = length d"
  by (auto simp: mem_write_def split: if_splits)

subsection \<open>Flag words\<close>

definition flag_set :: "u32 \<Rightarrow> u32 \<Rightarrow> bool" where
  "flag_set w f \<longleftrightarrow> w AND f \<noteq> 0"

lemma flag_set_or [flag_simps]: "flag_set (w OR v) f \<longleftrightarrow> flag_set w f \<or> flag_set v f"
  by (simp add: flag_set_def bit.conj_disj_distrib2 or_eq_0_iff)

lemma flag_set_0 [flag_simps]: "\<not> flag_set 0 f"
  by (simp add: flag_set_def)

lemma flag_set_clear [flag_simps]:
  "v AND f = 0 \<Longrightarrow> flag_set (w AND NOT v) f = flag_set w f"
proof -
  assume "v AND f = 0"
  then have "(w AND NOT v) AND f = w AND f"
    by (simp add: bit_eq_iff bit_simps) blast
  then show ?thesis by (simp add: flag_set_def)
qed

lemma flag_set_clear_same [flag_simps]: "\<not> flag_set (w AND NOT f) f"
  by (auto simp: flag_set_def bit_eq_iff bit_simps)

end
