(* ===== verification/RateLimit.thy ===== *)
theory RateLimit
  imports Prelude
begin

text \<open>
  The outgoing rate limiter of common.c (\<open>ratelimit_get_delay\<close>): ten counters of 100 ms
  each hold what was sent in the second before the present, and the function returns how long
  the sender must sleep. Counters and times are 32-bit and wrap. \<open>None\<close> is a failed
  \<open>assert\<close>, an index outside the counters or a division by zero.
\<close>

definition RATELIMIT_COUNTS_SIZE :: nat where
  "RATELIMIT_COUNTS_SIZE = 10"

record ratelimit =
  rl_time_base :: u32
  rl_counts :: "u32 list"

definition ratelimit_reset :: "ratelimit \<Rightarrow> u32 \<Rightarrow> u32 \<Rightarrow> ratelimit" where
  "ratelimit_reset self add_count current_time =
     \<lparr>rl_time_base = current_time,
      rl_counts = (replicate RATELIMIT_COUNTS_SIZE 0)[0 := 0 + add_count]\<rparr>"

text \<open>The counting part: the updated counters and \<open>this_second_total\<close>.\<close>

definition ratelimit_count :: "ratelimit \<Rightarrow> u32 \<Rightarrow> u32 \<Rightarrow> (u32 \<times> ratelimit) option" where
  "ratelimit_count self add_count current_time =
     (if current_time < rl_time_base self
      then Some (add_count, ratelimit_reset self add_count current_time)
      else
        let ms_since_start = current_time - rl_time_base self;
            slots_to_erase = min ((ms_since_start - 1000) div 100 + 1) (of_nat RATELIMIT_COUNTS_SIZE);
            n = unat slots_to_erase
        in if ms_since_start \<ge> 1000 \<and> slots_to_erase = of_nat RATELIMIT_COUNTS_SIZE
           then Some (add_count, ratelimit_reset self add_count current_time)
           else if ms_since_start \<ge> 1000 \<and> \<not> n < RATELIMIT_COUNTS_SIZE then None
           else
             let self' =
                   (if ms_since_start \<ge> 1000
                    then \<lparr>rl_time_base = rl_time_base self + slots_to_erase * 100,
                          rl_counts = drop n (rl_counts self) @ replicate n 0\<rparr>
                    else self);
                 slot = unat ((current_time - rl_time_base self') div 100)
             in if slot < length (rl_counts self')
                then
                  let counts = (rl_counts self')[slot := rl_counts self' ! slot + add_count]
                  in Some (sum_list counts, self'\<lparr>rl_counts := counts\<rparr>)
                else None)"

definition ratelimit_get_delay ::
  "ratelimit \<Rightarrow> u32 \<Rightarrow> u32 \<Rightarrow> u32 \<Rightarrow> (u32 \<times> ratelimit) option" where
  "ratelimit_get_delay self add_count max_counts_per_second current_time =
     (case ratelimit_count self add_count current_time of
        None \<Rightarrow> None
      | Some (this_second_total, self') \<Rightarrow>
          if this_second_total > max_counts_per_second then
            (if max_counts_per_second = 0 then None
             else
               let excess_counts = this_second_total - max_counts_per_second
               in Some (((excess_counts * 100) div max_counts_per_second) * 10, self'))
          else Some (0, self'))"

subsection \<open>Contract\<close>

text \<open>
  The log of what was sent and when stands for the counters: counter \<open>i\<close> holds the sum of
  the entries of its 100 ms.
\<close>

type_synonym rl_log = "(u32 \<times> u32) list"

definition log_sum :: "rl_log \<Rightarrow> (nat \<Rightarrow> bool) \<Rightarrow> nat" where
  "log_sum log P = (\<Sum>(t, c) \<leftarrow> log. if P (unat t) then unat c else 0)"

definition in_slot :: "nat \<Rightarrow> nat \<Rightarrow> nat \<Rightarrow> bool" where
  "in_slot base i t \<longleftrightarrow> base + 100 * i \<le> t \<and> t < base + 100 * Suc i"

definition rl_rep :: "rl_log \<Rightarrow> ratelimit \<Rightarrow> bool" where
  "rl_rep log self \<longleftrightarrow>
     length (rl_counts self) = RATELIMIT_COUNTS_SIZE \<and>
     (\<forall>e \<in> set log. unat (fst e) < unat (rl_time_base self) + 1000) \<and>
     (\<forall>i < RATELIMIT_COUNTS_SIZE.
        unat (rl_counts self ! i) = log_sum log (in_slot (unat (rl_time_base self)) i))"

lemma log_sum_Nil [simp]: "log_sum [] P = 0"
  by (simp add: log_sum_def)

lemma log_sum_Cons [simp]:
  "log_sum (e # log) P = (if P (unat (fst e)) then unat (snd e) else 0) + log_sum log P"
  by (simp add: log_sum_def split: prod.splits)

lemma log_sum_append [simp]: "log_sum (xs @ ys) P = log_sum xs P + log_sum ys P"
  by (simp add: log_sum_def)

lemma log_sum_le: "log_sum log P \<le> log_sum log (\<lambda>_. True)"
  by (induction log) auto

lemma log_sum_none: "\<forall>e \<in> set log. \<not> P (unat (fst e)) \<Longrightarrow> log_sum log P = 0"
  by (induction log) auto

lemma log_sum_slots:
  "(\<Sum>i<n. log_sum log (in_slot base i)) = log_sum log (\<lambda>t. base \<le> t \<and> t < base + 100 * n)"
proof (induction log)
  case (Cons e log)
  have "(\<Sum>i<n. if in_slot base i (unat (fst e)) then unat (snd e) else 0) =
          (if base \<le> unat (fst e) \<and> unat (fst e) < base + 100 * n then unat (snd e) else 0)"
  proof (induction n)
    case (Suc n)
    then show ?case by (auto simp: in_slot_def)
  qed simp
  with Cons show ?case by (simp add: sum.distrib)
qed simp

lemma unat_sum_list:
  assumes "(\<Sum>i<length ws. unat (ws ! i)) < 2 ^ LENGTH('a)"
  shows "unat (sum_list (ws :: 'a::len word list)) = (\<Sum>i<length ws. unat (ws ! i))"
  using assms
proof (induction ws rule: rev_induct)
  case (snoc w ws)
  have "(\<Sum>i<length ws. unat ((ws @ [w]) ! i)) = (\<Sum>i<length ws. unat (ws ! i))"
    by (rule sum.cong) (simp_all add: nth_append)
  with snoc show ?case by (simp add: unat_word_ariths nth_append)
qed simp

text \<open>The total over all counters is what the log holds from the base time on.\<close>

lemma rep_total:
  assumes "rl_rep log s" and "log_sum log (\<lambda>_. True) < 2 ^ 32"
  shows "unat (sum_list (rl_counts s)) = log_sum log (\<lambda>t. unat (rl_time_base s) \<le> t)"
proof -
  let ?B = "unat (rl_time_base s)"
  have len: "length (rl_counts s) = 10"
    using assms(1) by (simp add: rl_rep_def RATELIMIT_COUNTS_SIZE_def)
  have "(\<Sum>i<10. unat (rl_counts s ! i)) = (\<Sum>i<10. log_sum log (in_slot ?B i))"
    using assms(1) by (intro sum.cong) (simp_all add: rl_rep_def RATELIMIT_COUNTS_SIZE_def)
  also have "\<dots> = log_sum log (\<lambda>t. ?B \<le> t \<and> t < ?B + 100 * 10)" by (rule log_sum_slots)
  also have "\<dots> = log_sum log (\<lambda>t. ?B \<le> t)"
  proof -
    have "\<forall>e \<in> set log. unat (fst e) < ?B + 1000" using assms(1) by (simp add: rl_rep_def)
    then show ?thesis by (induction log) auto
  qed
  finally have eq: "(\<Sum>i<10. unat (rl_counts s ! i)) = log_sum log (\<lambda>t. ?B \<le> t)" .
  moreover have "\<dots> < 2 ^ 32" using log_sum_le assms(2) by (rule le_less_trans)
  ultimately show ?thesis using unat_sum_list [of "rl_counts s"] len by simp
qed

definition rl_shift :: "nat \<Rightarrow> ratelimit \<Rightarrow> ratelimit" where
  "rl_shift k self =
     \<lparr>rl_time_base = rl_time_base self + of_nat (100 * k),
      rl_counts = drop k (rl_counts self) @ replicate k 0\<rparr>"

definition rl_add :: "u32 \<Rightarrow> u32 \<Rightarrow> ratelimit \<Rightarrow> ratelimit" where
  "rl_add add_count now s =
     (let slot = (unat now - unat (rl_time_base s)) div 100
      in s\<lparr>rl_counts := (rl_counts s)[slot := rl_counts s ! slot + add_count]\<rparr>)"

lemma rl_shift_base:
  assumes "unat (rl_time_base self) + 100 * k \<le> unat (now :: u32)"
  shows "unat (rl_time_base (rl_shift k self)) = unat (rl_time_base self) + 100 * k"
proof -
  have "unat (rl_time_base self) + 100 * k < 2 ^ 32"
    using assms unsigned_less [of now, where 'a = nat] by simp
  then show ?thesis
    by (simp add: rl_shift_def unat_word_ariths unsigned_of_nat take_bit_nat_eq_self
        del: of_nat_mult)
qed

lemma rep_shift:
  assumes rep: "rl_rep log self" and k: "k \<le> 10"
    and B: "unat (rl_time_base self) + 100 * k \<le> unat (now :: u32)"
  shows "rl_rep log (rl_shift k self)"
proof -
  note base = rl_shift_base [OF B]
  have len: "length (rl_counts self) = 10"
    and bound: "\<forall>e \<in> set log. unat (fst e) < unat (rl_time_base self) + 1000"
    and slots: "\<And>i. i < 10 \<Longrightarrow>
      unat (rl_counts self ! i) = log_sum log (in_slot (unat (rl_time_base self)) i)"
    using rep by (simp_all add: rl_rep_def RATELIMIT_COUNTS_SIZE_def)
  have "unat (rl_counts (rl_shift k self) ! i) =
          log_sum log (in_slot (unat (rl_time_base self) + 100 * k) i)" if i: "i < 10" for i
  proof (cases "i + k < 10")
    case True
    have "in_slot (unat (rl_time_base self)) (k + i) = in_slot (unat (rl_time_base self) + 100 * k) i"
      by (simp add: in_slot_def fun_eq_iff algebra_simps)
    moreover have "i < 10 - k" using True by arith
    ultimately show ?thesis
      using True slots [of "k + i"] len by (simp add: rl_shift_def nth_append)
  next
    case False
    with bound have "\<forall>e \<in> set log. \<not> in_slot (unat (rl_time_base self) + 100 * k) i (unat (fst e))"
      by (auto simp: in_slot_def)
    then have "log_sum log (in_slot (unat (rl_time_base self) + 100 * k) i) = 0" by (rule log_sum_none)
    moreover have "\<not> i < 10 - k" using False by arith
    ultimately show ?thesis using i len k by (simp add: rl_shift_def nth_append)
  qed
  with len k bound show ?thesis
    by (auto simp: rl_rep_def base RATELIMIT_COUNTS_SIZE_def) (simp add: rl_shift_def)
qed

lemma rep_add:
  assumes rep: "rl_rep log s" and t: "rl_time_base s \<le> now" "unat now < unat (rl_time_base s) + 1000"
    and total: "log_sum (log @ [(now, add_count)]) (\<lambda>_. True) < 2 ^ 32"
  shows "rl_rep (log @ [(now, add_count)]) (rl_add add_count now s)"
proof -
  let ?B = "unat (rl_time_base s)" and ?slot = "(unat now - unat (rl_time_base s)) div 100"
  have B: "?B \<le> unat now" using t(1) by (simp add: word_le_nat_alt)
  have slot: "?slot < 10" using t(2) B by auto
  have in_slot: "in_slot ?B i (unat now) \<longleftrightarrow> i = ?slot" for i
    using B unfolding in_slot_def by auto
  have "unat (rl_counts s ! i) + unat add_count < 2 ^ 32" if "i < 10" for i
  proof -
    have "unat (rl_counts s ! i) \<le> log_sum log (\<lambda>_. True)"
      using rep that log_sum_le by (simp add: rl_rep_def RATELIMIT_COUNTS_SIZE_def)
    with total show ?thesis by simp
  qed
  with rep slot have "unat (rl_counts (rl_add add_count now s) ! i) =
      log_sum (log @ [(now, add_count)]) (in_slot ?B i)" if "i < 10" for i
    using that by (auto simp: rl_rep_def RATELIMIT_COUNTS_SIZE_def rl_add_def Let_def in_slot
        nth_list_update unat_word_ariths)
  with rep t(2) show ?thesis
    by (auto simp: rl_rep_def RATELIMIT_COUNTS_SIZE_def rl_add_def Let_def)
qed

lemma rep_reset:
  assumes rep: "rl_rep log s" and t: "unat (rl_time_base s) + 1000 \<le> unat now"
  shows "rl_rep (log @ [(now, add_count)]) (ratelimit_reset s add_count now)"
proof -
  have old: "\<forall>e \<in> set log. unat (fst e) < unat now" using rep t by (fastforce simp: rl_rep_def)
  then have "log_sum log (in_slot (unat now) i) = 0" for i
    by (intro log_sum_none) (auto simp: in_slot_def)
  moreover have "in_slot (unat now) i (unat now) \<longleftrightarrow> i = 0" for i
    by (auto simp: in_slot_def)
  moreover have "(replicate 10 (0 :: u32))[0 := add_count] ! i = (if i = 0 then add_count else 0)"
    if "i < 10" for i
    using that by (simp add: nth_list_update)
  moreover have "\<forall>e \<in> set (log @ [(now, add_count)]). unat (fst e) < unat now + 1000"
    using old by auto
  ultimately show ?thesis
    by (simp add: rl_rep_def ratelimit_reset_def RATELIMIT_COUNTS_SIZE_def)
qed

text \<open>
  The counting part in these terms: a reset after 1.9 seconds without an update, and
  otherwise a shift by as many slots as bring the present into the last one.
\<close>

definition rl_slots :: "nat \<Rightarrow> nat" where
  "rl_slots ms = (if ms < 1000 then 0 else (ms - 1000) div 100 + 1)"

lemma rl_slots_bounds:
  "ms < 1900 \<Longrightarrow> rl_slots ms < 10 \<and> 100 * rl_slots ms \<le> ms \<and> ms - 100 * rl_slots ms < 1000 \<and>
     (rl_slots ms \<noteq> 0 \<longrightarrow> 900 \<le> ms - 100 * rl_slots ms)"
  unfolding rl_slots_def by auto

lemma ratelimit_count_cases:
  assumes len: "length (rl_counts self) = RATELIMIT_COUNTS_SIZE" and le: "rl_time_base self \<le> now"
  defines "ms \<equiv> unat now - unat (rl_time_base self)"
  shows "ratelimit_count self add_count now =
    (if 1900 \<le> ms then Some (add_count, ratelimit_reset self add_count now)
     else let s = rl_add add_count now (rl_shift (rl_slots ms) self)
          in Some (sum_list (rl_counts s), s))"
proof -
  let ?B = "unat (rl_time_base self)" and ?d = "now - rl_time_base self"
  let ?w = "(?d - 1000) div 100 + 1"
  have B: "?B \<le> unat now" using le by (simp add: word_le_nat_alt)
  have d: "unat ?d = ms" using le by (simp add: ms_def unat_sub)
  have ge: "1000 \<le> ?d \<longleftrightarrow> 1000 \<le> ms" by (simp add: word_le_nat_alt d)
  have lt: "ms < 2 ^ 32" using d unsigned_less [of ?d, where 'a = nat] by simp
  have last: "unat ((now - rl_time_base s) div 100) = (unat now - unat (rl_time_base s)) div 100"
    if "unat (rl_time_base s) \<le> unat now" for s :: ratelimit
    using that by (simp add: unat_div unat_sub word_le_nat_alt)
  show ?thesis
  proof (cases "ms < 1000")
    case True
    have "rl_shift (rl_slots ms) self = self" using True by (simp add: rl_slots_def rl_shift_def)
    with True B le len ge show ?thesis
      by (simp add: ratelimit_count_def Let_def last rl_add_def RATELIMIT_COUNTS_SIZE_def
          not_less [symmetric] flip: ms_def)
  next
    case False
    then have big: "1000 \<le> ?d" by (simp add: ge)
    have "unat (?d - 1000) = ms - 1000" using big d by (simp add: unat_sub)
    then have w: "unat ?w = rl_slots ms" 
      using False lt by (simp add: unat_word_ariths unat_div rl_slots_def)
    show ?thesis
    proof (cases "1900 \<le> ms")
      case True
      then have "10 \<le> ?w" by (simp add: word_le_nat_alt w rl_slots_def)
      with True le big show ?thesis
        by (simp add: ratelimit_count_def Let_def RATELIMIT_COUNTS_SIZE_def min_def)
    next
      case small: False
      let ?k = "rl_slots ms"
      from small have k: "?k < 10" "100 * ?k \<le> ms" using rl_slots_bounds [of ms] by auto
      then have min: "min ?w 10 = ?w" and neq: "?w \<noteq> 10" and n: "unat (min ?w 10) = ?k"
        using w by (auto simp: min_def word_le_nat_alt dest: arg_cong [where f = unat])
      have shift: "(?d - 1000) div 100 * 100 + 100 = (100 * of_nat ?k :: u32)"
        unfolding w [symmetric] by (simp add: algebra_simps)
      have base: "unat (rl_time_base self + 100 * of_nat ?k) = ?B + 100 * ?k"
        using rl_shift_base [of self ?k now] k B by (simp add: ms_def rl_shift_def)
      have "unat ((now - (rl_time_base self + 100 * of_nat ?k)) div 100) =
              (unat now - (?B + 100 * ?k)) div 100"
        using last [of "rl_shift ?k self"] base k B by (simp add: ms_def rl_shift_def)
      moreover have "(unat now - (?B + 100 * ?k)) div 100 < 10"
        using rl_slots_bounds [of ms] small by (simp add: ms_def) arith
      ultimately show ?thesis
        using small le big neq k len base
        by (simp add: ratelimit_count_def Let_def RATELIMIT_COUNTS_SIZE_def min w shift rl_add_def
            rl_shift_def not_less [symmetric])
    qed
  qed
qed

text \<open>
  The limiter after the last update at time \<open>prev\<close>: the counters stand for the log, and
  what the counters have lost is at least 900 ms old.
\<close>

definition rl_inv :: "rl_log \<Rightarrow> u32 \<Rightarrow> ratelimit \<Rightarrow> bool" where
  "rl_inv log prev self \<longleftrightarrow>
     rl_rep log self \<and> rl_time_base self \<le> prev \<and>
     (\<forall>e \<in> set log. fst e < rl_time_base self \<longrightarrow> unat (fst e) + 900 \<le> unat prev)"

lemma log_sum_mono:
  "\<forall>e \<in> set log. P (unat (fst e)) \<longrightarrow> Q (unat (fst e)) \<Longrightarrow> log_sum log P \<le> log_sum log Q"
  by (induction log) auto

lemma rl_inv_window:
  assumes "rl_inv log now self" and "unat now < unat (rl_time_base self) + 1000"
  shows "log_sum log (\<lambda>t. unat now < t + 900) \<le> log_sum log (\<lambda>t. unat (rl_time_base self) \<le> t)"
    and "log_sum log (\<lambda>t. unat (rl_time_base self) \<le> t) \<le> log_sum log (\<lambda>t. unat now < t + 1000)"
  using assms by (auto intro!: log_sum_mono simp: rl_inv_def word_less_nat_alt)

lemma ratelimit_count_inv:
  assumes inv: "rl_inv log prev self" and now: "prev \<le> now"
    and total: "log_sum (log @ [(now, add_count)]) (\<lambda>_. True) < 2 ^ 32"
  obtains w self' where "ratelimit_count self add_count now = Some (w, self')"
    and "rl_inv (log @ [(now, add_count)]) now self'"
    and "unat now < unat (rl_time_base self') + 1000"
    and "unat w = log_sum (log @ [(now, add_count)]) (\<lambda>t. unat (rl_time_base self') \<le> t)"
proof -
  let ?B = "unat (rl_time_base self)" and ?log = "log @ [(now, add_count)]"
  let ?ms = "unat now - ?B"
  have rep: "rl_rep log self" and le: "rl_time_base self \<le> now"
    and old: "\<forall>e \<in> set log. unat (fst e) < ?B \<longrightarrow> unat (fst e) + 900 \<le> unat prev"
    using inv now by (auto simp: rl_inv_def word_less_nat_alt)
  have len: "length (rl_counts self) = RATELIMIT_COUNTS_SIZE" using rep by (simp add: rl_rep_def)
  have B: "?B \<le> unat now" and prev: "unat prev \<le> unat now"
    using le now by (simp_all add: word_le_nat_alt)
  note cases = ratelimit_count_cases [OF len le, of add_count]
  show ?thesis
  proof (cases "1900 \<le> ?ms")
    case True
    let ?s = "ratelimit_reset self add_count now"
    have r: "rl_rep ?log ?s" by (rule rep_reset [OF rep]) (use True in simp)
    have early: "\<forall>e \<in> set log. unat (fst e) < ?B + 1000" using rep by (simp add: rl_rep_def)
    then have sum: "log_sum ?log (\<lambda>t. unat now \<le> t) = unat add_count"
      using True by (auto simp: intro!: log_sum_none)
    have "rl_inv ?log now ?s"
      using r early True by (fastforce simp: rl_inv_def ratelimit_reset_def)
    with that [of add_count ?s] True cases sum show ?thesis by (simp add: ratelimit_reset_def)
  next
    case False
    let ?k = "rl_slots ?ms" and ?sh = "rl_shift (rl_slots ?ms) self"
    let ?s = "rl_add add_count now ?sh"
    have k: "?k < 10" "100 * ?k \<le> ?ms" "?ms - 100 * ?k < 1000" "?k \<noteq> 0 \<longrightarrow> 900 \<le> ?ms - 100 * ?k"
      using rl_slots_bounds [of ?ms] False by auto
    have b: "?B + 100 * ?k \<le> unat now" using k(2) B by arith
    note base = rl_shift_base [OF b]
    have lt: "unat now < unat (rl_time_base ?sh) + 1000" unfolding base using k(3) b by linarith
    have bs: "rl_time_base ?s = rl_time_base ?sh" by (simp add: rl_add_def Let_def)
    have "rl_rep log ?sh" by (rule rep_shift [OF rep _ b]) (use k in simp)
    then have r: "rl_rep ?log ?s"
      by (rule rep_add [OF _ _ lt total]) (use base b in \<open>simp add: word_le_nat_alt\<close>)
    have "unat (fst e) + 900 \<le> unat now" if "e \<in> set log" "unat (fst e) < ?B + 100 * ?k" for e
    proof -
      have "?k = 0 \<or> ?B + 100 * ?k + 900 \<le> unat now" using k(4) by (cases "?k = 0") simp_all
      then show ?thesis
      proof
        assume "?k = 0"
        with that have "unat (fst e) + 900 \<le> unat prev" using old by simp
        then show ?thesis using prev by (rule le_trans)
      next
        assume "?B + 100 * ?k + 900 \<le> unat now"
        with that(2) show ?thesis by linarith
      qed
    qed
    then have "rl_inv ?log now ?s"
      using r b by (auto simp: rl_inv_def bs base word_le_nat_alt word_less_nat_alt)
    with that [of "sum_list (rl_counts ?s)" ?s] False cases lt rep_total [OF r total]
    show ?thesis by (simp add: Let_def bs)
  qed
qed

text \<open>
  C32. The rate limiter measures a sliding window. Starting from counters that stand for the log
  of what was sent, an update at a later time (as long as less than \<open>2^32\<close> was logged and a
  limit is set) meets no failed assertion, no index out of range and no division by zero, keeps
  the counters standing for the log with the new entry, and judges a total \<open>W\<close> that
  contains all that was sent in the last 900 ms and nothing older than one second. The delay
  is zero while \<open>W\<close> is within the limit and otherwise, in 10 ms units, the share of a second
  by which it is exceeded.
\<close>

theorem ratelimit_window:
  assumes "rl_inv log prev self" and "prev \<le> now" and "limit \<noteq> 0"
    and "log_sum (log @ [(now, add_count)]) (\<lambda>_. True) < 2 ^ 32"
  shows "\<exists>d self' W. ratelimit_get_delay self add_count limit now = Some (d, self') \<and>
           rl_inv (log @ [(now, add_count)]) now self' \<and>
           log_sum (log @ [(now, add_count)]) (\<lambda>t. unat now < t + 900) \<le> unat W \<and>
           unat W \<le> log_sum (log @ [(now, add_count)]) (\<lambda>t. unat now < t + 1000) \<and>
           d = (if W \<le> limit then 0 else (W - limit) * 100 div limit * 10)"
proof -
  obtain W self' where c: "ratelimit_count self add_count now = Some (W, self')"
    and inv: "rl_inv (log @ [(now, add_count)]) now self'"
    and lt: "unat now < unat (rl_time_base self') + 1000"
    and W: "unat W = log_sum (log @ [(now, add_count)]) (\<lambda>t. unat (rl_time_base self') \<le> t)"
    by (rule ratelimit_count_inv [OF assms(1,2,4)])
  define d where "d = (if W \<le> limit then 0 else (W - limit) * 100 div limit * 10)"
  have "ratelimit_get_delay self add_count limit now = Some (d, self')"
    using c assms(3) by (auto simp: ratelimit_get_delay_def d_def Let_def not_le)
  with inv rl_inv_window [OF inv lt] W d_def show ?thesis by metis
qed

text \<open>A zeroed limiter, as \<open>ipx_send_packet\<close> starts it, stands for the empty log.\<close>

definition rl_init :: ratelimit where
  "rl_init = \<lparr>rl_time_base = 0, rl_counts = replicate RATELIMIT_COUNTS_SIZE 0\<rparr>"

lemma rl_inv_init: "rl_inv [] 0 rl_init"
  by (simp add: rl_inv_def rl_rep_def rl_init_def)

theorem ratelimit_window_witness:
  "\<exists>d self'. ratelimit_get_delay rl_init 1500 1000 400 = Some (d, self') \<and> d = 500 \<and>
     rl_inv [(400, 1500)] 400 self'"
proof -
  obtain d self' W where r: "ratelimit_get_delay rl_init 1500 1000 400 = Some (d, self')"
    and i: "rl_inv [(400, 1500)] 400 self'" and W: "unat W = 1500"
    and d: "d = (if W \<le> 1000 then 0 else (W - 1000) * 100 div 1000 * 10)"
    using ratelimit_window [OF rl_inv_init, of 400 1000 1500] by auto
  have "W = of_nat (unat W)" by simp
  then have "W = 1500" unfolding W by simp
  then have "d = 500" using d by simp
  with r i show ?thesis by blast
qed

text \<open>
  Whatever the counters hold and whatever the clock does (also when it has gone back or
  wrapped), a limiter with its ten counters and a limit other than zero always answers, keeps
  its ten counters and ends with a time base that is not in the future.
\<close>

theorem ratelimit_safe:
  assumes "length (rl_counts self) = RATELIMIT_COUNTS_SIZE" and "limit \<noteq> 0"
  shows "\<exists>d self'. ratelimit_get_delay self add_count limit now = Some (d, self') \<and>
           length (rl_counts self') = RATELIMIT_COUNTS_SIZE \<and> rl_time_base self' \<le> now"
proof (cases "now < rl_time_base self")
  case True
  with assms show ?thesis
    by (auto simp: ratelimit_get_delay_def ratelimit_count_def ratelimit_reset_def Let_def)
next
  case False
  let ?ms = "unat now - unat (rl_time_base self)"
  have le: "rl_time_base self \<le> now" using False by simp
  then have B: "unat (rl_time_base self) \<le> unat now" by (simp add: word_le_nat_alt)
  note cases = ratelimit_count_cases [OF assms(1) le, of add_count]
  show ?thesis
  proof (cases "1900 \<le> ?ms")
    case True
    with cases assms(2) show ?thesis
      by (auto simp: ratelimit_get_delay_def Let_def ratelimit_reset_def)
  next
    case small: False
    then have k: "rl_slots ?ms < 10" "100 * rl_slots ?ms \<le> ?ms" using rl_slots_bounds [of ?ms] by auto
    then have "unat (rl_time_base self) + 100 * rl_slots ?ms \<le> unat now" using B by arith
    note base = rl_shift_base [OF this] this
    have "rl_time_base (rl_shift (rl_slots ?ms) self) \<le> now"
      using base by (simp add: word_le_nat_alt)
    moreover have "length (rl_counts (rl_shift (rl_slots ?ms) self)) = RATELIMIT_COUNTS_SIZE"
      using assms(1) k by (simp add: rl_shift_def RATELIMIT_COUNTS_SIZE_def)
    ultimately show ?thesis using cases assms(2) small
      by (auto simp: ratelimit_get_delay_def Let_def rl_add_def)
  qed
qed

theorem ratelimit_safe_witness:
  "\<exists>d self'. ratelimit_get_delay (rl_init\<lparr>rl_time_base := 5000\<rparr>) 1 1 30 = Some (d, self') \<and>
     rl_time_base self' \<le> 30"
  using ratelimit_safe [of "rl_init\<lparr>rl_time_base := 5000\<rparr>" 1 1 30] by (auto simp: rl_init_def)

end
