(* ===== verification/HashTable.thy ===== *)
theory HashTable
  imports Prelude
begin

text \<open>
  The program keeps its tables in uthash structures. A uthash table is a list of entries in
  insertion order (the order \<open>HASH_ITER\<close> walks them) with a lookup by key: \<open>HASH_FIND\<close>
  returns the entry of a key or \<open>NULL\<close>, \<open>HASH_ADD\<close> appends an entry whose key is not in
  the table, \<open>HASH_DEL\<close> unlinks an entry, and the program updates an entry through the pointer
  \<open>HASH_FIND\<close> gave it. The locale states what a client of such a table relies on; the
  address cache, the coalescing table and the sockets table are its instances.
\<close>

type_synonym ('k, 'v) table = "('k \<times> 'v) list"

definition hash_find :: "('k, 'v) table \<Rightarrow> 'k \<Rightarrow> 'v option" where
  "hash_find t k = map_of t k"

definition hash_add :: "('k, 'v) table \<Rightarrow> 'k \<Rightarrow> 'v \<Rightarrow> ('k, 'v) table" where
  "hash_add t k v = t @ [(k, v)]"

definition hash_del :: "('k, 'v) table \<Rightarrow> 'k \<Rightarrow> ('k, 'v) table" where
  "hash_del t k = filter (\<lambda>e. fst e \<noteq> k) t"

definition hash_modify :: "('k, 'v) table \<Rightarrow> 'k \<Rightarrow> ('v \<Rightarrow> 'v) \<Rightarrow> ('k, 'v) table" where
  "hash_modify t k f = map (\<lambda>(k', v). (k', if k' = k then f v else v)) t"

locale keyed_table =
  fixes find :: "'t \<Rightarrow> 'k \<Rightarrow> 'v option"
    and add :: "'t \<Rightarrow> 'k \<Rightarrow> 'v \<Rightarrow> 't"
    and del :: "'t \<Rightarrow> 'k \<Rightarrow> 't"
    and modify :: "'t \<Rightarrow> 'k \<Rightarrow> ('v \<Rightarrow> 'v) \<Rightarrow> 't"
    and keys :: "'t \<Rightarrow> 'k list"
  assumes find_keys: "find t k = None \<longleftrightarrow> k \<notin> set (keys t)"
    and find_add: "find t k = None \<Longrightarrow> find (add t k v) = (find t)(k \<mapsto> v)"
    and find_del: "find (del t k) = (find t)(k := None)"
    and find_modify: "find (modify t k f) = (find t)(k := map_option f (find t k))"
    and keys_add: "keys (add t k v) = keys t @ [k]"
    and keys_del: "keys (del t k) = filter (\<lambda>k'. k' \<noteq> k) (keys t)"
    and keys_modify: "keys (modify t k f) = keys t"
begin

lemma distinct_add: "distinct (keys t) \<Longrightarrow> find t k = None \<Longrightarrow> distinct (keys (add t k v))"
  by (simp add: keys_add find_keys)

lemma distinct_del: "distinct (keys t) \<Longrightarrow> distinct (keys (del t k))"
  by (simp add: keys_del)

lemma distinct_modify: "distinct (keys t) \<Longrightarrow> distinct (keys (modify t k f))"
  by (simp add: keys_modify)

lemma find_upsert:
  "find (modify (if find t k = None then add t k v else t) k f) =
     (find t)(k \<mapsto> f (case find t k of None \<Rightarrow> v | Some w \<Rightarrow> w))"
  by (cases "find t k") (auto simp: find_modify find_add fun_eq_iff)

lemma distinct_upsert:
  "distinct (keys t) \<Longrightarrow>
     distinct (keys (modify (if find t k = None then add t k v else t) k f))"
  by (auto simp: keys_modify intro: distinct_add)

text \<open>
  Deleting every key of the table one after the other, as the clean-up loops do, empties it,
  whatever the table held.
\<close>

lemma keys_fold_del: "keys (fold (\<lambda>k t. del t k) ks t) = filter (\<lambda>k. k \<notin> set ks) (keys t)"
  by (induction ks arbitrary: t) (auto simp: keys_del intro: filter_cong)

lemma keys_del_all: "keys (fold (\<lambda>k t. del t k) (keys t) t) = []"
  by (simp add: keys_fold_del)

end

lemma map_of_hash_modify:
  "map_of (hash_modify t k f) = (map_of t)(k := map_option f (map_of t k))"
  by (induction t) (auto simp: hash_modify_def fun_eq_iff)

lemma map_of_hash_del: "map_of (hash_del t k) = (map_of t)(k := None)"
  by (induction t) (auto simp: hash_del_def fun_eq_iff)

lemma fst_hash_modify: "map fst (hash_modify t k f) = map fst t"
  by (auto simp: hash_modify_def)

lemma set_hash_modify:
  "e \<in> set (hash_modify t k f) \<Longrightarrow> \<exists>v. (fst e, v) \<in> set t \<and> (snd e = v \<or> snd e = f v)"
  by (auto simp: hash_modify_def split: if_splits)

interpretation uthash: keyed_table hash_find hash_add hash_del hash_modify "map fst"
proof unfold_locales
  fix t :: "('k \<times> 'v) list" and k :: 'k and v :: 'v and f :: "'v \<Rightarrow> 'v"
  show "hash_find t k = None \<longleftrightarrow> k \<notin> set (map fst t)"
    by (simp add: hash_find_def map_of_eq_None_iff)
  show "hash_find t k = None \<Longrightarrow> hash_find (hash_add t k v) = (hash_find t)(k \<mapsto> v)"
    by (rule ext) (auto simp: hash_find_def hash_add_def map_add_def split: option.splits)
  show "hash_find (hash_del t k) = (hash_find t)(k := None)"
    by (rule ext) (simp add: hash_find_def map_of_hash_del)
  show "hash_find (hash_modify t k f) = (hash_find t)(k := map_option f (hash_find t k))"
    by (rule ext) (simp add: hash_find_def map_of_hash_modify)
  show "map fst (hash_add t k v) = map fst t @ [k]"
    by (simp add: hash_add_def)
  show "map fst (hash_del t k) = filter (\<lambda>k'. k' \<noteq> k) (map fst t)"
    by (simp add: hash_del_def filter_map o_def)
  show "map fst (hash_modify t k f) = map fst t"
    by (rule fst_hash_modify)
qed

end
