(* ===== verification/AddrCache.thy ===== *)
theory AddrCache
  imports HashTable
begin

text \<open>
  The address cache of addrcache.c: for each IPX address (network, node, socket) the UDP
  address the last packet from it came from, trusted for 30 seconds. The mutex
  \<open>host_table_cs\<close> makes every operation atomic, so each is one function of the table;
  the clock (\<open>addrcache_time\<close>) and the outcome of \<open>malloc\<close> are arguments. A
  \<open>None\<close> result of \<open>addr_cache_set\<close> is a \<open>memcpy\<close> past the end of a buffer.
\<close>

type_synonym host_table_key = "u32 \<times> u64 \<times> u16"

definition ADDR_CACHE_TTL :: int where
  "ADDR_CACHE_TTL = 30"

definition SOCKADDR_STORAGE_SIZE :: nat where
  "SOCKADDR_STORAGE_SIZE = 128"

record host_table_entry =
  ht_time :: int
  ht_addr :: bytes
  ht_addrlen :: nat

type_synonym host_table = "(host_table_key, host_table_entry) table"

definition host_table_find :: "host_table \<Rightarrow> host_table_key \<Rightarrow> host_table_entry option" where
  "host_table_find t key = hash_find t key"

definition host_table_delete :: "host_table \<Rightarrow> host_table_key \<Rightarrow> host_table" where
  "host_table_delete t key = hash_del t key"

definition addr_cache_cleanup :: "host_table \<Rightarrow> host_table" where
  "addr_cache_cleanup t = fold (\<lambda>key t. host_table_delete t key) (map fst t) t"

definition addr_cache_get ::
  "int \<Rightarrow> host_table \<Rightarrow> u32 \<Rightarrow> u64 \<Rightarrow> u16 \<Rightarrow> (bytes \<times> nat) option" where
  "addr_cache_get now t net node sock =
     (case host_table_find t (net, node, sock) of
        None \<Rightarrow> None
      | Some host \<Rightarrow>
          if now < ht_time host + ADDR_CACHE_TTL
          then Some (take (ht_addrlen host) (ht_addr host), ht_addrlen host)
          else None)"

definition addr_cache_set ::
  "bool \<Rightarrow> int \<Rightarrow> bytes \<Rightarrow> nat \<Rightarrow> u32 \<Rightarrow> u64 \<Rightarrow> u16 \<Rightarrow> host_table \<Rightarrow> host_table option" where
  "addr_cache_set malloc_ok now addr addrlen net node sock t =
     (let key = (net, node, sock);
          zeroed = \<lparr>ht_time = 0, ht_addr = replicate SOCKADDR_STORAGE_SIZE 0, ht_addrlen = 0\<rparr>
      in if host_table_find t key = None \<and> \<not> malloc_ok then Some t
         else if addrlen > length addr \<or> addrlen > SOCKADDR_STORAGE_SIZE then None
         else
           Some (hash_modify
                   (if host_table_find t key = None then hash_add t key zeroed else t) key
                   (\<lambda>host. host\<lparr>ht_addr := take addrlen addr @ drop addrlen (ht_addr host),
                                 ht_addrlen := addrlen, ht_time := now\<rparr>)))"

subsection \<open>Contract\<close>

text \<open>
  What the cache promises: a map from IPX addresses to the time an address was learned and
  the bytes of that address.
\<close>

definition cache_abs :: "host_table \<Rightarrow> host_table_key \<Rightarrow> (int \<times> bytes) option" where
  "cache_abs t key =
     map_option (\<lambda>h. (ht_time h, take (ht_addrlen h) (ht_addr h))) (host_table_find t key)"

definition entry_wf :: "host_table_entry \<Rightarrow> bool" where
  "entry_wf h \<longleftrightarrow> length (ht_addr h) = SOCKADDR_STORAGE_SIZE \<and> ht_addrlen h \<le> SOCKADDR_STORAGE_SIZE"

definition cache_wf :: "host_table \<Rightarrow> bool" where
  "cache_wf t \<longleftrightarrow> distinct (map fst t) \<and> (\<forall>key h. host_table_find t key = Some h \<longrightarrow> entry_wf h)"

interpretation host_tab: keyed_table host_table_find hash_add host_table_delete hash_modify "map fst"
  using uthash.keyed_table_axioms
  by (simp add: host_table_find_def [abs_def] host_table_delete_def [abs_def])

lemma cache_wf_Nil: "cache_wf []"
  by (simp add: cache_wf_def host_table_find_def hash_find_def)

lemma addr_cache_set_Some:
  assumes "addrlen \<le> length addr" and "addrlen \<le> SOCKADDR_STORAGE_SIZE"
    and "malloc_ok \<or> host_table_find t (net, node, sock) \<noteq> None"
  obtains t' old where "addr_cache_set malloc_ok now addr addrlen net node sock t = Some t'"
    and "distinct (map fst t) \<longrightarrow> distinct (map fst t')"
    and "host_table_find t' = (host_table_find t)((net, node, sock) \<mapsto>
           old\<lparr>ht_addr := take addrlen addr @ drop addrlen (ht_addr old),
               ht_addrlen := addrlen, ht_time := now\<rparr>)"
    and "host_table_find t (net, node, sock) = Some old
           \<or> length (ht_addr old) = SOCKADDR_STORAGE_SIZE"
proof -
  let ?key = "(net, node, sock)"
  let ?zero = "\<lparr>ht_time = 0, ht_addr = replicate SOCKADDR_STORAGE_SIZE 0, ht_addrlen = 0\<rparr>"
  let ?f = "\<lambda>host. host\<lparr>ht_addr := take addrlen addr @ drop addrlen (ht_addr host),
                          ht_addrlen := addrlen, ht_time := now\<rparr>"
  let ?t' = "hash_modify (if host_table_find t ?key = None then hash_add t ?key ?zero else t) ?key ?f"
  let ?old = "case host_table_find t ?key of None \<Rightarrow> ?zero | Some h \<Rightarrow> h"
  show ?thesis
  proof (rule that)
    show "addr_cache_set malloc_ok now addr addrlen net node sock t = Some ?t'"
      using assms by (auto simp: addr_cache_set_def Let_def)
    show "distinct (map fst t) \<longrightarrow> distinct (map fst ?t')"
      by (blast intro: host_tab.distinct_upsert)
    show "host_table_find ?t' = (host_table_find t)(?key \<mapsto> ?f ?old)"
      by (rule host_tab.find_upsert)
    show "host_table_find t ?key = Some ?old \<or> length (ht_addr ?old) = SOCKADDR_STORAGE_SIZE"
      by (auto split: option.splits)
  qed
qed

text \<open>
  C11. The address cache implements a map with expiry. Storing an address (of at most the size
  of a \<open>SOCKADDR_STORAGE\<close>, when memory can be had) overrides exactly the entry of its IPX
  address with the present time and the first \<open>addrlen\<close> bytes, keeps the table well formed
  and never writes out of bounds; a lookup returns precisely the stored bytes and length until
  30 seconds after they were stored, and nothing afterwards or for other addresses.
\<close>

theorem addr_cache_refines:
  assumes wf: "cache_wf t" and len: "addrlen \<le> length addr" "addrlen \<le> SOCKADDR_STORAGE_SIZE"
    and mem: "malloc_ok \<or> host_table_find t (net, node, sock) \<noteq> None"
  shows "\<exists>t'. addr_cache_set malloc_ok now addr addrlen net node sock t = Some t' \<and>
           cache_wf t' \<and>
           cache_abs t' = (cache_abs t)((net, node, sock) \<mapsto> (now, take addrlen addr)) \<and>
           (\<forall>now' net' node' sock'. addr_cache_get now' t' net' node' sock' =
              (case cache_abs t' (net', node', sock') of
                 None \<Rightarrow> None
               | Some (stored, a) \<Rightarrow> if now' < stored + 30 then Some (a, length a) else None))"
proof -
  obtain t' old where t': "addr_cache_set malloc_ok now addr addrlen net node sock t = Some t'"
    and dist: "distinct (map fst t) \<longrightarrow> distinct (map fst t')"
    and find: "host_table_find t' = (host_table_find t)((net, node, sock) \<mapsto>
           old\<lparr>ht_addr := take addrlen addr @ drop addrlen (ht_addr old),
               ht_addrlen := addrlen, ht_time := now\<rparr>)"
    and old: "host_table_find t (net, node, sock) = Some old
           \<or> length (ht_addr old) = SOCKADDR_STORAGE_SIZE"
    by (rule addr_cache_set_Some [OF len mem, where now = now])
  have "length (ht_addr old) = SOCKADDR_STORAGE_SIZE"
    using old wf by (auto simp: cache_wf_def entry_wf_def)
  with wf len dist have wf': "cache_wf t'"
    by (auto simp: cache_wf_def find entry_wf_def)
  have abs: "cache_abs t' = (cache_abs t)((net, node, sock) \<mapsto> (now, take addrlen addr))"
    using len by (auto simp: cache_abs_def find fun_eq_iff)
  have "addr_cache_get now' t' net' node' sock' =
          (case cache_abs t' (net', node', sock') of None \<Rightarrow> None
           | Some (stored, a) \<Rightarrow> if now' < stored + 30 then Some (a, length a) else None)"
    for now' net' node' sock'
    using wf' by (auto simp: addr_cache_get_def cache_abs_def cache_wf_def entry_wf_def
        ADDR_CACHE_TTL_def split: option.splits)
  with t' wf' abs show ?thesis by blast
qed

theorem addr_cache_refines_witness:
  "\<exists>t'. addr_cache_set True 100 [2, 0, 7, 7] 4 1 2 3 [] = Some t' \<and>
        addr_cache_get 129 t' 1 2 3 = Some ([2, 0, 7, 7], 4) \<and> addr_cache_get 130 t' 1 2 3 = None"
  using addr_cache_refines [OF cache_wf_Nil, of 4 "[2, 0, 7, 7]" True 1 2 3 100]
  by (auto simp: SOCKADDR_STORAGE_SIZE_def)

text \<open>When the entry cannot be allocated the table is left as it was.\<close>

lemma addr_cache_set_no_memory:
  "host_table_find t (net, node, sock) = None \<Longrightarrow>
     addr_cache_set False now addr addrlen net node sock t = Some t"
  by (simp add: addr_cache_set_def Let_def)

text \<open>The clean-up loop removes every entry.\<close>

lemma addr_cache_cleanup_empty: "addr_cache_cleanup t = []"
  using host_tab.keys_del_all [of t] by (simp add: addr_cache_cleanup_def)

end
