(* ===== verification/Addr.thy ===== *)
theory Addr
  imports Prelude
begin

text \<open>
  IPX addresses (addr.c): the in-memory form of network and node numbers, their text form
  and the generation of node numbers. \<open>addr32_t\<close> and \<open>addr48_t\<close> are a 32-bit and a
  64-bit integer whose bytes in memory are the address as it is on the wire; an
  \<open>addr48_t\<close> leaves the first two bytes of its integer unused. Text is a list of
  characters without the terminating NUL.
\<close>

subsection \<open>Binary form\<close>

definition addr32_in :: "bytes \<Rightarrow> u32" where
  "addr32_in src = le_word (take 4 src)"

definition addr32_out :: "u32 \<Rightarrow> bytes" where
  "addr32_out src = le_bytes 4 src"

definition addr48_in :: "bytes \<Rightarrow> u64" where
  "addr48_in src = le_word ([0, 0] @ take 6 src)"

definition addr48_out :: "u64 \<Rightarrow> bytes" where
  "addr48_out src = drop 2 (le_bytes 8 src)"

lemma length_addr32_out [simp]: "length (addr32_out a) = 4"
  by (simp add: addr32_out_def)

lemma length_addr48_out [simp]: "length (addr48_out a) = 6"
  by (simp add: addr48_out_def)

lemma addr32_in_out [simp]: "addr32_in (addr32_out a) = a"
  by (simp add: addr32_in_def addr32_out_def le_word_le_bytes take_bit_word_eq_self)

lemma addr32_out_in: "length bs = 4 \<Longrightarrow> addr32_out (addr32_in bs) = bs"
  using le_bytes_le_word [of bs, where 'a = 32] by (simp add: addr32_in_def addr32_out_def)

lemma addr48_out_in: "length bs = 6 \<Longrightarrow> addr48_out (addr48_in bs) = bs"
  using le_bytes_le_word [of "[0, 0] @ bs", where 'a = 64]
  by (simp add: addr48_in_def addr48_out_def del: le_word.simps)

text \<open>The low 16 bits of an \<open>addr48_t\<close> are not part of the address.\<close>

lemma addr48_in_out: "addr48_in (addr48_out a) = a AND NOT 0xFFFF"
proof (rule bit_word_eqI)
  fix k assume k: "k < LENGTH(64)"
  have mask: "bit (0xFFFF :: u64) k \<longleftrightarrow> k < 16"
  proof -
    have "(0xFFFF :: u64) = mask 16" by (simp add: mask_numeral)
    then show ?thesis using k by (simp only: bit_mask_iff) simp
  qed
  have rhs: "bit (a AND NOT 0xFFFF) k \<longleftrightarrow> bit a k \<and> \<not> k < 16"
    using k by (simp only: bit_and_iff bit_not_iff_eq mask) (simp add: possible_bit_def)
  have "bit (addr48_in (addr48_out a)) k \<longleftrightarrow> bit a k \<and> \<not> k < 16"
  proof (cases "k < 16")
    case True
    then have "k div 8 = 0 \<or> k div 8 = 1" by auto
    with True k show ?thesis
      by (auto simp: addr48_in_def addr48_out_def bit_le_word simp del: le_word.simps)
  next
    case False
    then have ge: "\<not> k div 8 < 2" and eq: "2 + (k div 8 - 2) = k div 8" by auto
    have lt: "k div 8 < 8" using k by auto
    have "([0, 0] @ take 6 (addr48_out a)) ! (k div 8) = addr48_out a ! (k div 8 - 2)"
      using ge by (simp add: nth_append numeral_2_eq_2 del: append.simps)
    also have "\<dots> = le_bytes 8 a ! (k div 8)"
      using eq ge lt by (simp add: addr48_out_def)
    finally have "([0, 0] @ take 6 (addr48_out a)) ! (k div 8) = le_bytes 8 a ! (k div 8)" .
    with False k lt show ?thesis
      by (simp add: addr48_in_def bit_le_word bit_simps nth_le_bytes
          del: le_word.simps append.simps)
  qed
  with rhs show "bit (addr48_in (addr48_out a)) k = bit (a AND NOT 0xFFFF) k" by simp
qed

lemma addr48_in_out_in [simp]: "length bs = 6 \<Longrightarrow> addr48_out (addr48_in bs) = bs"
  by (rule addr48_out_in)

lemma addr32_in_inj: "length xs = 4 \<Longrightarrow> length ys = 4 \<Longrightarrow> addr32_in xs = addr32_in ys \<longleftrightarrow> xs = ys"
  by (metis addr32_out_in)

lemma addr48_in_inj: "length xs = 6 \<Longrightarrow> length ys = 6 \<Longrightarrow> addr48_in xs = addr48_in ys \<longleftrightarrow> xs = ys"
  by (metis addr48_out_in)

text \<open>The addresses an \<open>addr48_t\<close> can hold after \<open>addr48_in\<close>.\<close>

definition addr48_ok :: "u64 \<Rightarrow> bool" where
  "addr48_ok a \<longleftrightarrow> a AND NOT 0xFFFF = a"

lemma addr48_in_out_ok [simp]: "addr48_ok a \<Longrightarrow> addr48_in (addr48_out a) = a"
  by (simp add: addr48_in_out addr48_ok_def)

lemma addr48_ok_in [simp]: "length bs = 6 \<Longrightarrow> addr48_ok (addr48_in bs)"
  using addr48_in_out [of "addr48_in bs"] by (simp add: addr48_ok_def addr48_out_in)

text \<open>The broadcast and wildcard addresses of router.h and interface2.h.\<close>

definition BCAST_NET :: u32 where
  "BCAST_NET = addr32_in [0xFF, 0xFF, 0xFF, 0xFF]"

definition BCAST_NODE :: u64 where
  "BCAST_NODE = addr48_in [0xFF, 0xFF, 0xFF, 0xFF, 0xFF, 0xFF]"

definition ZERO_NET :: u32 where
  "ZERO_NET = addr32_in [0, 0, 0, 0]"

definition WILDCARD_IFACE_HWADDR :: u64 where
  "WILDCARD_IFACE_HWADDR = addr48_in [0, 0, 0, 0, 0, 0]"

subsection \<open>Parsing\<close>

text \<open>\<open>src[i]\<close> of a C string: the terminating NUL follows the last character.\<close>

definition char_at :: "string \<Rightarrow> nat \<Rightarrow> char" where
  "char_at s i = (if i < length s then s ! i else CHR 0x00)"

definition isxdigit :: "char \<Rightarrow> bool" where
  "isxdigit c \<longleftrightarrow> c \<in> set ''0123456789ABCDEFabcdef''"

definition hexval :: "char \<Rightarrow> nat" where
  "hexval c =
     (let n = of_char c in
      if n \<le> of_char CHR ''9'' then n - of_char CHR ''0''
      else if n \<le> of_char CHR ''F'' then n - of_char CHR ''A'' + 10
      else n - of_char CHR ''a'' + 10)"

text \<open>
  \<open>strtoul(src, NULL, 16)\<close> on a string that starts with a hexadecimal digit and does not
  start with \<open>0x\<close>, which is how the parser below calls it.
\<close>

definition strtoul16 :: "string \<Rightarrow> nat" where
  "strtoul16 s = foldl (\<lambda>a c. 16 * a + hexval c) 0 (takeWhile isxdigit s)"

text \<open>
  \<open>_addr_from_string\<close>: \<open>dest\<close> is the buffer the components are stored in; the components
  before a parse error have been stored when the function fails. The two steps of
  \<open>src\<close> are \<open>strcspn\<close> to the next colon and \<open>strspn\<close> over the colons there.
\<close>

function addr_from_string_loop :: "nat \<Rightarrow> nat \<Rightarrow> bytes \<Rightarrow> string \<Rightarrow> bool \<times> bytes" where
  "addr_from_string_loop sz i dest src =
     (if i < sz then
        let term = (if i + 1 = sz then CHR 0x00 else CHR '':'')
        in if isxdigit (char_at src 0) \<and>
              (char_at src 1 = term \<or> (isxdigit (char_at src 1) \<and> char_at src 2 = term))
           then addr_from_string_loop sz (Suc i) (dest[i := of_nat (strtoul16 src)])
                  (dropWhile (\<lambda>c. c = CHR '':'') (dropWhile (\<lambda>c. c \<noteq> CHR '':'') src))
           else (False, dest)
      else (True, dest))"
  by pat_completeness auto
termination
  by (relation "measure (\<lambda>(sz, i, dest, src). sz - i)") auto

declare addr_from_string_loop.simps [simp del]

definition addr_from_string :: "bytes \<Rightarrow> string \<Rightarrow> nat \<Rightarrow> bool \<times> bytes" where
  "addr_from_string dest src sz = addr_from_string_loop sz 0 dest src"

text \<open>The caller's variable is an argument: what it held before the call and after it.\<close>

definition addr32_from_string :: "u32 \<Rightarrow> string \<Rightarrow> bool \<times> u32" where
  "addr32_from_string dest src =
     (case addr_from_string (le_bytes 4 dest) src 4 of (ok, bs) \<Rightarrow> (ok, le_word bs))"

definition addr48_from_string :: "u64 \<Rightarrow> string \<Rightarrow> bool \<times> u64" where
  "addr48_from_string dest src =
     (case addr_from_string (drop 2 (le_bytes 8 dest)) src 6 of
        (ok, bs) \<Rightarrow> (ok, le_word (take 2 (le_bytes 8 dest) @ bs)))"

subsection \<open>Formatting\<close>

definition hex_digit :: "nat \<Rightarrow> char" where
  "hex_digit n = ''0123456789ABCDEF'' ! n"

text \<open>\<open>%02X\<close> and the colon-separated formats.\<close>

definition hex2 :: "u8 \<Rightarrow> string" where
  "hex2 b = [hex_digit (unat b div 16), hex_digit (unat b mod 16)]"

fun hex_colons :: "bytes \<Rightarrow> string" where
  "hex_colons [] = []"
| "hex_colons [b] = hex2 b"
| "hex_colons (b # bs) = hex2 b @ '':'' @ hex_colons bs"

definition addr32_string :: "u32 \<Rightarrow> string" where
  "addr32_string addr = hex_colons (addr32_out addr)"

definition addr48_string :: "u64 \<Rightarrow> string" where
  "addr48_string addr = hex_colons (addr48_out addr)"

text \<open>\<open>%hu\<close>.\<close>

fun dec_string :: "nat \<Rightarrow> string" where
  "dec_string n =
     (if n < 10 then [''0123456789'' ! n] else dec_string (n div 10) @ [''0123456789'' ! (n mod 10)])"

declare dec_string.simps [simp del]

definition IPX_SADDR_SIZE :: nat where
  "IPX_SADDR_SIZE = 36"

text \<open>
  \<open>ipx_to_string\<close> builds the text in the caller's buffer: each \<open>sprintf\<close> writes a
  string and its NUL, and the separators then replace the NULs. \<open>None\<close> is a write past
  the end of the buffer.
\<close>

definition put_string :: "string \<Rightarrow> nat \<Rightarrow> string \<Rightarrow> string option" where
  "put_string buf off s = mem_write buf off (s @ [CHR 0x00])"

definition ipx_to_string :: "string \<Rightarrow> u32 \<Rightarrow> u64 \<Rightarrow> u16 \<Rightarrow> string option" where
  "ipx_to_string buf net node sock =
     Option.bind (put_string buf 0 (addr32_string net)) (\<lambda>buf.
     Option.bind (mem_write buf 11 ''/'') (\<lambda>buf.
     Option.bind (put_string buf 12 (addr48_string node)) (\<lambda>buf.
     Option.bind (mem_write buf 29 ''/'') (\<lambda>buf.
     put_string buf 30 (dec_string (unat (ntohs sock)))))))"

subsection \<open>Random node numbers\<close>

text \<open>
  \<open>gen_random_mac\<close> over an arbitrary C library generator: \<open>srand\<close> gives the
  generator's state for a seed, \<open>rand\<close> the next number and state, \<open>ticks\<close> the time
  the generator is seeded with on the first call.
\<close>

record 'g rng =
  rng_seeded :: bool
  rng_state :: 'g

fun rand_bytes :: "('g \<Rightarrow> nat \<times> 'g) \<Rightarrow> nat \<Rightarrow> 'g \<Rightarrow> bytes \<times> 'g" where
  "rand_bytes rand 0 g = ([], g)"
| "rand_bytes rand (Suc n) g =
     (case rand g of (r, g1) \<Rightarrow>
      case rand_bytes rand n g1 of (bs, g2) \<Rightarrow> (of_nat (r mod 0xFF) # bs, g2))"

definition gen_random_mac ::
  "(u32 \<Rightarrow> 'g) \<Rightarrow> ('g \<Rightarrow> nat \<times> 'g) \<Rightarrow> u32 \<Rightarrow> 'g rng \<Rightarrow> u64 \<times> 'g rng" where
  "gen_random_mac srand rand ticks s =
     (let g = (if rng_seeded s then rng_state s else srand ticks)
      in case rand_bytes rand 6 g of (addr, g') \<Rightarrow>
           (addr48_in (addr[0 := addr ! 0 OR 0x02]), \<lparr>rng_seeded = True, rng_state = g'\<rparr>))"

subsection \<open>Properties\<close>

lemma hex_digit_cases:
  assumes "n < 16"
  shows "isxdigit (hex_digit n) \<and> hexval (hex_digit n) = n \<and> hex_digit n \<noteq> CHR '':'' \<and>
         hex_digit n \<noteq> CHR 0x00"
proof -
  have "\<forall>n \<in> set [0..<16]. isxdigit (hex_digit n) \<and> hexval (hex_digit n) = n \<and>
          hex_digit n \<noteq> CHR '':'' \<and> hex_digit n \<noteq> CHR 0x00"
    by code_simp
  with assms show ?thesis by simp
qed

lemma isxdigit_simps [simp]: "\<not> isxdigit (CHR '':'')" "\<not> isxdigit (CHR 0x00)"
  by (simp_all add: isxdigit_def)

lemma hex2_props:
  obtains c d where "hex2 b = [c, d]" "isxdigit c" "isxdigit d" "c \<noteq> CHR '':''" "d \<noteq> CHR '':''"
    "16 * hexval c + hexval d = unat b"
proof -
  have "unat b < 2 ^ 8" using unsigned_less [of b, where 'a = nat] by simp
  then have "unat b div 16 < 16" "unat b mod 16 < 16" by auto
  note hd = hex_digit_cases [OF this(1)] hex_digit_cases [OF this(2)]
  show ?thesis
    by (rule that [of "hex_digit (unat b div 16)" "hex_digit (unat b mod 16)"])
      (use hd in \<open>simp_all add: hex2_def\<close>)
qed

lemma strtoul16_hex2:
  assumes "rest = [] \<or> (\<exists>r. rest = CHR '':'' # r)"
  shows "strtoul16 (hex2 b @ rest) = unat b"
proof -
  obtain c d where "hex2 b = [c, d]" "isxdigit c" "isxdigit d" "16 * hexval c + hexval d = unat b"
    by (rule hex2_props)
  with assms show ?thesis by (auto simp: strtoul16_def)
qed

lemma hex_colons_Cons:
  "hex_colons (b # bs) = hex2 b @ (if bs = [] then [] else CHR '':'' # hex_colons bs)"
  by (cases bs) simp_all

lemma hex_colons_skip:
  "bs \<noteq> [] \<Longrightarrow> dropWhile (\<lambda>c. c = CHR '':'') (CHR '':'' # hex_colons bs) = hex_colons bs"
  by (cases bs; rule hex2_props [of "hd bs"]) (auto simp: hex_colons_Cons)

lemma addr_from_string_hex_colons:
  "length dest = i + length bs \<Longrightarrow>
     addr_from_string_loop (i + length bs) i dest (hex_colons bs) = (True, take i dest @ bs)"
proof (induction bs arbitrary: i dest)
  case Nil
  then show ?case by (simp add: addr_from_string_loop.simps)
next
  case (Cons b bs)
  obtain c d where hx: "hex2 b = [c, d]" "isxdigit c" "isxdigit d" "c \<noteq> CHR '':''" "d \<noteq> CHR '':''"
    by (rule hex2_props)
  have val: "strtoul16 (hex_colons (b # bs)) = unat b"
    by (simp add: hex_colons_Cons strtoul16_hex2)
  have IH: "addr_from_string_loop (i + length (b # bs)) (Suc i) (dest[i := b]) (hex_colons bs) =
              (True, take i dest @ b # bs)"
    using Cons.IH [of "dest[i := b]" "Suc i"] Cons.prems by (simp add: take_Suc_conv_app_nth)
  show ?case
  proof (cases "bs = []")
    case True
    with IH val hx show ?thesis
      by (subst addr_from_string_loop.simps) (simp add: char_at_def hex_colons_Cons)
  next
    case False
    with IH val hx hex_colons_skip [OF False] show ?thesis
      by (subst addr_from_string_loop.simps) (simp add: char_at_def hex_colons_Cons)
  qed
qed

text \<open>
  Formatting a network number and parsing the text gives the number back, whatever the
  destination variable held before.
\<close>

theorem addr32_string_roundtrip: "addr32_from_string dest (addr32_string a) = (True, a)"
  using addr_from_string_hex_colons [of "le_bytes 4 dest" 0 "addr32_out a"]
  by (simp add: addr32_from_string_def addr_from_string_def addr32_string_def addr32_out_def
      le_word_le_bytes take_bit_word_eq_self)

text \<open>
  Formatting a node number and parsing the text gives the six bytes of the number back,
  but the two unused low bytes of the destination integer keep what they held before: a parse
  into an uninitialised \<open>addr48_t\<close> yields a value that differs from \<open>addr48_in\<close> of the
  same bytes unless those two bytes happened to be zero.
\<close>

theorem addr48_string_roundtrip:
  "addr48_from_string dest (addr48_string a) = (True, (dest AND 0xFFFF) OR (a AND NOT 0xFFFF))"
proof -
  have "le_word (take 2 (le_bytes 8 dest) @ addr48_out a) =
          take_bit 16 dest OR le_word ([0, 0] @ addr48_out a)"
    unfolding le_word_append by (simp add: take_le_bytes le_word_le_bytes)
  also have "le_word ([0, 0] @ addr48_out a) = a AND NOT 0xFFFF"
    using addr48_in_out [of a] by (simp add: addr48_in_def del: le_word.simps append.simps)
  also have "take_bit 16 dest = dest AND 0xFFFF"
    by (simp add: take_bit_eq_mask mask_numeral)
  finally show ?thesis
    using addr_from_string_hex_colons [of "drop 2 (le_bytes 8 dest)" 0 "addr48_out a"]
    by (simp add: addr48_from_string_def addr_from_string_def addr48_string_def)
qed

text \<open>Between two components any number of colons is accepted, not only one.\<close>

lemma addr_from_string_extra_colons:
  "addr32_from_string 0 ''1::2:::3:4'' = (True, addr32_in [1, 2, 3, 4])"
  by code_simp

lemma dec_string_bounds:
  "n < 10 ^ k \<Longrightarrow> 0 < k \<Longrightarrow> length (dec_string n) \<le> k \<and> dec_string n \<noteq> []"
proof (induction k arbitrary: n)
  case (Suc k)
  show ?case
  proof (cases "n < 10")
    case True
    then show ?thesis by (simp add: dec_string.simps)
  next
    case False
    with Suc.prems have "n div 10 < 10 ^ k" "0 < k" by (auto intro: gr0I)
    from Suc.IH [OF this] False show ?thesis
      by (subst (1 2) dec_string.simps) simp
  qed
qed simp

lemma length_hex2 [simp]: "length (hex2 b) = 2"
  by (simp add: hex2_def)

lemma length_hex_colons: "bs \<noteq> [] \<Longrightarrow> Suc (length (hex_colons bs)) = 3 * length bs"
  by (induction bs rule: hex_colons.induct) simp_all

lemma length_addr32_string [simp]: "length (addr32_string a) = 11"
  using length_hex_colons [of "addr32_out a"] length_addr32_out [of a]
  by (fastforce simp: addr32_string_def simp del: length_addr32_out)

lemma length_addr48_string [simp]: "length (addr48_string a) = 17"
  using length_hex_colons [of "addr48_out a"] length_addr48_out [of a]
  by (fastforce simp: addr48_string_def simp del: length_addr48_out)

text \<open>
  Formatting an address with \<open>ipx_to_string\<close> into a buffer of \<open>IPX_SADDR_SIZE\<close> bytes
  never writes past its end, for any address and socket number, and leaves the NUL-terminated
  text \<open>network/node/socket\<close> in it.
\<close>

theorem ipx_to_string_fits:
  assumes "length buf = IPX_SADDR_SIZE"
  shows "\<exists>rest. ipx_to_string buf net node sock =
    Some (addr32_string net @ ''/'' @ addr48_string node @ ''/'' @
          dec_string (unat (ntohs sock)) @ [CHR 0x00] @ rest)"
proof -
  have "unat (ntohs sock) < 10 ^ 5"
    using unsigned_less [of "ntohs sock", where 'a = nat] by simp
  from dec_string_bounds [OF this] have "length (dec_string (unat (ntohs sock))) \<le> 5" by simp
  with assms show ?thesis
    by (simp add: ipx_to_string_def put_string_def mem_write_def IPX_SADDR_SIZE_def)
qed

theorem ipx_to_string_fits_witness:
  "\<exists>rest. ipx_to_string (replicate 36 CHR 0x00) 0 0 0xFFFF =
    Some (addr32_string 0 @ ''/'' @ addr48_string 0 @ ''/'' @
          dec_string (unat (ntohs 0xFFFF)) @ [CHR 0x00] @ rest)"
  by (rule ipx_to_string_fits) (simp add: IPX_SADDR_SIZE_def)

lemma rand_bytes_length: "length (fst (rand_bytes rand n g)) = n"
  by (induction n arbitrary: g) (simp_all add: split_beta)

text \<open>
  A generated node number is a proper \<open>addr48_t\<close> and always has the locally-administered
  bit of its first byte set, whatever the generator returns; its group (multicast) bit is
  whatever the generator gives, so a multicast address can be generated.
\<close>

theorem gen_random_mac_local:
  "addr48_ok (fst (gen_random_mac srand rand ticks s)) \<and>
   bit (addr48_out (fst (gen_random_mac srand rand ticks s)) ! 0) 1 \<and>
   (\<exists>rnd :: nat \<Rightarrow> nat \<times> nat.
      bit (addr48_out (fst (gen_random_mac (\<lambda>_. 0) rnd ticks \<lparr>rng_seeded = False, rng_state = 0\<rparr>)) ! 0) 0)"
proof -
  let ?bs = "fst (rand_bytes rand 6 (if rng_seeded s then rng_state s else srand ticks))"
  have mac: "fst (gen_random_mac srand rand ticks s) = addr48_in (?bs[0 := ?bs ! 0 OR 2])"
    by (simp add: gen_random_mac_def Let_def split: prod.splits)
  have len: "length (?bs[0 := ?bs ! 0 OR 2]) = 6" by (simp add: rand_bytes_length)
  have local: "bit (addr48_out (fst (gen_random_mac srand rand ticks s)) ! 0) 1"
    unfolding mac addr48_out_in [OF len] by (simp add: rand_bytes_length bit_simps)
  have ok: "addr48_ok (fst (gen_random_mac srand rand ticks s))"
    unfolding mac using len by (rule addr48_ok_in)
  have "bit (addr48_out (fst (gen_random_mac (\<lambda>_. 0) (\<lambda>g. (1, g)) ticks
      \<lparr>rng_seeded = False, rng_state = 0 :: nat\<rparr>)) ! 0) 0"
  proof -
    have "rand_bytes (\<lambda>g. (1, g)) 6 (0 :: nat) = ([1, 1, 1, 1, 1, 1], 0)" by code_simp
    then show ?thesis by (simp add: gen_random_mac_def addr48_out_in)
  qed
  with local ok show ?thesis by (intro conjI exI)
qed

end
