(* ===== verification/Registry.thy ===== *)
theory Registry
  imports Addr
begin

text \<open>
  Reading and writing the registry: the \<open>reg_*\<close> functions of common.c. The registry itself is
  the operating system's: its calls are a parameter, the record \<open>reg_api\<close>, over an
  unspecified state. \<open>reg_laws\<close> says what Windows documents of them, in terms of the key each
  open handle stands for and the values of each key; only theorems assume it.
\<close>

type_synonym hkey = nat

definition ERROR_SUCCESS :: u32 where "ERROR_SUCCESS = 0"
definition ERROR_FILE_NOT_FOUND :: u32 where "ERROR_FILE_NOT_FOUND = 2"
definition ERROR_MORE_DATA :: u32 where "ERROR_MORE_DATA = 234"
definition ERROR_NO_MORE_ITEMS :: u32 where "ERROR_NO_MORE_ITEMS = 259"
definition REG_SZ :: u32 where "REG_SZ = 1"
definition REG_BINARY :: u32 where "REG_BINARY = 3"
definition REG_DWORD :: u32 where "REG_DWORD = 4"
definition HKEY_CURRENT_USER :: hkey where "HKEY_CURRENT_USER = 0x80000001"

lemmas reg_codes = ERROR_SUCCESS_def ERROR_FILE_NOT_FOUND_def ERROR_MORE_DATA_def
  ERROR_NO_MORE_ITEMS_def REG_SZ_def REG_BINARY_def REG_DWORD_def

text \<open>
  The calls: errors, handles, types and data they return. A query returns all of the value's
  data; the wrapper below cuts it to the caller's buffer.
\<close>

record 'w reg_api =
  RegCreateKeyEx :: "hkey \<Rightarrow> string \<Rightarrow> 'w \<Rightarrow> (u32 \<times> hkey) \<times> 'w"
  RegOpenKeyEx :: "hkey \<Rightarrow> string \<Rightarrow> 'w \<Rightarrow> (u32 \<times> hkey) \<times> 'w"
  RegCloseKey :: "hkey \<Rightarrow> 'w \<Rightarrow> 'w"
  RegQueryValueEx :: "hkey \<Rightarrow> string \<Rightarrow> 'w \<Rightarrow> u32 \<times> u32 \<times> bytes"
  RegSetValueEx :: "hkey \<Rightarrow> string \<Rightarrow> u32 \<Rightarrow> bytes \<Rightarrow> 'w \<Rightarrow> u32 \<times> 'w"
  RegEnumValue :: "hkey \<Rightarrow> nat \<Rightarrow> 'w \<Rightarrow> u32 \<times> string \<times> bytes"

definition reg_open_subkey :: "'w reg_api \<Rightarrow> hkey \<Rightarrow> string \<Rightarrow> bool \<Rightarrow> 'w \<Rightarrow> hkey \<times> 'w" where
  "reg_open_subkey api parent path readwrite w =
     (if parent = 0 then (0, w)
      else
        let ((err, key), w') =
              (if readwrite then RegCreateKeyEx api parent path w else RegOpenKeyEx api parent path w)
        in if err \<noteq> ERROR_SUCCESS then (0, w') else (key, w'))"

definition IPXWRAPPER_KEY :: string where
  "IPXWRAPPER_KEY = ''Software'' @ [CHR 0x5C] @ ''IPXWrapper''"

definition reg_open_main :: "'w reg_api \<Rightarrow> bool \<Rightarrow> 'w \<Rightarrow> hkey \<times> 'w" where
  "reg_open_main api readwrite w =
     reg_open_subkey api HKEY_CURRENT_USER IPXWRAPPER_KEY readwrite w"

definition reg_close :: "'w reg_api \<Rightarrow> hkey \<Rightarrow> 'w \<Rightarrow> 'w" where
  "reg_close api key w = (if key \<noteq> 0 then RegCloseKey api key w else w)"

definition reg_check_value :: "'w reg_api \<Rightarrow> hkey \<Rightarrow> string \<Rightarrow> 'w \<Rightarrow> bool" where
  "reg_check_value api key name w \<longleftrightarrow>
     key \<noteq> 0 \<and> fst (RegQueryValueEx api key name w) = ERROR_SUCCESS"

text \<open>A query into a buffer of a given size: too large a value is \<open>ERROR_MORE_DATA\<close>.\<close>

definition reg_query_buf :: "'w reg_api \<Rightarrow> hkey \<Rightarrow> string \<Rightarrow> nat \<Rightarrow> 'w \<Rightarrow> u32 \<times> u32 \<times> bytes" where
  "reg_query_buf api key name n w =
     (case RegQueryValueEx api key name w of (err, ty, data) \<Rightarrow>
        if err = ERROR_SUCCESS \<and> length data > n then (ERROR_MORE_DATA, ty, data)
        else (err, ty, data))"

text \<open>
  The result is what the function returns and the buffer afterwards, given the buffer before. A
  value shorter than the buffer has been copied into it when its size turns out wrong; what a
  failed query leaves there is not specified by Windows and is taken to be the old content.
\<close>

definition reg_get_bin ::
  "'w reg_api \<Rightarrow> hkey \<Rightarrow> string \<Rightarrow> bytes \<Rightarrow> bytes option \<Rightarrow> 'w \<Rightarrow> bool \<times> bytes" where
  "reg_get_bin api key name buf default_value w =
     (let sz = length buf;
          (err, ty, data) = reg_query_buf api key name sz w;
          read = key \<noteq> 0 \<and> err = ERROR_SUCCESS;
          buf' = (if read then data @ drop (length data) buf else buf)
      in if read \<and> length data = sz then (True, buf')
         else (False, case default_value of None \<Rightarrow> buf' | Some d \<Rightarrow> take sz d))"

definition reg_set_value ::
  "'w reg_api \<Rightarrow> u32 \<Rightarrow> hkey \<Rightarrow> string \<Rightarrow> bytes \<Rightarrow> 'w \<Rightarrow> bool \<times> 'w" where
  "reg_set_value api ty key name data w =
     (if key \<noteq> 0 then
        let (err, w') = RegSetValueEx api key name ty data w in (err = ERROR_SUCCESS, w')
      else (False, w))"

definition reg_set_bin :: "'w reg_api \<Rightarrow> hkey \<Rightarrow> string \<Rightarrow> bytes \<Rightarrow> 'w \<Rightarrow> bool \<times> 'w" where
  "reg_set_bin api key name buf w = reg_set_value api REG_BINARY key name buf w"

definition reg_get_dword :: "'w reg_api \<Rightarrow> hkey \<Rightarrow> string \<Rightarrow> u32 \<Rightarrow> 'w \<Rightarrow> u32" where
  "reg_get_dword api key name default_value w =
     le_word (snd (reg_get_bin api key name (replicate 4 0) (Some (le_bytes 4 default_value)) w))"

definition reg_set_dword :: "'w reg_api \<Rightarrow> hkey \<Rightarrow> string \<Rightarrow> u32 \<Rightarrow> 'w \<Rightarrow> bool \<times> 'w" where
  "reg_set_dword api key name value w = reg_set_value api REG_DWORD key name (le_bytes 4 value) w"

definition reg_get_addr32 :: "'w reg_api \<Rightarrow> hkey \<Rightarrow> string \<Rightarrow> u32 \<Rightarrow> 'w \<Rightarrow> u32" where
  "reg_get_addr32 api key name default_value w =
     addr32_in (snd (reg_get_bin api key name (replicate 4 0) (Some (addr32_out default_value)) w))"

definition reg_set_addr32 :: "'w reg_api \<Rightarrow> hkey \<Rightarrow> string \<Rightarrow> u32 \<Rightarrow> 'w \<Rightarrow> bool \<times> 'w" where
  "reg_set_addr32 api key name value w = reg_set_bin api key name (addr32_out value) w"

definition reg_get_addr48 :: "'w reg_api \<Rightarrow> hkey \<Rightarrow> string \<Rightarrow> u64 \<Rightarrow> 'w \<Rightarrow> u64" where
  "reg_get_addr48 api key name default_value w =
     addr48_in (snd (reg_get_bin api key name (replicate 6 0) (Some (addr48_out default_value)) w))"

definition reg_set_addr48 :: "'w reg_api \<Rightarrow> hkey \<Rightarrow> string \<Rightarrow> u64 \<Rightarrow> 'w \<Rightarrow> bool \<times> 'w" where
  "reg_set_addr48 api key name value w = reg_set_bin api key name (addr48_out value) w"

text \<open>
  Strings are bytes up to a terminator. The outcomes of \<open>malloc\<close> and \<open>strdup\<close> are
  arguments, and \<open>None\<close> is the \<open>abort\<close> when not even the default can be copied. The second
  query sees the same registry: no other program writes the value between the two calls.
\<close>

definition c_string :: "bytes \<Rightarrow> bytes" where
  "c_string b = takeWhile (\<lambda>c. c \<noteq> 0) b"

definition reg_get_string ::
  "'w reg_api \<Rightarrow> bool \<Rightarrow> bool \<Rightarrow> hkey \<Rightarrow> string \<Rightarrow> bytes \<Rightarrow> 'w \<Rightarrow> bytes option" where
  "reg_get_string api malloc_ok strdup_ok key name default_value w =
     (let fallback = (if strdup_ok then Some (c_string default_value) else None);
          (reg_err, value_type, data) = reg_query_buf api key name 0 w
      in if key \<noteq> 0 \<and> (reg_err = ERROR_SUCCESS \<or> reg_err = ERROR_MORE_DATA) \<and>
            value_type = REG_SZ \<and> malloc_ok
         then
           if length data = 0 then Some []
           else
             let (reg_err2, value_type2, data2) = reg_query_buf api key name (length data) w
             in if reg_err2 = ERROR_SUCCESS \<and> value_type2 = REG_SZ
                then Some (c_string (data2 @ [0]))
                else fallback
         else fallback)"

definition reg_set_string :: "'w reg_api \<Rightarrow> hkey \<Rightarrow> string \<Rightarrow> bytes \<Rightarrow> 'w \<Rightarrow> bool \<times> 'w" where
  "reg_set_string api key name value w =
     reg_set_value api REG_SZ key name (c_string value) w"

subsection \<open>What Windows documents\<close>

text \<open>
  \<open>hk w key\<close> is the path of the registry key an open handle stands for and \<open>va w path\<close>
  the values of a key. Names and paths do not distinguish upper from lower case.
\<close>

definition to_upper :: "char \<Rightarrow> char" where
  "to_upper c =
     (if 97 \<le> (of_char c :: nat) \<and> (of_char c :: nat) \<le> 122 then char_of ((of_char c :: nat) - 32) else c)"

definition upper :: "string \<Rightarrow> string" where
  "upper s = map to_upper s"

definition sub_path :: "string \<Rightarrow> string \<Rightarrow> string" where
  "sub_path parent path = parent @ [CHR 0x5C] @ upper path"

type_synonym 'w handle_map = "'w \<Rightarrow> hkey \<Rightarrow> string option"
type_synonym 'w value_map = "'w \<Rightarrow> string \<Rightarrow> string \<Rightarrow> (u32 \<times> bytes) option"

definition opens_key ::
  "(hkey \<Rightarrow> string \<Rightarrow> 'w \<Rightarrow> (u32 \<times> hkey) \<times> 'w) \<Rightarrow> 'w handle_map \<Rightarrow> 'w value_map \<Rightarrow> bool" where
  "opens_key open_key hk va \<longleftrightarrow>
     (\<forall>parent p path w err key w'. hk w parent = Some p \<longrightarrow> open_key parent path w = ((err, key), w') \<longrightarrow>
        va w' = va w \<and>
        (if err = ERROR_SUCCESS
         then key \<noteq> 0 \<and> hk w key = None \<and> hk w' = (hk w)(key \<mapsto> sub_path p path)
         else hk w' = hk w))"

definition reg_laws :: "'w reg_api \<Rightarrow> 'w handle_map \<Rightarrow> 'w value_map \<Rightarrow> bool" where
  "reg_laws api hk va \<longleftrightarrow>
     (\<forall>w. hk w HKEY_CURRENT_USER = Some [] \<and> hk w 0 = None) \<and>
     opens_key (RegCreateKeyEx api) hk va \<and> opens_key (RegOpenKeyEx api) hk va \<and>
     (\<forall>w key. key \<noteq> HKEY_CURRENT_USER \<longrightarrow>
        hk (RegCloseKey api key w) = (hk w)(key := None) \<and> va (RegCloseKey api key w) = va w) \<and>
     (\<forall>w key p name. hk w key = Some p \<longrightarrow>
        (case va w p (upper name) of
           None \<Rightarrow> fst (RegQueryValueEx api key name w) = ERROR_FILE_NOT_FOUND
         | Some (ty, data) \<Rightarrow> RegQueryValueEx api key name w = (ERROR_SUCCESS, ty, data))) \<and>
     (\<forall>w key p name ty data w'. hk w key = Some p \<longrightarrow>
        RegSetValueEx api key name ty data w = (ERROR_SUCCESS, w') \<longrightarrow>
        hk w' = hk w \<and> va w' = (va w)(p := (va w p)(upper name \<mapsto> (ty, data))))"

definition reg_value :: "'w handle_map \<Rightarrow> 'w value_map \<Rightarrow> 'w \<Rightarrow> hkey \<Rightarrow> string \<Rightarrow> (u32 \<times> bytes) option" where
  "reg_value hk va w key name = (case hk w key of None \<Rightarrow> None | Some p \<Rightarrow> va w p (upper name))"

lemma reg_laws_handles:
  assumes "reg_laws api hk va"
  shows "hk w HKEY_CURRENT_USER = Some []" and "hk w key = Some p \<Longrightarrow> key \<noteq> 0"
  using assms by (auto simp: reg_laws_def intro: gr0I)

lemma reg_laws_query:
  assumes "reg_laws api hk va" and "hk w key = Some p"
  shows "case reg_value hk va w key name of
           None \<Rightarrow> fst (RegQueryValueEx api key name w) = ERROR_FILE_NOT_FOUND
         | Some (ty, data) \<Rightarrow> RegQueryValueEx api key name w = (ERROR_SUCCESS, ty, data)"
  using assms by (simp add: reg_laws_def reg_value_def)

lemma reg_laws_set:
  assumes "reg_laws api hk va" and "hk w key = Some p"
    and "reg_set_value api ty key name data w = (True, w')"
  shows "hk w' = hk w \<and> va w' = (va w)(p := (va w p)(upper name \<mapsto> (ty, data)))"
proof -
  have "RegSetValueEx api key name ty data w = (ERROR_SUCCESS, w')"
    using assms(3) by (auto simp: reg_set_value_def split: if_splits prod.splits)
  with assms(1,2) show ?thesis unfolding reg_laws_def by blast
qed

lemma opens_keyD:
  assumes "opens_key open_key hk va" and "hk w parent = Some p"
    and "open_key parent path w = ((err, key), w')"
  shows "va w' = va w \<and>
    (if err = ERROR_SUCCESS then key \<noteq> 0 \<and> hk w key = None \<and> hk w' = (hk w)(key \<mapsto> sub_path p path)
     else hk w' = hk w)"
  using assms unfolding opens_key_def by blast

lemma reg_laws_open:
  assumes "reg_laws api hk va" and "hk w parent = Some p"
    and "reg_open_subkey api parent path readwrite w = (key, w')"
  shows "va w' = va w \<and>
    (if key = 0 then hk w' = hk w
     else hk w key = None \<and> hk w' = (hk w)(key \<mapsto> sub_path p path))"
proof -
  let ?open = "if readwrite then RegCreateKeyEx api else RegOpenKeyEx api"
  have ok: "opens_key ?open hk va"
    using assms(1) by (simp add: reg_laws_def)
  have "parent \<noteq> 0" using reg_laws_handles(2) [OF assms(1,2)] .
  moreover obtain err k w2 where e: "?open parent path w = ((err, k), w2)"
    by (metis prod.exhaust)
  ultimately have "key = (if err = ERROR_SUCCESS then k else 0)" "w2 = w'"
    using assms(3) by (auto simp: reg_open_subkey_def Let_def split: if_splits)
  with opens_keyD [OF ok assms(2) e] show ?thesis by (auto split: if_splits)
qed

lemma reg_laws_close:
  assumes "reg_laws api hk va" and "key \<noteq> HKEY_CURRENT_USER"
  shows "va (reg_close api key w) = va w" and "hk (reg_close api key w) = (hk w)(key := None)"
  using assms by (auto simp: reg_close_def reg_laws_def fun_eq_iff)

lemma reg_query_value:
  assumes "reg_laws api hk va" and "hk w key = Some p" and "reg_value hk va w key name = Some (ty, data)"
  shows "reg_query_buf api key name n w =
           (if length data > n then ERROR_MORE_DATA else ERROR_SUCCESS, ty, data)"
  using reg_laws_query [OF assms(1,2), of name] assms(3) by (simp add: reg_query_buf_def)

lemma reg_query_none:
  assumes "reg_laws api hk va" and "hk w key = Some p" and "reg_value hk va w key name = None"
  shows "fst (reg_query_buf api key name n w) = ERROR_FILE_NOT_FOUND"
  using reg_laws_query [OF assms(1,2), of name] assms(3)
  by (auto simp: reg_query_buf_def reg_codes split: prod.splits)

lemma reg_get_bin_value:
  assumes "reg_laws api hk va" and "hk w key = Some p"
  shows "reg_get_bin api key name buf (Some d) w =
    (case reg_value hk va w key name of
       Some (ty, data) \<Rightarrow> if length data = length buf then (True, data) else (False, take (length buf) d)
     | None \<Rightarrow> (False, take (length buf) d))"
proof (cases "reg_value hk va w key name")
  case None
  from reg_query_none [OF assms None, of "length buf"] show ?thesis
    by (auto simp: reg_get_bin_def Let_def None reg_codes split: prod.splits)
next
  case (Some v)
  obtain ty data where v: "v = (ty, data)" by (cases v)
  from reg_query_value [OF assms Some [unfolded v], of "length buf"] reg_laws_handles(2) [OF assms]
  show ?thesis by (auto simp: reg_get_bin_def Let_def Some v reg_codes)
qed

subsection \<open>Typed values\<close>

text \<open>
  The interface between the registry and the values kept in it: a type with a fixed-size
  representation. What is read is the stored value, and the default when there is none or its
  size is wrong. The program's integers and addresses are its instances.
\<close>

locale fixed_value =
  fixes encode :: "'v \<Rightarrow> bytes" and decode :: "bytes \<Rightarrow> 'v" and sz :: nat and valid :: "'v \<Rightarrow> bool"
  assumes encode_length: "length (encode v) = sz"
    and decode_encode: "valid v \<Longrightarrow> decode (encode v) = v"
begin

lemma get_value:
  assumes "reg_laws api hk va" and "hk w key = Some p" and "valid d"
  shows "decode (snd (reg_get_bin api key name (replicate sz 0) (Some (encode d)) w)) =
    (case reg_value hk va w key name of
       Some (ty, data) \<Rightarrow> if length data = sz then decode data else d
     | None \<Rightarrow> d)"
  using assms
  by (auto simp: reg_get_bin_value [OF assms(1,2)] encode_length decode_encode split: option.splits)

lemma get_stored:
  assumes "reg_laws api hk va" and "hk w key = Some p" and "valid v"
    and "reg_value hk va w key name = Some (ty, encode v)"
  shows "decode (snd (reg_get_bin api key name (replicate sz 0) (Some d) w)) = v"
  using assms by (simp add: reg_get_bin_value [OF assms(1,2)] encode_length decode_encode)

end

interpretation dword: fixed_value "le_bytes 4 :: u32 \<Rightarrow> bytes" le_word 4 "\<lambda>_. True"
  by unfold_locales (simp_all add: le_word_le_bytes take_bit_word_eq_self)

interpretation net_value: fixed_value addr32_out addr32_in 4 "\<lambda>_. True"
  by unfold_locales simp_all

interpretation node_value: fixed_value addr48_out addr48_in 6 addr48_ok
  by unfold_locales simp_all

lemma reg_get_string_stored:
  assumes "reg_laws api hk va" and "hk w key = Some p" and "0 \<notin> set v"
    and "reg_value hk va w key name = Some (REG_SZ, v)"
  shows "reg_get_string api True strdup_ok key name d w = Some v"
proof -
  have "c_string (v @ [0]) = v" using assms(3) by (induction v) (auto simp: c_string_def)
  then show ?thesis
    using reg_query_value [OF assms(1,2,4)] reg_laws_handles(2) [OF assms(1,2)]
    by (auto simp: reg_get_string_def Let_def reg_codes)
qed

subsection \<open>A registry that obeys the laws\<close>

text \<open>
  A registry in memory, with which the theorems that assume the laws are instantiated: the open
  handles, the values of every key and the next handle. It opens any key.
\<close>

type_synonym mem_reg = "(hkey \<Rightarrow> string option) \<times> (string \<Rightarrow> string \<Rightarrow> (u32 \<times> bytes) option) \<times> hkey"

definition mem_hk :: "mem_reg handle_map" where
  "mem_hk w key =
     (if key = HKEY_CURRENT_USER then Some [] else if key = 0 then None else fst w key)"

definition mem_va :: "mem_reg value_map" where
  "mem_va w = fst (snd w)"

definition mem_open :: "hkey \<Rightarrow> string \<Rightarrow> mem_reg \<Rightarrow> (u32 \<times> hkey) \<times> mem_reg" where
  "mem_open parent path w =
     (case mem_hk w parent of None \<Rightarrow> ((6, 0), w)
      | Some p \<Rightarrow>
          let key = snd (snd w)
          in if key = 0 \<or> mem_hk w key \<noteq> None then ((8, 0), w)
             else ((ERROR_SUCCESS, key), ((fst w)(key \<mapsto> sub_path p path), fst (snd w), Suc key)))"

definition mem_api :: "mem_reg reg_api" where
  "mem_api =
     \<lparr>RegCreateKeyEx = mem_open, RegOpenKeyEx = mem_open,
      RegCloseKey = (\<lambda>key w. ((fst w)(key := None), snd w)),
      RegQueryValueEx = (\<lambda>key name w.
        case mem_hk w key of None \<Rightarrow> (6, 0, [])
        | Some p \<Rightarrow> (case mem_va w p (upper name) of None \<Rightarrow> (ERROR_FILE_NOT_FOUND, 0, [])
                    | Some (ty, data) \<Rightarrow> (ERROR_SUCCESS, ty, data))),
      RegSetValueEx = (\<lambda>key name ty data w.
        case mem_hk w key of None \<Rightarrow> (6, w)
        | Some p \<Rightarrow> (ERROR_SUCCESS, (fst w,
            (mem_va w)(p := (mem_va w p)(upper name \<mapsto> (ty, data))), snd (snd w)))),
      RegEnumValue = (\<lambda>key index w. (ERROR_NO_MORE_ITEMS, [], []))\<rparr>"

definition mem_init :: mem_reg where
  "mem_init = ((\<lambda>_. None), (\<lambda>_ _. None), 1)"

lemma mem_laws: "reg_laws mem_api mem_hk mem_va"
proof -
  have "opens_key mem_open mem_hk mem_va"
    by (auto simp: opens_key_def mem_open_def mem_hk_def mem_va_def Let_def fun_eq_iff reg_codes
        split: if_splits)
  then show ?thesis
    by (auto simp: reg_laws_def mem_api_def mem_hk_def mem_va_def HKEY_CURRENT_USER_def fun_eq_iff
        split: option.splits if_splits)
qed

lemma mem_open_keys:
  "mem_hk w HKEY_CURRENT_USER = Some []"
  "RegCreateKeyEx mem_api = mem_open" "RegOpenKeyEx mem_api = mem_open"
  by (simp_all add: mem_hk_def mem_api_def)

text \<open>Writing a value into an open key of it always succeeds.\<close>

lemma mem_set_ok:
  "mem_hk w key = Some p \<Longrightarrow> key \<noteq> 0 \<Longrightarrow>
     \<exists>w'. reg_set_value mem_api ty key name data w = (True, w') \<and> mem_hk w' = mem_hk w \<and>
       snd (snd w') = snd (snd w) \<and> fst w' = fst w"
  by (auto simp: reg_set_value_def mem_api_def mem_hk_def fun_eq_iff)

lemma mem_open_ok:
  assumes "mem_hk w parent = Some p" and "fst w (snd (snd w)) = None"
    and "0 < snd (snd w)" and "snd (snd w) < HKEY_CURRENT_USER"
  shows "reg_open_subkey mem_api parent path readwrite w =
    (snd (snd w), ((fst w)(snd (snd w) \<mapsto> sub_path p path), fst (snd w), Suc (snd (snd w))))"
proof -
  have "parent \<noteq> 0" using reg_laws_handles(2) [OF mem_laws assms(1)] .
  with assms show ?thesis
    by (auto simp: reg_open_subkey_def mem_open_keys mem_open_def mem_hk_def Let_def)
qed

end
