(* ===== verification/Ini.thy ===== *)
theory Ini
  imports Prelude
begin

text \<open>
  The parser of ipxwrapper.ini (inih/ini.c), with the options it is built with: line numbers for the
  handler, values over several lines, a byte order mark, inline comments, a buffer of 200 characters
  on the stack, and no stop at an error. A text is the characters of the file; the buffer a line is
  read into is the characters up to its terminator. The first NUL of a line ends it, as it does for
  the C string functions.
\<close>

subsection \<open>Strings\<close>

text \<open>\<open>isspace\<close> in the C locale.\<close>

definition is_space :: "char \<Rightarrow> bool" where
  "is_space c \<longleftrightarrow> of_char c = (32 :: nat) \<or> (9 \<le> (of_char c :: nat) \<and> (of_char c :: nat) \<le> 13)"

definition NUL :: char where "NUL = CHR 0x00"
definition NEWLINE :: char where "NEWLINE = CHR 0x0A"

definition ini_rstrip :: "string \<Rightarrow> string" where
  "ini_rstrip s = rev (dropWhile is_space (rev s))"

definition ini_lskip :: "string \<Rightarrow> string" where
  "ini_lskip s = dropWhile is_space s"

text \<open>
  What is in front of the first of the characters or of an inline comment, and what begins there.
  No characters stand for \<open>NULL\<close>.
\<close>

primrec ini_find_chars_or_comment :: "string \<Rightarrow> bool \<Rightarrow> string \<Rightarrow> string \<times> string" where
  "ini_find_chars_or_comment chars was_space [] = ([], [])"
| "ini_find_chars_or_comment chars was_space (c # s) =
     (if c \<in> set chars \<or> was_space \<and> c = CHR '';'' then ([], c # s)
      else let (a, b) = ini_find_chars_or_comment chars (is_space c) s in (c # a, b))"

definition ini_strncpy0 :: "string \<Rightarrow> nat \<Rightarrow> string" where
  "ini_strncpy0 src n = take (n - 1) src"

definition MAX_SECTION :: nat where "MAX_SECTION = 50"
definition MAX_NAME :: nat where "MAX_NAME = 50"
definition INI_MAX_LINE :: nat where "INI_MAX_LINE = 200"

subsection \<open>Reading lines\<close>

text \<open>
  \<open>fgets\<close> and its counterpart for strings: at most \<open>num - 1\<close> characters, up to the end of a line;
  \<open>None\<close> when nothing is left.
\<close>

primrec read_chars :: "nat \<Rightarrow> string \<Rightarrow> string \<times> string" where
  "read_chars 0 s = ([], s)"
| "read_chars (Suc n) s =
     (case s of
        [] \<Rightarrow> ([], [])
      | c # s' \<Rightarrow> if c = NEWLINE then ([c], s') else let (a, b) = read_chars n s' in (c # a, b))"

definition ini_reader_string :: "nat \<Rightarrow> string \<Rightarrow> (string \<times> string) option" where
  "ini_reader_string num s = (if s = [] \<or> num < 2 then None else Some (read_chars (num - 1) s))"

subsection \<open>The parser\<close>

text \<open>The handler gets the section, the name, the value and the number of the line.\<close>

type_synonym 'u ini_handler = "'u \<Rightarrow> string \<Rightarrow> string \<Rightarrow> string \<Rightarrow> nat \<Rightarrow> bool \<times> 'u"

record 'u ini_state =
  is_section :: string
  is_prev_name :: string
  is_lineno :: nat
  is_error :: nat
  is_user :: 'u

definition ini_fail :: "'u ini_state \<Rightarrow> 'u ini_state" where
  "ini_fail st = (if is_error st = 0 then st\<lparr>is_error := is_lineno st\<rparr> else st)"

definition ini_call :: "'u ini_handler \<Rightarrow> string \<Rightarrow> string \<Rightarrow> 'u ini_state \<Rightarrow> 'u ini_state" where
  "ini_call handler name value st =
     (let (ok, user) = handler (is_user st) (is_section st) name value (is_lineno st);
          st = st\<lparr>is_user := user\<rparr>
      in if ok then st else ini_fail st)"

text \<open>
  The line without a byte order mark and the white space around it, and whether something was
  skipped in front.
\<close>

definition BOM :: string where "BOM = [CHR 0xEF, CHR 0xBB, CHR 0xBF]"

definition ini_start :: "nat \<Rightarrow> string \<Rightarrow> string \<times> bool" where
  "ini_start lineno buf =
     (let line = takeWhile (\<lambda>c. c \<noteq> NUL) buf;
          bom = lineno = 1 \<and> take 3 line = BOM;
          line = ini_rstrip (if bom then drop 3 line else line);
          start = ini_lskip line
      in (start, bom \<or> start \<noteq> line))"

definition ini_section_line :: "string \<Rightarrow> 'u ini_state \<Rightarrow> 'u ini_state" where
  "ini_section_line start st =
     (let (name, end) = ini_find_chars_or_comment '']'' False (tl start)
      in if take 1 end = '']'' then st\<lparr>is_section := ini_strncpy0 name MAX_SECTION, is_prev_name := []\<rparr>
         else ini_fail st)"

definition ini_value_line :: "'u ini_handler \<Rightarrow> string \<Rightarrow> 'u ini_state \<Rightarrow> 'u ini_state" where
  "ini_value_line handler start st =
     (let (name, end) = ini_find_chars_or_comment ''=:'' False start
      in if take 1 end = ''='' \<or> take 1 end = '':'' then
           let name = ini_rstrip name;
               value = ini_rstrip (ini_lskip (fst (ini_find_chars_or_comment [] False (tl end))))
           in ini_call handler name value (st\<lparr>is_prev_name := ini_strncpy0 name MAX_NAME\<rparr>)
         else ini_fail st)"

text \<open>The body of the loop. An empty line counts as a comment: \<open>strchr\<close> finds the terminator.\<close>

definition ini_line :: "'u ini_handler \<Rightarrow> string \<Rightarrow> 'u ini_state \<Rightarrow> 'u ini_state" where
  "ini_line handler buf st =
     (let st = st\<lparr>is_lineno := is_lineno st + 1\<rparr>;
          (start, skipped) = ini_start (is_lineno st) buf
      in if start = [] \<or> take 1 start = '';'' \<or> take 1 start = ''#'' then st
         else if is_prev_name st \<noteq> [] \<and> skipped then
           ini_call handler (is_prev_name st) (ini_rstrip (fst (ini_find_chars_or_comment [] False start))) st
         else if take 1 start = ''['' then ini_section_line start st
         else ini_value_line handler start st)"

lemma read_chars_split: "read_chars n s = (a, b) \<Longrightarrow> s = a @ b"
  by (induction n arbitrary: s a b) (auto split: list.splits if_splits prod.splits)

lemma ini_reader_shorter:
  assumes "ini_reader_string num s = Some (a, b)"
  shows "length b < length s"
proof -
  obtain n c s' where "num = Suc (Suc n)" "s = c # s'"
    using assms by (cases s; cases num; cases "num - 1") (auto simp: ini_reader_string_def)
  with assms read_chars_split [of n s'] show ?thesis
    by (fastforce simp: ini_reader_string_def split: if_splits prod.splits)
qed

function ini_lines :: "'u ini_handler \<Rightarrow> string \<Rightarrow> 'u ini_state \<Rightarrow> 'u ini_state" where
  "ini_lines handler s st =
     (case ini_reader_string INI_MAX_LINE s of
        None \<Rightarrow> st
      | Some (line, rest) \<Rightarrow> ini_lines handler rest (ini_line handler line st))"
  by auto
termination
  by (relation "measure (\<lambda>(_, s, _). length s)") (auto dest: ini_reader_shorter)

declare ini_lines.simps [simp del]

definition ini_parse_stream :: "'u ini_handler \<Rightarrow> string \<Rightarrow> 'u \<Rightarrow> nat \<times> 'u" where
  "ini_parse_stream handler s user =
     (let st = ini_lines handler s
                 \<lparr>is_section = [], is_prev_name = [], is_lineno = 0, is_error = 0, is_user = user\<rparr>
      in (is_error st, is_user st))"

definition ini_parse_string :: "'u ini_handler \<Rightarrow> string \<Rightarrow> 'u \<Rightarrow> nat \<times> 'u" where
  "ini_parse_string handler s user = ini_parse_stream handler (takeWhile (\<lambda>c. c \<noteq> NUL) s) user"

definition ini_parse_file :: "'u ini_handler \<Rightarrow> string \<Rightarrow> 'u \<Rightarrow> nat \<times> 'u" where
  "ini_parse_file handler file user = ini_parse_stream handler file user"

subsection \<open>The directives of a file\<close>

type_synonym directive = "string \<times> string \<times> string"

text \<open>A handler that keeps the directives it is given, and what any other handler makes of them.\<close>

definition ini_collect :: "directive list ini_handler" where
  "ini_collect ds section name v lineno = (True, ds @ [(section, name, v)])"

definition ini_directives :: "string \<Rightarrow> directive list" where
  "ini_directives file = snd (ini_parse_file ini_collect file [])"

lemmas ini_defs = ini_line_def ini_section_line_def ini_value_line_def ini_call_def ini_fail_def

lemma ini_line_handler:
  assumes h: "\<And>u s n v l. handler u s n v l = (True, step (s, n, v) u)"
    and eq: "is_section st' = is_section st" "is_prev_name st' = is_prev_name st" "is_lineno st' = is_lineno st"
      "is_user st' = fold step (is_user st) u"
  shows "let t = ini_line ini_collect buf st; t' = ini_line handler buf st' in
    is_section t' = is_section t \<and> is_prev_name t' = is_prev_name t \<and> is_lineno t' = is_lineno t \<and>
    is_user t' = fold step (is_user t) u"
  using eq by (simp add: ini_defs ini_collect_def h Let_def split: prod.splits)

lemma ini_lines_handler:
  assumes h: "\<And>u s n v l. handler u s n v l = (True, step (s, n, v) u)"
  shows "is_section st' = is_section st \<Longrightarrow> is_prev_name st' = is_prev_name st \<Longrightarrow> is_lineno st' = is_lineno st \<Longrightarrow>
    is_user st' = fold step (is_user st) u \<Longrightarrow>
    is_user (ini_lines handler s st') = fold step (is_user (ini_lines ini_collect s st)) u"
proof (induction s arbitrary: st st' rule: length_induct)
  case (1 s)
  show ?case
  proof (cases "ini_reader_string INI_MAX_LINE s")
    case None
    with 1(5) show ?thesis by (simp add: ini_lines.simps)
  next
    case (Some p)
    obtain line rest where p: "p = (line, rest)" by force
    have "length rest < length s" using Some p ini_reader_shorter by blast
    with ini_line_handler [OF h 1(2-5), of line] 1(1) Some p show ?thesis
      by (subst (1 2) ini_lines.simps) (simp add: Let_def)
  qed
qed

lemma ini_parse_handler:
  assumes "\<And>u s n v l. handler u s n v l = (True, step (s, n, v) u)"
  shows "snd (ini_parse_file handler file u) = fold step (ini_directives file) u"
  using ini_lines_handler [where handler = handler and step = step and u = u, OF assms]
  by (simp add: ini_directives_def ini_parse_file_def ini_parse_stream_def Let_def)

subsection \<open>What is written is read\<close>

text \<open>
  A file that writes directives out, each in its section: \<open>[section]\<close> and \<open>name = value\<close>. The
  texts must be ones the format can carry.
\<close>

definition ini_print :: "directive list \<Rightarrow> string" where
  "ini_print ds = concat (map (\<lambda>(s, n, v). ''['' @ s @ '']'' @ [NEWLINE] @ n @ '' = '' @ v @ [NEWLINE]) ds)"

definition ini_text :: "string \<Rightarrow> bool" where
  "ini_text s \<longleftrightarrow> NUL \<notin> set s \<and> NEWLINE \<notin> set s"

definition ini_trimmed :: "string \<Rightarrow> bool" where
  "ini_trimmed s \<longleftrightarrow> (s \<noteq> [] \<longrightarrow> \<not> is_space (hd s) \<and> \<not> is_space (last s))"

definition ini_printable :: "directive \<Rightarrow> bool" where
  "ini_printable d \<longleftrightarrow>
     (case d of (s, n, v) \<Rightarrow>
        ini_text s \<and> ini_text n \<and> ini_text v \<and> ini_trimmed n \<and> ini_trimmed v \<and>
        length s < MAX_SECTION \<and> length n + length v + 4 < INI_MAX_LINE \<and>
        n \<noteq> [] \<and> hd n \<notin> set '';#['' \<and>
        ini_find_chars_or_comment '']'' False s = (s, []) \<and> ini_find_chars_or_comment ''=:'' False n = (n, []) \<and>
        ini_find_chars_or_comment [] True v = (v, []))"

lemma is_space_simps [simp]:
  "is_space NEWLINE" "is_space (CHR '' '')" "\<not> is_space (CHR '']'')" "\<not> is_space (CHR ''['')" "\<not> is_space (CHR ''='')"
  by (simp_all add: is_space_def NEWLINE_def)

lemma NUL_ne [simp]: "NEWLINE \<noteq> NUL" "CHR '' '' \<noteq> NUL" "CHR '']'' \<noteq> NUL" "CHR ''['' \<noteq> NUL" "CHR ''='' \<noteq> NUL"
  by (simp_all add: NUL_def NEWLINE_def)

lemma NEWLINE_ne [simp]: "CHR '' '' \<noteq> NEWLINE" "CHR '']'' \<noteq> NEWLINE" "CHR ''['' \<noteq> NEWLINE" "CHR ''='' \<noteq> NEWLINE"
  by (simp_all add: NEWLINE_def)

lemma rstrip_snoc [simp]: "ini_rstrip (s @ [c]) = (if is_space c then ini_rstrip s else s @ [c])"
  by (simp add: ini_rstrip_def)

lemma rstrip_Cons: "\<not> is_space c \<Longrightarrow> ini_rstrip (c # s) = c # ini_rstrip s"
  by (simp add: ini_rstrip_def dropWhile_append3)

lemma rstrip_trimmed: "ini_trimmed s \<Longrightarrow> ini_rstrip s = s"
  by (cases s rule: rev_cases) (auto simp: ini_trimmed_def ini_rstrip_def)

lemma rstrip_append: "ini_trimmed t \<Longrightarrow> ini_rstrip (s @ t) = (if t = [] then ini_rstrip s else s @ t)"
  by (cases t rule: rev_cases) (auto simp: ini_trimmed_def simp flip: append_assoc)

lemma lskip_trimmed: "ini_trimmed s \<Longrightarrow> ini_lskip s = s"
  by (cases s) (auto simp: ini_trimmed_def ini_lskip_def)

lemma find_stop:
  "ini_find_chars_or_comment chars w s = (s, []) \<Longrightarrow> c \<in> set chars \<Longrightarrow>
     ini_find_chars_or_comment chars w (s @ c # r) = (s, c # r)"
  by (induction s arbitrary: w) (auto split: prod.splits if_splits)

lemma find_space_stop:
  "ini_find_chars_or_comment chars w s = (s, []) \<Longrightarrow> CHR '' '' \<notin> set chars \<Longrightarrow> c \<in> set chars \<Longrightarrow>
     ini_find_chars_or_comment chars w (s @ CHR '' '' # c # r) = (s @ '' '', c # r)"
  by (induction s arbitrary: w) (auto split: prod.splits if_splits)

lemma read_chars_line:
  "NEWLINE \<notin> set l \<Longrightarrow> length l < n \<Longrightarrow> read_chars n (l @ NEWLINE # s) = (l @ [NEWLINE], s)"
proof (induction l arbitrary: n)
  case Nil
  then show ?case by (cases n) simp_all
next
  case (Cons a l)
  then show ?case by (cases n) auto
qed

lemma ini_lines_line:
  assumes "NEWLINE \<notin> set l" and "length l + 1 < INI_MAX_LINE"
  shows "ini_lines handler (l @ NEWLINE # s) st = ini_lines handler s (ini_line handler (l @ [NEWLINE]) st)"
  using assms read_chars_line [of l "INI_MAX_LINE - 1" s]
  by (subst ini_lines.simps) (simp add: ini_reader_string_def INI_MAX_LINE_def)

lemma takeWhile_NUL: "NUL \<notin> set s \<Longrightarrow> takeWhile (\<lambda>c. c \<noteq> NUL) (s @ r) = s @ takeWhile (\<lambda>c. c \<noteq> NUL) r"
  by (rule takeWhile_append2) auto

lemma section_line:
  assumes "ini_text s" "length s < MAX_SECTION" "ini_find_chars_or_comment '']'' False s = (s, [])"
  shows "ini_line handler (''['' @ s @ '']'' @ [NEWLINE]) st =
    st\<lparr>is_lineno := is_lineno st + 1, is_section := s, is_prev_name := []\<rparr>"
proof -
  have "takeWhile (\<lambda>c. c \<noteq> NUL) (''['' @ s @ '']'' @ [NEWLINE]) = (''['' @ s @ '']'') @ [NEWLINE]"
    using assms(1) takeWhile_NUL by (simp add: ini_text_def)
  moreover have "ini_rstrip ((''['' @ s @ '']'') @ [NEWLINE]) = ''['' @ s @ '']''"
    using rstrip_snoc [of "''['' @ s"] by (simp del: rstrip_snoc add: rstrip_snoc [of "''['' @ s @ '']''", simplified])
  ultimately have "ini_start l (''['' @ s @ '']'' @ [NEWLINE]) = (''['' @ s @ '']'', False)" for l
    by (simp add: ini_start_def BOM_def Let_def ini_lskip_def)
  with assms(2) find_stop [OF assms(3), of "CHR '']''" "[]"] show ?thesis
    by (simp add: ini_line_def ini_section_line_def ini_strncpy0_def MAX_SECTION_def Let_def)
qed

lemma value_line:
  assumes n: "ini_text n" "ini_trimmed n" "n \<noteq> []" "hd n \<notin> set '';#[''" "ini_find_chars_or_comment ''=:'' False n = (n, [])"
    and v: "ini_text v" "ini_trimmed v" "ini_find_chars_or_comment [] True v = (v, [])"
    and st: "is_lineno st \<noteq> 0" "is_prev_name st = []"
  shows "ini_line handler (n @ '' = '' @ v @ [NEWLINE]) st =
    ini_call handler n v (st\<lparr>is_lineno := is_lineno st + 1, is_prev_name := ini_strncpy0 n MAX_NAME\<rparr>)"
proof -
  let ?l = "n @ '' ='' @ (if v = [] then [] else CHR '' '' # v)"
  have "takeWhile (\<lambda>c. c \<noteq> NUL) (n @ '' = '' @ v @ [NEWLINE]) = n @ '' = '' @ v @ [NEWLINE]"
    using n(1) v(1) takeWhile_NUL [of n] takeWhile_NUL [of v "[NEWLINE]"] by (simp add: ini_text_def)
  moreover have "ini_rstrip ((n @ '' = '' @ v) @ [NEWLINE]) = ?l"
  proof (cases "v = []")
    case True
    have "ini_rstrip ((n @ '' ='') @ [CHR '' '']) = n @ '' =''"
      using rstrip_append [of "'' =''" n] rstrip_snoc [of "n @ '' ''" "CHR ''=''"] by (simp del: rstrip_snoc add: rstrip_snoc [of "n @ '' ''" "CHR ''=''", simplified] rstrip_snoc [of "n @ '' =''" "CHR '' ''", simplified])
    with True show ?thesis by (subst rstrip_snoc) simp
  next
    case False
    with rstrip_append [OF v(2), of "n @ '' = ''"] show ?thesis by (subst rstrip_snoc) simp
  qed
  moreover have "ini_lskip ?l = ?l" using n(2,3) by (cases n) (simp_all add: ini_lskip_def ini_trimmed_def)
  ultimately have s: "ini_start (Suc (is_lineno st)) (n @ '' = '' @ v @ [NEWLINE]) = (?l, False)"
    using st(1) by (simp add: ini_start_def Let_def)
  have c: "take 1 ?l \<notin> {'';'', ''#'', ''[''}" using n(3,4) by (cases n) simp_all
  have "ini_find_chars_or_comment ''=:'' False ?l = (n @ '' '', ''='' @ (if v = [] then [] else CHR '' '' # v))"
    using find_space_stop [OF n(5), of "CHR ''=''"] by simp
  moreover have "fst (ini_find_chars_or_comment [] False (if v = [] then [] else CHR '' '' # v)) =
      (if v = [] then [] else CHR '' '' # v)"
    using v(3) by simp
  moreover have "ini_rstrip (n @ '' '') = n" using rstrip_snoc [of n "CHR '' ''"] rstrip_trimmed [OF n(2)] by simp
  moreover have "ini_rstrip (ini_lskip (if v = [] then [] else CHR '' '' # v)) = v"
    using rstrip_trimmed [OF v(2)] lskip_trimmed [OF v(2)] by (auto simp: ini_lskip_def ini_rstrip_def)
  ultimately show ?thesis
    using s c st(2) n(3) by (simp add: ini_line_def ini_value_line_def Let_def)
qed

lemma ini_print_lines:
  assumes "list_all ini_printable ds" and "is_error st = 0"
  shows "is_error (ini_lines ini_collect (ini_print ds) st) = 0 \<and>
    is_user (ini_lines ini_collect (ini_print ds) st) = is_user st @ ds"
  using assms
proof (induction ds arbitrary: st)
  case Nil
  then show ?case by (simp add: ini_print_def ini_lines.simps ini_reader_string_def)
next
  case (Cons d ds)
  obtain s n v where d: "d = (s, n, v)" by (cases d)
  with Cons.prems have p: "ini_printable (s, n, v)" "list_all ini_printable ds" by simp_all
  let ?st1 = "st\<lparr>is_lineno := is_lineno st + 1, is_section := s, is_prev_name := []\<rparr>"
  let ?st2 = "ini_call ini_collect n v (?st1\<lparr>is_lineno := is_lineno ?st1 + 1, is_prev_name := ini_strncpy0 n MAX_NAME\<rparr>)"
  have "ini_print (d # ds) = (''['' @ s @ '']'') @ NEWLINE # (n @ '' = '' @ v) @ NEWLINE # ini_print ds"
    by (simp add: d ini_print_def)
  moreover have l: "NEWLINE \<notin> set (''['' @ s @ '']'')" "length (''['' @ s @ '']'') + 1 < INI_MAX_LINE"
      "NEWLINE \<notin> set (n @ '' = '' @ v)" "length (n @ '' = '' @ v) + 1 < INI_MAX_LINE"
    using p(1) NEWLINE_ne [symmetric] by (auto simp: ini_printable_def ini_text_def INI_MAX_LINE_def MAX_SECTION_def)
  moreover have "ini_line ini_collect ((''['' @ s @ '']'') @ [NEWLINE]) st = ?st1"
    using section_line [of s ini_collect st] p(1) by (simp add: ini_printable_def)
  moreover have "ini_line ini_collect ((n @ '' = '' @ v) @ [NEWLINE]) ?st1 = ?st2"
    using value_line [of n v ?st1 ini_collect] p(1) by (simp add: ini_printable_def)
  ultimately have "ini_lines ini_collect (ini_print (d # ds)) st = ini_lines ini_collect (ini_print ds) ?st2"
    by (simp only: ini_lines_line [OF l(1,2)] ini_lines_line [OF l(3,4)])
  moreover have "is_user ?st2 = is_user st @ [d]" "is_error ?st2 = 0"
    using Cons.prems(2) by (simp_all add: ini_call_def ini_collect_def d)
  ultimately show ?case using Cons.IH [OF p(2), of ?st2] by simp
qed

lemma ini_directives_print: "list_all ini_printable ds \<Longrightarrow> ini_directives (ini_print ds) = ds"
  using ini_print_lines [of ds] by (simp add: ini_directives_def ini_parse_file_def ini_parse_stream_def Let_def)

text \<open>
  A file that writes out directives the format can carry is read back as precisely these
  directives, in order, and without an error.
\<close>

theorem ini_roundtrip:
  assumes "list_all ini_printable ds"
  shows "ini_parse_file ini_collect (ini_print ds) [] = (0, ds)"
  using ini_print_lines [OF assms] by (simp add: ini_parse_file_def ini_parse_stream_def Let_def)

theorem ini_roundtrip_witness:
  "ini_parse_file ini_collect (ini_print [([], ''dosbox server address'', ''ipx.example''), (''a b'', ''n'', [])]) [] =
     (0, [([], ''dosbox server address'', ''ipx.example''), (''a b'', ''n'', [])])"
  by (rule ini_roundtrip)
    (simp add: ini_printable_def ini_text_def ini_trimmed_def is_space_def NUL_def NEWLINE_def MAX_SECTION_def INI_MAX_LINE_def)

subsection \<open>Malformed lines\<close>

definition ini_file_of :: "string list \<Rightarrow> string" where
  "ini_file_of ls = concat (map (\<lambda>l. l @ [NEWLINE]) ls)"

definition ini_short :: "string \<Rightarrow> bool" where
  "ini_short l \<longleftrightarrow> ini_text l \<and> length l + 1 < INI_MAX_LINE"

text \<open>A line that is neither a comment nor a continuation, section or value.\<close>

definition ini_malformed :: "string \<Rightarrow> bool" where
  "ini_malformed l \<longleftrightarrow>
     l \<noteq> [] \<and> \<not> is_space (hd l) \<and> hd l \<notin> set '';#'' \<and>
     (if hd l = CHR ''['' then take 1 (snd (ini_find_chars_or_comment '']'' False (tl (ini_rstrip l)))) \<noteq> '']''
      else take 1 (snd (ini_find_chars_or_comment ''=:'' False (ini_rstrip l))) \<notin> {''='', '':''})"

lemma ini_lines_Nil [simp]: "ini_lines handler [] st = st"
  by (simp add: ini_lines.simps ini_reader_string_def)

lemma ini_lines_file_of:
  "list_all ini_short ls \<Longrightarrow>
     ini_lines handler (ini_file_of ls @ s) st = ini_lines handler s (fold (\<lambda>l. ini_line handler (l @ [NEWLINE])) ls st)"
  by (induction ls arbitrary: st) (simp_all add: ini_file_of_def ini_lines_line ini_short_def ini_text_def)

lemma ini_line_lineno [simp]: "is_lineno (ini_line handler buf st) = is_lineno st + 1"
  by (simp add: ini_defs Let_def split: prod.splits)

lemma ini_line_error: "is_error st \<noteq> 0 \<Longrightarrow> is_error (ini_line handler buf st) = is_error st"
  by (simp add: ini_defs Let_def split: prod.splits)

lemma fold_lineno: "is_lineno (fold (\<lambda>l. ini_line handler (f l)) ls st) = is_lineno st + length ls"
  by (induction ls arbitrary: st) simp_all

lemma ini_lines_error: "is_error st \<noteq> 0 \<Longrightarrow> is_error (ini_lines handler s st) = is_error st"
proof (induction s arbitrary: st rule: length_induct)
  case (1 s)
  show ?case
  proof (cases "ini_reader_string INI_MAX_LINE s")
    case (Some p)
    obtain line rest where p: "p = (line, rest)" by force
    have "length rest < length s" using Some p ini_reader_shorter by blast
    with 1 ini_line_error [OF 1(2), of handler line] Some p show ?thesis
      by (subst ini_lines.simps) simp
  qed (simp add: ini_lines.simps)
qed

text \<open>Past the first line, the directives depend on the section and the previous name only.\<close>

definition same_place :: "'u ini_state \<Rightarrow> 'u ini_state \<Rightarrow> bool" where
  "same_place st st' \<longleftrightarrow>
     is_section st' = is_section st \<and> is_prev_name st' = is_prev_name st \<and> is_user st' = is_user st \<and>
     is_lineno st \<noteq> 0 \<and> is_lineno st' \<noteq> 0"

lemma ini_line_same_place:
  assumes "same_place st st'"
  shows "same_place (ini_line ini_collect buf st) (ini_line ini_collect buf st')"
proof -
  have "ini_start (Suc (is_lineno st)) buf = ini_start (Suc (is_lineno st')) buf"
    using assms by (simp add: ini_start_def same_place_def)
  with assms show ?thesis
    by (simp add: same_place_def ini_defs ini_collect_def Let_def split: prod.splits)
qed

lemma ini_lines_same_place:
  "same_place st st' \<Longrightarrow> is_user (ini_lines ini_collect s st') = is_user (ini_lines ini_collect s st)"
proof (induction s arbitrary: st st' rule: length_induct)
  case (1 s)
  show ?case
  proof (cases "ini_reader_string INI_MAX_LINE s")
    case None
    with 1(2) show ?thesis by (simp add: ini_lines.simps same_place_def)
  next
    case (Some p)
    obtain line rest where p: "p = (line, rest)" by force
    have "length rest < length s" using Some p ini_reader_shorter by blast
    with 1(1) ini_line_same_place [OF 1(2), of line] Some p show ?thesis
      by (subst (1 2) ini_lines.simps) simp
  qed
qed

lemma malformed_line:
  assumes l: "ini_text l" "ini_malformed l" and st: "is_lineno st \<noteq> 0"
  shows "ini_line handler (l @ [NEWLINE]) st = ini_fail (st\<lparr>is_lineno := is_lineno st + 1\<rparr>)"
proof -
  obtain c r where lc: "l = c # r" using l(2) by (cases l) (auto simp: ini_malformed_def)
  have c: "\<not> is_space c" using l(2) by (simp add: ini_malformed_def lc)
  then have r: "ini_rstrip l = c # ini_rstrip r" by (simp add: lc rstrip_Cons)
  have "takeWhile (\<lambda>c. c \<noteq> NUL) (l @ [NEWLINE]) = l @ [NEWLINE]"
    using l(1) takeWhile_NUL by (simp add: ini_text_def)
  with r c st have "ini_start (Suc (is_lineno st)) (l @ [NEWLINE]) = (c # ini_rstrip r, False)"
    by (simp add: ini_start_def ini_lskip_def Let_def)
  moreover have "c \<noteq> CHR '';''" "c \<noteq> CHR ''#''" using l(2) by (auto simp: ini_malformed_def lc)
  ultimately have "ini_line handler (l @ [NEWLINE]) st =
      (let st = st\<lparr>is_lineno := is_lineno st + 1\<rparr>
       in if c = CHR ''['' then ini_section_line (c # ini_rstrip r) st else ini_value_line handler (c # ini_rstrip r) st)"
    by (simp add: ini_line_def)
  moreover have "ini_section_line (c # ini_rstrip r) st' = ini_fail st'" if "c = CHR ''[''" for st' :: "'a ini_state"
    using l(2) that r by (simp add: ini_section_line_def ini_malformed_def lc case_prod_beta)
  moreover have "ini_value_line handler (c # ini_rstrip r) st' = ini_fail st'" if "c \<noteq> CHR ''[''" for st'
    using l(2) that r by (simp add: ini_value_line_def ini_malformed_def lc case_prod_beta del: ini_find_chars_or_comment.simps)
  ultimately show ?thesis by (cases "c = CHR ''[''") (simp_all add: Let_def)
qed



end
