(* ===== verification/Config.thy ===== *)
theory Config
  imports Registry Ini
begin

text \<open>
  The configuration (config.c, config.h): the main settings from ipxwrapper.ini or the registry,
  the settings of each interface, and the primary interface. The text of the file, the outcomes of \<open>malloc\<close> and \<open>strdup\<close> and the registry calls are
  parameters; texts are characters without the terminator.
\<close>

definition DEFAULT_PORT :: u16 where "DEFAULT_PORT = 54792"

definition ENCAP_TYPE_IPXWRAPPER :: u32 where "ENCAP_TYPE_IPXWRAPPER = 0"
definition ENCAP_TYPE_PCAP :: u32 where "ENCAP_TYPE_PCAP = 1"
definition ENCAP_TYPE_DOSBOX :: u32 where "ENCAP_TYPE_DOSBOX = 2"

definition FRAME_TYPE_ETH_II :: u32 where "FRAME_TYPE_ETH_II = 1"
definition FRAME_TYPE_NOVELL :: u32 where "FRAME_TYPE_NOVELL = 2"
definition FRAME_TYPE_LLC :: u32 where "FRAME_TYPE_LLC = 3"

definition LOG_CALL :: u32 where "LOG_CALL = 1"
definition LOG_DEBUG :: u32 where "LOG_DEBUG = 2"
definition LOG_INFO :: u32 where "LOG_INFO = 4"
definition LOG_DISABLED :: u32 where "LOG_DISABLED = 7"

lemmas config_codes = ENCAP_TYPE_IPXWRAPPER_def ENCAP_TYPE_PCAP_def ENCAP_TYPE_DOSBOX_def
  FRAME_TYPE_ETH_II_def FRAME_TYPE_NOVELL_def FRAME_TYPE_LLC_def
  LOG_CALL_def LOG_DEBUG_def LOG_INFO_def LOG_DISABLED_def

record main_config =
  mc_udp_port :: u16
  mc_w95_bug :: bool
  mc_fw_except :: bool
  mc_encap_type :: u32
  mc_frame_type :: u32
  mc_dosbox_server_addr :: "string option"
  mc_dosbox_server_port :: u16
  mc_dosbox_coalesce :: bool
  mc_log_level :: u32
  mc_profile :: bool
  mc_rate_limit_packets :: u32
  mc_rate_limit_bytes :: u32

record iface_config =
  ic_netnum :: u32
  ic_nodenum :: u64
  ic_enabled :: bool

definition default_config :: main_config where
  "default_config =
     \<lparr>mc_udp_port = DEFAULT_PORT, mc_w95_bug = True, mc_fw_except = False,
      mc_encap_type = ENCAP_TYPE_IPXWRAPPER, mc_frame_type = FRAME_TYPE_ETH_II,
      mc_dosbox_server_addr = None, mc_dosbox_server_port = 213, mc_dosbox_coalesce = False,
      mc_log_level = LOG_INFO, mc_profile = False,
      mc_rate_limit_packets = 0, mc_rate_limit_bytes = 0\<rparr>"

subsection \<open>The ini file\<close>

text \<open>\<open>atoi\<close> of the C library: white space, a sign, digits; too large a number saturates.\<close>

definition is_digit :: "char \<Rightarrow> bool" where
  "is_digit c \<longleftrightarrow> 48 \<le> (of_char c :: nat) \<and> (of_char c :: nat) \<le> 57"

definition digits_value :: "string \<Rightarrow> int" where
  "digits_value s = foldl (\<lambda>n c. 10 * n + (int (of_char c) - 48)) 0 (takeWhile is_digit s)"

definition atoi :: "string \<Rightarrow> int" where
  "atoi s =
     (let s = dropWhile is_space s;
          n = (case s of [] \<Rightarrow> 0
                 | c # r \<Rightarrow> if c = CHR ''-'' then - digits_value r
                            else if c = CHR ''+'' then digits_value r else digits_value s)
      in min (2 ^ 31 - 1) (max (- (2 ^ 31)) n))"

definition process_ini_directive :: "bool \<Rightarrow> directive \<Rightarrow> main_config \<Rightarrow> main_config" where
  "process_ini_directive strdup_ok d config =
     (case d of (section, name, value) \<Rightarrow>
      if section \<noteq> [] then config
      else if name = ''dosbox server address'' then
        (if strdup_ok
         then config\<lparr>mc_dosbox_server_addr := Some value, mc_encap_type := ENCAP_TYPE_DOSBOX\<rparr>
         else config\<lparr>mc_dosbox_server_addr := None\<rparr>)
      else if name = ''dosbox server port'' then
        (let port = atoi value
         in if port \<ge> 1 \<and> port \<le> 65535 then config\<lparr>mc_dosbox_server_port := of_int port\<rparr> else config)
      else if name = ''coalesce packets'' then
        (if value = ''yes'' then config\<lparr>mc_dosbox_coalesce := True\<rparr>
         else if value = ''no'' then config\<lparr>mc_dosbox_coalesce := False\<rparr> else config)
      else if name = ''firewall exception'' then
        (if value = ''yes'' then config\<lparr>mc_fw_except := True\<rparr>
         else if value = ''no'' then config\<lparr>mc_fw_except := False\<rparr> else config)
      else if name = ''logging'' then
        (if value = ''none'' then config\<lparr>mc_log_level := LOG_DISABLED\<rparr>
         else if value = ''info'' then config\<lparr>mc_log_level := LOG_INFO\<rparr>
         else if value = ''debug'' then config\<lparr>mc_log_level := LOG_DEBUG\<rparr>
         else if value = ''trace'' then config\<lparr>mc_log_level := LOG_CALL\<rparr> else config)
      else if name = ''send packet limit'' then
        (let n = atoi value in if n > 0 then config\<lparr>mc_rate_limit_packets := of_int n\<rparr> else config)
      else if name = ''send byte limit'' then
        (let n = atoi value in if n > 0 then config\<lparr>mc_rate_limit_bytes := of_int n\<rparr> else config)
      else config)"

text \<open>The directives in order; \<open>mem i\<close> says whether \<open>strdup\<close> succeeds at the \<open>i\<close>-th.\<close>

definition process_ini :: "(nat \<Rightarrow> bool) \<Rightarrow> directive list \<Rightarrow> main_config \<Rightarrow> main_config" where
  "process_ini mem ds config =
     fold (\<lambda>(i, d) config. process_ini_directive (mem i) d config) (enumerate 0 ds) config"

text \<open>The handler as the parser calls it, and the settings it makes of a file.\<close>

definition directive_handler :: "(nat \<Rightarrow> bool) \<Rightarrow> (nat \<times> main_config) ini_handler" where
  "directive_handler mem u section name v lineno =
     (case u of (i, config) \<Rightarrow> (True, (Suc i, process_ini_directive (mem i) (section, name, v) config)))"

definition load_ini :: "(nat \<Rightarrow> bool) \<Rightarrow> string \<Rightarrow> main_config \<Rightarrow> main_config" where
  "load_ini mem file config = snd (snd (ini_parse_file (directive_handler mem) file (0, config)))"

lemma fold_directive_handler:
  "fold (\<lambda>d (i, config). (Suc i, process_ini_directive (mem i) d config)) ds (i, config) =
     (i + length ds, fold (\<lambda>(i, d) config. process_ini_directive (mem i) d config) (enumerate i ds) config)"
  by (induction ds arbitrary: i config) simp_all

lemma load_ini_directives: "load_ini mem file config = process_ini mem (ini_directives file) config"
proof -
  have "snd (ini_parse_file (directive_handler mem) file (0, config)) =
      fold (\<lambda>d (i, config). (Suc i, process_ini_directive (mem i) d config)) (ini_directives file) (0, config)"
    by (rule ini_parse_handler) (simp add: directive_handler_def split: prod.splits)
  then show ?thesis by (simp add: load_ini_def process_ini_def fold_directive_handler)
qed

subsection \<open>The main configuration\<close>

definition str_bytes :: "string \<Rightarrow> bytes" where
  "str_bytes s = map (\<lambda>c. of_nat (of_char c)) s"

definition bytes_str :: "bytes \<Rightarrow> string" where
  "bytes_str b = map (\<lambda>c. char_of (unat c)) b"

text \<open>\<open>struct v1_global_config\<close>: port, \<open>w95_bug\<close>, \<open>bcast_all\<close>, \<open>filter\<close>.\<close>

definition v1_global_config_size :: nat where
  "v1_global_config_size = 5"

definition load_v1_config :: "'w reg_api \<Rightarrow> hkey \<Rightarrow> 'w \<Rightarrow> main_config \<Rightarrow> main_config" where
  "load_v1_config api reg w config =
     (let (v1, reg_config) = reg_get_bin api reg ''global'' (replicate v1_global_config_size 0) None w;
          config = (if v1
                    then config\<lparr>mc_udp_port := le_word (slice reg_config 0 2),
                                mc_w95_bug := reg_config ! 2 \<noteq> 0\<rparr>
                    else config)
      in config\<lparr>mc_log_level := reg_get_dword api reg ''min_log_level'' (mc_log_level config) w\<rparr>)"

text \<open>The 0.4.x values overlay what was loaded before; the server address is read in between.\<close>

definition reg_get_flag :: "'w reg_api \<Rightarrow> hkey \<Rightarrow> string \<Rightarrow> bool \<Rightarrow> 'w \<Rightarrow> bool" where
  "reg_get_flag api reg name d w \<longleftrightarrow> reg_get_dword api reg name (if d then 1 else 0) w \<noteq> 0"

definition load_config :: "'w reg_api \<Rightarrow> hkey \<Rightarrow> 'w \<Rightarrow> string \<Rightarrow> main_config \<Rightarrow> main_config" where
  "load_config api reg w addr config =
     config
       \<lparr>mc_udp_port := ucast (reg_get_dword api reg ''port'' (ucast (mc_udp_port config)) w),
        mc_w95_bug := reg_get_flag api reg ''w95_bug'' (mc_w95_bug config) w,
        mc_fw_except := reg_get_flag api reg ''fw_except'' (mc_fw_except config) w,
        mc_encap_type := reg_get_dword api reg ''use_pcap'' (mc_encap_type config) w,
        mc_frame_type := reg_get_dword api reg ''frame_type'' (mc_frame_type config) w,
        mc_log_level := reg_get_dword api reg ''log_level'' (mc_log_level config) w,
        mc_profile := reg_get_flag api reg ''profile'' (mc_profile config) w,
        mc_dosbox_server_addr := Some addr,
        mc_dosbox_server_port :=
          ucast (reg_get_dword api reg ''dosbox_server_port'' (ucast (mc_dosbox_server_port config)) w),
        mc_dosbox_coalesce := reg_get_flag api reg ''dosbox_coalesce'' (mc_dosbox_coalesce config) w,
        mc_rate_limit_packets :=
          reg_get_dword api reg ''rate_limit_packets'' (mc_rate_limit_packets config) w,
        mc_rate_limit_bytes :=
          reg_get_dword api reg ''rate_limit_bytes'' (mc_rate_limit_bytes config) w\<rparr>"

definition check_frame_type :: "main_config \<Rightarrow> main_config" where
  "check_frame_type config =
     (if mc_frame_type config \<noteq> FRAME_TYPE_ETH_II \<and> mc_frame_type config \<noteq> FRAME_TYPE_NOVELL \<and>
         mc_frame_type config \<noteq> FRAME_TYPE_LLC
      then config\<lparr>mc_frame_type := FRAME_TYPE_ETH_II\<rparr> else config)"

text \<open>
  \<open>ini\<close> is the text of the file, \<open>None\<close> when it cannot be opened; \<open>malloc_ok\<close> and \<open>strdup_ok\<close> are
  those of \<open>reg_get_string\<close>; \<open>None\<close> is its \<open>abort\<close>.
\<close>

definition get_main_config ::
  "'w reg_api \<Rightarrow> string option \<Rightarrow> (nat \<Rightarrow> bool) \<Rightarrow> bool \<Rightarrow> bool \<Rightarrow> bool \<Rightarrow> 'w
     \<Rightarrow> (main_config \<times> 'w) option" where
  "get_main_config api ini mem malloc_ok strdup_ok ignore_ini w =
     (if \<not> ignore_ini \<and> ini \<noteq> None then Some (load_ini mem (the ini) default_config, w)
      else
        let (reg, w) = reg_open_main api False w
        in case reg_get_string api malloc_ok strdup_ok reg ''dosbox_server_addr'' [] w of
             None \<Rightarrow> None
           | Some addr \<Rightarrow>
               Some (check_frame_type (load_config api reg w (bytes_str addr)
                       (load_v1_config api reg w default_config)),
                     reg_close api reg w))"

text \<open>C's \<open>&&\<close> of operations that report success: later ones run only after it.\<close>

fun all_ok :: "('w \<Rightarrow> bool \<times> 'w) list \<Rightarrow> 'w \<Rightarrow> bool \<times> 'w" where
  "all_ok [] w = (True, w)"
| "all_ok (op # ops) w = (case op w of (ok, w') \<Rightarrow> if ok then all_ok ops w' else (False, w'))"

definition of_bool32 :: "bool \<Rightarrow> u32" where
  "of_bool32 b = (if b then 1 else 0)"

text \<open>
  The settings as registry values, in the order they are written. \<open>strlen\<close> of a \<open>NULL\<close>
  server address is a crash, and only reached when the writes before it succeed.
\<close>

definition set_main_config :: "'w reg_api \<Rightarrow> main_config \<Rightarrow> 'w \<Rightarrow> (bool \<times> 'w) option" where
  "set_main_config api config w =
     (let (reg, w) = reg_open_main api True w;
          (ok1, w) = all_ok
            [reg_set_dword api reg ''port'' (ucast (mc_udp_port config)),
             reg_set_dword api reg ''w95_bug'' (of_bool32 (mc_w95_bug config)),
             reg_set_dword api reg ''fw_except'' (of_bool32 (mc_fw_except config)),
             reg_set_dword api reg ''use_pcap'' (mc_encap_type config),
             reg_set_dword api reg ''frame_type'' (mc_frame_type config),
             reg_set_dword api reg ''log_level'' (mc_log_level config),
             reg_set_dword api reg ''profile'' (of_bool32 (mc_profile config))] w
      in if \<not> ok1 then Some (False, reg_close api reg w)
         else case mc_dosbox_server_addr config of
           None \<Rightarrow> None
         | Some addr \<Rightarrow>
             let (ok2, w) = all_ok
                   [reg_set_string api reg ''dosbox_server_addr'' (str_bytes addr),
                    reg_set_dword api reg ''dosbox_server_port'' (ucast (mc_dosbox_server_port config)),
                    reg_set_dword api reg ''dosbox_coalesce'' (of_bool32 (mc_dosbox_coalesce config)),
                    reg_set_dword api reg ''rate_limit_packets'' (mc_rate_limit_packets config),
                    reg_set_dword api reg ''rate_limit_bytes'' (mc_rate_limit_bytes config)] w
             in Some (ok2, reg_close api reg w))"

subsection \<open>The interfaces\<close>

definition set_iface_config :: "'w reg_api \<Rightarrow> u64 \<Rightarrow> iface_config \<Rightarrow> 'w \<Rightarrow> bool \<times> 'w" where
  "set_iface_config api hwaddr config w =
     (let id = addr48_string hwaddr;
          (reg, w) = reg_open_main api True w;
          (ifreg, w) = reg_open_subkey api reg id True w;
          (ok, w) = all_ok
            [reg_set_addr32 api ifreg ''net'' (ic_netnum config),
             reg_set_addr48 api ifreg ''node'' (ic_nodenum config),
             reg_set_dword api ifreg ''enabled'' (of_bool32 (ic_enabled config))] w
      in (ok, reg_close api reg (reg_close api ifreg w)))"

text \<open>\<open>struct v1_iface_config\<close>: network, node, \<open>enabled\<close>, \<open>primary\<close>.\<close>

definition v1_iface_config_size :: nat where
  "v1_iface_config_size = 12"

definition get_iface_config ::
  "'w reg_api \<Rightarrow> (u32 \<Rightarrow> 's) \<Rightarrow> ('s \<Rightarrow> nat \<times> 's) \<Rightarrow> u32 \<Rightarrow> u64 \<Rightarrow> 's rng \<Rightarrow> 'w
     \<Rightarrow> iface_config \<times> 's rng \<times> 'w" where
  "get_iface_config api srand rand ticks hwaddr s w =
     (let id = addr48_string hwaddr;
          config = \<lparr>ic_netnum = addr32_in [0, 0, 0, 1], ic_nodenum = hwaddr, ic_enabled = True\<rparr>;
          (reg, w) = reg_open_main api False w;
          (ifreg, w) = reg_open_subkey api reg id False w;
          config =
            (if ifreg \<noteq> 0 then
               \<lparr>ic_netnum = reg_get_addr32 api ifreg ''net'' (ic_netnum config) w,
                ic_nodenum = reg_get_addr48 api ifreg ''node'' (ic_nodenum config) w,
                ic_enabled = reg_get_dword api ifreg ''enabled'' (of_bool32 (ic_enabled config)) w \<noteq> 0\<rparr>
             else
               let (v1, reg_config) = reg_get_bin api reg id (replicate v1_iface_config_size 0) None w
               in if v1
                  then \<lparr>ic_netnum = addr32_in (slice reg_config 0 4),
                        ic_nodenum = addr48_in (slice reg_config 4 6),
                        ic_enabled = reg_config ! 10 \<noteq> 0\<rparr>
                  else config);
          (config, s, w) =
            (if hwaddr = WILDCARD_IFACE_HWADDR \<and> ic_nodenum config = hwaddr then
               let (mac, s) = gen_random_mac srand rand ticks s;
                   config = config\<lparr>ic_nodenum := mac\<rparr>
               in (config, s, snd (set_iface_config api hwaddr config w))
             else (config, s, w))
      in (config, s, reg_close api reg (reg_close api ifreg w)))"

text \<open>
  \<open>RegEnumValue\<close> into buffers for a name of 23 characters and the data of a
  \<open>v1_iface_config\<close>. The loop may not end: \<open>None\<close> is a call that never returns.
\<close>

definition reg_enum_buf :: "'w reg_api \<Rightarrow> hkey \<Rightarrow> nat \<Rightarrow> 'w \<Rightarrow> u32 \<times> string \<times> bytes" where
  "reg_enum_buf api key index w =
     (case RegEnumValue api key index w of (err, name, data) \<Rightarrow>
        if err = ERROR_SUCCESS \<and> (length name + 1 > 24 \<or> length data > v1_iface_config_size)
        then (ERROR_MORE_DATA, name, data) else (err, name, data))"

definition legacy_primary :: "u32 \<times> string \<times> bytes \<Rightarrow> bool" where
  "legacy_primary v =
     (case v of (err, name, config) \<Rightarrow>
        err = ERROR_SUCCESS \<and> length config = v1_iface_config_size \<and> config ! 11 \<noteq> 0 \<and>
        fst (addr48_from_string 0 name))"

partial_function (option) primary_loop :: "'w reg_api \<Rightarrow> hkey \<Rightarrow> 'w \<Rightarrow> u64 \<Rightarrow> nat \<Rightarrow> u64 option" where
  "primary_loop api reg w primary index =
     (let v = reg_enum_buf api reg index w in
      if legacy_primary v then Some (addr48_in (slice (snd (snd v)) 4 6))
      else if fst v = ERROR_NO_MORE_ITEMS then Some primary
      else primary_loop api reg w primary (Suc index))"

definition get_primary_iface :: "'w reg_api \<Rightarrow> 'w \<Rightarrow> (u64 \<times> 'w) option" where
  "get_primary_iface api w =
     (let primary = addr48_in [0xFF, 0xFF, 0xFF, 0xFF, 0xFF, 0xFF];
          (reg, w) = reg_open_main api False w;
          result =
            (if reg_check_value api reg ''primary'' w
             then Some (reg_get_addr48 api reg ''primary'' primary w)
             else if reg \<noteq> 0 then primary_loop api reg w primary 0
             else Some primary)
      in case result of None \<Rightarrow> None | Some primary \<Rightarrow> Some (primary, reg_close api reg w))"

definition set_primary_iface :: "'w reg_api \<Rightarrow> u64 \<Rightarrow> 'w \<Rightarrow> bool \<times> 'w" where
  "set_primary_iface api primary w =
     (let (reg, w) = reg_open_main api True w;
          (ok, w) = reg_set_addr48 api reg ''primary'' primary w
      in (ok, reg_close api reg w))"

subsection \<open>Reading back what was written\<close>

lemma bytes_str_bytes [simp]: "bytes_str (str_bytes s) = s"
proof -
  have "unat (of_nat (of_char c) :: u8) = of_char c" for c
    by (simp add: unsigned_of_nat take_bit_eq_mod)
  then show ?thesis by (simp add: bytes_str_def str_bytes_def o_def map_idI)
qed

lemma str_bytes_nonzero: "CHR 0x00 \<notin> set s \<Longrightarrow> 0 \<notin> set (str_bytes s)"
proof
  assume "CHR 0x00 \<notin> set s" and "0 \<in> set (str_bytes s)"
  then have "char_of (unat (0 :: u8)) \<in> set (bytes_str (str_bytes s))"
    unfolding bytes_str_def by (metis imageI list.set_map)
  moreover have "char_of (0 :: nat) = CHR 0x00" by code_simp
  ultimately show False using \<open>CHR 0x00 \<notin> set s\<close> by simp
qed

lemma c_string_id: "0 \<notin> set b \<Longrightarrow> c_string b = b"
  by (induction b) (auto simp: c_string_def)

lemma ucast_u16_u32: "ucast (ucast (v :: u16) :: u32) = v"
  by (rule bit_word_eqI) (simp add: bit_simps)

lemma of_bool32_nonzero [simp]: "of_bool32 b \<noteq> 0 \<longleftrightarrow> b"
  by (simp add: of_bool32_def)

definition put_values :: "(string \<times> u32 \<times> bytes) list \<Rightarrow>
    (string \<Rightarrow> (u32 \<times> bytes) option) \<Rightarrow> (string \<Rightarrow> (u32 \<times> bytes) option)" where
  "put_values vs m = fold (\<lambda>(name, v) m. m(upper name \<mapsto> v)) vs m"

lemma put_values_simps [simp]:
  "put_values [] m = m"
  "put_values ((name, v) # vs) m = put_values vs (m(upper name \<mapsto> v))"
  by (simp_all add: put_values_def)

abbreviation set_ops :: "'w reg_api \<Rightarrow> hkey \<Rightarrow> (string \<times> u32 \<times> bytes) list \<Rightarrow> ('w \<Rightarrow> bool \<times> 'w) list" where
  "set_ops api key vs \<equiv> map (\<lambda>(name, ty, data). reg_set_value api ty key name data) vs"

lemma set_op_simps:
  "reg_set_dword api key name v = reg_set_value api REG_DWORD key name (le_bytes 4 v)"
  "reg_set_addr32 api key name v' = reg_set_value api REG_BINARY key name (addr32_out v')"
  "reg_set_addr48 api key name v'' = reg_set_value api REG_BINARY key name (addr48_out v'')"
  "reg_set_string api key name s = reg_set_value api REG_SZ key name (c_string s)"
  by (simp_all add: reg_set_dword_def reg_set_addr32_def reg_set_addr48_def reg_set_string_def
      reg_set_bin_def fun_eq_iff)

lemma all_ok_set_ops:
  assumes "reg_laws api hk va" and "hk w key = Some p" and "all_ok (set_ops api key vs) w = (True, w')"
  shows "hk w' = hk w \<and> va w' = (va w)(p := put_values vs (va w p))"
  using assms(2,3)
proof (induction vs arbitrary: w)
  case Nil
  then show ?case by simp
next
  case (Cons v vs)
  obtain name ty data where v: "v = (name, ty, data)" by (cases v)
  from Cons.prems obtain w2 where
    s: "reg_set_value api ty key name data w = (True, w2)" and r: "all_ok (set_ops api key vs) w2 = (True, w')"
    by (auto simp: v split: prod.splits if_splits)
  from reg_laws_set [OF assms(1) Cons.prems(1) s]
  have "hk w2 = hk w" "va w2 = (va w)(p := (va w p)(upper name \<mapsto> (ty, data)))" by auto
  with Cons.IH [OF _ r] Cons.prems(1) show ?case by (simp add: v fun_upd_def cong: if_cong)
qed

lemma all_ok_append:
  "all_ok (xs @ ys) w = (case all_ok xs w of (ok, w') \<Rightarrow> if ok then all_ok ys w' else (False, w'))"
  by (induction xs arbitrary: w) (auto split: prod.splits)

lemma all_ok_key: "all_ok (set_ops api key vs) w = (True, w') \<Longrightarrow> vs \<noteq> [] \<Longrightarrow> key \<noteq> 0"
  by (cases "key = 0"; cases vs) (auto simp: reg_set_value_def)

definition MAIN_PATH :: string where
  "MAIN_PATH = sub_path [] IPXWRAPPER_KEY"

lemma reg_open_main_laws:
  assumes "reg_laws api hk va" and "reg_open_main api readwrite w = (key, w')"
  shows "va w' = va w" and "key = 0 \<Longrightarrow> hk w' = hk w"
    and "key \<noteq> 0 \<Longrightarrow> hk w' = (hk w)(key \<mapsto> MAIN_PATH) \<and> key \<noteq> HKEY_CURRENT_USER"
proof -
  note o = reg_laws_open [OF assms(1) reg_laws_handles(1) [OF assms(1)] assms(2) [unfolded reg_open_main_def]]
  show "va w' = va w" "key = 0 \<Longrightarrow> hk w' = hk w" using o by simp_all
  show "hk w' = (hk w)(key \<mapsto> MAIN_PATH) \<and> key \<noteq> HKEY_CURRENT_USER" if "key \<noteq> 0"
    using o that reg_laws_handles(1) [OF assms(1), of w] by (auto simp: MAIN_PATH_def)
qed

definition main_values :: "main_config \<Rightarrow> (string \<times> u32 \<times> bytes) list" where
  "main_values config =
     [(''port'', REG_DWORD, le_bytes 4 (ucast (mc_udp_port config) :: u32)),
      (''w95_bug'', REG_DWORD, le_bytes 4 (of_bool32 (mc_w95_bug config))),
      (''fw_except'', REG_DWORD, le_bytes 4 (of_bool32 (mc_fw_except config))),
      (''use_pcap'', REG_DWORD, le_bytes 4 (mc_encap_type config)),
      (''frame_type'', REG_DWORD, le_bytes 4 (mc_frame_type config)),
      (''log_level'', REG_DWORD, le_bytes 4 (mc_log_level config)),
      (''profile'', REG_DWORD, le_bytes 4 (of_bool32 (mc_profile config))),
      (''dosbox_server_addr'', REG_SZ, c_string (str_bytes (the (mc_dosbox_server_addr config)))),
      (''dosbox_server_port'', REG_DWORD, le_bytes 4 (ucast (mc_dosbox_server_port config) :: u32)),
      (''dosbox_coalesce'', REG_DWORD, le_bytes 4 (of_bool32 (mc_dosbox_coalesce config))),
      (''rate_limit_packets'', REG_DWORD, le_bytes 4 (mc_rate_limit_packets config)),
      (''rate_limit_bytes'', REG_DWORD, le_bytes 4 (mc_rate_limit_bytes config))]"

lemma set_main_config_eq:
  assumes "mc_dosbox_server_addr config \<noteq> None"
  shows "set_main_config api config w =
    (case reg_open_main api True w of (reg, w1) \<Rightarrow>
       case all_ok (set_ops api reg (main_values config)) w1 of
         (ok, w2) \<Rightarrow> Some (ok, reg_close api reg w2))"
proof -
  let ?vs1 = "take 7 (main_values config)" and ?vs2 = "drop 7 (main_values config)"
  obtain addr where addr: "mc_dosbox_server_addr config = Some addr" using assms by blast
  have split: "set_ops api reg (main_values config) = set_ops api reg ?vs1 @ set_ops api reg ?vs2" for reg
    by (metis append_take_drop_id map_append)
  have 1: "set_ops api reg ?vs1 =
            [reg_set_dword api reg ''port'' (ucast (mc_udp_port config)),
             reg_set_dword api reg ''w95_bug'' (of_bool32 (mc_w95_bug config)),
             reg_set_dword api reg ''fw_except'' (of_bool32 (mc_fw_except config)),
             reg_set_dword api reg ''use_pcap'' (mc_encap_type config),
             reg_set_dword api reg ''frame_type'' (mc_frame_type config),
             reg_set_dword api reg ''log_level'' (mc_log_level config),
             reg_set_dword api reg ''profile'' (of_bool32 (mc_profile config))]" for reg
    by (simp add: main_values_def set_op_simps)
  have 2: "set_ops api reg ?vs2 =
            [reg_set_string api reg ''dosbox_server_addr'' (str_bytes addr),
             reg_set_dword api reg ''dosbox_server_port'' (ucast (mc_dosbox_server_port config)),
             reg_set_dword api reg ''dosbox_coalesce'' (of_bool32 (mc_dosbox_coalesce config)),
             reg_set_dword api reg ''rate_limit_packets'' (mc_rate_limit_packets config),
             reg_set_dword api reg ''rate_limit_bytes'' (mc_rate_limit_bytes config)]" for reg
    by (simp add: main_values_def set_op_simps addr)
  show ?thesis
    unfolding set_main_config_def Let_def split all_ok_append 1 [symmetric] 2 [symmetric]
    by (simp add: addr 2 split: prod.splits)
qed

lemma set_main_config_values:
  assumes laws: "reg_laws api hk va" and set: "set_main_config api config w = Some (True, w')"
    and addr: "mc_dosbox_server_addr config \<noteq> None"
  shows "va w' = (va w)(MAIN_PATH := put_values (main_values config) (va w MAIN_PATH))"
proof -
  obtain reg w1 where o: "reg_open_main api True w = (reg, w1)" by (cases "reg_open_main api True w")
  obtain w2 where w2: "all_ok (set_ops api reg (main_values config)) w1 = (True, w2)"
    and w': "w' = reg_close api reg w2"
    using set unfolding set_main_config_eq [OF addr] o by (auto split: prod.splits)
  have "reg \<noteq> 0" using all_ok_key [OF w2] by (simp add: main_values_def)
  with reg_open_main_laws [OF laws o]
  have k: "hk w1 reg = Some MAIN_PATH" "va w1 = va w" "reg \<noteq> HKEY_CURRENT_USER" by auto
  show "va w' = (va w)(MAIN_PATH := put_values (main_values config) (va w MAIN_PATH))"
    using all_ok_set_ops [OF laws k(1) w2] k reg_laws_close [OF laws k(3)] by (simp add: w')
qed

lemma upper_names:
  "upper ''port'' = ''PORT''" "upper ''w95_bug'' = ''W95_BUG''" "upper ''fw_except'' = ''FW_EXCEPT''"
  "upper ''use_pcap'' = ''USE_PCAP''" "upper ''frame_type'' = ''FRAME_TYPE''"
  "upper ''log_level'' = ''LOG_LEVEL''" "upper ''min_log_level'' = ''MIN_LOG_LEVEL''"
  "upper ''profile'' = ''PROFILE''" "upper ''global'' = ''GLOBAL''"
  "upper ''dosbox_server_addr'' = ''DOSBOX_SERVER_ADDR''"
  "upper ''dosbox_server_port'' = ''DOSBOX_SERVER_PORT''"
  "upper ''dosbox_coalesce'' = ''DOSBOX_COALESCE''"
  "upper ''rate_limit_packets'' = ''RATE_LIMIT_PACKETS''"
  "upper ''rate_limit_bytes'' = ''RATE_LIMIT_BYTES''"
  "upper ''net'' = ''NET''" "upper ''node'' = ''NODE''" "upper ''enabled'' = ''ENABLED''"
  "upper ''primary'' = ''PRIMARY''"
  by (simp_all add: upper_def to_upper_def char_of_def bit_0)

lemma reg_get_dword_stored:
  assumes "reg_laws api hk va" and "hk w key = Some p"
    and "reg_value hk va w key name = Some (ty, le_bytes 4 v)"
  shows "reg_get_dword api key name d w = v"
  unfolding reg_get_dword_def by (rule dword.get_stored [OF assms(1,2) TrueI assms(3)])

text \<open>What \<open>get_main_config\<close> reads when every setting is in the registry.\<close>

lemma get_main_config_stored:
  assumes laws: "reg_laws api hk va" and o: "reg_open_main api False w = (reg, w1)" and reg: "reg \<noteq> 0"
    and stored: "va w MAIN_PATH = put_values (main_values config) m"
    and addr: "mc_dosbox_server_addr config = Some addr" "CHR 0x00 \<notin> set addr"
    and frame: "mc_frame_type config \<in> {FRAME_TYPE_ETH_II, FRAME_TYPE_NOVELL, FRAME_TYPE_LLC}"
  shows "get_main_config api ini mem True strdup_ok True w = Some (config, reg_close api reg w1)"
proof -
  from reg_open_main_laws [OF laws o] reg
  have k: "hk w1 reg = Some MAIN_PATH" and va: "va w1 = va w" by auto
  have val: "reg_value hk va w1 reg name = put_values (main_values config) m (upper name)" for name
    by (simp add: reg_value_def k va stored)
  note dword = reg_get_dword_stored [OF laws k]
  have "reg_get_dword api reg ''port'' d w1 = ucast (mc_udp_port config)"
    "reg_get_dword api reg ''w95_bug'' d w1 = of_bool32 (mc_w95_bug config)"
    "reg_get_dword api reg ''fw_except'' d w1 = of_bool32 (mc_fw_except config)"
    "reg_get_dword api reg ''use_pcap'' d w1 = mc_encap_type config"
    "reg_get_dword api reg ''frame_type'' d w1 = mc_frame_type config"
    "reg_get_dword api reg ''log_level'' d w1 = mc_log_level config"
    "reg_get_dword api reg ''profile'' d w1 = of_bool32 (mc_profile config)"
    "reg_get_dword api reg ''dosbox_server_port'' d w1 = ucast (mc_dosbox_server_port config)"
    "reg_get_dword api reg ''dosbox_coalesce'' d w1 = of_bool32 (mc_dosbox_coalesce config)"
    "reg_get_dword api reg ''rate_limit_packets'' d w1 = mc_rate_limit_packets config"
    "reg_get_dword api reg ''rate_limit_bytes'' d w1 = mc_rate_limit_bytes config" for d
    by (rule dword, simp add: val main_values_def upper_names)+
  moreover have "reg_get_string api True strdup_ok reg ''dosbox_server_addr'' d w1 = Some (str_bytes addr)" for d
  proof (rule reg_get_string_stored [OF laws k])
    show "0 \<notin> set (str_bytes addr)" using addr(2) by (rule str_bytes_nonzero)
    then show "reg_value hk va w1 reg ''dosbox_server_addr'' = Some (REG_SZ, str_bytes addr)"
      by (simp add: val main_values_def upper_names addr c_string_id)
  qed
  ultimately show ?thesis
    using frame addr
    by (cases config) (auto simp: get_main_config_def o load_config_def reg_get_flag_def
        check_frame_type_def load_v1_config_def Let_def default_config_def ucast_u16_u32 split: prod.splits)
qed

text \<open>
  C15. The main configuration survives the registry. Once \<open>set_main_config\<close> reports success,
  \<open>get_main_config\<close> (ignoring the ini file, as the configuration tool does) reads back the
  very same settings, provided the key can be opened, memory can be had, the frame type is one
  of the three known ones and the server address is a C string.
\<close>

theorem main_config_roundtrip:
  assumes "reg_laws api hk va" and "set_main_config api config w = Some (True, w')"
    and "fst (reg_open_main api False w') \<noteq> 0"
    and "mc_dosbox_server_addr config = Some addr" and "CHR 0x00 \<notin> set addr"
    and "mc_frame_type config \<in> {FRAME_TYPE_ETH_II, FRAME_TYPE_NOVELL, FRAME_TYPE_LLC}"
  shows "map_option fst (get_main_config api ini mem True strdup_ok True w') = Some config"
proof -
  obtain reg w1 where o: "reg_open_main api False w' = (reg, w1)" by (cases "reg_open_main api False w'")
  have "va w' MAIN_PATH = put_values (main_values config) (va w MAIN_PATH)"
    using set_main_config_values [OF assms(1,2)] assms(4) by simp
  from get_main_config_stored [OF assms(1) o _ this assms(4-6)] assms(3) o show ?thesis by simp
qed

lemma mem_all_ok:
  "mem_hk w key = Some p \<Longrightarrow> key \<noteq> 0 \<Longrightarrow>
     \<exists>w'. all_ok (set_ops mem_api key vs) w = (True, w') \<and> mem_hk w' = mem_hk w \<and>
       snd (snd w') = snd (snd w) \<and> fst w' = fst w"
proof (induction vs arbitrary: w)
  case (Cons v vs)
  obtain name ty data where v: "v = (name, ty, data)" by (cases v)
  from mem_set_ok [OF Cons.prems, of ty name data] obtain w2
    where w2: "reg_set_value mem_api ty key name data w = (True, w2)" "mem_hk w2 = mem_hk w"
      "snd (snd w2) = snd (snd w)" "fst w2 = fst w" by blast
  with Cons.IH [of w2] Cons.prems show ?case by (simp add: v)
qed simp

definition sample_config :: main_config where
  "sample_config = default_config\<lparr>mc_dosbox_server_addr := Some ''ipx.example'', mc_frame_type := 3,
     mc_dosbox_server_port := 4213, mc_rate_limit_bytes := 9600\<rparr>"

theorem main_config_roundtrip_witness:
  "\<exists>w'. set_main_config mem_api sample_config mem_init = Some (True, w') \<and>
        map_option fst (get_main_config mem_api None (\<lambda>_. True) True True True w') = Some sample_config"
proof -
  have o: "reg_open_main mem_api True mem_init =
      (1, ((\<lambda>_. None)(1 \<mapsto> MAIN_PATH), (\<lambda>_ _. None), 2))" (is "_ = (1, ?w1)")
    using mem_open_ok [of mem_init HKEY_CURRENT_USER "[]" IPXWRAPPER_KEY True]
    by (simp add: reg_open_main_def mem_hk_def mem_init_def MAIN_PATH_def HKEY_CURRENT_USER_def numeral_2_eq_2)
  obtain w2 where w2: "all_ok (set_ops mem_api 1 (main_values sample_config)) ?w1 = (True, w2)"
    and snd2: "snd (snd w2) = 2" "fst w2 = fst ?w1"
    using mem_all_ok [of ?w1 1 MAIN_PATH "main_values sample_config"]
    by (auto simp: mem_hk_def HKEY_CURRENT_USER_def)
  let ?w' = "reg_close mem_api 1 w2"
  have set: "set_main_config mem_api sample_config mem_init = Some (True, ?w')"
    by (subst set_main_config_eq)
      (simp_all add: o w2 sample_config_def [THEN arg_cong [of _ _ mc_dosbox_server_addr]] del: One_nat_def)
  have "fst (reg_open_main mem_api False ?w') \<noteq> 0"
    using mem_open_ok [of ?w' HKEY_CURRENT_USER "[]" IPXWRAPPER_KEY False] snd2
    by (simp add: reg_open_main_def mem_hk_def reg_close_def mem_api_def HKEY_CURRENT_USER_def)
  from main_config_roundtrip [OF mem_laws set this, of "''ipx.example''" None "\<lambda>_. True" True]
  have "map_option fst (get_main_config mem_api None (\<lambda>_. True) True True True ?w') = Some sample_config"
    by (simp add: sample_config_def config_codes)
  with set show ?thesis by blast
qed

definition ini_inv :: "(nat \<Rightarrow> bool) \<Rightarrow> main_config \<Rightarrow> bool" where
  "ini_inv mem config \<longleftrightarrow>
     mc_frame_type config = FRAME_TYPE_ETH_II \<and>
     (if mc_encap_type config = ENCAP_TYPE_DOSBOX
      then mc_dosbox_server_addr config \<noteq> None \<or> (\<exists>i. \<not> mem i)
      else mc_encap_type config = ENCAP_TYPE_IPXWRAPPER \<and> mc_dosbox_server_addr config = None) \<and>
     mc_dosbox_server_port config \<noteq> 0 \<and>
     mc_log_level config \<in> {LOG_CALL, LOG_DEBUG, LOG_INFO, LOG_DISABLED} \<and>
     unat (mc_rate_limit_packets config) < 2 ^ 31 \<and> unat (mc_rate_limit_bytes config) < 2 ^ 31"

lemma atoi_upper: "atoi s < 2 ^ 31"
  by (simp add: atoi_def Let_def)

lemma unat_atoi: "0 < atoi s \<Longrightarrow> unat (of_int (atoi s) :: u32) < 2147483648"
proof -
  assume pos: "0 < atoi s"
  have lt: "atoi s < 2147483648" using atoi_upper [of s] by simp
  have "unat (of_int (atoi s) :: u32) = nat (atoi s)"
    using pos lt by (simp add: unsigned_of_int take_bit_int_eq_self)
  with pos lt show ?thesis by linarith
qed

lemma port_nonzero: "1 \<le> n \<Longrightarrow> n \<le> 65535 \<Longrightarrow> (of_int n :: u16) \<noteq> 0"
proof
  assume n: "1 \<le> n" "n \<le> 65535" and "(of_int n :: u16) = 0"
  then have "uint (of_int n :: u16) = 0" by simp
  with n show False by (simp add: unsigned_of_int take_bit_int_eq_self)
qed

lemma ini_inv_updates:
  assumes "ini_inv mem config"
  shows "ini_inv mem (config\<lparr>mc_dosbox_server_addr := Some a, mc_encap_type := ENCAP_TYPE_DOSBOX\<rparr>)"
    and "\<not> mem i \<Longrightarrow> ini_inv mem (config\<lparr>mc_dosbox_server_addr := None\<rparr>)"
    and "1 \<le> n \<Longrightarrow> n \<le> 65535 \<Longrightarrow> ini_inv mem (config\<lparr>mc_dosbox_server_port := of_int n\<rparr>)"
    and "ini_inv mem (config\<lparr>mc_dosbox_coalesce := b\<rparr>)" and "ini_inv mem (config\<lparr>mc_fw_except := b\<rparr>)"
    and "l \<in> {LOG_CALL, LOG_DEBUG, LOG_INFO, LOG_DISABLED} \<Longrightarrow> ini_inv mem (config\<lparr>mc_log_level := l\<rparr>)"
    and "0 < atoi v \<Longrightarrow> ini_inv mem (config\<lparr>mc_rate_limit_packets := of_int (atoi v)\<rparr>)"
    and "0 < atoi v \<Longrightarrow> ini_inv mem (config\<lparr>mc_rate_limit_bytes := of_int (atoi v)\<rparr>)"
  using assms port_nonzero [of n] unat_atoi [of v] by (auto simp: ini_inv_def split: if_splits)

lemma ini_inv_if:
  "(b \<Longrightarrow> ini_inv mem c) \<Longrightarrow> (\<not> b \<Longrightarrow> ini_inv mem c') \<Longrightarrow> ini_inv mem (if b then c else c')"
  by simp

lemma process_ini_directive_inv:
  assumes "ini_inv mem config"
  shows "ini_inv mem (process_ini_directive (mem i) d config)"
proof -
  obtain sec name v where d: "d = (sec, name, v)" by (cases d)
  show ?thesis
    unfolding d process_ini_directive_def prod.case Let_def
    by (intro ini_inv_if ini_inv_updates assms) auto
qed

lemma process_ini_inv:
  assumes "ini_inv mem config"
  shows "ini_inv mem (process_ini mem ds config)"
proof -
  have "ini_inv mem (fold (\<lambda>(i, d). process_ini_directive (mem i) d) (enumerate n ds) config)" for n
    using assms
    by (induction ds arbitrary: n config) (simp_all add: process_ini_directive_inv)
  then show ?thesis by (simp add: process_ini_def)
qed

lemma ini_inv_default: "ini_inv mem default_config"
  by (simp add: ini_inv_def default_config_def config_codes)


lemma sample_ini_file:
  "ini_directives (ini_print [([], ''dosbox server address'', ''ipx.example''), ([], ''dosbox server port'', ''70000'')]) =
     [([], ''dosbox server address'', ''ipx.example''), ([], ''dosbox server port'', ''70000'')]"
  by (rule ini_directives_print)
    (simp add: ini_printable_def ini_text_def ini_trimmed_def is_space_def NUL_def NEWLINE_def MAX_SECTION_def INI_MAX_LINE_def)


subsection \<open>Interfaces and the primary interface\<close>

definition iface_values :: "iface_config \<Rightarrow> (string \<times> u32 \<times> bytes) list" where
  "iface_values config =
     [(''net'', REG_BINARY, addr32_out (ic_netnum config)),
      (''node'', REG_BINARY, addr48_out (ic_nodenum config)),
      (''enabled'', REG_DWORD, le_bytes 4 (of_bool32 (ic_enabled config)))]"

definition IFACE_PATH :: "u64 \<Rightarrow> string" where
  "IFACE_PATH hwaddr = sub_path MAIN_PATH (addr48_string hwaddr)"

lemma open_iface_laws:
  assumes laws: "reg_laws api hk va" and o: "reg_open_main api rw w = (reg, w1)"
    and oi: "reg_open_subkey api reg (addr48_string hwaddr) rw w1 = (ifreg, w2)" and ifreg: "ifreg \<noteq> 0"
  shows "hk w2 ifreg = Some (IFACE_PATH hwaddr)" and "va w2 = va w"
    and "reg \<noteq> HKEY_CURRENT_USER" and "ifreg \<noteq> HKEY_CURRENT_USER"
proof -
  have "reg \<noteq> 0" using oi ifreg by (cases "reg = 0") (simp_all add: reg_open_subkey_def)
  with reg_open_main_laws [OF laws o]
  have k: "hk w1 reg = Some MAIN_PATH" "va w1 = va w" "reg \<noteq> HKEY_CURRENT_USER" by auto
  note i = reg_laws_open [OF laws k(1) oi]
  show "hk w2 ifreg = Some (IFACE_PATH hwaddr)" "va w2 = va w" "reg \<noteq> HKEY_CURRENT_USER"
    using i ifreg k by (auto simp: IFACE_PATH_def)
  show "ifreg \<noteq> HKEY_CURRENT_USER" using i ifreg reg_laws_handles(1) [OF laws, of w1] by auto
qed

lemma set_iface_config_values:
  assumes laws: "reg_laws api hk va" and set: "set_iface_config api hwaddr config w = (True, w')"
  shows "va w' = (va w)(IFACE_PATH hwaddr := put_values (iface_values config) (va w (IFACE_PATH hwaddr)))"
proof -
  obtain reg w1 where o: "reg_open_main api True w = (reg, w1)" by (cases "reg_open_main api True w")
  obtain ifreg w2 where oi: "reg_open_subkey api reg (addr48_string hwaddr) True w1 = (ifreg, w2)"
    by (cases "reg_open_subkey api reg (addr48_string hwaddr) True w1")
  have ops: "[reg_set_addr32 api ifreg ''net'' (ic_netnum config),
      reg_set_addr48 api ifreg ''node'' (ic_nodenum config),
      reg_set_dword api ifreg ''enabled'' (of_bool32 (ic_enabled config))] =
      set_ops api ifreg (iface_values config)"
    by (simp add: iface_values_def set_op_simps)
  obtain w3 where w3: "all_ok (set_ops api ifreg (iface_values config)) w2 = (True, w3)"
    and w': "w' = reg_close api reg (reg_close api ifreg w3)"
    using set unfolding set_iface_config_def o oi Let_def prod.case ops by (auto split: prod.splits)
  have "ifreg \<noteq> 0" using all_ok_key [OF w3] by (simp add: iface_values_def)
  note k = open_iface_laws [OF laws o oi this]
  show ?thesis
    using all_ok_set_ops [OF laws k(1) w3] k(2) reg_laws_close(1) [OF laws k(3)]
      reg_laws_close(1) [OF laws k(4)] by (simp add: w')
qed

text \<open>
  The settings of an interface survive the registry: once \<open>set_iface_config\<close> reports
  success, \<open>get_iface_config\<close> for the same hardware address returns the same network number,
  node number and enabled flag and generates nothing, provided its keys can be opened and the
  interface is not the wildcard one with an unset node number.
\<close>

theorem iface_config_roundtrip:
  assumes "reg_laws api hk va" and "set_iface_config api hwaddr config w = (True, w')"
    and "reg_open_main api False w' = (reg, w1)"
    and "fst (reg_open_subkey api reg (addr48_string hwaddr) False w1) \<noteq> 0"
    and "addr48_ok (ic_nodenum config)"
    and "hwaddr \<noteq> WILDCARD_IFACE_HWADDR \<or> ic_nodenum config \<noteq> hwaddr"
  shows "\<exists>w''. get_iface_config api srand rand ticks hwaddr s w' = (config, s, w'')"
proof -
  obtain ifreg w2 where oi: "reg_open_subkey api reg (addr48_string hwaddr) False w1 = (ifreg, w2)"
    and ifreg: "ifreg \<noteq> 0"
    using assms(4) by (cases "reg_open_subkey api reg (addr48_string hwaddr) False w1") auto
  note k = open_iface_laws [OF assms(1,3) oi ifreg]
  have val: "reg_value hk va w2 ifreg name =
      put_values (iface_values config) (va w (IFACE_PATH hwaddr)) (upper name)" for name
    by (simp add: reg_value_def k set_iface_config_values [OF assms(1,2)])
  have "reg_get_addr32 api ifreg ''net'' d w2 = ic_netnum config" for d
    unfolding reg_get_addr32_def
    by (rule net_value.get_stored [OF assms(1) k(1) TrueI, of _ REG_BINARY])
      (simp add: val iface_values_def upper_names)
  moreover have "reg_get_addr48 api ifreg ''node'' d w2 = ic_nodenum config" for d
    unfolding reg_get_addr48_def
    by (rule node_value.get_stored [OF assms(1) k(1) assms(5), of _ REG_BINARY])
      (simp add: val iface_values_def upper_names)
  moreover have "reg_get_dword api ifreg ''enabled'' d w2 = of_bool32 (ic_enabled config)" for d
    by (rule reg_get_dword_stored [OF assms(1) k(1), of _ REG_DWORD])
      (simp add: val iface_values_def upper_names)
  ultimately show ?thesis
    using assms(3,6) oi ifreg by (auto simp: get_iface_config_def Let_def)
qed

lemma sample_iface_stored:
  "\<exists>w'. set_iface_config mem_api 0x0A0B0C0D0E0F0000 \<lparr>ic_netnum = 7, ic_nodenum = 0x30000, ic_enabled = False\<rparr>
      mem_init = (True, w') \<and> fst w' = (\<lambda>_. None) \<and> snd (snd w') = 3"
proof -
  let ?id = "addr48_string 0x0A0B0C0D0E0F0000"
  let ?c = "\<lparr>ic_netnum = 7, ic_nodenum = 0x30000, ic_enabled = False\<rparr>"
  have o: "reg_open_main mem_api True mem_init = (1, ((\<lambda>_. None)(1 \<mapsto> MAIN_PATH), (\<lambda>_ _. None), 2))"
    (is "_ = (1, ?w1)")
    using mem_open_ok [of mem_init HKEY_CURRENT_USER "[]" IPXWRAPPER_KEY True]
    by (simp add: reg_open_main_def mem_hk_def mem_init_def MAIN_PATH_def HKEY_CURRENT_USER_def numeral_2_eq_2)
  have oi: "reg_open_subkey mem_api 1 ?id True ?w1 =
      (2, ((\<lambda>_. None)(1 \<mapsto> MAIN_PATH, 2 \<mapsto> sub_path MAIN_PATH ?id), (\<lambda>_ _. None), 3))" (is "_ = (2, ?w2)")
    by (subst mem_open_ok [of ?w1 1 MAIN_PATH]) (simp_all add: mem_hk_def HKEY_CURRENT_USER_def)
  obtain w3 where w3: "all_ok (set_ops mem_api 2 (iface_values ?c)) ?w2 = (True, w3)"
    "snd (snd w3) = 3" "fst w3 = fst ?w2"
    using mem_all_ok [of ?w2 2 "sub_path MAIN_PATH ?id" "iface_values ?c"]
    by (auto simp: mem_hk_def HKEY_CURRENT_USER_def)
  have ops: "[reg_set_addr32 mem_api 2 ''net'' (ic_netnum ?c), reg_set_addr48 mem_api 2 ''node'' (ic_nodenum ?c),
      reg_set_dword mem_api 2 ''enabled'' (of_bool32 (ic_enabled ?c))] = set_ops mem_api 2 (iface_values ?c)"
    by (simp add: iface_values_def set_op_simps)
  have "set_iface_config mem_api 0x0A0B0C0D0E0F0000 ?c mem_init =
      (True, reg_close mem_api 1 (reg_close mem_api 2 w3))"
    unfolding set_iface_config_def o oi Let_def prod.case ops w3(1) ..
  moreover have "fst (reg_close mem_api 1 (reg_close mem_api 2 w3)) = (\<lambda>_. None)"
    using w3(3) by (auto simp: reg_close_def mem_api_def fun_eq_iff)
  moreover have "snd (snd (reg_close mem_api 1 (reg_close mem_api 2 w3))) = 3"
    using w3(2) by (simp add: reg_close_def mem_api_def)
  ultimately show ?thesis by blast
qed

theorem iface_config_roundtrip_witness:
  "\<exists>w' w''. set_iface_config mem_api 0x0A0B0C0D0E0F0000
       \<lparr>ic_netnum = 7, ic_nodenum = 0x30000, ic_enabled = False\<rparr> mem_init = (True, w') \<and>
     get_iface_config mem_api (\<lambda>_. 0) (\<lambda>g. (g, g)) 5 0x0A0B0C0D0E0F0000 \<lparr>rng_seeded = False, rng_state = 0 :: nat\<rparr> w'
       = (\<lparr>ic_netnum = 7, ic_nodenum = 0x30000, ic_enabled = False\<rparr>, \<lparr>rng_seeded = False, rng_state = 0\<rparr>, w'')"
proof -
  let ?id = "addr48_string 0x0A0B0C0D0E0F0000"
  obtain w' where w': "set_iface_config mem_api 0x0A0B0C0D0E0F0000
      \<lparr>ic_netnum = 7, ic_nodenum = 0x30000, ic_enabled = False\<rparr> mem_init = (True, w')"
    "fst w' = (\<lambda>_. None)" "snd (snd w') = 3"
    using sample_iface_stored by blast
  have o: "reg_open_main mem_api False w' = (3, ((\<lambda>_. None)(3 \<mapsto> MAIN_PATH), fst (snd w'), 4))"
    (is "_ = (3, ?w1)")
    using mem_open_ok [of w' HKEY_CURRENT_USER "[]" IPXWRAPPER_KEY False] w'
    by (simp add: reg_open_main_def mem_hk_def MAIN_PATH_def HKEY_CURRENT_USER_def)
  have "fst (reg_open_subkey mem_api 3 ?id False ?w1) \<noteq> 0"
    by (subst mem_open_ok [of ?w1 3 MAIN_PATH]) (simp_all add: mem_hk_def HKEY_CURRENT_USER_def)
  from iface_config_roundtrip [OF mem_laws w'(1) o this, of "\<lambda>_. 0" "\<lambda>g. (g, g)" 5]
  show ?thesis using w'(1)
    by (fastforce simp: addr48_ok_def WILDCARD_IFACE_HWADDR_def addr48_in_def)
qed

lemma primary_loop_finds:
  assumes "\<And>i. index \<le> i \<Longrightarrow> i < index + n \<Longrightarrow>
      \<not> legacy_primary (reg_enum_buf api reg i w) \<and> fst (reg_enum_buf api reg i w) \<noteq> ERROR_NO_MORE_ITEMS"
  shows "primary_loop api reg w primary index = primary_loop api reg w primary (index + n)"
  using assms
proof (induction n arbitrary: index)
  case (Suc n)
  have "primary_loop api reg w primary index = primary_loop api reg w primary (Suc index)"
    using Suc.prems [of index] by (subst primary_loop.simps) (simp add: Let_def)
  also have "\<dots> = primary_loop api reg w primary (Suc index + n)"
    by (rule Suc.IH) (use Suc.prems in auto)
  finally show ?case by simp
qed simp

text \<open>
  The search for a pre-0.4.x primary interface, run when there is no value named
  \<open>primary\<close>, returns for every registry whose enumeration comes to an end: the node number of
  the first enumerated value (before the end) that is a flagged interface record named by an
  address, and the all-ones default when there is none.
\<close>

theorem primary_loop_result:
  assumes "fst (reg_enum_buf api reg n w) = ERROR_NO_MORE_ITEMS"
    and "\<And>i. i < n \<Longrightarrow> fst (reg_enum_buf api reg i w) \<noteq> ERROR_NO_MORE_ITEMS"
  shows "primary_loop api reg w primary 0 =
    Some (case find legacy_primary (map (\<lambda>i. reg_enum_buf api reg i w) [0..<n]) of
            None \<Rightarrow> primary
          | Some (err, name, config) \<Rightarrow> addr48_in (slice config 4 6))"
proof -
  let ?e = "\<lambda>i. reg_enum_buf api reg i w"
  show ?thesis
  proof (cases "\<exists>i<n. legacy_primary (?e i)")
    case True
    define k where "k = (LEAST i. legacy_primary (?e i))"
    have k: "legacy_primary (?e k)" and least: "\<And>i. i < k \<Longrightarrow> \<not> legacy_primary (?e i)"
      using True LeastI_ex [of "\<lambda>i. legacy_primary (?e i)"] not_less_Least
      unfolding k_def by blast+
    from True have kn: "k < n" unfolding k_def by (auto intro: Least_le [THEN le_less_trans])
    have "primary_loop api reg w primary 0 = primary_loop api reg w primary k"
      using primary_loop_finds [of 0 k api reg w primary] least assms(2) kn by simp
    also have "\<dots> = Some (addr48_in (slice (snd (snd (?e k))) 4 6))"
      using k by (subst primary_loop.simps) (simp add: Let_def)
    also have "find legacy_primary (map ?e [0..<n]) = Some (?e k)"
      unfolding find_Some_iff using k least kn by (intro exI [of _ k]) auto
    ultimately show ?thesis by (simp split: prod.splits)
  next
    case False
    have last: "\<not> legacy_primary (?e n)"
      using assms(1) by (auto simp: legacy_primary_def reg_codes)
    have "primary_loop api reg w primary 0 = primary_loop api reg w primary n"
      using primary_loop_finds [of 0 n api reg w primary] False assms(2) by simp
    also have "\<dots> = Some primary"
      using last assms(1) by (subst primary_loop.simps) (simp add: Let_def)
    moreover have "find legacy_primary (map ?e [0..<n]) = None"
      using False by (auto simp: find_None_iff)
    ultimately show ?thesis by simp
  qed
qed

theorem primary_loop_result_witness:
  "primary_loop mem_api 1 mem_init 5 0 = Some 5"
proof -
  have "fst (reg_enum_buf mem_api 1 0 mem_init) = ERROR_NO_MORE_ITEMS"
    by (simp add: reg_enum_buf_def mem_api_def reg_codes)
  from primary_loop_result [OF this] show ?thesis by simp
qed

text \<open>
  An enumeration error other than \<open>ERROR_NO_MORE_ITEMS\<close> is only logged: when it persists
  (the key was deleted meanwhile, say) \<open>get_primary_iface\<close> never returns.
\<close>

theorem get_primary_iface_diverges:
  assumes "reg_open_main api False w = (reg, w1)" and "reg \<noteq> 0"
    and "\<not> reg_check_value api reg ''primary'' w1"
    and "\<And>i. fst (RegEnumValue api reg i w1) \<notin> {ERROR_SUCCESS, ERROR_NO_MORE_ITEMS}"
  shows "get_primary_iface api w = None"
proof -
  have e: "fst (reg_enum_buf api reg i w1) = fst (RegEnumValue api reg i w1)" for i
    using assms(4) [of i] by (auto simp: reg_enum_buf_def split: prod.splits)
  have step: "\<not> legacy_primary (reg_enum_buf api reg i w1) \<and>
      fst (reg_enum_buf api reg i w1) \<noteq> ERROR_NO_MORE_ITEMS" for i
    using assms(4) [of i] e [of i] by (auto simp: legacy_primary_def)
  have "api' = api \<longrightarrow> reg' = reg \<longrightarrow> w' = w1 \<longrightarrow> False"
    if "primary_loop api' reg' w' p i = Some x" for api' reg' w' p i x
    using that
    by (rule primary_loop.raw_induct
        [where P = "\<lambda>api' reg' w' p i x. api' = api \<longrightarrow> reg' = reg \<longrightarrow> w' = w1 \<longrightarrow> False", rotated])
      (use step in \<open>auto simp: Let_def split: if_splits\<close>)
  then have "primary_loop api reg w1 p i \<noteq> Some x" for p i x by blast
  then have "primary_loop api reg w1 p i = None" for p i by (meson option.exhaust)
  then show ?thesis using assms by (simp add: get_primary_iface_def Let_def)
qed

definition failing_api :: "mem_reg reg_api" where
  "failing_api = mem_api\<lparr>RegEnumValue := (\<lambda>key index w. (1018, [], []))\<rparr>"

theorem get_primary_iface_diverges_witness: "get_primary_iface failing_api mem_init = None"
proof -
  let ?w1 = "((\<lambda>_. None)(1 \<mapsto> MAIN_PATH), (\<lambda>_ _. None), 2) :: mem_reg"
  have "reg_open_main mem_api False mem_init = (1, ?w1)"
    using mem_open_ok [of mem_init HKEY_CURRENT_USER "[]" IPXWRAPPER_KEY False]
    by (simp add: reg_open_main_def mem_hk_def mem_init_def MAIN_PATH_def HKEY_CURRENT_USER_def numeral_2_eq_2)
  moreover have "reg_open_main failing_api False mem_init = reg_open_main mem_api False mem_init"
    by (simp add: reg_open_main_def reg_open_subkey_def failing_api_def)
  ultimately have "reg_open_main failing_api False mem_init = (1, ?w1)" by simp
  then show ?thesis
    by (rule get_primary_iface_diverges)
      (simp_all add: reg_check_value_def failing_api_def mem_api_def mem_hk_def mem_va_def
        HKEY_CURRENT_USER_def reg_codes)
qed

end
