(* ===== verification/Interface.thy ===== *)
theory Interface
  imports Config
begin

text \<open>
  The IPX interfaces (interface.c, interface2.c): the list made from the system's adapters and
  their settings, the cache of it that is reloaded when it is older than five seconds, and the
  lookups the sockets and the router make. The \<open>utlist.h\<close> lists are lists, a \<open>NULL\<close> list the
  empty one. \<open>None\<close> is a call that crashes or does not return. The lock
  \<open>interface_cache_cs\<close> makes every public operation atomic.
\<close>

subsection \<open>The system\<close>

text \<open>
  An adapter as \<open>GetAdaptersInfo\<close> reports it, its dotted-quad addresses and masks already as
  \<open>inet_addr\<close> returns them: integers whose bytes in memory are the address on the wire.
\<close>

record adapter =
  ad_name :: string
  ad_address :: bytes
  ad_addrlen :: nat
  ad_ips :: "(u32 \<times> u32) list"

text \<open>
  What the system answers: the registry calls, the C library's generator, the outcome of the
  \<open>n\<close>-th allocation, of the \<open>n\<close>-th call of \<open>GetAdaptersInfo\<close> (an error code and the
  adapters), the routing table (destination and mask of each route, \<open>None\<close> when it cannot be
  fetched), the WinPcap devices (name and description, \<open>None\<close> on failure) and the handle
  \<open>pcap_open\<close> returns for a name. The state is the registry's, the generator's and the
  number of allocations and adapter queries made.
\<close>

record ('w, 's) sysenv =
  env_reg :: "'w reg_api"
  env_srand :: "u32 \<Rightarrow> 's"
  env_rand :: "'s \<Rightarrow> nat \<times> 's"
  env_ticks :: u32
  env_mem :: "nat \<Rightarrow> bool"
  env_adapters :: "nat \<Rightarrow> u32 \<times> adapter list"
  env_routes :: "(u32 \<times> u32) list option"
  env_pcap_devs :: "(string \<times> string option) list option"
  env_pcap_open :: "string \<Rightarrow> nat"

record ('w, 's) sysst =
  st_reg :: 'w
  st_rng :: "'s rng"
  st_allocs :: nat
  st_queries :: nat

definition sys_malloc :: "('w, 's) sysenv \<Rightarrow> ('w, 's) sysst \<Rightarrow> bool \<times> ('w, 's) sysst" where
  "sys_malloc env st = (env_mem env (st_allocs st), st\<lparr>st_allocs := Suc (st_allocs st)\<rparr>)"

definition sys_iface_config ::
  "('w, 's) sysenv \<Rightarrow> u64 \<Rightarrow> ('w, 's) sysst \<Rightarrow> iface_config \<times> ('w, 's) sysst" where
  "sys_iface_config env hwaddr st =
     (case get_iface_config (env_reg env) (env_srand env) (env_rand env) (env_ticks env) hwaddr
             (st_rng st) (st_reg st) of
        (config, rng, reg) \<Rightarrow> (config, st\<lparr>st_rng := rng, st_reg := reg\<rparr>))"

definition sys_primary_iface :: "('w, 's) sysenv \<Rightarrow> ('w, 's) sysst \<Rightarrow> (u64 \<times> ('w, 's) sysst) option" where
  "sys_primary_iface env st =
     (case get_primary_iface (env_reg env) (st_reg st) of
        None \<Rightarrow> None
      | Some (primary, reg) \<Rightarrow> Some (primary, st\<lparr>st_reg := reg\<rparr>))"

definition ERROR_BUFFER_OVERFLOW :: u32 where "ERROR_BUFFER_OVERFLOW = 111"

text \<open>The query with a buffer that is enlarged until the adapters fit; it may go on for ever.\<close>

partial_function (option) query_adapters ::
  "('w, 's) sysenv \<Rightarrow> ('w, 's) sysst \<Rightarrow> (adapter list option \<times> ('w, 's) sysst) option" where
  "query_adapters env st =
     (let (ok, st) = sys_malloc env st in
      if \<not> ok then Some (None, st)
      else
        let (err, adapters) = env_adapters env (st_queries st);
            st = st\<lparr>st_queries := Suc (st_queries st)\<rparr>
        in if err = ERROR_BUFFER_OVERFLOW then query_adapters env st
           else if err \<noteq> ERROR_SUCCESS then Some (None, st)
           else Some (Some adapters, st))"

definition fix_hamachi :: "adapter \<Rightarrow> adapter" where
  "fix_hamachi ifptr =
     (if ad_addrlen ifptr = 6 \<and> take 6 (ad_address ifptr) = [0x7A, 0x79, 0, 0, 0, 0]
      then
        let ipaddr = (case ad_ips ifptr of [] \<Rightarrow> 0 | (ip, _) # _ \<Rightarrow> ip)
        in if ipaddr \<noteq> 0
           then ifptr\<lparr>ad_address :=
                  take 2 (ad_address ifptr) @ le_bytes 4 ipaddr @ drop 6 (ad_address ifptr)\<rparr>
           else ifptr
      else ifptr)"

definition load_sys_interfaces ::
  "('w, 's) sysenv \<Rightarrow> ('w, 's) sysst \<Rightarrow> (adapter list \<times> ('w, 's) sysst) option" where
  "load_sys_interfaces env st =
     (case query_adapters env st of
        None \<Rightarrow> None
      | Some (None, st) \<Rightarrow> Some ([], st)
      | Some (Some adapters, st) \<Rightarrow> Some (map fix_hamachi adapters, st))"

subsection \<open>IP addresses of an interface\<close>

record iface_ip =
  ip_ipaddr :: u32
  ip_netmask :: u32
  ip_bcast :: u32

record ipx_interface =
  if_net :: u32
  if_node :: u64
  if_ips :: "iface_ip list"
  if_mac :: u64
  if_pcap :: nat

definition new_iface :: "('w, 's) sysenv \<Rightarrow> u32 \<Rightarrow> u64 \<Rightarrow> ('w, 's) sysst
    \<Rightarrow> (ipx_interface \<times> ('w, 's) sysst) option" where
  "new_iface env net node st =
     (let (ok, st) = sys_malloc env st in
      if ok then Some (\<lparr>if_net = net, if_node = node, if_ips = [], if_mac = 0, if_pcap = 0\<rparr>, st)
      else None)"

definition ntohl :: "u32 \<Rightarrow> u32" where
  "ntohl w = le_word (rev (le_bytes 4 w))"

text \<open>One pass over the routing table for a point-to-point address.\<close>

fun route_netmask :: "u32 \<Rightarrow> (u32 \<times> u32) list \<Rightarrow> u32 \<Rightarrow> u32" where
  "route_netmask ipaddr [] netmask = netmask"
| "route_netmask ipaddr ((dest, msk) # table) netmask =
     (let a_ip = ntohl ipaddr; a_mask = ntohl netmask; r_net = ntohl dest; r_mask = ntohl msk
      in route_netmask ipaddr table
           (if r_mask > 0 \<and> r_mask < a_mask \<and> a_ip AND r_mask = r_net then msk else netmask))"

definition FULL_MASK :: u32 where
  "FULL_MASK = 0xFFFFFFFF"

fun push_addr :: "('w, 's) sysenv \<Rightarrow> (u32 \<times> u32) list \<Rightarrow> ipx_interface \<Rightarrow> ('w, 's) sysst
    \<Rightarrow> bool \<times> ipx_interface \<times> ('w, 's) sysst" where
  "push_addr env [] iface st = (True, iface, st)"
| "push_addr env ((ipaddr, netmask) # ips) iface st =
     (if ipaddr = 0 then push_addr env ips iface st
      else
        let (ok, netmask, st) =
              (if netmask = FULL_MASK then
                 let (ok, st) = sys_malloc env st in
                 case (if ok then env_routes env else None) of
                   None \<Rightarrow> (False, netmask, st)
                 | Some table \<Rightarrow> (True, route_netmask ipaddr table netmask, st)
               else (True, netmask, st))
        in if \<not> ok then (False, iface, st)
           else
             let (ok, st) = sys_malloc env st in
             if \<not> ok then (False, iface, st)
             else push_addr env ips
                    (iface\<lparr>if_ips := if_ips iface @
                       [\<lparr>ip_ipaddr = ipaddr, ip_netmask = netmask, ip_bcast = ipaddr OR NOT netmask\<rparr>]\<rparr>) st)"

subsection \<open>The list of interfaces\<close>

text \<open>
  The wildcard interface stays in the list while addresses are still appended to it, so the
  list is kept as what is before it, itself, and what is after it.
\<close>

type_synonym nic_list = "ipx_interface list \<times> ipx_interface option \<times> ipx_interface list"

definition nics :: "nic_list \<Rightarrow> ipx_interface list" where
  "nics l = (case l of (pre, wc, post) \<Rightarrow> pre @ (case wc of None \<Rightarrow> [] | Some i \<Rightarrow> [i]) @ post)"

definition nics_prepend :: "ipx_interface \<Rightarrow> nic_list \<Rightarrow> nic_list" where
  "nics_prepend i l = (case l of (pre, wc, post) \<Rightarrow> (i # pre, wc, post))"

definition nics_append :: "ipx_interface \<Rightarrow> nic_list \<Rightarrow> nic_list" where
  "nics_append i l = (case l of (pre, wc, post) \<Rightarrow> (pre, wc, post @ [i]))"

definition push_wildcard :: "('w, 's) sysenv \<Rightarrow> (u32 \<times> u32) list \<Rightarrow> nic_list \<Rightarrow> ('w, 's) sysst
    \<Rightarrow> bool \<times> nic_list \<times> ('w, 's) sysst" where
  "push_wildcard env ips l st =
     (case l of
        (pre, None, post) \<Rightarrow> (True, l, st)
      | (pre, Some wc, post) \<Rightarrow>
          (case push_addr env ips wc st of (ok, wc, st) \<Rightarrow> (ok, (pre, Some wc, post), st)))"

text \<open>
  The loop over the adapters; \<open>Inl\<close> is the early return of \<open>NULL\<close> when an address cannot be
  added. An interface is in the list when its addresses are added to it, but a list whose
  construction fails is freed, so adding them first makes no difference.
\<close>

fun load_adapters :: "('w, 's) sysenv \<Rightarrow> u64 \<Rightarrow> adapter list \<Rightarrow> nic_list \<Rightarrow> ('w, 's) sysst
    \<Rightarrow> ((unit + nic_list) \<times> ('w, 's) sysst) option" where
  "load_adapters env primary [] l st = Some (Inr l, st)"
| "load_adapters env primary (ifptr # rest) l st =
     (let hwaddr = addr48_in (ad_address ifptr);
          (config, st) = sys_iface_config env hwaddr st;
          (ok, l, st) = push_wildcard env (ad_ips ifptr) l st
      in if \<not> ok then Some (Inl (), st)
         else if \<not> ic_enabled config then load_adapters env primary rest l st
         else
           case new_iface env (ic_netnum config) (ic_nodenum config) st of
             None \<Rightarrow> None
           | Some (iface, st) \<Rightarrow>
               (case push_addr env (ad_ips ifptr) iface st of
                  (ok, iface, st) \<Rightarrow>
                    if \<not> ok then Some (Inl (), st)
                    else load_adapters env primary rest
                           (if hwaddr = primary then nics_prepend iface l else nics_append iface l) st))"

definition load_ipx_interfaces ::
  "('w, 's) sysenv \<Rightarrow> ('w, 's) sysst \<Rightarrow> (ipx_interface list \<times> ('w, 's) sysst) option" where
  "load_ipx_interfaces env st =
     (case load_sys_interfaces env st of
        None \<Rightarrow> None
      | Some (adapters, st) \<Rightarrow>
          (case sys_primary_iface env st of
             None \<Rightarrow> None
           | Some (primary, st) \<Rightarrow>
               let (wc_config, st) = sys_iface_config env WILDCARD_IFACE_HWADDR st;
                   start =
                     (if ic_enabled wc_config
                      then (case new_iface env (ic_netnum wc_config) (ic_nodenum wc_config) st of
                              None \<Rightarrow> None
                            | Some (wc_iface, st) \<Rightarrow> Some (([], Some wc_iface, []), st))
                      else Some (([], None, []), st))
               in case start of
                    None \<Rightarrow> None
                  | Some (l, st) \<Rightarrow>
                      (case load_adapters env primary adapters l st of
                         None \<Rightarrow> None
                       | Some (Inl _, st) \<Rightarrow> Some ([], st)
                       | Some (Inr l, st) \<Rightarrow> Some (nics l, st))))"

subsection \<open>Copies\<close>

text \<open>A copy allocates the interface and then each of its addresses.\<close>

fun copy_ips :: "('w, 's) sysenv \<Rightarrow> iface_ip list \<Rightarrow> ('w, 's) sysst \<Rightarrow> iface_ip list option \<times> ('w, 's) sysst" where
  "copy_ips env [] st = (Some [], st)"
| "copy_ips env (ip # ips) st =
     (let (ok, st) = sys_malloc env st in
      if \<not> ok then (None, st)
      else case copy_ips env ips st of
             (None, st) \<Rightarrow> (None, st)
           | (Some new_ips, st) \<Rightarrow> (Some (ip # new_ips), st))"

definition copy_ipx_interface ::
  "('w, 's) sysenv \<Rightarrow> ipx_interface \<Rightarrow> ('w, 's) sysst \<Rightarrow> ipx_interface option \<times> ('w, 's) sysst" where
  "copy_ipx_interface env src st =
     (let (ok, st) = sys_malloc env st in
      if \<not> ok then (None, st)
      else
        let dest = src\<lparr>if_ips := []\<rparr>
        in case copy_ips env (if_ips src) st of
             (None, st) \<Rightarrow> (None, st)
           | (Some ips, st) \<Rightarrow> (Some (dest\<lparr>if_ips := ips\<rparr>), st))"

text \<open>A list whose copy fails part way is freed and \<open>NULL\<close> returned.\<close>

fun copy_ifaces :: "('w, 's) sysenv \<Rightarrow> ipx_interface list \<Rightarrow> ('w, 's) sysst
    \<Rightarrow> ipx_interface list option \<times> ('w, 's) sysst" where
  "copy_ifaces env [] st = (Some [], st)"
| "copy_ifaces env (s # src) st =
     (case copy_ipx_interface env s st of
        (None, st) \<Rightarrow> (None, st)
      | (Some d, st) \<Rightarrow>
          (case copy_ifaces env src st of
             (None, st) \<Rightarrow> (None, st)
           | (Some dest, st) \<Rightarrow> (Some (d # dest), st)))"

definition copy_ipx_interface_list ::
  "('w, 's) sysenv \<Rightarrow> ipx_interface list \<Rightarrow> ('w, 's) sysst \<Rightarrow> ipx_interface list \<times> ('w, 's) sysst" where
  "copy_ipx_interface_list env src st =
     (case copy_ifaces env src st of
        (None, st) \<Rightarrow> ([], st)
      | (Some dest, st) \<Rightarrow> (dest, st))"

subsection \<open>The cache\<close>

definition INTERFACE_CACHE_TTL :: int where
  "INTERFACE_CACHE_TTL = 5"

datatype dosbox_state = DOSBOX_DISCONNECTED | DOSBOX_REGISTERING | DOSBOX_CONNECTED

record dosbox_globals =
  dosbox_state :: dosbox_state
  dosbox_local_netnum :: u32
  dosbox_local_nodenum :: u64

definition load_dosbox_interfaces ::
  "('w, 's) sysenv \<Rightarrow> dosbox_globals \<Rightarrow> ('w, 's) sysst \<Rightarrow> (ipx_interface list \<times> ('w, 's) sysst) option" where
  "load_dosbox_interfaces env db st =
     (if dosbox_state db = DOSBOX_CONNECTED
      then (case new_iface env (dosbox_local_netnum db) (dosbox_local_nodenum db) st of
              None \<Rightarrow> None
            | Some (dosbox_iface, st) \<Rightarrow> Some ([dosbox_iface], st))
      else Some ([], st))"

text \<open>The cache with the state of the system; \<open>ipx_encap_type\<close> is the global of that name.\<close>

record ('w, 's) iface_cache = "('w, 's) sysst" +
  interface_cache :: "ipx_interface list"
  interface_cache_ctime :: int
  ipx_encap_type :: u32
  dosbox :: dosbox_globals

text \<open>The two readings of the clock, before and after the reload, are arguments.\<close>

definition sys_of :: "('w, 's) iface_cache \<Rightarrow> ('w, 's) sysst" where
  "sys_of c = sysst.truncate c"

definition with_sys :: "('w, 's) iface_cache \<Rightarrow> ('w, 's) sysst \<Rightarrow> ('w, 's) iface_cache" where
  "with_sys c st =
     c\<lparr>st_reg := st_reg st, st_rng := st_rng st, st_allocs := st_allocs st, st_queries := st_queries st\<rparr>"

definition renew_interface_cache ::
  "('w, 's) sysenv \<Rightarrow> int \<Rightarrow> int \<Rightarrow> bool \<Rightarrow> ('w, 's) iface_cache \<Rightarrow> ('w, 's) iface_cache option" where
  "renew_interface_cache env now now' force c =
     (if ipx_encap_type c = ENCAP_TYPE_PCAP then Some c
      else if force \<or> now - interface_cache_ctime c > INTERFACE_CACHE_TTL
      then
        (case (if ipx_encap_type c = ENCAP_TYPE_DOSBOX
               then load_dosbox_interfaces env (dosbox c) (sys_of c)
               else load_ipx_interfaces env (sys_of c)) of
           None \<Rightarrow> None
         | Some (l, st) \<Rightarrow>
             Some ((with_sys c st)\<lparr>interface_cache := l, interface_cache_ctime := now'\<rparr>))
      else Some c)"

definition ipx_interfaces_reload ::
  "('w, 's) sysenv \<Rightarrow> int \<Rightarrow> int \<Rightarrow> ('w, 's) iface_cache \<Rightarrow> ('w, 's) iface_cache option" where
  "ipx_interfaces_reload env now now' c = renew_interface_cache env now now' True c"

definition get_ipx_interfaces ::
  "('w, 's) sysenv \<Rightarrow> int \<Rightarrow> int \<Rightarrow> ('w, 's) iface_cache
     \<Rightarrow> (ipx_interface list \<times> ('w, 's) iface_cache) option" where
  "get_ipx_interfaces env now now' c =
     (case renew_interface_cache env now now' False c of
        None \<Rightarrow> None
      | Some c \<Rightarrow>
          (case copy_ipx_interface_list env (interface_cache c) (sys_of c) of
             (copy, st) \<Rightarrow> Some (copy, with_sys c st)))"

text \<open>The loops that return a copy of the first interface they are looking for.\<close>

definition copy_found ::
  "('w, 's) sysenv \<Rightarrow> ipx_interface option \<Rightarrow> ('w, 's) iface_cache
     \<Rightarrow> ipx_interface option \<times> ('w, 's) iface_cache" where
  "copy_found env found c =
     (case found of
        None \<Rightarrow> (None, c)
      | Some iface \<Rightarrow>
          (case copy_ipx_interface env iface (sys_of c) of (r, st) \<Rightarrow> (r, with_sys c st)))"

definition ipx_interface_by_addr ::
  "('w, 's) sysenv \<Rightarrow> int \<Rightarrow> int \<Rightarrow> u32 \<Rightarrow> u64 \<Rightarrow> ('w, 's) iface_cache
     \<Rightarrow> (ipx_interface option \<times> ('w, 's) iface_cache) option" where
  "ipx_interface_by_addr env now now' net node c =
     (case renew_interface_cache env now now' False c of
        None \<Rightarrow> None
      | Some c \<Rightarrow>
          Some (copy_found env
            (find (\<lambda>i. if_net i = net \<and> if_node i = node) (interface_cache c)) c))"

definition ipx_interface_by_subnet ::
  "('w, 's) sysenv \<Rightarrow> int \<Rightarrow> int \<Rightarrow> u32 \<Rightarrow> ('w, 's) iface_cache
     \<Rightarrow> (ipx_interface option \<times> ('w, 's) iface_cache) option" where
  "ipx_interface_by_subnet env now now' ipaddr c =
     (case renew_interface_cache env now now' False c of
        None \<Rightarrow> None
      | Some c \<Rightarrow>
          Some (copy_found env
            (find (\<lambda>i. list_ex (\<lambda>ip. ip_ipaddr ip AND ip_netmask ip = ipaddr AND ip_netmask ip) (if_ips i))
               (interface_cache c)) c))"

definition ipx_interface_by_index ::
  "('w, 's) sysenv \<Rightarrow> int \<Rightarrow> int \<Rightarrow> int \<Rightarrow> ('w, 's) iface_cache
     \<Rightarrow> (ipx_interface option \<times> ('w, 's) iface_cache) option" where
  "ipx_interface_by_index env now now' index c =
     (case renew_interface_cache env now now' False c of
        None \<Rightarrow> None
      | Some c \<Rightarrow>
          Some (copy_found env
            (map_option snd (find (\<lambda>(i, iface). int i = index) (enumerate 0 (interface_cache c)))) c))"

definition ipx_interface_count ::
  "('w, 's) sysenv \<Rightarrow> int \<Rightarrow> int \<Rightarrow> ('w, 's) iface_cache \<Rightarrow> (nat \<times> ('w, 's) iface_cache) option" where
  "ipx_interface_count env now now' c =
     (case renew_interface_cache env now now' False c of
        None \<Rightarrow> None
      | Some c \<Rightarrow> Some (length (interface_cache c), c))"

definition LOOPBACK_NET :: u32 where "LOOPBACK_NET = addr32_in [0x7F, 0, 0, 0]"
definition LOOPBACK_MASK :: u32 where "LOOPBACK_MASK = addr32_in [0xFF, 0, 0, 0]"

definition ipv4_address_is_local ::
  "('w, 's) sysenv \<Rightarrow> int \<Rightarrow> int \<Rightarrow> u32 \<Rightarrow> ('w, 's) iface_cache \<Rightarrow> (bool \<times> ('w, 's) iface_cache) option" where
  "ipv4_address_is_local env now now' ipaddr c =
     (if ipaddr AND LOOPBACK_MASK = LOOPBACK_NET then Some (True, c)
      else case renew_interface_cache env now now' False c of
             None \<Rightarrow> None
           | Some c \<Rightarrow>
               Some (list_ex (\<lambda>i. list_ex (\<lambda>ip. ip_ipaddr ip = ipaddr) (if_ips i)) (interface_cache c), c))"

subsection \<open>WinPcap devices\<close>

record pcap_interface =
  pi_name :: string
  pi_desc :: string
  pi_mac :: u64

definition PCAP_NAME_PREFIX_NEW :: string where
  "PCAP_NAME_PREFIX_NEW = ''rpcap://''"

definition PCAP_NAME_PREFIX_OLD :: string where
  "PCAP_NAME_PREFIX_OLD = ''rpcap://'' @ [CHR 0x5C] @ ''Device'' @ [CHR 0x5C] @ ''NPF_''"

definition has_prefix :: "string \<Rightarrow> string \<Rightarrow> bool" where
  "has_prefix p s \<longleftrightarrow> take (length p) s = p"

definition pcap_ifname :: "string \<Rightarrow> string option" where
  "pcap_ifname name =
     (if has_prefix PCAP_NAME_PREFIX_OLD name then Some (drop (length PCAP_NAME_PREFIX_OLD) name)
      else if has_prefix PCAP_NAME_PREFIX_NEW name then Some (drop (length PCAP_NAME_PREFIX_NEW) name)
      else None)"

text \<open>
  Each device that can be matched with an adapter of a six-byte address becomes an interface;
  three allocations (the structure, its name, its description) can fail.
\<close>

fun match_pcap_devs :: "('w, 's) sysenv \<Rightarrow> adapter list \<Rightarrow> (string \<times> string option) list \<Rightarrow>
    pcap_interface list \<Rightarrow> ('w, 's) sysst \<Rightarrow> pcap_interface list \<times> ('w, 's) sysst" where
  "match_pcap_devs env ip_interfaces [] ret st = (ret, st)"
| "match_pcap_devs env ip_interfaces ((name, descr) # devs) ret st =
     (case Option.bind (pcap_ifname name) (\<lambda>ifname. find (\<lambda>a. ad_name a = ifname) ip_interfaces) of
        None \<Rightarrow> match_pcap_devs env ip_interfaces devs ret st
      | Some ip_if \<Rightarrow>
          if ad_addrlen ip_if \<noteq> 6 then match_pcap_devs env ip_interfaces devs ret st
          else
            let (ok, st) = sys_malloc env st in
            if \<not> ok then match_pcap_devs env ip_interfaces devs ret st
            else
              let (ok1, st) = sys_malloc env st; (ok2, st) = sys_malloc env st
              in if \<not> ok1 \<or> \<not> ok2 then match_pcap_devs env ip_interfaces devs ret st
                 else match_pcap_devs env ip_interfaces devs
                        (ret @ [\<lparr>pi_name = name,
                                 pi_desc = (case descr of Some d \<Rightarrow> d | None \<Rightarrow> name),
                                 pi_mac = addr48_in (ad_address ip_if)\<rparr>]) st)"

definition ipx_get_pcap_interfaces ::
  "('w, 's) sysenv \<Rightarrow> ('w, 's) sysst \<Rightarrow> (pcap_interface list \<times> ('w, 's) sysst) option" where
  "ipx_get_pcap_interfaces env st =
     (case load_sys_interfaces env st of
        None \<Rightarrow> None
      | Some (ip_interfaces, st) \<Rightarrow>
          (case env_pcap_devs env of
             None \<Rightarrow> Some ([], st)
           | Some devs \<Rightarrow> Some (match_pcap_devs env ip_interfaces devs [] st)))"

fun open_pcap_interfaces :: "('w, 's) sysenv \<Rightarrow> u64 \<Rightarrow> pcap_interface list \<Rightarrow> ipx_interface list \<Rightarrow>
    ('w, 's) sysst \<Rightarrow> (ipx_interface list \<times> ('w, 's) sysst) option" where
  "open_pcap_interfaces env primary [] cache st = Some (cache, st)"
| "open_pcap_interfaces env primary (i # rest) cache st =
     (let (config, st) = sys_iface_config env (pi_mac i) st in
      if \<not> ic_enabled config then open_pcap_interfaces env primary rest cache st
      else
        let pcap = env_pcap_open env (pi_name i) in
        if pcap = 0 then open_pcap_interfaces env primary rest cache st
        else
          case new_iface env (ic_netnum config) (pi_mac i) st of
            None \<Rightarrow> None
          | Some (iface, st) \<Rightarrow>
              let iface = iface\<lparr>if_mac := pi_mac i, if_pcap := pcap\<rparr>
              in open_pcap_interfaces env primary rest
                   (if pi_mac i = primary then iface # cache else cache @ [iface]) st)"

definition init_pcap_interfaces ::
  "('w, 's) sysenv \<Rightarrow> ('w, 's) iface_cache \<Rightarrow> ('w, 's) iface_cache option" where
  "init_pcap_interfaces env c =
     (case ipx_get_pcap_interfaces env (sys_of c) of
        None \<Rightarrow> None
      | Some (pcap_interfaces, st) \<Rightarrow>
          (case sys_primary_iface env st of
             None \<Rightarrow> None
           | Some (primary, st) \<Rightarrow>
               (case open_pcap_interfaces env primary pcap_interfaces (interface_cache c) st of
                  None \<Rightarrow> None
                | Some (l, st) \<Rightarrow> Some ((with_sys c st)\<lparr>interface_cache := l\<rparr>))))"

text \<open>
  \<open>ipx_interfaces_init\<close> empties the cache and fills it; what it lists only for the log changes
  the cache the same way a lookup does. A failed \<open>InitializeCriticalSectionAndSpinCount\<close> aborts.
\<close>

definition ipx_interfaces_init ::
  "('w, 's) sysenv \<Rightarrow> bool \<Rightarrow> int \<Rightarrow> int \<Rightarrow> ('w, 's) iface_cache \<Rightarrow> ('w, 's) iface_cache option" where
  "ipx_interfaces_init env cs_ok now now' c =
     (let c = c\<lparr>interface_cache := [], interface_cache_ctime := 0\<rparr> in
      if \<not> cs_ok then None
      else
        case (if ipx_encap_type c = ENCAP_TYPE_PCAP then init_pcap_interfaces env c
              else if ipx_encap_type c = ENCAP_TYPE_IPXWRAPPER
              then map_option (\<lambda>r. with_sys c (snd r)) (load_sys_interfaces env (sys_of c))
              else Some c) of
          None \<Rightarrow> None
        | Some c \<Rightarrow>
            if ipx_encap_type c = ENCAP_TYPE_DOSBOX then Some c
            else map_option snd (get_ipx_interfaces env now now' c))"

text \<open>The WinPcap handles \<open>ipx_interfaces_cleanup\<close> closes, and the emptied cache.\<close>

definition ipx_interfaces_cleanup :: "('w, 's) iface_cache \<Rightarrow> nat list \<times> ('w, 's) iface_cache" where
  "ipx_interfaces_cleanup c =
     (if ipx_encap_type c = ENCAP_TYPE_PCAP then map if_pcap (interface_cache c) else [],
      c\<lparr>interface_cache := []\<rparr>)"

subsection \<open>The mask of a point-to-point address\<close>

definition route_matches :: "u32 \<Rightarrow> u32 \<times> u32 \<Rightarrow> bool" where
  "route_matches ipaddr r \<longleftrightarrow>
     ntohl (snd r) > 0 \<and> ntohl ipaddr AND ntohl (snd r) = ntohl (fst r)"

text \<open>
  For an address with the mask 255.255.255.255 the mask is taken from the routing table:
  the numerically smallest one (in host order) among the non-default routes whose network
  contains the address, and 255.255.255.255 when there is none. The smallest mask is the
  \<^emph>\<open>largest\<close> network, although the comment in the code says that the smallest network is
  preferred.
\<close>

theorem route_netmask_smallest:
  "ntohl (route_netmask ipaddr table netmask) =
     Min (set (ntohl netmask # map (\<lambda>r. ntohl (snd r)) (filter (route_matches ipaddr) table)))"
proof (induction ipaddr table netmask rule: route_netmask.induct)
  case (1 ipaddr netmask)
  then show ?case by simp
next
  case (2 ipaddr dest msk table netmask)
  let ?S = "set (map (\<lambda>r. ntohl (snd r)) (filter (route_matches ipaddr) table))"
  have ins: "min a (Min (insert b S)) = Min (insert (min a b) S)" if "finite S" for a b :: u32 and S
    using that by (cases "S = {}") (simp_all add: min.assoc)
  show ?case
  proof (cases "route_matches ipaddr (dest, msk)")
    case True
    have "ntohl (if ntohl msk < ntohl netmask then msk else netmask) = min (ntohl netmask) (ntohl msk)"
      by (auto simp: min_def)
    with True 2 [OF refl refl refl refl] show ?thesis
      by (simp add: route_matches_def Let_def ins)
  next
    case False
    with 2 [OF refl refl refl refl] show ?thesis
      by (auto simp: route_matches_def Let_def)
  qed
qed

lemma route_netmask_widest_example:
  "route_netmask 0x0101010A [(0x0001010A, 0x00FFFFFF), (0x0000000A, 0x000000FF)] FULL_MASK = 0x000000FF"
  by code_simp

subsection \<open>What is loaded\<close>

definition mk_ips :: "(u32 \<times> u32) list \<Rightarrow> (u32 \<times> u32) list \<Rightarrow> iface_ip list" where
  "mk_ips table ips =
     map (\<lambda>(ip, m). let m = (if m = FULL_MASK then route_netmask ip table m else m)
                      in \<lparr>ip_ipaddr = ip, ip_netmask = m, ip_bcast = ip OR NOT m\<rparr>)
       (filter (\<lambda>(ip, m). ip \<noteq> 0) ips)"

definition mk_iface :: "(u32 \<times> u32) list \<Rightarrow> adapter \<times> iface_config \<Rightarrow> ipx_interface" where
  "mk_iface table ac =
     \<lparr>if_net = ic_netnum (snd ac), if_node = ic_nodenum (snd ac),
      if_ips = mk_ips table (ad_ips (fst ac)), if_mac = 0, if_pcap = 0\<rparr>"

lemma mk_ips_append: "mk_ips table (xs @ ys) = mk_ips table xs @ mk_ips table ys"
  by (simp add: mk_ips_def)

text \<open>The settings of several adapters, read one after the other.\<close>

fun read_configs :: "('w, 's) sysenv \<Rightarrow> adapter list \<Rightarrow> ('w, 's) sysst \<Rightarrow> iface_config list" where
  "read_configs env [] st = []"
| "read_configs env (a # as) st =
     (case sys_iface_config env (addr48_in (ad_address a)) st of
        (config, st) \<Rightarrow> config # read_configs env as st)"

lemma sys_iface_config_allocs:
  "sys_iface_config env hw (st\<lparr>st_allocs := n\<rparr>) =
     (case sys_iface_config env hw st of (c, st') \<Rightarrow> (c, st'\<lparr>st_allocs := n\<rparr>))"
  by (simp add: sys_iface_config_def split: prod.splits)

lemma read_configs_allocs: "read_configs env as (st\<lparr>st_allocs := n\<rparr>) = read_configs env as st"
  by (induction as arbitrary: st) (simp_all add: sys_iface_config_allocs split_beta)

lemma push_addr_ok:
  assumes "\<And>n. env_mem env n" and "env_routes env = Some table"
  shows "\<exists>n. push_addr env ips iface st =
           (True, iface\<lparr>if_ips := if_ips iface @ mk_ips table ips\<rparr>, st\<lparr>st_allocs := n\<rparr>)"
proof (induction ips arbitrary: iface st)
  case Nil
  have "st = st\<lparr>st_allocs := st_allocs st\<rparr>" by simp
  then show ?case by (auto simp: mk_ips_def intro: exI [of _ "st_allocs st"])
next
  case (Cons ipm ips)
  obtain ip m where ipm: "ipm = (ip, m)" by (cases ipm)
  define st2 where "st2 = st\<lparr>st_allocs := (if m = FULL_MASK then 2 else 1) + st_allocs st\<rparr>"
  define i2 where "i2 = iface\<lparr>if_ips := if_ips iface @ mk_ips table [(ip, m)]\<rparr>"
  show ?case
  proof (cases "ip = 0")
    case True
    with Cons.IH [of iface st] show ?thesis by (simp add: ipm mk_ips_def)
  next
    case False
    have "push_addr env (ipm # ips) iface st = push_addr env ips i2 st2"
      using assms False by (simp add: ipm sys_malloc_def mk_ips_def i2_def st2_def Let_def)
    moreover obtain n where "push_addr env ips i2 st2 =
        (True, i2\<lparr>if_ips := if_ips i2 @ mk_ips table ips\<rparr>, st2\<lparr>st_allocs := n\<rparr>)"
      using Cons.IH by blast
    moreover have "mk_ips table (ipm # ips) = mk_ips table [(ip, m)] @ mk_ips table ips"
      using mk_ips_append [of table "[(ip, m)]" ips] by (simp add: ipm)
    ultimately show ?thesis by (auto simp: i2_def st2_def)
  qed
qed

lemma new_iface_ok:
  "(\<And>n. env_mem env n) \<Longrightarrow> new_iface env net node st =
     Some (\<lparr>if_net = net, if_node = node, if_ips = [], if_mac = 0, if_pcap = 0\<rparr>,
           st\<lparr>st_allocs := Suc (st_allocs st)\<rparr>)"
  by (simp add: new_iface_def sys_malloc_def)

text \<open>When there is no memory for it, zeroing the interface writes through \<open>NULL\<close>.\<close>

lemma new_iface_crash: "\<not> env_mem env (st_allocs st) \<Longrightarrow> new_iface env net node st = None"
  by (simp add: new_iface_def sys_malloc_def)

definition is_primary :: "u64 \<Rightarrow> adapter \<times> iface_config \<Rightarrow> bool" where
  "is_primary primary ac \<longleftrightarrow> addr48_in (ad_address (fst ac)) = primary"

definition add_ips :: "iface_ip list \<Rightarrow> ipx_interface \<Rightarrow> ipx_interface" where
  "add_ips ips i = i\<lparr>if_ips := if_ips i @ ips\<rparr>"

lemma load_adapters_ok:
  assumes mem: "\<And>n. env_mem env n" and table: "env_routes env = Some table"
  shows "\<exists>st'. load_adapters env primary as (pre, wc, post) st =
    Some (Inr (let es = filter (\<lambda>ac. ic_enabled (snd ac)) (zip as (read_configs env as st))
               in (rev (map (mk_iface table) (filter (is_primary primary) es)) @ pre,
                   map_option (add_ips (concat (map (\<lambda>a. mk_ips table (ad_ips a)) as))) wc,
                   post @ map (mk_iface table) (filter (\<lambda>ac. \<not> is_primary primary ac) es))), st')"
proof (induction as arbitrary: pre wc post st)
  case Nil
  then show ?case by (cases wc) (simp_all add: add_ips_def)
next
  case (Cons a as)
  let ?hw = "addr48_in (ad_address a)"
  obtain config st1 where c: "sys_iface_config env ?hw st = (config, st1)"
    by (cases "sys_iface_config env ?hw st")
  have "\<exists>n. push_wildcard env (ad_ips a) (pre, wc, post) st1 =
        (True, (pre, map_option (add_ips (mk_ips table (ad_ips a))) wc, post), st1\<lparr>st_allocs := n\<rparr>)"
  proof (cases wc)
    case None
    then show ?thesis by (auto simp: push_wildcard_def intro: exI [of _ "st_allocs st1"])
  next
    case (Some w)
    then show ?thesis
      using push_addr_ok [OF mem table, of "ad_ips a" w st1] by (auto simp: push_wildcard_def add_ips_def)
  qed
  then obtain n where wc: "push_wildcard env (ad_ips a) (pre, wc, post) st1 =
        (True, (pre, map_option (add_ips (mk_ips table (ad_ips a))) wc, post), st1\<lparr>st_allocs := n\<rparr>)"
    by blast
  let ?wc = "map_option (add_ips (mk_ips table (ad_ips a))) wc"
  have more: "map_option (add_ips (concat (map (\<lambda>a. mk_ips table (ad_ips a)) (a # as)))) wc =
      map_option (add_ips (concat (map (\<lambda>a. mk_ips table (ad_ips a)) as))) ?wc"
    by (cases wc) (simp_all add: add_ips_def)
  show ?case
  proof (cases "ic_enabled config")
    case False
    then show ?thesis
      using Cons.IH [of pre ?wc post "st1\<lparr>st_allocs := n\<rparr>"] unfolding more
      by (simp add: c wc read_configs_allocs Let_def)
  next
    case True
    obtain m where p: "push_addr env (ad_ips a)
        \<lparr>if_net = ic_netnum config, if_node = ic_nodenum config, if_ips = [], if_mac = 0, if_pcap = 0\<rparr>
        (st1\<lparr>st_allocs := Suc n\<rparr>) = (True, mk_iface table (a, config), st1\<lparr>st_allocs := m\<rparr>)"
      using push_addr_ok [OF mem table, of "ad_ips a"
          "\<lparr>if_net = ic_netnum config, if_node = ic_nodenum config, if_ips = [], if_mac = 0, if_pcap = 0\<rparr>"
          "st1\<lparr>st_allocs := Suc n\<rparr>"] by (auto simp: mk_iface_def)
    let ?i = "mk_iface table (a, config)"
    have "load_adapters env primary (a # as) (pre, wc, post) st =
        load_adapters env primary as
          (if ?hw = primary then (?i # pre, ?wc, post) else (pre, ?wc, post @ [?i])) (st1\<lparr>st_allocs := m\<rparr>)"
      using True
      by (simp add: c wc new_iface_ok [OF mem] p nics_prepend_def nics_append_def)
    then show ?thesis
      using Cons.IH [of "?i # pre" ?wc post "st1\<lparr>st_allocs := m\<rparr>"]
        Cons.IH [of pre ?wc "post @ [?i]" "st1\<lparr>st_allocs := m\<rparr>"] True
      unfolding more by (simp add: c read_configs_allocs is_primary_def Let_def)
  qed
qed

text \<open>
  C24. What the program offers as IPX interfaces, when memory and the routing table can be had:
  first the enabled adapters with the hardware address of the primary interface, then, if it is
  enabled, the wildcard interface with the addresses of every adapter (disabled ones
  included), then the other enabled adapters in the system's order. Each has the network and
  node number of its settings and its own non-zero addresses, each with its mask and the broadcast
  address they give.
\<close>

theorem load_ipx_interfaces_order:
  assumes "\<And>n. env_mem env n" and "env_routes env = Some table"
    and "load_sys_interfaces env st = Some (adapters, st1)"
    and "sys_primary_iface env st1 = Some (primary, st2)"
    and "sys_iface_config env WILDCARD_IFACE_HWADDR st2 = (wc, st3)"
    and "es = filter (\<lambda>ac. ic_enabled (snd ac)) (zip adapters (read_configs env adapters st3))"
  shows "map_option fst (load_ipx_interfaces env st) =
    Some (rev (map (mk_iface table) (filter (is_primary primary) es)) @
          (if ic_enabled wc
           then [\<lparr>if_net = ic_netnum wc, if_node = ic_nodenum wc,
                  if_ips = concat (map (\<lambda>a. mk_ips table (ad_ips a)) adapters),
                  if_mac = 0, if_pcap = 0\<rparr>]
           else []) @
          map (mk_iface table) (filter (\<lambda>ac. \<not> is_primary primary ac) es))"
proof -
  let ?i = "\<lparr>if_net = ic_netnum wc, if_node = ic_nodenum wc, if_ips = [], if_mac = 0, if_pcap = 0\<rparr>"
  let ?st = "if ic_enabled wc then st3\<lparr>st_allocs := Suc (st_allocs st3)\<rparr> else st3"
  let ?wc = "if ic_enabled wc then Some ?i else None"
  obtain st' where "load_adapters env primary adapters ([], ?wc, []) ?st =
      Some (Inr (rev (map (mk_iface table) (filter (is_primary primary) es)),
        map_option (add_ips (concat (map (\<lambda>a. mk_ips table (ad_ips a)) adapters))) ?wc,
        map (mk_iface table) (filter (\<lambda>ac. \<not> is_primary primary ac) es)), st')"
    using load_adapters_ok [OF assms(1,2), of primary adapters "[]" ?wc "[]" ?st]
    by (auto simp: assms(6) read_configs_allocs Let_def)
  then show ?thesis
    by (cases "ic_enabled wc")
      (simp_all add: load_ipx_interfaces_def assms(3-5) new_iface_ok [OF assms(1)] nics_def add_ips_def)
qed

text \<open>A registry that can never be opened: every setting has its default.\<close>

definition closed_api :: "unit reg_api" where
  "closed_api =
     \<lparr>RegCreateKeyEx = (\<lambda>k p w. ((5, 0), w)), RegOpenKeyEx = (\<lambda>k p w. ((5, 0), w)),
      RegCloseKey = (\<lambda>k w. w), RegQueryValueEx = (\<lambda>k n w. (6, 0, [])),
      RegSetValueEx = (\<lambda>k n ty d w. (6, w)), RegEnumValue = (\<lambda>k i w. (6, [], []))\<rparr>"

definition sample_adapters :: "adapter list" where
  "sample_adapters =
     [\<lparr>ad_name = ''eth0'', ad_address = [2, 0, 0, 0, 0, 1], ad_addrlen = 6, ad_ips = [(0x0101A8C0, 0x00FFFFFF)]\<rparr>,
      \<lparr>ad_name = ''ppp0'', ad_address = [0xFF, 0xFF, 0xFF, 0xFF, 0xFF, 0xFF], ad_addrlen = 6,
       ad_ips = [(0, 0), (0x0101010A, FULL_MASK)]\<rparr>]"

definition sample_env :: "(unit, nat) sysenv" where
  "sample_env =
     \<lparr>env_reg = closed_api, env_srand = (\<lambda>t. 0), env_rand = (\<lambda>g. (g, Suc g)), env_ticks = 0,
      env_mem = (\<lambda>n. True), env_adapters = (\<lambda>n. (0, sample_adapters)),
      env_routes = Some [(0x0000000A, 0x000000FF)], env_pcap_devs = None, env_pcap_open = (\<lambda>s. 0)\<rparr>"

definition sample_st :: "(unit, nat) sysst" where
  "sample_st = \<lparr>st_reg = (), st_rng = \<lparr>rng_seeded = False, rng_state = 0\<rparr>, st_allocs = 0, st_queries = 0\<rparr>"

lemma closed_get_iface_config:
  "hw \<noteq> WILDCARD_IFACE_HWADDR \<Longrightarrow>
     sys_iface_config sample_env hw st =
       (\<lparr>ic_netnum = addr32_in [0, 0, 0, 1], ic_nodenum = hw, ic_enabled = True\<rparr>, st)"
  by (simp add: sys_iface_config_def get_iface_config_def reg_open_main_def reg_open_subkey_def
      sample_env_def closed_api_def reg_codes HKEY_CURRENT_USER_def reg_get_bin_def reg_close_def Let_def)

theorem load_ipx_interfaces_order_witness:
  "\<exists>wc. map_option (map (\<lambda>i. (if_node i, map ip_bcast (if_ips i)))) (map_option fst (load_ipx_interfaces sample_env sample_st))
     = Some [(BCAST_NODE, [0xFFFFFF0A]), (wc, [0xFF01A8C0, 0xFFFFFF0A]),
             (addr48_in [2, 0, 0, 0, 0, 1], [0xFF01A8C0])]"
proof -
  let ?st1 = "sample_st\<lparr>st_allocs := 1, st_queries := 1\<rparr>"
  have "query_adapters sample_env sample_st = Some (Some sample_adapters, ?st1)"
    by (subst query_adapters.simps)
      (simp add: sys_malloc_def sample_env_def sample_st_def reg_codes ERROR_BUFFER_OVERFLOW_def)
  then have sys: "load_sys_interfaces sample_env sample_st = Some (sample_adapters, ?st1)"
    by (simp add: load_sys_interfaces_def fix_hamachi_def sample_adapters_def)
  have prim: "sys_primary_iface sample_env ?st1 = Some (BCAST_NODE, ?st1)"
    by (simp add: sys_primary_iface_def get_primary_iface_def reg_open_main_def reg_open_subkey_def
        sample_env_def closed_api_def reg_codes HKEY_CURRENT_USER_def reg_check_value_def reg_close_def
        BCAST_NODE_def Let_def)
  obtain wc st3 where wc: "sys_iface_config sample_env WILDCARD_IFACE_HWADDR ?st1 = (wc, st3)"
    by (cases "sys_iface_config sample_env WILDCARD_IFACE_HWADDR ?st1")
  have enabled: "ic_enabled wc"
    using wc by (auto simp: sys_iface_config_def get_iface_config_def reg_open_main_def reg_open_subkey_def
      sample_env_def closed_api_def reg_codes HKEY_CURRENT_USER_def reg_get_bin_def reg_close_def
      set_iface_config_def Let_def split: prod.splits)
  have ne: "addr48_in [2, 0, 0, 0, 0, 1] \<noteq> WILDCARD_IFACE_HWADDR" "BCAST_NODE \<noteq> WILDCARD_IFACE_HWADDR"
    "addr48_in [2, 0, 0, 0, 0, 1] \<noteq> BCAST_NODE"
    by code_simp+
  have hw: "addr48_in [0xFF, 0xFF, 0xFF, 0xFF, 0xFF, 0xFF] = BCAST_NODE" by (simp add: BCAST_NODE_def)
  have route: "route_netmask 0x0101010A [(0x0000000A, 0x000000FF)] FULL_MASK = 0x000000FF"
    by code_simp
  have ips: "mk_ips [(0x0000000A, 0x000000FF)] [(0x0101A8C0, 0x00FFFFFF)] =
      [\<lparr>ip_ipaddr = 0x0101A8C0, ip_netmask = 0x00FFFFFF, ip_bcast = 0xFF01A8C0\<rparr>]"
    "mk_ips [(0x0000000A, 0x000000FF)] [(0, 0), (0x0101010A, FULL_MASK)] =
      [\<lparr>ip_ipaddr = 0x0101010A, ip_netmask = 0x000000FF, ip_bcast = 0xFFFFFF0A\<rparr>]"
    by code_simp+
  have "env_routes sample_env = Some [(0x0000000A, 0x000000FF)]" "\<And>n. env_mem sample_env n"
    by (simp_all add: sample_env_def)
  from load_ipx_interfaces_order [OF this(2,1) sys prim wc refl]
  show ?thesis
    by (intro exI [of _ "ic_nodenum wc"])
      (auto simp: enabled sample_adapters_def closed_get_iface_config ne hw is_primary_def mk_iface_def ips)
qed

subsection \<open>Lookups\<close>

lemma copy_ips_ok:
  "(\<And>n. env_mem env n) \<Longrightarrow>
     copy_ips env ips st = (Some ips, st\<lparr>st_allocs := length ips + st_allocs st\<rparr>)"
  by (induction ips arbitrary: st) (simp_all add: sys_malloc_def)

lemma copy_ipx_interface_ok:
  "(\<And>n. env_mem env n) \<Longrightarrow> \<exists>st'. copy_ipx_interface env i st = (Some i, st')"
  by (simp add: copy_ipx_interface_def sys_malloc_def copy_ips_ok)

lemma copy_ifaces_ok: "(\<And>n. env_mem env n) \<Longrightarrow> \<exists>st'. copy_ifaces env l st = (Some l, st')"
proof (induction l arbitrary: st)
  case (Cons i l)
  obtain st1 where "copy_ipx_interface env i st = (Some i, st1)"
    using copy_ipx_interface_ok [OF Cons.prems] by blast
  with Cons.IH [OF Cons.prems, of st1] show ?case by auto
qed simp

lemma copy_found_ok: "(\<And>n. env_mem env n) \<Longrightarrow> fst (copy_found env found c) = found"
  using copy_ipx_interface_ok [of env]
  by (auto simp: copy_found_def split: option.splits prod.splits) (metis prod.inject)

lemma renew_fresh:
  "now - interface_cache_ctime c \<le> INTERFACE_CACHE_TTL \<or> ipx_encap_type c = ENCAP_TYPE_PCAP \<Longrightarrow>
     renew_interface_cache env now now' False c = Some c"
  by (auto simp: renew_interface_cache_def)

lemma find_enumerate:
  "find (\<lambda>(j, x). j = i + n) (enumerate n xs) = (if i < length xs then Some (i + n, xs ! i) else None)"
proof (induction xs arbitrary: i n)
  case (Cons x xs)
  show ?case
  proof (cases i)
    case (Suc k)
    with Cons.IH [of k "Suc n"] show ?thesis by simp
  qed simp
qed simp

text \<open>
  For five seconds after a load (for ever with WinPcap) every lookup answers from the same
  cached list \<open>L\<close> and none reloads it: the count is its length, looking up an index below the
  count gives the interface at that place and any other index nothing, an address or an IP
  address gives the first interface that has the address or an address in its subnet, and the
  list copy is the whole list. Each answer is a full copy, addresses included.
\<close>

theorem iface_lookups_agree:
  assumes mem: "\<And>n. env_mem env n"
    and fresh: "now - interface_cache_ctime c \<le> INTERFACE_CACHE_TTL \<or> ipx_encap_type c = ENCAP_TYPE_PCAP"
    and L: "L = interface_cache c"
  shows "ipx_interface_count env now now' c = Some (length L, c) \<and>
    map_option fst (get_ipx_interfaces env now now' c) = Some L \<and>
    map_option fst (ipx_interface_by_index env now now' (int i) c) =
      Some (if i < length L then Some (L ! i) else None) \<and>
    map_option fst (ipx_interface_by_addr env now now' net node c) =
      Some (find (\<lambda>i. if_net i = net \<and> if_node i = node) L) \<and>
    map_option fst (ipx_interface_by_subnet env now now' ip c) =
      Some (find (\<lambda>i. \<exists>a \<in> set (if_ips i). ip_ipaddr a AND ip_netmask a = ip AND ip_netmask a) L)"
proof -
  note r = renew_fresh [OF fresh, of env now']
  obtain st' where "copy_ifaces env L (sys_of c) = (Some L, st')"
    using copy_ifaces_ok [OF mem] by blast
  then have "map_option fst (get_ipx_interfaces env now now' c) = Some L"
    by (simp add: get_ipx_interfaces_def r copy_ipx_interface_list_def L)
  moreover have "find (\<lambda>(j, iface). int j = int i) (enumerate 0 L) =
      (if i < length L then Some (i, L ! i) else None)"
    using find_enumerate [of i 0 L] by simp
  ultimately show ?thesis
    by (simp add: ipx_interface_count_def ipx_interface_by_index_def ipx_interface_by_addr_def
        ipx_interface_by_subnet_def r copy_found_ok [OF mem] list_ex_iff flip: L)
qed

definition sample_cache :: "(unit, nat) iface_cache" where
  "sample_cache = sysst.extend sample_st
     \<lparr>interface_cache = [\<lparr>if_net = 1, if_node = 2, if_ips = [], if_mac = 0, if_pcap = 0\<rparr>],
      interface_cache_ctime = 100, ipx_encap_type = ENCAP_TYPE_IPXWRAPPER,
      dosbox = \<lparr>dosbox_state = DOSBOX_DISCONNECTED, dosbox_local_netnum = 0, dosbox_local_nodenum = 0\<rparr>\<rparr>"

theorem iface_lookups_agree_witness:
  "map_option fst (ipx_interface_by_addr sample_env 105 105 1 2 sample_cache) =
     Some (Some \<lparr>if_net = 1, if_node = 2, if_ips = [], if_mac = 0, if_pcap = 0\<rparr>) \<and>
   map_option fst (ipx_interface_by_index sample_env 105 105 (int 1) sample_cache) = Some None"
proof -
  have "\<And>n. env_mem sample_env n" by (simp add: sample_env_def)
  moreover have "105 - interface_cache_ctime sample_cache \<le> INTERFACE_CACHE_TTL \<or>
      ipx_encap_type sample_cache = ENCAP_TYPE_PCAP"
    by (simp add: sample_cache_def sysst.extend_def INTERFACE_CACHE_TTL_def)
  ultimately show ?thesis
    using iface_lookups_agree [of sample_env 105 sample_cache _ 105 1 1 2]
    by (simp add: sample_cache_def sysst.extend_def)
qed

end
