(* ===== verification/Ethernet.thy ===== *)
theory Ethernet
  imports Addr
begin

text \<open>
  Ethernet framing (ethernet.c): the IPX header as it is on the wire
  (\<open>struct novell_ipx_packet\<close>, ethernet.h) and the three frame formats that carry it,
  each with its size, pack and unpack function. A buffer is a list of bytes; a pointer an
  unpack function returns is an offset into the frame. The locale \<open>frame_format\<close> is the
  contract the sender and the receiver of a frame rely on, and each format is an instance.
\<close>

subsection \<open>The IPX header\<close>

definition NOVELL_IPX_PACKET_SIZE :: nat where
  "NOVELL_IPX_PACKET_SIZE = 30"

definition NOVELL_IPX_PACKET_MAX_PAYLOAD :: nat where
  "NOVELL_IPX_PACKET_MAX_PAYLOAD = 0xFFFF - NOVELL_IPX_PACKET_SIZE"

text \<open>
  The fields of \<open>struct novell_ipx_packet\<close> at their offsets; 16-bit fields are in network
  byte order in memory, so they read as little-endian integers that \<open>ntohs\<close> converts.
\<close>

definition ipx_checksum :: "bytes \<Rightarrow> u16" where "ipx_checksum p = le_word (slice p 0 2)"
definition ipx_length :: "bytes \<Rightarrow> u16" where "ipx_length p = le_word (slice p 2 2)"
definition ipx_hops :: "bytes \<Rightarrow> u8" where "ipx_hops p = p ! 4"
definition ipx_type :: "bytes \<Rightarrow> u8" where "ipx_type p = p ! 5"
definition ipx_dest_net :: "bytes \<Rightarrow> bytes" where "ipx_dest_net p = slice p 6 4"
definition ipx_dest_node :: "bytes \<Rightarrow> bytes" where "ipx_dest_node p = slice p 10 6"
definition ipx_dest_socket :: "bytes \<Rightarrow> u16" where "ipx_dest_socket p = le_word (slice p 16 2)"
definition ipx_src_net :: "bytes \<Rightarrow> bytes" where "ipx_src_net p = slice p 18 4"
definition ipx_src_node :: "bytes \<Rightarrow> bytes" where "ipx_src_node p = slice p 22 6"
definition ipx_src_socket :: "bytes \<Rightarrow> u16" where "ipx_src_socket p = le_word (slice p 28 2)"
definition ipx_data :: "bytes \<Rightarrow> bytes" where "ipx_data p = drop 30 p"

lemmas ipx_fields = ipx_checksum_def ipx_length_def ipx_hops_def ipx_type_def ipx_dest_net_def
  ipx_dest_node_def ipx_dest_socket_def ipx_src_net_def ipx_src_node_def ipx_src_socket_def ipx_data_def

text \<open>A header with its fields in order, followed by the payload.\<close>

definition novell_ipx_packet ::
  "u16 \<Rightarrow> u16 \<Rightarrow> u8 \<Rightarrow> u8 \<Rightarrow> bytes \<Rightarrow> bytes \<Rightarrow> u16 \<Rightarrow> bytes \<Rightarrow> bytes \<Rightarrow> u16 \<Rightarrow> bytes \<Rightarrow> bytes" where
  "novell_ipx_packet checksum len hops type dnet dnode dsock snet snode ssock payload =
     le_bytes 2 checksum @ le_bytes 2 len @ [hops, type] @ dnet @ dnode @ le_bytes 2 dsock @
     snet @ snode @ le_bytes 2 ssock @ payload"

lemma le_word_le_bytes16 [simp]: "le_word (le_bytes 2 w) = (w :: u16)"
  by (simp add: le_word_le_bytes take_bit_word_eq_self)

lemma novell_fields [layout_simps]:
  assumes "length dn = 4" "length dd = 6" "length sn = 4" "length sd = 6"
  shows
    "ipx_checksum (novell_ipx_packet cs len h ty dn dd ds sn sd ss pl) = cs" and
    "ipx_length (novell_ipx_packet cs len h ty dn dd ds sn sd ss pl) = len" and
    "ipx_hops (novell_ipx_packet cs len h ty dn dd ds sn sd ss pl) = h" and
    "ipx_type (novell_ipx_packet cs len h ty dn dd ds sn sd ss pl) = ty" and
    "ipx_dest_net (novell_ipx_packet cs len h ty dn dd ds sn sd ss pl) = dn" and
    "ipx_dest_node (novell_ipx_packet cs len h ty dn dd ds sn sd ss pl) = dd" and
    "ipx_dest_socket (novell_ipx_packet cs len h ty dn dd ds sn sd ss pl) = ds" and
    "ipx_src_net (novell_ipx_packet cs len h ty dn dd ds sn sd ss pl) = sn" and
    "ipx_src_node (novell_ipx_packet cs len h ty dn dd ds sn sd ss pl) = sd" and
    "ipx_src_socket (novell_ipx_packet cs len h ty dn dd ds sn sd ss pl) = ss" and
    "ipx_data (novell_ipx_packet cs len h ty dn dd ds sn sd ss pl) = pl" and
    "length (novell_ipx_packet cs len h ty dn dd ds sn sd ss pl) = NOVELL_IPX_PACKET_SIZE + length pl"
  using assms
  by (simp_all add: novell_ipx_packet_def ipx_fields slice_append slice_all slice_0 slice_Cons
      nth_append NOVELL_IPX_PACKET_SIZE_def)

text \<open>\<open>_pack_ipx_packet\<close>; addresses are passed as integers and written with \<open>addr32_out\<close>.\<close>

definition pack_ipx_packet ::
  "u8 \<Rightarrow> u32 \<Rightarrow> u64 \<Rightarrow> u16 \<Rightarrow> u32 \<Rightarrow> u64 \<Rightarrow> u16 \<Rightarrow> bytes \<Rightarrow> bytes" where
  "pack_ipx_packet type src_net src_node src_socket dst_net dst_node dst_socket payload =
     novell_ipx_packet 0xFFFF
       (htons (of_nat (NOVELL_IPX_PACKET_SIZE + length payload)))
       0 type
       (addr32_out dst_net) (addr48_out dst_node) dst_socket
       (addr32_out src_net) (addr48_out src_node) src_socket
       payload"

subsection \<open>Frame formats\<close>

definition ETHERTYPE_IPX :: u16 where "ETHERTYPE_IPX = 0x8137"
definition LLC_SAP_NETWARE :: u8 where "LLC_SAP_NETWARE = 0xE0"
definition ETHERNET_HEADER_SIZE :: nat where "ETHERNET_HEADER_SIZE = 14"
definition LLC_HEADER_SIZE :: nat where "LLC_HEADER_SIZE = 3"

lemmas frame_sizes = NOVELL_IPX_PACKET_SIZE_def NOVELL_IPX_PACKET_MAX_PAYLOAD_def
  ETHERNET_HEADER_SIZE_def LLC_HEADER_SIZE_def

text \<open>\<open>struct ethernet_header\<close>: destination, source, then the type or length field.\<close>

definition ethernet_header :: "bytes \<Rightarrow> bytes \<Rightarrow> u16 \<Rightarrow> bytes" where
  "ethernet_header dest_mac src_mac ethertype = dest_mac @ src_mac @ le_bytes 2 ethertype"

definition eth_ethertype :: "bytes \<Rightarrow> u16" where
  "eth_ethertype frame = le_word (slice frame 12 2)"

definition llc_dsap :: "bytes \<Rightarrow> u8" where "llc_dsap frame = frame ! 14"
definition llc_control :: "bytes \<Rightarrow> u8" where "llc_control frame = frame ! 16"

definition ethII_frame_size :: "nat \<Rightarrow> nat" where
  "ethII_frame_size ipx_payload_len =
     (if ipx_payload_len > NOVELL_IPX_PACKET_MAX_PAYLOAD then 0
      else ETHERNET_HEADER_SIZE + NOVELL_IPX_PACKET_SIZE + ipx_payload_len)"

definition ethII_frame_pack ::
  "u8 \<Rightarrow> u32 \<Rightarrow> u64 \<Rightarrow> u16 \<Rightarrow> u32 \<Rightarrow> u64 \<Rightarrow> u16 \<Rightarrow> bytes \<Rightarrow> bytes" where
  "ethII_frame_pack type src_net src_node src_socket dst_net dst_node dst_socket payload =
     ethernet_header (addr48_out dst_node) (addr48_out src_node) (htons ETHERTYPE_IPX) @
     pack_ipx_packet type src_net src_node src_socket dst_net dst_node dst_socket payload"

definition ethII_frame_unpack :: "bytes \<Rightarrow> (nat \<times> nat) option" where
  "ethII_frame_unpack frame =
     (if length frame < ETHERNET_HEADER_SIZE + NOVELL_IPX_PACKET_SIZE then None
      else if ntohs (eth_ethertype frame) \<noteq> ETHERTYPE_IPX then None
      else Some (ETHERNET_HEADER_SIZE, length frame - ETHERNET_HEADER_SIZE))"

definition novell_frame_size :: "nat \<Rightarrow> nat" where
  "novell_frame_size ipx_payload_len =
     (if ipx_payload_len > NOVELL_IPX_PACKET_MAX_PAYLOAD
         \<or> ipx_payload_len > 1500 - NOVELL_IPX_PACKET_SIZE then 0
      else ETHERNET_HEADER_SIZE + NOVELL_IPX_PACKET_SIZE + ipx_payload_len)"

definition novell_frame_pack ::
  "u8 \<Rightarrow> u32 \<Rightarrow> u64 \<Rightarrow> u16 \<Rightarrow> u32 \<Rightarrow> u64 \<Rightarrow> u16 \<Rightarrow> bytes \<Rightarrow> bytes" where
  "novell_frame_pack type src_net src_node src_socket dst_net dst_node dst_socket payload =
     ethernet_header (addr48_out dst_node) (addr48_out src_node)
       (htons (of_nat (NOVELL_IPX_PACKET_SIZE + length payload))) @
     pack_ipx_packet type src_net src_node src_socket dst_net dst_node dst_socket payload"

definition novell_frame_unpack :: "bytes \<Rightarrow> (nat \<times> nat) option" where
  "novell_frame_unpack frame =
     (if length frame < ETHERNET_HEADER_SIZE + NOVELL_IPX_PACKET_SIZE then None
      else
        let payload_len = unat (ntohs (eth_ethertype frame))
        in if payload_len > 1500 then None
           else if payload_len < NOVELL_IPX_PACKET_SIZE then None
           else if payload_len > length frame - ETHERNET_HEADER_SIZE then None
           else Some (ETHERNET_HEADER_SIZE, payload_len))"

definition llc_frame_size :: "nat \<Rightarrow> nat" where
  "llc_frame_size ipx_payload_len =
     (if ipx_payload_len > NOVELL_IPX_PACKET_MAX_PAYLOAD
         \<or> ipx_payload_len > 1500 - (LLC_HEADER_SIZE + NOVELL_IPX_PACKET_SIZE) then 0
      else ETHERNET_HEADER_SIZE + LLC_HEADER_SIZE + NOVELL_IPX_PACKET_SIZE + ipx_payload_len)"

definition llc_frame_pack ::
  "u8 \<Rightarrow> u32 \<Rightarrow> u64 \<Rightarrow> u16 \<Rightarrow> u32 \<Rightarrow> u64 \<Rightarrow> u16 \<Rightarrow> bytes \<Rightarrow> bytes" where
  "llc_frame_pack type src_net src_node src_socket dst_net dst_node dst_socket payload =
     ethernet_header (addr48_out dst_node) (addr48_out src_node)
       (htons (of_nat (LLC_HEADER_SIZE + NOVELL_IPX_PACKET_SIZE + length payload))) @
     [LLC_SAP_NETWARE, LLC_SAP_NETWARE, 0x03] @
     pack_ipx_packet type src_net src_node src_socket dst_net dst_node dst_socket payload"

definition llc_frame_unpack :: "bytes \<Rightarrow> (nat \<times> nat) option" where
  "llc_frame_unpack frame =
     (if length frame < ETHERNET_HEADER_SIZE + LLC_HEADER_SIZE + NOVELL_IPX_PACKET_SIZE then None
      else
        let payload_len = unat (ntohs (eth_ethertype frame))
        in if payload_len > 1500 then None
           else if payload_len < LLC_HEADER_SIZE + NOVELL_IPX_PACKET_SIZE then None
           else if payload_len > length frame - ETHERNET_HEADER_SIZE then None
           else if llc_dsap frame \<noteq> LLC_SAP_NETWARE then None
           else if llc_control frame \<noteq> 0x03 then None
           else Some (ETHERNET_HEADER_SIZE + LLC_HEADER_SIZE, payload_len - LLC_HEADER_SIZE))"

subsection \<open>The contract of a frame format\<close>

locale frame_format =
  fixes frame_size :: "nat \<Rightarrow> nat"
    and frame_pack :: "u8 \<Rightarrow> u32 \<Rightarrow> u64 \<Rightarrow> u16 \<Rightarrow> u32 \<Rightarrow> u64 \<Rightarrow> u16 \<Rightarrow> bytes \<Rightarrow> bytes"
    and frame_unpack :: "bytes \<Rightarrow> (nat \<times> nat) option"
    and header_size :: nat
  assumes size_fits: "frame_size n \<noteq> 0 \<Longrightarrow> n \<le> NOVELL_IPX_PACKET_MAX_PAYLOAD"
    and pack_length: "frame_size (length pl) \<noteq> 0 \<Longrightarrow>
          length (frame_pack ty sn sd ss dn dd ds pl) = frame_size (length pl)"
    and pack_layout: "\<exists>hdr. length hdr = header_size \<and> take 12 hdr = addr48_out dd @ addr48_out sd \<and>
          frame_pack ty sn sd ss dn dd ds pl = hdr @ pack_ipx_packet ty sn sd ss dn dd ds pl"
    and unpack_pack: "frame_size (length pl) \<noteq> 0 \<Longrightarrow>
          frame_unpack (frame_pack ty sn sd ss dn dd ds pl) =
            Some (header_size, NOVELL_IPX_PACKET_SIZE + length pl)"
    and unpack_bounds: "frame_unpack frame = Some (off, n) \<Longrightarrow>
          off = header_size \<and> NOVELL_IPX_PACKET_SIZE \<le> n \<and> off + n \<le> length frame"
begin

text \<open>The packet a receiver finds in a packed frame is the one the sender packed.\<close>

lemma packed_packet:
  "drop header_size (frame_pack ty sn sd ss dn dd ds pl) = pack_ipx_packet ty sn sd ss dn dd ds pl"
  using pack_layout [of dd sd ty sn ss dn ds pl] by force

lemma packed_length_field:
  assumes "frame_size (length pl) \<noteq> 0"
  shows "unat (ntohs (ipx_length (drop header_size (frame_pack ty sn sd ss dn dd ds pl)))) =
           NOVELL_IPX_PACKET_SIZE + length pl"
proof -
  from size_fits [OF assms] have "NOVELL_IPX_PACKET_SIZE + length pl < 2 ^ LENGTH(16)"
    by (simp add: frame_sizes)
  then show ?thesis
    unfolding packed_packet pack_ipx_packet_def
    by (simp add: layout_simps unsigned_of_nat take_bit_nat_eq_self del: of_nat_add)
qed

lemma pack_recovers:
  assumes "frame_size (length pl) \<noteq> 0" and "addr48_ok sd" and "addr48_ok dd"
  shows "\<exists>off n. frame_unpack (frame_pack ty sn sd ss dn dd ds pl) = Some (off, n) \<and>
           (let p = slice (frame_pack ty sn sd ss dn dd ds pl) off n in
              ipx_checksum p = 0xFFFF \<and> ipx_type p = ty \<and>
              addr32_in (ipx_src_net p) = sn \<and> addr48_in (ipx_src_node p) = sd \<and> ipx_src_socket p = ss \<and>
              addr32_in (ipx_dest_net p) = dn \<and> addr48_in (ipx_dest_node p) = dd \<and>
              ipx_dest_socket p = ds \<and> ipx_data p = pl)"
proof -
  have "slice (frame_pack ty sn sd ss dn dd ds pl) header_size (NOVELL_IPX_PACKET_SIZE + length pl) =
          pack_ipx_packet ty sn sd ss dn dd ds pl"
    by (simp add: slice_def packed_packet) (simp add: pack_ipx_packet_def layout_simps)
  with assms(2,3) show ?thesis
    unfolding unpack_pack [OF assms(1)]
    by (simp add: Let_def pack_ipx_packet_def layout_simps)
qed

end

lemma eth_ethertype_header:
  "length d = 6 \<Longrightarrow> length sm = 6 \<Longrightarrow> eth_ethertype (ethernet_header d sm e @ rest) = e"
  by (simp add: eth_ethertype_def ethernet_header_def slice_append slice_all slice_0)

lemma length_ethernet_header [simp]:
  "length d = 6 \<Longrightarrow> length sm = 6 \<Longrightarrow> length (ethernet_header d sm e) = ETHERNET_HEADER_SIZE"
  by (simp add: ethernet_header_def frame_sizes)

lemma take_ethernet_header:
  "length d = 6 \<Longrightarrow> length sm = 6 \<Longrightarrow> take 12 (ethernet_header d sm e) = d @ sm"
  by (simp add: ethernet_header_def)

lemma length_pack_ipx_packet [simp]:
  "length (pack_ipx_packet ty sn sd ss dn dd ds pl) = NOVELL_IPX_PACKET_SIZE + length pl"
  by (simp add: pack_ipx_packet_def layout_simps)

lemma unat_of_nat16: "n < 65536 \<Longrightarrow> unat (of_nat n :: u16) = n"
  by (simp add: unsigned_of_nat take_bit_nat_eq_self)

lemmas frame_pack_simps = eth_ethertype_header take_ethernet_header unat_of_nat16

interpretation ethII: frame_format ethII_frame_size ethII_frame_pack ethII_frame_unpack ETHERNET_HEADER_SIZE
proof unfold_locales
  fix ty sn sd ss dn dd ds pl
  show "\<exists>hdr. length hdr = ETHERNET_HEADER_SIZE \<and> take 12 hdr = addr48_out dd @ addr48_out sd \<and>
          ethII_frame_pack ty sn sd ss dn dd ds pl = hdr @ pack_ipx_packet ty sn sd ss dn dd ds pl"
    by (intro exI [of _ "ethernet_header (addr48_out dd) (addr48_out sd) (htons ETHERTYPE_IPX)"])
      (simp add: ethII_frame_pack_def take_ethernet_header)
qed (auto simp: ethII_frame_size_def ethII_frame_pack_def ethII_frame_unpack_def frame_pack_simps
    frame_sizes split: if_splits)

interpretation novell: frame_format novell_frame_size novell_frame_pack novell_frame_unpack ETHERNET_HEADER_SIZE
proof unfold_locales
  fix ty sn sd ss dn dd ds pl
  show "\<exists>hdr. length hdr = ETHERNET_HEADER_SIZE \<and> take 12 hdr = addr48_out dd @ addr48_out sd \<and>
          novell_frame_pack ty sn sd ss dn dd ds pl = hdr @ pack_ipx_packet ty sn sd ss dn dd ds pl"
    by (intro exI [of _ "ethernet_header (addr48_out dd) (addr48_out sd)
          (htons (of_nat (NOVELL_IPX_PACKET_SIZE + length pl)))"])
      (simp add: novell_frame_pack_def take_ethernet_header)
qed (auto simp: novell_frame_size_def novell_frame_pack_def novell_frame_unpack_def frame_pack_simps
    frame_sizes Let_def simp del: of_nat_add of_nat_numeral split: if_splits)

interpretation llc: frame_format llc_frame_size llc_frame_pack llc_frame_unpack
  "ETHERNET_HEADER_SIZE + LLC_HEADER_SIZE"
proof unfold_locales
  fix ty sn sd ss dn dd ds and pl :: bytes
  let ?hdr = "ethernet_header (addr48_out dd) (addr48_out sd)
      (htons (of_nat (LLC_HEADER_SIZE + NOVELL_IPX_PACKET_SIZE + length pl)))"
  let ?hdr' = "?hdr @ [LLC_SAP_NETWARE, LLC_SAP_NETWARE, 0x03]"
  show "\<exists>hdr. length hdr = ETHERNET_HEADER_SIZE + LLC_HEADER_SIZE \<and>
          take 12 hdr = addr48_out dd @ addr48_out sd \<and>
          llc_frame_pack ty sn sd ss dn dd ds pl = hdr @ pack_ipx_packet ty sn sd ss dn dd ds pl"
    by (intro exI [of _ ?hdr']) (simp add: llc_frame_pack_def take_ethernet_header frame_sizes)
  assume "llc_frame_size (length pl) \<noteq> 0"
  then have "length pl \<le> 1467"
    by (simp add: llc_frame_size_def frame_sizes split: if_splits)
  moreover have "llc_dsap (llc_frame_pack ty sn sd ss dn dd ds pl) = LLC_SAP_NETWARE"
    and "llc_control (llc_frame_pack ty sn sd ss dn dd ds pl) = 0x03"
    by (simp_all add: llc_dsap_def llc_control_def llc_frame_pack_def nth_append frame_sizes)
  moreover have "eth_ethertype (llc_frame_pack ty sn sd ss dn dd ds pl) =
      htons (of_nat (LLC_HEADER_SIZE + NOVELL_IPX_PACKET_SIZE + length pl))"
    unfolding llc_frame_pack_def by (rule eth_ethertype_header) simp_all
  ultimately show "llc_frame_unpack (llc_frame_pack ty sn sd ss dn dd ds pl) =
      Some (ETHERNET_HEADER_SIZE + LLC_HEADER_SIZE, NOVELL_IPX_PACKET_SIZE + length pl)"
    by (simp add: llc_frame_unpack_def Let_def unat_of_nat16 frame_sizes llc_frame_pack_def
        del: of_nat_add of_nat_numeral)
qed (auto simp: llc_frame_size_def llc_frame_pack_def llc_frame_unpack_def
    frame_sizes Let_def split: if_splits)

subsection \<open>The configured format\<close>

text \<open>\<open>enum main_config_frame_type\<close>, and the functions each value selects.\<close>

datatype frame_type = FRAME_TYPE_ETH_II | FRAME_TYPE_NOVELL | FRAME_TYPE_LLC

fun frame_size :: "frame_type \<Rightarrow> nat \<Rightarrow> nat" where
  "frame_size FRAME_TYPE_ETH_II = ethII_frame_size"
| "frame_size FRAME_TYPE_NOVELL = novell_frame_size"
| "frame_size FRAME_TYPE_LLC = llc_frame_size"

fun frame_pack ::
  "frame_type \<Rightarrow> u8 \<Rightarrow> u32 \<Rightarrow> u64 \<Rightarrow> u16 \<Rightarrow> u32 \<Rightarrow> u64 \<Rightarrow> u16 \<Rightarrow> bytes \<Rightarrow> bytes" where
  "frame_pack FRAME_TYPE_ETH_II = ethII_frame_pack"
| "frame_pack FRAME_TYPE_NOVELL = novell_frame_pack"
| "frame_pack FRAME_TYPE_LLC = llc_frame_pack"

fun frame_unpack :: "frame_type \<Rightarrow> bytes \<Rightarrow> (nat \<times> nat) option" where
  "frame_unpack FRAME_TYPE_ETH_II = ethII_frame_unpack"
| "frame_unpack FRAME_TYPE_NOVELL = novell_frame_unpack"
| "frame_unpack FRAME_TYPE_LLC = llc_frame_unpack"

fun frame_header_size :: "frame_type \<Rightarrow> nat" where
  "frame_header_size FRAME_TYPE_LLC = ETHERNET_HEADER_SIZE + LLC_HEADER_SIZE"
| "frame_header_size _ = ETHERNET_HEADER_SIZE"

lemma frame_format_configured:
  "frame_format (frame_size ft) (frame_pack ft) (frame_unpack ft) (frame_header_size ft)"
  by (cases ft)
    (simp_all add: ethII.frame_format_axioms novell.frame_format_axioms llc.frame_format_axioms)

lemmas configured_pack_recovers = frame_format.pack_recovers [OF frame_format_configured]
lemmas configured_unpack_bounds = frame_format.unpack_bounds [OF frame_format_configured]
lemmas configured_unpack_pack = frame_format.unpack_pack [OF frame_format_configured]
lemmas configured_packed_length_field = frame_format.packed_length_field [OF frame_format_configured]
lemmas configured_packed_packet = frame_format.packed_packet [OF frame_format_configured]

text \<open>The type or length field of a packed frame.\<close>

lemma ethertype_packed:
  "ft = FRAME_TYPE_ETH_II \<Longrightarrow> eth_ethertype (frame_pack ft ty sn sd ss dn dd ds pl) = htons ETHERTYPE_IPX"
  "ft = FRAME_TYPE_NOVELL \<Longrightarrow> eth_ethertype (frame_pack ft ty sn sd ss dn dd ds pl) =
     htons (of_nat (NOVELL_IPX_PACKET_SIZE + length pl))"
  "ft = FRAME_TYPE_LLC \<Longrightarrow> eth_ethertype (frame_pack ft ty sn sd ss dn dd ds pl) =
     htons (of_nat (LLC_HEADER_SIZE + NOVELL_IPX_PACKET_SIZE + length pl))"
  by (simp_all add: ethII_frame_pack_def novell_frame_pack_def llc_frame_pack_def eth_ethertype_header
      del: of_nat_add of_nat_numeral)

lemma not_ethertype_ipx: "n \<le> 1500 \<Longrightarrow> (of_nat n :: u16) \<noteq> ETHERTYPE_IPX"
  using unat_of_nat16 [of n] by (auto simp: ETHERTYPE_IPX_def)

subsection \<open>Properties\<close>

text \<open>
  C12. For every frame format, a payload the size function admits survives the wire: unpacking
  the packed frame succeeds and gives a packet whose checksum field is the IPX magic value and
  whose type, source, destination and data are the ones that were packed.
\<close>

theorem frame_roundtrip:
  assumes "frame_size ft (length pl) \<noteq> 0" and "addr48_ok sd" and "addr48_ok dd"
  shows "\<exists>off n. frame_unpack ft (frame_pack ft ty sn sd ss dn dd ds pl) = Some (off, n) \<and>
           (let p = slice (frame_pack ft ty sn sd ss dn dd ds pl) off n in
              ipx_checksum p = 0xFFFF \<and> ipx_type p = ty \<and>
              addr32_in (ipx_src_net p) = sn \<and> addr48_in (ipx_src_node p) = sd \<and> ipx_src_socket p = ss \<and>
              addr32_in (ipx_dest_net p) = dn \<and> addr48_in (ipx_dest_node p) = dd \<and>
              ipx_dest_socket p = ds \<and> ipx_data p = pl)"
  using assms by (rule configured_pack_recovers)

theorem frame_roundtrip_witness:
  "\<exists>off n. frame_unpack FRAME_TYPE_LLC
             (frame_pack FRAME_TYPE_LLC 4 1 0 0x0440 2 0x010000 0x0540 [1, 2, 3]) = Some (off, n) \<and>
     ipx_data (slice (frame_pack FRAME_TYPE_LLC 4 1 0 0x0440 2 0x010000 0x0540 [1, 2, 3]) off n) = [1, 2, 3]"
  using frame_roundtrip [of FRAME_TYPE_LLC "[1, 2, 3]" 0 "0x010000" 4 1 "0x0440" 2 "0x0540"]
  by (auto simp: llc_frame_size_def frame_sizes addr48_ok_def Let_def)

text \<open>
  C33. A frame the unpack functions accept, whatever its bytes, holds a whole IPX header, and
  the packet they report lies inside the captured frame, so the receiver's reads of the header
  and of \<open>packet_len\<close> bytes never leave it.
\<close>

theorem frame_unpack_in_bounds:
  assumes "frame_unpack ft frame = Some (off, n)"
  shows "NOVELL_IPX_PACKET_SIZE \<le> n \<and> off + n \<le> length frame \<and>
         off = length frame - length (drop off frame)"
  using configured_unpack_bounds [OF assms] by simp

theorem frame_unpack_in_bounds_witness:
  "NOVELL_IPX_PACKET_SIZE \<le> 31 \<and>
   14 + 31 \<le> length (frame_pack FRAME_TYPE_ETH_II 4 1 0 2 3 0 4 [9]) \<and>
   14 = length (frame_pack FRAME_TYPE_ETH_II 4 1 0 2 3 0 4 [9]) -
        length (drop 14 (frame_pack FRAME_TYPE_ETH_II 4 1 0 2 3 0 4 [9]))"
proof -
  have "frame_unpack FRAME_TYPE_ETH_II (frame_pack FRAME_TYPE_ETH_II 4 1 0 2 3 0 4 [9]) = Some (14, 31)"
    using configured_unpack_pack [of FRAME_TYPE_ETH_II "[9]" 4 1 0 2 3 0 4]
    by (simp add: ethII_frame_size_def frame_sizes)
  then show ?thesis by (rule frame_unpack_in_bounds)
qed

text \<open>
  The formats are disjoint on the wire: a frame packed in one format is, in a receiver
  configured for another one, either refused by the unpack function or yields a packet whose
  checksum field is not the IPX magic value, which the receiver drops.
\<close>

theorem frame_formats_disjoint:
  assumes "ft \<noteq> ft'" and "frame_size ft (length pl) \<noteq> 0"
  shows "case frame_unpack ft' (frame_pack ft ty sn sd ss dn dd ds pl) of
           None \<Rightarrow> True
         | Some (off, n) \<Rightarrow> ipx_checksum (drop off (frame_pack ft ty sn sd ss dn dd ds pl)) \<noteq> 0xFFFF"
proof -
  let ?f = "frame_pack ft ty sn sd ss dn dd ds pl"
  show ?thesis
  proof (cases ft)
    case FRAME_TYPE_ETH_II
    then have "eth_ethertype ?f = htons ETHERTYPE_IPX" by (rule ethertype_packed)
    with assms FRAME_TYPE_ETH_II show ?thesis
      by (cases ft') (simp_all add: novell_frame_unpack_def llc_frame_unpack_def ETHERTYPE_IPX_def Let_def)
  next
    case FRAME_TYPE_NOVELL
    with assms have len: "length pl \<le> 1470"
      by (simp add: novell_frame_size_def frame_sizes split: if_splits)
    have type: "eth_ethertype ?f = htons (of_nat (NOVELL_IPX_PACKET_SIZE + length pl))"
      using FRAME_TYPE_NOVELL by (rule ethertype_packed)
    have sap: "llc_dsap ?f = 0xFF"
      using FRAME_TYPE_NOVELL
      by (simp add: llc_dsap_def novell_frame_pack_def nth_append pack_ipx_packet_def
          novell_ipx_packet_def le_bytes_2) (simp add: frame_sizes)
    show ?thesis
    proof (cases ft')
      case FRAME_TYPE_ETH_II
      with not_ethertype_ipx [of "NOVELL_IPX_PACKET_SIZE + length pl"] type len show ?thesis
        by (simp add: ethII_frame_unpack_def frame_sizes)
    next
      case FRAME_TYPE_LLC
      with sap show ?thesis by (simp add: llc_frame_unpack_def LLC_SAP_NETWARE_def Let_def)
    qed (use assms FRAME_TYPE_NOVELL in simp)
  next
    case FRAME_TYPE_LLC
    with assms have len: "length pl \<le> 1467"
      by (simp add: llc_frame_size_def frame_sizes split: if_splits)
    have type: "eth_ethertype ?f = htons (of_nat (LLC_HEADER_SIZE + NOVELL_IPX_PACKET_SIZE + length pl))"
      using FRAME_TYPE_LLC by (rule ethertype_packed)
    show ?thesis
    proof (cases ft')
      case FRAME_TYPE_ETH_II
      with not_ethertype_ipx [of "LLC_HEADER_SIZE + NOVELL_IPX_PACKET_SIZE + length pl"] type len
      show ?thesis by (simp add: ethII_frame_unpack_def frame_sizes)
    next
      case FRAME_TYPE_NOVELL
      have "ipx_checksum (drop ETHERNET_HEADER_SIZE ?f) = 0xE0E0"
        using FRAME_TYPE_LLC
        by (simp add: llc_frame_pack_def ipx_checksum_def slice_def LLC_SAP_NETWARE_def)
      with FRAME_TYPE_NOVELL show ?thesis
        by (simp add: novell_frame_unpack_def Let_def)
    qed (use assms FRAME_TYPE_LLC in simp)
  qed
qed

theorem frame_formats_disjoint_witness:
  "case frame_unpack FRAME_TYPE_NOVELL (frame_pack FRAME_TYPE_LLC 4 1 0 2 3 0 4 [7]) of
     None \<Rightarrow> True
   | Some (off, n) \<Rightarrow> ipx_checksum (drop off (frame_pack FRAME_TYPE_LLC 4 1 0 2 3 0 4 [7])) \<noteq> 0xFFFF"
  by (rule frame_formats_disjoint) (simp_all add: llc_frame_size_def frame_sizes)

end
