(* ===== verification/Net.thy ===== *)
theory Net
  imports HashTable Ethernet
begin

text \<open>
  What the components share at run time (ipxwrapper.h): addresses and sockets, the packet the
  program's own instances exchange, and the log of what was handed to the network. The result
  of the \<open>n\<close>-th send is a parameter: \<open>send_err n\<close> is the Winsock error, 0 for success.
\<close>

subsection \<open>Addresses\<close>

definition AF_INET :: u16 where "AF_INET = 2"
definition AF_IPX :: u16 where "AF_IPX = 6"

record sockaddr_in =
  sin_family :: u16
  sin_port :: u16
  sin_addr :: u32

record sockaddr_ipx =
  sa_family :: u16
  sa_netnum :: bytes
  sa_nodenum :: bytes
  sa_socket :: u16

text \<open>A \<open>struct sockaddr_in\<close> in memory, with the eight bytes of \<open>sin_zero\<close> cleared.\<close>

definition SOCKADDR_IN_SIZE :: nat where "SOCKADDR_IN_SIZE = 16"

definition sockaddr_in_bytes :: "sockaddr_in \<Rightarrow> bytes" where
  "sockaddr_in_bytes a =
     le_bytes 2 (sin_family a) @ le_bytes 2 (sin_port a) @ le_bytes 4 (sin_addr a) @ replicate 8 0"

lemma length_sockaddr_in_bytes [simp]: "length (sockaddr_in_bytes a) = SOCKADDR_IN_SIZE"
  by (simp add: sockaddr_in_bytes_def SOCKADDR_IN_SIZE_def)

definition INADDR_LOOPBACK :: u32 where
  "INADDR_LOOPBACK = addr32_in [127, 0, 0, 1]"

subsection \<open>Sockets\<close>

definition IPX_FILTER :: u32 where "IPX_FILTER = 0x1"
definition IPX_BOUND :: u32 where "IPX_BOUND = 0x2"
definition IPX_BROADCAST :: u32 where "IPX_BROADCAST = 0x4"
definition IPX_SEND :: u32 where "IPX_SEND = 0x8"
definition IPX_RECV :: u32 where "IPX_RECV = 0x10"
definition IPX_REUSE :: u32 where "IPX_REUSE = 0x40"
definition IPX_CONNECTED :: u32 where "IPX_CONNECTED = 0x80"
definition IPX_RECV_BCAST :: u32 where "IPX_RECV_BCAST = 0x100"
definition IPX_EXT_ADDR :: u32 where "IPX_EXT_ADDR = 0x200"
definition IPX_IS_SPX :: u32 where "IPX_IS_SPX = 0x400"
definition IPX_IS_SPXII :: u32 where "IPX_IS_SPXII = 0x800"
definition IPX_LISTENING :: u32 where "IPX_LISTENING = 0x1000"
definition IPX_CONNECT_OK :: u32 where "IPX_CONNECT_OK = 0x2000"

lemmas ipx_flags = IPX_FILTER_def IPX_BOUND_def IPX_BROADCAST_def IPX_SEND_def IPX_RECV_def
  IPX_REUSE_def IPX_CONNECTED_def IPX_RECV_BCAST_def IPX_EXT_ADDR_def IPX_IS_SPX_def
  IPX_IS_SPXII_def IPX_LISTENING_def IPX_CONNECT_OK_def

text \<open>
  A socket of the \<open>sockets\<close> table, which is keyed by its descriptor. \<open>sk_ptr\<close> is the address of
  the structure; the receive queue is named by its address too, 0 for \<open>NULL\<close>.
\<close>

record ipx_socket =
  sk_ptr :: nat
  sk_port :: u16
  sk_flags :: u32
  sk_s_ptype :: u8
  sk_f_ptype :: u8
  sk_addr :: sockaddr_ipx
  sk_sock_mut :: nat
  sk_remote_addr :: sockaddr_ipx
  sk_recv_queue :: nat

type_synonym sockets = "(nat, ipx_socket) table"

subsection \<open>The instances' packets\<close>

definition MAX_DATA_SIZE :: nat where "MAX_DATA_SIZE = 8192"
definition MAX_PKT_SIZE :: nat where "MAX_PKT_SIZE = 8219"

text \<open>\<open>sizeof(ipx_packet) - 1\<close>: the header in front of the data.\<close>

definition IPX_PACKET_HEADER :: nat where "IPX_PACKET_HEADER = 27"

lemmas pkt_sizes = MAX_DATA_SIZE_def MAX_PKT_SIZE_def IPX_PACKET_HEADER_def

definition pkt_ptype :: "bytes \<Rightarrow> u8" where "pkt_ptype p = p ! 0"
definition pkt_dest_net :: "bytes \<Rightarrow> bytes" where "pkt_dest_net p = slice p 1 4"
definition pkt_dest_node :: "bytes \<Rightarrow> bytes" where "pkt_dest_node p = slice p 5 6"
definition pkt_dest_socket :: "bytes \<Rightarrow> u16" where "pkt_dest_socket p = le_word (slice p 11 2)"
definition pkt_src_net :: "bytes \<Rightarrow> bytes" where "pkt_src_net p = slice p 13 4"
definition pkt_src_node :: "bytes \<Rightarrow> bytes" where "pkt_src_node p = slice p 17 6"
definition pkt_src_socket :: "bytes \<Rightarrow> u16" where "pkt_src_socket p = le_word (slice p 23 2)"
definition pkt_size :: "bytes \<Rightarrow> u16" where "pkt_size p = le_word (slice p 25 2)"
definition pkt_data :: "bytes \<Rightarrow> bytes" where "pkt_data p = drop 27 p"

definition ipx_packet ::
  "u8 \<Rightarrow> bytes \<Rightarrow> bytes \<Rightarrow> u16 \<Rightarrow> bytes \<Rightarrow> bytes \<Rightarrow> u16 \<Rightarrow> u16 \<Rightarrow> bytes \<Rightarrow> bytes" where
  "ipx_packet ptype dnet dnode dsock snet snode ssock sz payload =
     [ptype] @ dnet @ dnode @ le_bytes 2 dsock @ snet @ snode @ le_bytes 2 ssock @ le_bytes 2 sz @ payload"

lemma packet_fields [layout_simps]:
  assumes "length dn = 4" "length dd = 6" "length sn = 4" "length sd = 6"
  shows
    "pkt_ptype (ipx_packet ty dn dd ds sn sd ss sz pl) = ty" and
    "pkt_dest_net (ipx_packet ty dn dd ds sn sd ss sz pl) = dn" and
    "pkt_dest_node (ipx_packet ty dn dd ds sn sd ss sz pl) = dd" and
    "pkt_dest_socket (ipx_packet ty dn dd ds sn sd ss sz pl) = ds" and
    "pkt_src_net (ipx_packet ty dn dd ds sn sd ss sz pl) = sn" and
    "pkt_src_node (ipx_packet ty dn dd ds sn sd ss sz pl) = sd" and
    "pkt_src_socket (ipx_packet ty dn dd ds sn sd ss sz pl) = ss" and
    "pkt_size (ipx_packet ty dn dd ds sn sd ss sz pl) = sz" and
    "pkt_data (ipx_packet ty dn dd ds sn sd ss sz pl) = pl" and
    "length (ipx_packet ty dn dd ds sn sd ss sz pl) = IPX_PACKET_HEADER + length pl"
  using assms
  by (simp_all add: ipx_packet_def pkt_ptype_def pkt_dest_net_def pkt_dest_node_def pkt_dest_socket_def
      pkt_src_net_def pkt_src_node_def pkt_src_socket_def pkt_size_def pkt_data_def
      slice_append slice_all slice_0 slice_Cons IPX_PACKET_HEADER_def)

subsection \<open>The network\<close>

text \<open>Everything handed to the system for sending, in order, and whether it was accepted.\<close>

datatype sent =
    Udp nat sockaddr_in bytes bool
  | Frame nat bytes bool

record netstate =
  n_sent :: "sent list"
  n_errno :: u32
  n_send_packets :: u32
  n_send_bytes :: u32
  n_recv_packets :: u32
  n_recv_bytes :: u32
  n_send_packets_udp :: u32
  n_send_bytes_udp :: u32
  n_recv_packets_udp :: u32
  n_recv_bytes_udp :: u32

text \<open>\<open>sendto\<close> on one of the program's own sockets: the error, and the log with the attempt.\<close>

definition udp_sendto ::
  "(nat \<Rightarrow> u32) \<Rightarrow> nat \<Rightarrow> sockaddr_in \<Rightarrow> bytes \<Rightarrow> 'n netstate_scheme \<Rightarrow> u32 \<times> 'n netstate_scheme" where
  "udp_sendto send_err fd to dat n =
     (let err = send_err (length (n_sent n))
      in (err, n\<lparr>n_sent := n_sent n @ [Udp fd to dat (err = 0)],
                 n_errno := if err = 0 then n_errno n else err\<rparr>))"

definition count_send_udp :: "nat \<Rightarrow> 'n netstate_scheme \<Rightarrow> 'n netstate_scheme" where
  "count_send_udp len n =
     n\<lparr>n_send_packets_udp := n_send_packets_udp n + 1,
       n_send_bytes_udp := n_send_bytes_udp n + of_nat len\<rparr>"

definition count_recv_udp :: "nat \<Rightarrow> 'n netstate_scheme \<Rightarrow> 'n netstate_scheme" where
  "count_recv_udp len n =
     n\<lparr>n_recv_packets_udp := n_recv_packets_udp n + 1,
       n_recv_bytes_udp := n_recv_bytes_udp n + of_nat len\<rparr>"

definition count_recv :: "nat \<Rightarrow> 'n netstate_scheme \<Rightarrow> 'n netstate_scheme" where
  "count_recv len n =
     n\<lparr>n_recv_packets := n_recv_packets n + 1, n_recv_bytes := n_recv_bytes n + of_nat len\<rparr>"

definition count_send :: "nat \<Rightarrow> 'n netstate_scheme \<Rightarrow> 'n netstate_scheme" where
  "count_send len n =
     n\<lparr>n_send_packets := n_send_packets n + 1, n_send_bytes := n_send_bytes n + of_nat len\<rparr>"

lemma count_simps [simp]:
  "n_sent (count_send_udp k n) = n_sent n" "n_sent (count_recv_udp k n) = n_sent n"
  "n_sent (count_recv k n) = n_sent n" "n_sent (count_send k n) = n_sent n"
  by (simp_all add: count_send_udp_def count_recv_udp_def count_recv_def count_send_def)

definition net_init :: netstate where
  "net_init = \<lparr>n_sent = [], n_errno = 0, n_send_packets = 0, n_send_bytes = 0, n_recv_packets = 0,
     n_recv_bytes = 0, n_send_packets_udp = 0, n_send_bytes_udp = 0, n_recv_packets_udp = 0,
     n_recv_bytes_udp = 0\<rparr>"

end
