(* ===== verification/Coalesce.thy ===== *)
theory Coalesce
  imports Net
begin

text \<open>
  Packet coalescing for DOSBox servers (coalesce.c): when an application sends to one address
  fast enough, its packets are collected for up to 20 ms and sent as the payload of one IPX
  packet of a type of its own. The caller holds the sockets lock, so each operation is one
  function of the state; the time \<open>get_uticks\<close> returns, the outcome of \<open>malloc\<close> and the
  indeterminate length field of a header on the stack are arguments. \<open>None\<close> is a failed
  \<open>assert\<close>, a write out of bounds or a use of a \<open>NULL\<close> pointer. Keys are compared by
  their members (the code hashes the bytes of the structure, padding included).
\<close>

definition COALESCE_TRACK_COUNT :: nat where "COALESCE_TRACK_COUNT = 512"
definition COALESCE_START_THRESH :: u64 where "COALESCE_START_THRESH = 2500000"
definition COALESCE_STOP_THRESH :: u64 where "COALESCE_STOP_THRESH = 10000000"
definition COALESCE_MAX_DELAY :: u64 where "COALESCE_MAX_DELAY = 20000"
definition COALESCE_MAX_SIZE :: nat where "COALESCE_MAX_SIZE = 1384"
definition IPX_MAGIC_COALESCED :: u8 where "IPX_MAGIC_COALESCED = 2"

type_synonym coalesce_key = "u32 \<times> u64 \<times> u16"

record coalesce_dest =
  cd_active :: bool
  cd_send_timestamps :: "u64 list"
  cd_payload_timestamp :: u64
  cd_payload :: bytes
  cd_payload_used :: nat

text \<open>The two lists of destinations: the table, and the pending ones, oldest first.\<close>

record coalesce_state = netstate +
  co_table :: "(coalesce_key, coalesce_dest) table"
  co_pending :: "coalesce_key list"

text \<open>The globals of other files the component reads.\<close>

record coalesce_cfg =
  cf_coalesce :: bool
  cf_private_socket :: nat
  cf_server :: sockaddr_in
  cf_local_net :: u32
  cf_local_node :: u64
  cf_send_err :: "nat \<Rightarrow> u32"

definition cd_zero :: coalesce_dest where
  "cd_zero = \<lparr>cd_active = False, cd_send_timestamps = replicate COALESCE_TRACK_COUNT 0,
     cd_payload_timestamp = 0, cd_payload = replicate COALESCE_MAX_SIZE 0, cd_payload_used = 0\<rparr>"

definition co_find :: "'z coalesce_state_scheme \<Rightarrow> coalesce_key \<Rightarrow> coalesce_dest option" where
  "co_find st key = hash_find (co_table st) key"

definition co_update ::
  "coalesce_key \<Rightarrow> (coalesce_dest \<Rightarrow> coalesce_dest) \<Rightarrow> 'z coalesce_state_scheme \<Rightarrow> 'z coalesce_state_scheme" where
  "co_update key f st = st\<lparr>co_table := hash_modify (co_table st) key f\<rparr>"

definition co_insert ::
  "'z coalesce_state_scheme \<Rightarrow> coalesce_key \<Rightarrow> coalesce_dest \<Rightarrow> 'z coalesce_state_scheme" where
  "co_insert st key cd = st\<lparr>co_table := hash_add (co_table st) key cd\<rparr>"

definition co_delete :: "'z coalesce_state_scheme \<Rightarrow> coalesce_key \<Rightarrow> 'z coalesce_state_scheme" where
  "co_delete st key = st\<lparr>co_table := hash_del (co_table st) key\<rparr>"

definition co_keys :: "'z coalesce_state_scheme \<Rightarrow> coalesce_key list" where
  "co_keys st = map fst (co_table st)"

interpretation co_tab: keyed_table co_find co_insert co_delete "\<lambda>st key f. co_update key f st" co_keys
  by unfold_locales
    (simp_all add: co_find_def [abs_def] co_insert_def co_delete_def co_update_def co_keys_def
      uthash.find_keys uthash.find_add uthash.find_del uthash.find_modify uthash.keys_add
      uthash.keys_del uthash.keys_modify del: set_map)

text \<open>The result says whether a destination was found or made.\<close>

definition get_coalesce_by_dest ::
  "coalesce_cfg \<Rightarrow> bool \<Rightarrow> coalesce_key \<Rightarrow> 'z coalesce_state_scheme \<Rightarrow> bool \<times> 'z coalesce_state_scheme" where
  "get_coalesce_by_dest cfg malloc_ok dest st =
     (if \<not> cf_coalesce cfg then (False, st)
      else case co_find st dest of
             Some node \<Rightarrow> (True, st)
           | None \<Rightarrow>
               if \<not> malloc_ok then (False, st)
               else (True, co_insert st dest cd_zero))"

definition coalesce_register_send :: "coalesce_dest \<Rightarrow> u64 \<Rightarrow> bool \<times> coalesce_dest" where
  "coalesce_register_send node timestamp =
     (let ts = tl (cd_send_timestamps node) @ [timestamp];
          node = node\<lparr>cd_send_timestamps := ts\<rparr>
      in if ts ! 0 + COALESCE_START_THRESH \<ge> timestamp then (True, node)
         else if cd_active node \<and> ts ! 0 + COALESCE_STOP_THRESH < timestamp then (False, node)
         else (cd_active node, node))"

definition coalesce_header :: "coalesce_cfg \<Rightarrow> coalesce_key \<Rightarrow> u16 \<Rightarrow> bytes" where
  "coalesce_header cfg dest len =
     (case dest of (netnum, nodenum, socket) \<Rightarrow>
        novell_ipx_packet 0xFFFF len 0 IPX_MAGIC_COALESCED
          (addr32_out netnum) (addr48_out nodenum) 0
          (addr32_out (cf_local_net cfg)) (addr48_out (cf_local_node cfg)) 0 [])"

definition coalesce_add_data ::
  "coalesce_cfg \<Rightarrow> u16 \<Rightarrow> coalesce_key \<Rightarrow> bytes \<Rightarrow> u64 \<Rightarrow> 'z coalesce_state_scheme
     \<Rightarrow> (bool \<times> 'z coalesce_state_scheme) option" where
  "coalesce_add_data cfg junk key dat now st =
     (case co_find st key of
        None \<Rightarrow> None
      | Some cd \<Rightarrow>
          if cd_payload_used cd = 0 \<and> NOVELL_IPX_PACKET_SIZE + length dat > COALESCE_MAX_SIZE
          then Some (False, st)
          else
            let (payload, used, st) =
                  (if cd_payload_used cd = 0
                   then (mem_write (cd_payload cd) 0 (coalesce_header cfg key junk), NOVELL_IPX_PACKET_SIZE,
                         (co_update key (\<lambda>cd. cd\<lparr>cd_payload_timestamp := now\<rparr>) st)
                           \<lparr>co_pending := co_pending st @ [key]\<rparr>)
                   else (Some (cd_payload cd), cd_payload_used cd, st))
            in case payload of
                 None \<Rightarrow> None
               | Some payload \<Rightarrow>
                   if used + length dat \<le> COALESCE_MAX_SIZE then
                     (case mem_write payload used dat of
                        None \<Rightarrow> None
                      | Some payload \<Rightarrow>
                          Some (True, co_update key (\<lambda>cd. cd\<lparr>cd_payload := payload,
                            cd_payload_used := used + length dat\<rparr>) st))
                   else
                     Some (False, co_update key (\<lambda>cd. cd\<lparr>cd_payload := payload,
                       cd_payload_used := used\<rparr>) st))"

definition coalesce_flush ::
  "coalesce_cfg \<Rightarrow> coalesce_key \<Rightarrow> 'z coalesce_state_scheme \<Rightarrow> 'z coalesce_state_scheme option" where
  "coalesce_flush cfg key st =
     (case co_find st key of
        None \<Rightarrow> None
      | Some cd \<Rightarrow>
          if \<not> cd_payload_used cd > 0 then None
          else
            case mem_write (cd_payload cd) 2 (le_bytes 2 (htons (of_nat (cd_payload_used cd)))) of
              None \<Rightarrow> None
            | Some payload \<Rightarrow>
                let used = cd_payload_used cd;
                    (err, st) = udp_sendto (cf_send_err cfg) (cf_private_socket cfg) (cf_server cfg)
                                  (take used payload) st;
                    st = (if err = 0 then count_send_udp used st else st)
                in Some ((co_update key (\<lambda>cd. cd\<lparr>cd_payload := payload, cd_payload_used := 0\<rparr>) st)
                           \<lparr>co_pending := remove1 key (co_pending st)\<rparr>))"

text \<open>
  The branch of \<open>coalesce_send\<close> that has a destination: whether the data was queued, after
  at most one flush before and one after it.
\<close>

definition coalesce_enqueue ::
  "coalesce_cfg \<Rightarrow> u16 \<Rightarrow> u64 \<Rightarrow> bytes \<Rightarrow> coalesce_key \<Rightarrow> 'z coalesce_state_scheme
     \<Rightarrow> (bool \<times> 'z coalesce_state_scheme) option" where
  "coalesce_enqueue cfg junk now dat key st =
     (case co_find st key of
        None \<Rightarrow> None
      | Some cd \<Rightarrow>
          let (should_coalesce, cd) = coalesce_register_send cd now;
              st = co_update key (\<lambda>_. cd\<lparr>cd_active := should_coalesce\<rparr>) st
          in case (if should_coalesce \<and> cd_payload_used cd + length dat > COALESCE_MAX_SIZE \<and>
                      length dat < COALESCE_MAX_SIZE div 2
                   then coalesce_flush cfg key st else Some st) of
               None \<Rightarrow> None
             | Some st \<Rightarrow>
                 (case (if should_coalesce then coalesce_add_data cfg junk key dat now st
                        else Some (False, st)) of
                    None \<Rightarrow> None
                  | Some (queued, st) \<Rightarrow>
                      (case co_find st key of
                         None \<Rightarrow> None
                       | Some cd \<Rightarrow>
                           if cd_payload_used cd > 0 \<and> cd_payload_timestamp cd + COALESCE_MAX_DELAY \<le> now
                           then map_option (Pair queued) (coalesce_flush cfg key st)
                           else Some (queued, st))))"

definition coalesce_send ::
  "coalesce_cfg \<Rightarrow> bool \<Rightarrow> u16 \<Rightarrow> u64 \<Rightarrow> bytes \<Rightarrow> coalesce_key \<Rightarrow> 'z coalesce_state_scheme
     \<Rightarrow> (u32 \<times> 'z coalesce_state_scheme) option" where
  "coalesce_send cfg malloc_ok junk now dat key st =
     (if \<not> length dat > 0 then None
      else
        let (have_cd, st) = get_coalesce_by_dest cfg malloc_ok key st
        in case (if have_cd then coalesce_enqueue cfg junk now dat key st else Some (False, st)) of
             None \<Rightarrow> None
           | Some (queued, st) \<Rightarrow>
               if queued then Some (0, st)
               else
                 let (err, st) = udp_sendto (cf_send_err cfg) (cf_private_socket cfg) (cf_server cfg) dat st
                 in if err \<noteq> 0 then Some (err, st)
                    else Some (0, count_send_udp (length dat) st))"

lemma coalesce_flush_pending:
  "coalesce_flush cfg key st = Some st' \<Longrightarrow> co_pending st' = remove1 key (co_pending st)"
  by (auto simp: coalesce_flush_def co_update_def udp_sendto_def count_send_udp_def Let_def
      split: option.splits if_splits)

function coalesce_flush_waiting ::
  "coalesce_cfg \<Rightarrow> u64 \<Rightarrow> 'z coalesce_state_scheme \<Rightarrow> 'z coalesce_state_scheme option" where
  "coalesce_flush_waiting cfg now st =
     (case co_pending st of
        [] \<Rightarrow> Some st
      | key # _ \<Rightarrow>
          (case co_find st key of
             None \<Rightarrow> None
           | Some cd \<Rightarrow>
               if cd_payload_timestamp cd + COALESCE_MAX_DELAY \<le> now
               then (case coalesce_flush cfg key st of
                       None \<Rightarrow> None
                     | Some st' \<Rightarrow> coalesce_flush_waiting cfg now st')
               else Some st))"
  by pat_completeness auto
termination
  by (relation "measure (\<lambda>(cfg, now, st). length (co_pending st))")
    (auto simp: coalesce_flush_pending)

declare coalesce_flush_waiting.simps [simp del]

function coalesce_flush_all ::
  "coalesce_cfg \<Rightarrow> 'z coalesce_state_scheme \<Rightarrow> 'z coalesce_state_scheme option" where
  "coalesce_flush_all cfg st =
     (case co_pending st of
        [] \<Rightarrow> Some st
      | key # _ \<Rightarrow>
          (case coalesce_flush cfg key st of
             None \<Rightarrow> None
           | Some st' \<Rightarrow> coalesce_flush_all cfg st'))"
  by pat_completeness auto
termination
  by (relation "measure (\<lambda>(cfg, st). length (co_pending st))")
    (auto simp: coalesce_flush_pending)

declare coalesce_flush_all.simps [simp del]

definition coalesce_cleanup ::
  "coalesce_cfg \<Rightarrow> 'z coalesce_state_scheme \<Rightarrow> 'z coalesce_state_scheme option" where
  "coalesce_cleanup cfg st =
     (case coalesce_flush_all cfg st of
        None \<Rightarrow> None
      | Some st \<Rightarrow>
          Some (fold (\<lambda>key st. co_delete st key) (co_keys st) st))"

subsection \<open>Contract\<close>

text \<open>
  What the pending data stand for: for each destination the packets collected so far. A
  coalesced packet is a header with the total length and the packets one after the other.
\<close>

definition coalesced :: "coalesce_cfg \<Rightarrow> coalesce_key \<Rightarrow> bytes list \<Rightarrow> bytes" where
  "coalesced cfg key q =
     coalesce_header cfg key (htons (of_nat (NOVELL_IPX_PACKET_SIZE + length (concat q)))) @ concat q"

definition cd_rep :: "coalesce_cfg \<Rightarrow> coalesce_key \<Rightarrow> bytes list \<Rightarrow> coalesce_dest \<Rightarrow> bool" where
  "cd_rep cfg key q cd \<longleftrightarrow>
     length (cd_send_timestamps cd) = COALESCE_TRACK_COUNT \<and> length (cd_payload cd) = COALESCE_MAX_SIZE \<and>
     (if q = [] then cd_payload_used cd = 0
      else cd_payload_used cd = NOVELL_IPX_PACKET_SIZE + length (concat q) \<and>
           cd_payload_used cd \<le> COALESCE_MAX_SIZE \<and>
           (\<exists>len. take (cd_payload_used cd) (cd_payload cd) = coalesce_header cfg key len @ concat q))"

definition co_rep ::
  "coalesce_cfg \<Rightarrow> (coalesce_key \<Rightarrow> bytes list) \<Rightarrow> 'z coalesce_state_scheme \<Rightarrow> bool" where
  "co_rep cfg Q st \<longleftrightarrow>
     distinct (co_keys st) \<and> distinct (co_pending st) \<and>
     (\<forall>key. key \<in> set (co_pending st) \<longleftrightarrow> Q key \<noteq> []) \<and>
     (\<forall>key. case co_find st key of None \<Rightarrow> Q key = [] | Some cd \<Rightarrow> cd_rep cfg key (Q key) cd)"

definition co_ts :: "'z coalesce_state_scheme \<Rightarrow> coalesce_key \<Rightarrow> u64" where
  "co_ts st key = (case co_find st key of None \<Rightarrow> 0 | Some cd \<Rightarrow> cd_payload_timestamp cd)"

lemma co_find_update [simp]:
  "co_find (co_update key f st) k = (if k = key then map_option f (co_find st key) else co_find st k)"
  by (simp add: co_tab.find_modify)

lemma co_update_simps [simp]:
  "co_pending (co_update key f st) = co_pending st" "n_sent (co_update key f st) = n_sent st"
  "co_keys (co_update key f st) = co_keys st"
  by (simp_all add: co_tab.keys_modify) (simp_all add: co_update_def)

lemma co_find_unchanged [simp]:
  "co_find (st\<lparr>co_pending := p\<rparr>) = co_find st" "co_find (count_send_udp k st) = co_find st"
  "co_find (snd (udp_sendto e fd to dat st)) = co_find st"
  by (simp_all add: co_find_def fun_eq_iff count_send_udp_def udp_sendto_def Let_def)

lemma co_unchanged [simp]:
  "co_pending (count_send_udp k st) = co_pending st" "co_keys (count_send_udp k st) = co_keys st" "co_keys (st\<lparr>co_pending := p\<rparr>) = co_keys st"
  "co_pending (snd (udp_sendto e fd to dat st)) = co_pending st"
  "co_keys (snd (udp_sendto e fd to dat st)) = co_keys st"
  "n_sent (snd (udp_sendto e fd to dat st)) = n_sent st @ [Udp fd to dat (e (length (n_sent st)) = 0)]"
  "fst (udp_sendto e fd to dat st) = e (length (n_sent st))"
  by (simp_all add: count_send_udp_def udp_sendto_def co_keys_def Let_def)

lemma length_coalesce_header [simp]: "length (coalesce_header cfg key len) = NOVELL_IPX_PACKET_SIZE"
  by (auto simp: coalesce_header_def layout_simps split: prod.splits)

text \<open>Storing the length in a header only changes the length.\<close>

lemma coalesce_header_set_length:
  "take 2 (coalesce_header cfg key len) @ le_bytes 2 len' @ drop 4 (coalesce_header cfg key len) =
     coalesce_header cfg key len'"
  by (auto simp: coalesce_header_def novell_ipx_packet_def le_bytes_2 split: prod.splits)

lemma co_rep_find:
  assumes "co_rep cfg Q st" and "Q key \<noteq> []"
  obtains cd where "co_find st key = Some cd" and "cd_rep cfg key (Q key) cd"
proof -
  have "case co_find st key of None \<Rightarrow> Q key = [] | Some cd \<Rightarrow> cd_rep cfg key (Q key) cd"
    using assms(1) unfolding co_rep_def by blast
  with assms(2) that show ?thesis by (auto split: option.splits)
qed

lemma co_repD:
  assumes "co_rep cfg Q st"
  shows "co_find st key = Some cd \<Longrightarrow> cd_rep cfg key (Q key) cd"
    and "key \<in> set (co_pending st) \<longleftrightarrow> Q key \<noteq> []"
    and "co_find st key = None \<Longrightarrow> Q key = []"
    and "distinct (co_keys st)" and "distinct (co_pending st)"
proof -
  have c: "case co_find st key of None \<Rightarrow> Q key = [] | Some cd \<Rightarrow> cd_rep cfg key (Q key) cd"
    using assms unfolding co_rep_def by blast
  then show "co_find st key = Some cd \<Longrightarrow> cd_rep cfg key (Q key) cd"
    and "co_find st key = None \<Longrightarrow> Q key = []" by auto
  show "key \<in> set (co_pending st) \<longleftrightarrow> Q key \<noteq> []" "distinct (co_keys st)" "distinct (co_pending st)"
    using assms unfolding co_rep_def by blast+
qed

lemma co_repI:
  assumes rep: "co_rep cfg Q st" and "distinct (co_keys st')" and "distinct (co_pending st')"
    and find: "\<And>k. k \<noteq> key \<Longrightarrow> co_find st' k = co_find st k"
    and cd: "co_find st' key = Some cd'" "cd_rep cfg key q cd'"
    and pending: "\<And>k. k \<in> set (co_pending st') \<longleftrightarrow> (if k = key then q \<noteq> [] else k \<in> set (co_pending st))"
  shows "co_rep cfg (Q(key := q)) st'"
  unfolding co_rep_def
proof (intro conjI allI)
  fix k
  have "k \<in> set (co_pending st) \<longleftrightarrow> Q k \<noteq> []" using rep unfolding co_rep_def by blast
  then show "k \<in> set (co_pending st') \<longleftrightarrow> (Q(key := q)) k \<noteq> []"
    using pending [of k] by simp
  have "case co_find st k of None \<Rightarrow> Q k = [] | Some cd \<Rightarrow> cd_rep cfg k (Q k) cd"
    using rep unfolding co_rep_def by blast
  then show "case co_find st' k of None \<Rightarrow> (Q(key := q)) k = [] | Some cd \<Rightarrow> cd_rep cfg k ((Q(key := q)) k) cd"
    using cd find [of k] by (cases "k = key") (simp_all split: option.splits)
qed (use assms in auto)

definition flushed :: "coalesce_cfg \<Rightarrow> coalesce_key \<Rightarrow> bytes list \<Rightarrow> bool \<Rightarrow> sent" where
  "flushed cfg key q ok = Udp (cf_private_socket cfg) (cf_server cfg) (coalesced cfg key q) ok"

lemma coalesce_flush_rep:
  assumes rep: "co_rep cfg Q st" and ne: "Q key \<noteq> []"
  obtains st' ok where "coalesce_flush cfg key st = Some st'"
    and "co_rep cfg (Q(key := [])) st'"
    and "n_sent st' = n_sent st @ [flushed cfg key (Q key) ok]"
    and "co_pending st' = remove1 key (co_pending st)"
    and "\<And>k. co_ts st' k = co_ts st k"
    and "\<And>k. co_find st' k = None \<longleftrightarrow> co_find st k = None"
proof -
  obtain cd where cd: "co_find st key = Some cd" and cr: "cd_rep cfg key (Q key) cd"
    using co_rep_find [OF assms] by blast
  define u where "u = cd_payload_used cd"
  obtain len where u: "u = NOVELL_IPX_PACKET_SIZE + length (concat (Q key))" "u \<le> COALESCE_MAX_SIZE"
    and hd: "take u (cd_payload cd) = coalesce_header cfg key len @ concat (Q key)"
    and l: "length (cd_payload cd) = COALESCE_MAX_SIZE"
    using cr ne by (auto simp: cd_rep_def u_def)
  let ?len = "le_bytes 2 (htons (of_nat u :: u16))"
  define pl where "pl = take 2 (cd_payload cd) @ ?len @ drop 4 (cd_payload cd)"
  have w: "mem_write (cd_payload cd) 2 ?len = Some pl"
    using l by (simp add: mem_write_def pl_def COALESCE_MAX_SIZE_def)
  have pl_len: "length pl = COALESCE_MAX_SIZE" using mem_write_length [OF w] l by simp
  have "take u pl = take 2 (take u (cd_payload cd)) @ ?len @ drop 4 (take u (cd_payload cd))"
  proof -
    have "4 \<le> u" "u \<le> length (cd_payload cd)" using u l by (simp_all add: frame_sizes)
    then show ?thesis by (simp add: pl_def drop_take min_absorb1 min_absorb2)
  qed
  also have "\<dots> = take 2 (coalesce_header cfg key len) @ ?len @ drop 4 (coalesce_header cfg key len) @ concat (Q key)"
    by (simp add: hd frame_sizes)
  also have "\<dots> = coalesced cfg key (Q key)"
    unfolding coalesced_def u(1) [symmetric]
    by (simp add: coalesce_header_set_length [of cfg key len "htons (of_nat u)", symmetric]
        del: length_concat)
  finally have sent: "take u pl = coalesced cfg key (Q key)" .
  define st1 where "st1 = snd (udp_sendto (cf_send_err cfg) (cf_private_socket cfg) (cf_server cfg) (take u pl) st)"
  define err where "err = cf_send_err cfg (length (n_sent st))"
  define st2 where "st2 = (if err = 0 then count_send_udp u st1 else st1)"
  define st' where "st' = (co_update key (\<lambda>cd. cd\<lparr>cd_payload := pl, cd_payload_used := 0\<rparr>) st2)
                            \<lparr>co_pending := remove1 key (co_pending st2)\<rparr>"
  have send: "udp_sendto (cf_send_err cfg) (cf_private_socket cfg) (cf_server cfg) (take u pl) st = (err, st1)"
    by (simp add: st1_def err_def prod_eq_iff)
  have upos: "0 < u" using u(1) by (simp add: frame_sizes)
  have f: "coalesce_flush cfg key st = Some st'"
    using upos by (simp add: coalesce_flush_def cd u_def [symmetric] w send st'_def st2_def Let_def)
  have st2: "co_find st2 = co_find st" "co_pending st2 = co_pending st" "co_keys st2 = co_keys st"
    "n_sent st2 = n_sent st @ [flushed cfg key (Q key) (err = 0)]"
    by (simp_all add: st2_def st1_def sent err_def flushed_def)
  show ?thesis
  proof (rule that [OF f])
    have "cd_rep cfg key [] (cd\<lparr>cd_payload := pl, cd_payload_used := 0\<rparr>)"
      using cr pl_len by (simp add: cd_rep_def)
    moreover have "distinct (co_keys st)" "distinct (co_pending st)" using rep by (auto simp: co_rep_def)
    ultimately show "co_rep cfg (Q(key := [])) st'"
      by (intro co_repI [OF rep]) (simp_all add: st'_def st2 cd)
    show "n_sent st' = n_sent st @ [flushed cfg key (Q key) (err = 0)]" by (simp add: st'_def st2)
    show "co_pending st' = remove1 key (co_pending st)" by (simp add: st'_def st2)
    show "co_ts st' k = co_ts st k" for k
      by (simp add: co_ts_def st'_def st2 cd)
    show "co_find st' k = None \<longleftrightarrow> co_find st k = None" for k by (simp add: st'_def st2)
  qed
qed

text \<open>The header that is written in front of the first packet.\<close>

definition data_added ::
  "coalesce_cfg \<Rightarrow> (coalesce_key \<Rightarrow> bytes list) \<Rightarrow> coalesce_key \<Rightarrow> bytes \<Rightarrow> u64 \<Rightarrow> 'z coalesce_state_scheme \<Rightarrow> bool \<Rightarrow> 'z coalesce_state_scheme \<Rightarrow> bool" where
  "data_added cfg Q key dat now st queued st' \<longleftrightarrow>
     co_rep cfg (Q(key := Q key @ (if queued then [dat] else []))) st' \<and>
     (queued \<longleftrightarrow> NOVELL_IPX_PACKET_SIZE + length (concat (Q key)) + length dat \<le> COALESCE_MAX_SIZE) \<and>
     n_sent st' = n_sent st \<and>
     co_pending st' = (if queued \<and> Q key = [] then co_pending st @ [key] else co_pending st) \<and>
     (\<forall>k. co_ts st' k = (if k = key \<and> queued \<and> Q key = [] then now else co_ts st k)) \<and>
     (\<forall>k. co_find st' k = None \<longleftrightarrow> co_find st k = None)"

lemma add_first_packet:
  assumes rep: "co_rep cfg Q st" and some: "co_find st key = Some cd" and empty: "Q key = []"
  shows "\<exists>queued st'. coalesce_add_data cfg junk key dat now st = Some (queued, st') \<and> data_added cfg Q key dat now st queued st'"
proof (cases "NOVELL_IPX_PACKET_SIZE + length dat \<le> COALESCE_MAX_SIZE")
  case False
  have "cd_payload_used cd = 0" using co_repD(1) [OF rep some] empty by (simp add: cd_rep_def)
  moreover have "Q(key := Q key) = Q" by simp
  ultimately show ?thesis using False empty rep
    by (intro exI [of _ False] exI [of _ st]) (simp add: coalesce_add_data_def data_added_def some)
next
  case fits: True
  have cr: "cd_rep cfg key (Q key) cd" and dk: "distinct (co_keys st)" "distinct (co_pending st)"
    and mem: "key \<notin> set (co_pending st)" using co_repD [OF rep] some empty by blast+
  have u0: "cd_payload_used cd = 0" and l: "length (cd_payload cd) = COALESCE_MAX_SIZE"
    and lt: "length (cd_send_timestamps cd) = COALESCE_TRACK_COUNT" using cr empty by (simp_all add: cd_rep_def)
  define hdr where "hdr = coalesce_header cfg key junk"
  define p1 where "p1 = hdr @ drop NOVELL_IPX_PACKET_SIZE (cd_payload cd)"
  define p2 where "p2 = hdr @ dat @ drop (NOVELL_IPX_PACKET_SIZE + length dat) (cd_payload cd)"
  have lh: "length hdr = NOVELL_IPX_PACKET_SIZE" by (simp add: hdr_def)
  have w1: "mem_write (cd_payload cd) 0 hdr = Some p1"
    using l lh by (simp add: mem_write_def p1_def frame_sizes COALESCE_MAX_SIZE_def)
  have l1: "length p1 = COALESCE_MAX_SIZE" using mem_write_length [OF w1] l by simp
  have w2: "mem_write p1 NOVELL_IPX_PACKET_SIZE dat = Some p2"
    using l1 lh fits by (simp add: mem_write_def p1_def p2_def add.commute)
  have l2: "length p2 = COALESCE_MAX_SIZE" using mem_write_length [OF w2] l1 by simp
  define st' where "st' = co_update key (\<lambda>cd. cd\<lparr>cd_payload := p2,
      cd_payload_used := NOVELL_IPX_PACKET_SIZE + length dat\<rparr>)
      ((co_update key (\<lambda>cd. cd\<lparr>cd_payload_timestamp := now\<rparr>) st)\<lparr>co_pending := co_pending st @ [key]\<rparr>)"
  have e: "coalesce_add_data cfg junk key dat now st = Some (True, st')"
    using fits by (simp add: coalesce_add_data_def some u0 w1 w2 st'_def flip: hdr_def)
  have "take (NOVELL_IPX_PACKET_SIZE + length dat) p2 = hdr @ dat" using lh by (simp add: p2_def)
  then have "cd_rep cfg key [dat] (cd\<lparr>cd_payload_timestamp := now, cd_payload := p2,
      cd_payload_used := NOVELL_IPX_PACKET_SIZE + length dat\<rparr>)"
    using l2 lt fits unfolding hdr_def by (auto simp: cd_rep_def)
  then have "co_rep cfg (Q(key := [dat])) st'"
    using dk mem by (intro co_repI [OF rep]) (auto simp: st'_def some)
  with e fits empty show ?thesis
    by (intro exI [of _ True] exI [of _ st']) (simp add: data_added_def st'_def co_ts_def some)
qed

lemma add_next_packet:
  assumes rep: "co_rep cfg Q st" and some: "co_find st key = Some cd" and ne_q: "Q key \<noteq> []"
  shows "\<exists>queued st'. coalesce_add_data cfg junk key dat now st = Some (queued, st') \<and> data_added cfg Q key dat now st queued st'"
proof -
  have cr: "cd_rep cfg key (Q key) cd" and dk: "distinct (co_keys st)" "distinct (co_pending st)"
    and mem: "key \<in> set (co_pending st)" using co_repD [OF rep] some ne_q by blast+
  have l: "length (cd_payload cd) = COALESCE_MAX_SIZE"
    and lt: "length (cd_send_timestamps cd) = COALESCE_TRACK_COUNT" using cr by (simp_all add: cd_rep_def)
  define u where "u = cd_payload_used cd"
  obtain len where u: "u = NOVELL_IPX_PACKET_SIZE + length (concat (Q key))" "u \<le> COALESCE_MAX_SIZE"
    and hd: "take u (cd_payload cd) = coalesce_header cfg key len @ concat (Q key)"
    using cr ne_q by (auto simp: cd_rep_def u_def)
  have u0: "cd_payload_used cd = u" "u \<noteq> 0" using u(1) by (simp_all add: u_def frame_sizes)
  show ?thesis
  proof (cases "u + length dat \<le> COALESCE_MAX_SIZE")
    case False
    define st' where "st' = co_update key (\<lambda>c. c\<lparr>cd_payload := cd_payload cd, cd_payload_used := u\<rparr>) st"
    have e: "coalesce_add_data cfg junk key dat now st = Some (False, st')"
      using False by (simp add: coalesce_add_data_def some u0 st'_def)
    have "co_rep cfg (Q(key := Q key)) st'"
      using dk mem cr ne_q by (intro co_repI [OF rep]) (auto simp: st'_def some u_def)
    with e False u show ?thesis
      by (intro exI [of _ False] exI [of _ st']) (simp add: data_added_def st'_def co_ts_def some)
  next
    case fits: True
    define p2 where "p2 = take u (cd_payload cd) @ dat @ drop (u + length dat) (cd_payload cd)"
    have w2: "mem_write (cd_payload cd) u dat = Some p2"
      using l fits by (simp add: mem_write_def p2_def)
    have l2: "length p2 = COALESCE_MAX_SIZE" using mem_write_length [OF w2] l by simp
    define st' where "st' = co_update key (\<lambda>cd. cd\<lparr>cd_payload := p2, cd_payload_used := u + length dat\<rparr>) st"
    have e: "coalesce_add_data cfg junk key dat now st = Some (True, st')"
      using fits by (simp add: coalesce_add_data_def some u0 w2 st'_def)
    have "take (u + length dat) p2 = take u (cd_payload cd) @ dat" using l u(2) by (simp add: p2_def)
    then have "take (u + length dat) p2 = coalesce_header cfg key len @ concat (Q key @ [dat])" by (simp add: hd)
    moreover have "u + length dat = NOVELL_IPX_PACKET_SIZE + length (concat (Q key @ [dat]))"
      using u(1) by simp
    ultimately have "cd_rep cfg key (Q key @ [dat]) (cd\<lparr>cd_payload := p2, cd_payload_used := u + length dat\<rparr>)"
      using l2 lt fits unfolding cd_rep_def by (auto simp: add.assoc)
    then have "co_rep cfg (Q(key := Q key @ [dat])) st'"
      using dk mem ne_q by (intro co_repI [OF rep]) (auto simp: st'_def some)
    with e fits u ne_q show ?thesis
      by (intro exI [of _ True] exI [of _ st']) (simp add: data_added_def st'_def co_ts_def some)
  qed
qed

lemma coalesce_add_data_rep:
  assumes "co_rep cfg Q st" and "co_find st key = Some cd"
  obtains queued st' where "coalesce_add_data cfg junk key dat now st = Some (queued, st')"
    and "co_rep cfg (Q(key := Q key @ (if queued then [dat] else []))) st'"
    and "queued \<longleftrightarrow> NOVELL_IPX_PACKET_SIZE + length (concat (Q key)) + length dat \<le> COALESCE_MAX_SIZE"
    and "n_sent st' = n_sent st"
    and "co_pending st' = (if queued \<and> Q key = [] then co_pending st @ [key] else co_pending st)"
    and "\<And>k. co_ts st' k = (if k = key \<and> queued \<and> Q key = [] then now else co_ts st k)"
    and "\<And>k. co_find st' k = None \<longleftrightarrow> co_find st k = None"
proof -
  obtain queued st' where a: "coalesce_add_data cfg junk key dat now st = Some (queued, st')" and b: "data_added cfg Q key dat now st queued st'"
    using add_first_packet [OF assms, of junk dat now] add_next_packet [OF assms, of junk dat now] by blast
  show ?thesis by (rule that [OF a]) (use b [unfolded data_added_def] in blast)+
qed

text \<open>
  The datagrams one \<open>coalesce_send\<close> causes: a batch is a coalesced packet or, for a single
  packet, the packet itself.
\<close>

definition batch_sent :: "coalesce_cfg \<Rightarrow> coalesce_key \<Rightarrow> bytes list \<Rightarrow> sent \<Rightarrow> bool" where
  "batch_sent cfg key b s \<longleftrightarrow>
     (\<exists>ok. s = flushed cfg key b ok \<or>
           (\<exists>d. b = [d] \<and> s = Udp (cf_private_socket cfg) (cf_server cfg) d ok))"

lemma batch_flushed: "batch_sent cfg key q (flushed cfg key q ok)"
  by (auto simp: batch_sent_def)

lemma batch_immediate: "batch_sent cfg key [d] (Udp (cf_private_socket cfg) (cf_server cfg) d ok)"
  by (auto simp: batch_sent_def)

text \<open>The times at which pending payloads were begun are in order and not in the future.\<close>

definition co_clock :: "u64 \<Rightarrow> 'z coalesce_state_scheme \<Rightarrow> bool" where
  "co_clock now st \<longleftrightarrow>
     sorted (map (co_ts st) (co_pending st)) \<and> (\<forall>k \<in> set (co_pending st). co_ts st k \<le> now)"

lemma co_clock_remove1:
  "co_clock now st \<Longrightarrow> co_pending st' = remove1 key (co_pending st) \<Longrightarrow> (\<And>k. co_ts st' k = co_ts st k) \<Longrightarrow>
     co_clock now st'"
proof -
  assume c: "co_clock now st" and p: "co_pending st' = remove1 key (co_pending st)"
    and t: "\<And>k. co_ts st' k = co_ts st k"
  have "co_ts st' = co_ts st" using t by (rule ext)
  moreover have "sorted (map f (remove1 key xs))" if "sorted (map f xs)" for f :: "coalesce_key \<Rightarrow> u64" and xs
    using that by (induction xs) (auto dest: in_set_remove1 [THEN iffD1, rotated] notin_set_remove1)
  ultimately show ?thesis
    using c p by (auto simp: co_clock_def dest: notin_set_remove1)
qed

text \<open>The three parts of \<open>coalesce_enqueue\<close>: the send is registered, room is made, the packet is added.\<close>

lemma register_send_rep:
  assumes rep: "co_rep cfg Q st" and some: "co_find st key = Some cd" and clock: "co_clock now st"
    and reg: "coalesce_register_send cd now = (should, cd1)"
  defines "st1 \<equiv> co_update key (\<lambda>_. cd1\<lparr>cd_active := should\<rparr>) st"
  shows "co_rep cfg Q st1 \<and> co_clock now st1 \<and> co_find st1 key = Some (cd1\<lparr>cd_active := should\<rparr>) \<and> n_sent st1 = n_sent st \<and>
    (Q key = [] \<longrightarrow> cd_payload_used cd1 = 0)"
proof -
  have cr: "cd_rep cfg key (Q key) cd" using co_repD(1) [OF rep some] .
  have cd1: "cd_payload cd1 = cd_payload cd" "cd_payload_used cd1 = cd_payload_used cd"
    "cd_payload_timestamp cd1 = cd_payload_timestamp cd"
    "length (cd_send_timestamps cd1) = COALESCE_TRACK_COUNT"
    using reg cr by (auto simp: coalesce_register_send_def Let_def cd_rep_def COALESCE_TRACK_COUNT_def
        split: if_splits)
  have st1: "co_find st1 key = Some (cd1\<lparr>cd_active := should\<rparr>)" "n_sent st1 = n_sent st"
    "co_pending st1 = co_pending st" "\<And>k. co_ts st1 k = co_ts st k"
    by (simp_all add: st1_def some co_ts_def cd1)
  have cr1: "cd_rep cfg key (Q key) (cd1\<lparr>cd_active := should\<rparr>)"
    using cr unfolding cd_rep_def by (auto simp: cd1 split: if_splits)
  have "co_rep cfg (Q(key := Q key)) st1"
    by (rule co_repI [OF rep _ _ _ st1(1) cr1]) (simp_all add: st1_def co_repD [OF rep])
  moreover have "co_clock now st1"
    using clock st1(3,4) by (simp add: co_clock_def cong: map_cong)
  moreover have "Q key = [] \<longrightarrow> cd_payload_used cd1 = 0" using cr cd1 by (simp add: cd_rep_def)
  ultimately show ?thesis using st1 by simp
qed

lemma make_room_rep:
  assumes rep1: "co_rep cfg Q st1" and clock1: "co_clock now st1" and find1: "co_find st1 key \<noteq> None"
    and ne: "full \<Longrightarrow> Q key \<noteq> []"
  obtains st2 q2 bs outs where "(if full then coalesce_flush cfg key st1 else Some st1) = Some st2"
    and "co_rep cfg (Q(key := q2)) st2" and "co_clock now st2"
    and "n_sent st2 = n_sent st1 @ outs" and "list_all2 (batch_sent cfg key) bs outs"
    and "concat bs @ q2 = Q key" and "bs = [] \<or> q2 = []" and "co_find st2 key \<noteq> None"
proof (cases full)
  case False
  show ?thesis
    by (rule that [of st1 "Q key" "[]" "[]"]) (use False rep1 clock1 find1 in auto)
next
  case True
  obtain st2 ok where f: "coalesce_flush cfg key st1 = Some st2"
    and r: "co_rep cfg (Q(key := [])) st2" "n_sent st2 = n_sent st1 @ [flushed cfg key (Q key) ok]"
    "co_pending st2 = remove1 key (co_pending st1)" "\<And>k. co_ts st2 k = co_ts st1 k"
    "\<And>k. co_find st2 k = None \<longleftrightarrow> co_find st1 k = None"
    using coalesce_flush_rep [OF rep1 ne [OF True]] by metis
  show ?thesis
    by (rule that [of st2 "[]" "[flushed cfg key (Q key) ok]" "[Q key]"])
      (use True f r find1 co_clock_remove1 [OF clock1 r(3,4)] in \<open>auto simp: batch_flushed\<close>)
qed

lemma add_packet_rep:
  assumes rep2: "co_rep cfg Q st2" and clock2: "co_clock now st2" and find2: "co_find st2 key \<noteq> None"
  obtains queued st3 where
    "(if should then coalesce_add_data cfg junk key dat now st2 else Some (False, st2)) = Some (queued, st3)"
    and "co_rep cfg (Q(key := Q key @ (if queued then [dat] else []))) st3" and "co_clock now st3"
    and "n_sent st3 = n_sent st2" and "co_find st3 key \<noteq> None"
proof (cases should)
  case False
  have "Q(key := Q key) = Q" by simp
  then show ?thesis by (intro that [of False st2]) (use False rep2 clock2 find2 in auto)
next
  case True
  obtain cd2 where cd2: "co_find st2 key = Some cd2" using find2 by blast
  obtain queued st3 where f: "coalesce_add_data cfg junk key dat now st2 = Some (queued, st3)"
    and r: "co_rep cfg (Q(key := Q key @ (if queued then [dat] else []))) st3" "n_sent st3 = n_sent st2"
    and p: "co_pending st3 = (if queued \<and> Q key = [] then co_pending st2 @ [key] else co_pending st2)"
    and t: "\<And>k. co_ts st3 k = (if k = key \<and> queued \<and> Q key = [] then now else co_ts st2 k)"
    and n: "\<And>k. co_find st3 k = None \<longleftrightarrow> co_find st2 k = None"
    by (rule coalesce_add_data_rep [OF rep2 cd2, of junk dat now]) auto
  have "key \<notin> set (co_pending st2)" if "Q key = []"
    using co_repD(2) [OF rep2, of key] that by simp
  then have "map (\<lambda>k. if k = key then now else co_ts st2 k) (co_pending st2) =
      map (co_ts st2) (co_pending st2)" if "Q key = []"
    using that by (auto intro!: map_cong)
  then have "co_clock now st3"
    using clock2 by (auto simp: co_clock_def p t sorted_append cong: map_cong)
  with True f r n find2 show ?thesis by (intro that [of queued st3]) auto
qed

lemma coalesce_enqueue_rep:
  assumes rep: "co_rep cfg Q st" and some: "co_find st key = Some cd" and ne: "dat \<noteq> []"
    and clock: "co_clock now st"
  obtains queued st' q bs outs where "coalesce_enqueue cfg junk now dat key st = Some (queued, st')"
    and "co_rep cfg (Q(key := q)) st'" and "co_clock now st'"
    and "n_sent st' = n_sent st @ outs" and "list_all2 (batch_sent cfg key) bs outs"
    and "concat bs @ q = (if queued then Q key @ [dat] else Q key)"
    and "queued \<or> bs = [] \<or> q = []"
proof -
  obtain should cd1 where reg: "coalesce_register_send cd now = (should, cd1)"
    by (cases "coalesce_register_send cd now")
  define st1 where "st1 = co_update key (\<lambda>_. cd1\<lparr>cd_active := should\<rparr>) st"
  have r1: "co_rep cfg Q st1" "co_clock now st1" "co_find st1 key = Some (cd1\<lparr>cd_active := should\<rparr>)" "n_sent st1 = n_sent st"
    "Q key = [] \<longrightarrow> cd_payload_used cd1 = 0"
    using register_send_rep [OF rep some clock reg] unfolding st1_def by blast+
  let ?full = "should \<and> cd_payload_used cd1 + length dat > COALESCE_MAX_SIZE \<and>
      length dat < COALESCE_MAX_SIZE div 2"
  have full: "?full \<Longrightarrow> Q key \<noteq> []" using r1(5) by (auto simp: COALESCE_MAX_SIZE_def)
  have find1: "co_find st1 key \<noteq> None" using r1(3) by simp
  obtain st2 q2 bs2 outs2 where f2: "(if ?full then coalesce_flush cfg key st1 else Some st1) = Some st2"
    and rep2: "co_rep cfg (Q(key := q2)) st2" and clock2: "co_clock now st2"
    and sent2: "n_sent st2 = n_sent st1 @ outs2" "list_all2 (batch_sent cfg key) bs2 outs2"
    and q2: "concat bs2 @ q2 = Q key" "bs2 = [] \<or> q2 = []" and find2: "co_find st2 key \<noteq> None"
    by (rule make_room_rep [OF r1(1,2) find1 full])
  obtain queued st3 where f3: "(if should then coalesce_add_data cfg junk key dat now st2 else Some (False, st2)) = Some (queued, st3)"
    and rep3: "co_rep cfg (Q(key := q2 @ (if queued then [dat] else []))) st3" and clock3: "co_clock now st3"
    and sent3: "n_sent st3 = n_sent st2" and find3: "co_find st3 key \<noteq> None"
    by (rule add_packet_rep [OF rep2 clock2 find2, of should junk dat, unfolded fun_upd_same fun_upd_upd])
  define q3 where "q3 = q2 @ (if queued then [dat] else [])"
  obtain cd3 where cd3: "co_find st3 key = Some cd3" using find3 by blast
  let ?late = "cd_payload_used cd3 > 0 \<and> cd_payload_timestamp cd3 + COALESCE_MAX_DELAY \<le> now"
  have e: "coalesce_enqueue cfg junk now dat key st =
      (if ?late then map_option (Pair queued) (coalesce_flush cfg key st3) else Some (queued, st3))"
    unfolding coalesce_enqueue_def by (simp add: some reg f2 f3 cd3 flip: st1_def)
  show ?thesis
  proof (cases ?late)
    case False
    with e show ?thesis
      using rep3 clock3 sent3 sent2 q2 r1(4)
      by (intro that [of queued st3 q3 outs2 bs2]) (auto simp: q3_def simp flip: append_assoc)
  next
    case True
    have "cd_rep cfg key q3 cd3" using co_repD(1) [OF rep3 cd3] by (simp add: q3_def)
    with True have "q3 \<noteq> []" by (auto simp: cd_rep_def)
    then obtain st4 ok where f: "coalesce_flush cfg key st3 = Some st4"
      and r: "co_rep cfg (Q(key := [])) st4" "n_sent st4 = n_sent st3 @ [flushed cfg key q3 ok]"
      "co_pending st4 = remove1 key (co_pending st3)" "\<And>k. co_ts st4 k = co_ts st3 k"
      using coalesce_flush_rep [OF rep3 [folded q3_def], of key] by (metis fun_upd_same fun_upd_upd)
    show ?thesis
      by (rule that [of queued st4 "[]" "outs2 @ [flushed cfg key q3 ok]" "bs2 @ [q3]"])
        (use True e f r sent2 sent3 q2 r1(4) co_clock_remove1 [OF clock3 r(3,4)] in
          \<open>auto simp: q3_def batch_flushed list_all2_appendI simp flip: append_assoc\<close>)
  qed
qed

lemma co_rep_insert:
  assumes rep: "co_rep cfg Q st" and none: "co_find st key = None"
  shows "co_rep cfg Q (co_insert st key cd_zero)"
proof -
  have zero: "cd_rep cfg key [] cd_zero" by (simp add: cd_rep_def cd_zero_def)
  have "co_rep cfg (Q(key := [])) (co_insert st key cd_zero)"
  proof (rule co_repI [OF rep _ _ _ _ zero])
    show "distinct (co_keys (co_insert st key cd_zero))"
      using co_tab.distinct_add [OF co_repD(4) [OF rep] none] .
    show "distinct (co_pending (co_insert st key cd_zero))"
      using co_repD(5) [OF rep] by (simp add: co_insert_def)
    show "k \<in> set (co_pending (co_insert st key cd_zero)) \<longleftrightarrow>
        (if k = key then [] \<noteq> ([] :: bytes list) else k \<in> set (co_pending st))" for k
      using co_repD(2,3) [OF rep] none by (auto simp: co_insert_def)
  qed (simp_all add: co_tab.find_add none)
  moreover have "Q(key := []) = Q" using co_repD(3) [OF rep none] by auto
  ultimately show ?thesis by simp
qed

lemma get_coalesce_by_dest_rep:
  assumes rep: "co_rep cfg Q st" and clock: "co_clock now st" and g: "get_coalesce_by_dest cfg malloc_ok key st = (have_cd, st1)"
  shows "n_sent st1 = n_sent st \<and> co_rep cfg Q st1 \<and> co_clock now st1 \<and> (have_cd \<longrightarrow> co_find st1 key \<noteq> None)"
proof -
  have "n_sent (co_insert st key cd_zero) = n_sent st" by (simp add: co_insert_def)
  moreover have "co_rep cfg Q (co_insert st key cd_zero)" if "co_find st key = None"
    using co_rep_insert [OF rep that] .
  moreover have "co_clock now (co_insert st key cd_zero)" if "co_find st key = None"
  proof -
    have "co_ts (co_insert st key cd_zero) k = co_ts st k" for k
      using that by (simp add: co_ts_def co_tab.find_add cd_zero_def)
    then show ?thesis using clock by (simp add: co_clock_def co_insert_def cong: map_cong)
  qed
  ultimately show ?thesis
    using g rep clock by (auto simp: get_coalesce_by_dest_def co_tab.find_add split: if_splits option.splits)
qed

text \<open>A packet that is sent at once.\<close>

lemma send_now_rep:
  assumes rep: "co_rep cfg Q st" and clock: "co_clock now st"
  defines "err \<equiv> cf_send_err cfg (length (n_sent st))"
  obtains st1 where "udp_sendto (cf_send_err cfg) (cf_private_socket cfg) (cf_server cfg) dat st = (err, st1)"
    and "co_rep cfg Q (if err \<noteq> 0 then st1 else count_send_udp (length dat) st1)"
    and "co_clock now (if err \<noteq> 0 then st1 else count_send_udp (length dat) st1)"
    and "n_sent (if err \<noteq> 0 then st1 else count_send_udp (length dat) st1) =
      n_sent st @ [Udp (cf_private_socket cfg) (cf_server cfg) dat (err = 0)]"
proof -
  define st1 where "st1 = snd (udp_sendto (cf_send_err cfg) (cf_private_socket cfg) (cf_server cfg) dat st)"
  let ?st = "if err \<noteq> 0 then st1 else count_send_udp (length dat) st1"
  have st: "co_find ?st = co_find st" "co_pending ?st = co_pending st" "co_keys ?st = co_keys st"
    "n_sent ?st = n_sent st @ [Udp (cf_private_socket cfg) (cf_server cfg) dat (err = 0)]"
    by (simp_all add: st1_def err_def)
  show ?thesis
  proof (rule that [of st1])
    show "udp_sendto (cf_send_err cfg) (cf_private_socket cfg) (cf_server cfg) dat st = (err, st1)"
      by (simp add: st1_def err_def prod_eq_iff)
    show "co_rep cfg Q ?st" "co_clock now ?st"
      using rep clock unfolding co_rep_def co_clock_def co_ts_def [abs_def] st by simp_all
  qed (rule st(4))
qed

text \<open>
  C4. Coalescing neither loses, duplicates nor alters a packet, and no assertion or buffer
  bound is ever violated. When the state stands for the pending packets \<open>Q\<close> (of every
  destination) and the clock does not go back, sending a packet always succeeds in the model
  and ends in a state standing for some \<open>Q'\<close> that differs for this destination only. The
  datagrams it causes are batches of packets, each a coalesced packet with the right header
  or a single packet as it was given; together with what is still pending they are exactly
  what was pending before and then the new packet, in this order. The only exception to the
  order is a packet that is sent at once while older ones stay pending.
\<close>

theorem coalesce_send_lossless:
  assumes "co_rep cfg Q st" and "dat \<noteq> []" and "co_clock now st"
  shows "\<exists>err st' q bs outs.
    coalesce_send cfg malloc_ok junk now dat key st = Some (err, st') \<and>
    co_rep cfg (Q(key := q)) st' \<and> co_clock now st' \<and>
    n_sent st' = n_sent st @ outs \<and> list_all2 (batch_sent cfg key) bs outs \<and>
    (concat bs @ q = Q key @ [dat] \<or> bs = [[dat]] \<and> q = Q key)"
proof -
  obtain have_cd st1 where g: "get_coalesce_by_dest cfg malloc_ok key st = (have_cd, st1)"
    by (cases "get_coalesce_by_dest cfg malloc_ok key st")
  have st1: "n_sent st1 = n_sent st" "co_rep cfg Q st1" "co_clock now st1" "have_cd \<longrightarrow> co_find st1 key \<noteq> None"
    using get_coalesce_by_dest_rep [OF assms(1,3) g] by blast+
  obtain queued st2 q bs outs where
    e: "(if have_cd then coalesce_enqueue cfg junk now dat key st1 else Some (False, st1)) = Some (queued, st2)"
    and rep2: "co_rep cfg (Q(key := q)) st2" and clock2: "co_clock now st2"
    and sent2: "n_sent st2 = n_sent st @ outs" "list_all2 (batch_sent cfg key) bs outs"
    and q: "concat bs @ q = (if queued then Q key @ [dat] else Q key)" and order: "queued \<or> bs = [] \<or> q = []"
  proof (cases have_cd)
    case True
    with st1(4) obtain cd where cd: "co_find st1 key = Some cd" by blast
    show ?thesis
      by (rule coalesce_enqueue_rep [OF st1(2) cd assms(2) st1(3), of junk]) (rule that, use True st1(1) in auto)
  next
    case False
    show ?thesis by (rule that [of False st1 "Q key" "[]" "[]"]) (use False st1 in auto)
  qed
  have send: "coalesce_send cfg malloc_ok junk now dat key st =
      (if queued then Some (0, st2)
       else case udp_sendto (cf_send_err cfg) (cf_private_socket cfg) (cf_server cfg) dat st2 of (err, st3) \<Rightarrow>
         Some (err, if err \<noteq> 0 then st3 else count_send_udp (length dat) st3))"
    using e assms(2) by (auto simp: coalesce_send_def g split: prod.split)
  show ?thesis
  proof (cases queued)
    case True
    with send rep2 clock2 sent2 q show ?thesis by fastforce
  next
    case False
    let ?err = "cf_send_err cfg (length (n_sent st2))"
    obtain st3 where s: "udp_sendto (cf_send_err cfg) (cf_private_socket cfg) (cf_server cfg) dat st2 = (?err, st3)"
      and r: "co_rep cfg (Q(key := q)) (if ?err \<noteq> 0 then st3 else count_send_udp (length dat) st3)"
      "co_clock now (if ?err \<noteq> 0 then st3 else count_send_udp (length dat) st3)"
      "n_sent (if ?err \<noteq> 0 then st3 else count_send_udp (length dat) st3) =
        n_sent st2 @ [Udp (cf_private_socket cfg) (cf_server cfg) dat (?err = 0)]"
      by (rule send_now_rep [OF rep2 clock2])
    let ?st' = "if ?err \<noteq> 0 then st3 else count_send_udp (length dat) st3"
    have "list_all2 (batch_sent cfg key) (bs @ [[dat]]) (outs @ [Udp (cf_private_socket cfg) (cf_server cfg) dat (?err = 0)])"
      using sent2 by (simp add: list_all2_appendI batch_immediate)
    moreover have "concat (bs @ [[dat]]) @ q = Q key @ [dat] \<or> bs @ [[dat]] = [[dat]] \<and> q = Q key" using q order False by auto
    moreover have "coalesce_send cfg malloc_ok junk now dat key st = Some (?err, ?st')" using False by (simp add: send s)
    ultimately show ?thesis using r sent2(1) by (metis append_assoc)
  qed
qed

definition sample_cfg :: coalesce_cfg where
  "sample_cfg = \<lparr>cf_coalesce = True, cf_private_socket = 5,
     cf_server = \<lparr>sin_family = AF_INET, sin_port = htons 213, sin_addr = addr32_in [10, 0, 0, 1]\<rparr>,
     cf_local_net = 0, cf_local_node = addr48_in [2, 0, 0, 0, 0, 7], cf_send_err = (\<lambda>n. 0)\<rparr>"

definition co_init :: coalesce_state where
  "co_init = netstate.extend net_init \<lparr>co_table = [], co_pending = []\<rparr>"

lemma co_rep_init: "co_rep cfg (\<lambda>_. []) co_init"
  by (simp add: co_rep_def co_init_def netstate.extend_def co_find_def co_keys_def hash_find_def)

lemma co_clock_init: "co_clock now co_init"
  by (simp add: co_clock_def co_init_def netstate.extend_def)

theorem coalesce_send_lossless_witness:
  "\<exists>err st' q. coalesce_send sample_cfg True 0 1000 [1, 2, 3] (1, 2, 3) co_init = Some (err, st') \<and>
     co_rep sample_cfg ((\<lambda>_. [])((1, 2, 3) := q)) st' \<and> (q = [[1, 2, 3]] \<or> q = [])"
proof -
  obtain err st' q bs outs where
    s: "coalesce_send sample_cfg True 0 1000 [1, 2, 3] (1, 2, 3) co_init = Some (err, st')"
    and r: "co_rep sample_cfg ((\<lambda>_. [])((1, 2, 3) := q)) st'"
    and b: "concat bs @ q = [] @ [[1, 2, 3]] \<or> bs = [[[1, 2, 3]]] \<and> q = []"
    using coalesce_send_lossless [OF co_rep_init [of sample_cfg], of "[1, 2, 3]" 1000 True 0 "(1, 2, 3)"]
      co_clock_init by (metis list.distinct(1))
  have "q = [[1, 2, 3]] \<or> q = []" using b by (auto simp: append_eq_Cons_conv)
  with s r show ?thesis by blast
qed

lemma flushed_cong:
  assumes "key \<notin> set ks" and "list_all2 (\<lambda>k s. \<exists>ok. s = flushed cfg k ((Q(key := [])) k) ok) ks outs"
  shows "list_all2 (\<lambda>k s. \<exists>ok. s = flushed cfg k (Q k) ok) ks outs"
  using assms(2)
proof (rule list.rel_mono_strong)
  fix k s assume "k \<in> set ks" and "\<exists>ok. s = flushed cfg k ((Q(key := [])) k) ok"
  with assms(1) show "\<exists>ok. s = flushed cfg k (Q k) ok" by (cases "k = key") simp_all
qed

lemma late_iff:
  fixes st :: "'z coalesce_state_scheme"
  assumes "co_ts st k \<le> now" and "unat now + 20000 < 2 ^ 64"
  shows "co_ts st k + COALESCE_MAX_DELAY \<le> now \<longleftrightarrow> unat (co_ts st k) + 20000 \<le> unat now"
proof -
  have "unat (co_ts st k) + 20000 < 2 ^ 64" using assms by (simp add: word_le_nat_alt)
  then show ?thesis by (simp add: word_le_nat_alt COALESCE_MAX_DELAY_def unat_word_ariths)
qed

text \<open>What a call of \<open>coalesce_flush_waiting\<close> does: the destinations in \<open>due\<close> are sent, the others stay.\<close>

definition waiting_flushed ::
  "coalesce_cfg \<Rightarrow> u64 \<Rightarrow> (coalesce_key \<Rightarrow> bytes list) \<Rightarrow> 'z coalesce_state_scheme \<Rightarrow> coalesce_key list \<Rightarrow> sent list \<Rightarrow> 'z coalesce_state_scheme \<Rightarrow> bool" where
  "waiting_flushed cfg now Q st due outs st' \<longleftrightarrow>
     coalesce_flush_waiting cfg now st = Some st' \<and> co_pending st = due @ co_pending st' \<and>
     (\<forall>k \<in> set due. unat (co_ts st k) + 20000 \<le> unat now) \<and>
     (\<forall>k \<in> set (co_pending st'). unat now < unat (co_ts st k) + 20000) \<and>
     n_sent st' = n_sent st @ outs \<and>
     list_all2 (\<lambda>k s. \<exists>ok. s = flushed cfg k (Q k) ok) due outs \<and>
     co_rep cfg (\<lambda>k. if k \<in> set due then [] else Q k) st'"

lemma nothing_due:
  assumes "co_rep cfg Q st" and "co_clock now st" and "unat now + 20000 < 2 ^ 64"
    and first: "\<And>key ps. co_pending st = key # ps \<Longrightarrow> unat now < unat (co_ts st key) + 20000"
  shows "waiting_flushed cfg now Q st [] [] st"
proof (cases "co_pending st")
  case Nil
  with assms(1) show ?thesis by (simp add: waiting_flushed_def coalesce_flush_waiting.simps [of cfg now st])
next
  case (Cons key ps)
  obtain cd where cd: "co_find st key = Some cd"
    using co_rep_find [OF assms(1), of key] co_repD(2) [OF assms(1), of key] Cons by auto
  have "co_ts st key \<le> now" using assms(2) Cons by (simp add: co_clock_def)
  then have "coalesce_flush_waiting cfg now st = Some st"
    using late_iff [OF _ assms(3), of st key] first [OF Cons] Cons
    by (simp add: coalesce_flush_waiting.simps [of cfg now st] cd co_ts_def)
  moreover have "unat (co_ts st key) \<le> unat (co_ts st k)" if "k \<in> set (key # ps)" for k
    using Cons assms(2) that by (auto simp: co_clock_def word_le_nat_alt)
  then have "\<forall>k \<in> set (key # ps). unat now < unat (co_ts st k) + 20000"
    using first [OF Cons] by (meson add_le_mono1 less_le_trans)
  ultimately show ?thesis using Cons assms(1) by (simp add: waiting_flushed_def)
qed

lemma first_due:
  assumes rep: "co_rep cfg Q st" and clock: "co_clock now st" and now: "unat now + 20000 < 2 ^ 64"
    and pending: "co_pending st = key # ps" and due: "unat (co_ts st key) + 20000 \<le> unat now"
  obtains st1 ok where "co_rep cfg (Q(key := [])) st1" and "co_clock now st1" and "co_pending st1 = ps"
    and "\<And>due outs st'. waiting_flushed cfg now (Q(key := [])) st1 due outs st' \<Longrightarrow>
      waiting_flushed cfg now Q st (key # due) (flushed cfg key (Q key) ok # outs) st'"
proof -
  have ne: "Q key \<noteq> []" using co_repD(2) [OF rep, of key] pending by simp
  obtain cd where cd: "co_find st key = Some cd" using co_rep_find [OF rep ne] by blast
  obtain st1 ok where f: "coalesce_flush cfg key st = Some st1"
    and r: "co_rep cfg (Q(key := [])) st1" "n_sent st1 = n_sent st @ [flushed cfg key (Q key) ok]"
    "co_pending st1 = remove1 key (co_pending st)" "\<And>k. co_ts st1 k = co_ts st k"
    using coalesce_flush_rep [OF rep ne] by metis
  have "co_ts st key \<le> now" using clock pending by (simp add: co_clock_def)
  then have step: "coalesce_flush_waiting cfg now st = coalesce_flush_waiting cfg now st1"
    using due late_iff [OF _ now, of st key] pending f
    by (simp add: coalesce_flush_waiting.simps [of cfg now st] cd co_ts_def)
  have p1: "co_pending st1 = ps" using r(3) pending by simp
  have nk: "key \<notin> set ps" using co_repD(5) [OF rep] pending by simp
  show ?thesis
  proof (rule that [OF r(1) co_clock_remove1 [OF clock r(3,4)] p1])
    fix due outs st'
    assume w: "waiting_flushed cfg now (Q(key := [])) st1 due outs st'"
    then have "key \<notin> set due" using nk p1 by (auto simp: waiting_flushed_def)
    then have "list_all2 (\<lambda>k s. \<exists>ok. s = flushed cfg k (Q k) ok) due outs"
      using w flushed_cong unfolding waiting_flushed_def by blast
    moreover have "(\<lambda>k. if k \<in> set due then [] else (Q(key := [])) k) = (\<lambda>k. if k \<in> set (key # due) then [] else Q k)" by auto
    ultimately show "waiting_flushed cfg now Q st (key # due) (flushed cfg key (Q key) ok # outs) st'"
      using w step due pending p1 r(2,4) unfolding waiting_flushed_def by auto
  qed
qed

text \<open>
  C14. No packet waits longer than 20 ms for others beyond the moment the router looks: a call of
  \<open>coalesce_flush_waiting\<close> always returns, sends the pending payloads that are 20 ms old or
  older, oldest first and each as one coalesced packet of just the packets collected, and
  leaves pending exactly the younger ones, untouched.
\<close>

theorem coalesce_delay_bounded:
  assumes "co_rep cfg Q st" and "co_clock now st" and "unat now + 20000 < 2 ^ 64"
  shows "\<exists>st' due outs. coalesce_flush_waiting cfg now st = Some st' \<and>
    co_pending st = due @ co_pending st' \<and>
    (\<forall>k \<in> set due. unat (co_ts st k) + 20000 \<le> unat now) \<and>
    (\<forall>k \<in> set (co_pending st'). unat now < unat (co_ts st k) + 20000) \<and>
    n_sent st' = n_sent st @ outs \<and>
    list_all2 (\<lambda>k s. \<exists>ok. s = flushed cfg k (Q k) ok) due outs \<and>
    co_rep cfg (\<lambda>k. if k \<in> set due then [] else Q k) st'"
proof -
  have "\<exists>due outs st'. waiting_flushed cfg now Q st due outs st'"
    if "co_pending st = ps" "co_rep cfg Q st" "co_clock now st" for ps
    using that
  proof (induction ps arbitrary: st Q)
    case Nil
    from nothing_due [OF Nil(2,3) assms(3)] Nil(1) show ?case by (metis list.distinct(1))
  next
    case (Cons key ps)
    show ?case
    proof (cases "unat (co_ts st key) + 20000 \<le> unat now")
      case False
      from nothing_due [OF Cons.prems(2,3) assms(3)] False Cons.prems(1) show ?thesis
        by (metis list.inject not_less)
    next
      case True
      obtain st1 ok where st1: "co_rep cfg (Q(key := [])) st1" "co_clock now st1" "co_pending st1 = ps"
        and step: "\<And>due outs st'. waiting_flushed cfg now (Q(key := [])) st1 due outs st' \<Longrightarrow>
          waiting_flushed cfg now Q st (key # due) (flushed cfg key (Q key) ok # outs) st'"
        by (rule first_due [OF Cons.prems(2,3) assms(3) Cons.prems(1) True]) (rule that, assumption+)
      from Cons.IH [OF st1(3,1,2)] step show ?thesis by blast
    qed
  qed
  from this [OF refl assms(1,2)] show ?thesis unfolding waiting_flushed_def by blast
qed

theorem coalesce_delay_bounded_witness:
  "\<exists>(st :: coalesce_state) st'. co_pending st = [(1, 2, 3)] \<and> coalesce_flush_waiting sample_cfg 21000 st = Some st' \<and>
     co_pending st' = [] \<and> length (n_sent st') = 1"
proof -
  let ?key = "(1, 2, 3) :: coalesce_key"
  let ?st = "co_insert co_init ?key cd_zero"
  have none: "co_find co_init ?key = None" by code_simp
  have rep: "co_rep sample_cfg (\<lambda>_. []) ?st"
    by (rule co_rep_insert [OF co_rep_init none])
  have some: "co_find ?st ?key = Some cd_zero" by (simp add: co_tab.find_add none)
  obtain queued and st1 :: coalesce_state where
    a': "co_rep sample_cfg ((\<lambda>_. [])(?key := [] @ (if queued then [[7]] else []))) st1"
    and q: "queued = (NOVELL_IPX_PACKET_SIZE + length (concat ([] :: bytes list)) + length ([7] :: bytes)
      \<le> COALESCE_MAX_SIZE)"
    and n: "n_sent st1 = n_sent ?st"
    and p': "co_pending st1 = (if queued \<and> ([] :: bytes list) = [] then co_pending ?st @ [?key] else co_pending ?st)"
    and t: "\<And>k. co_ts st1 k = (if k = ?key \<and> queued \<and> ([] :: bytes list) = [] then 1000 else co_ts ?st k)"
    by (rule coalesce_add_data_rep [OF rep some, of 0 "[7]" 1000]) (rule that)
  have queued using q by (simp add: frame_sizes COALESCE_MAX_SIZE_def)
  with a' p' t have a: "co_rep sample_cfg ((\<lambda>_. [])(?key := [[7]])) st1"
    and p: "co_pending st1 = co_pending ?st @ [?key]" and ts: "co_ts st1 ?key = 1000"
    by simp_all
  have base: "co_pending ?st = []" "n_sent ?st = []"
    by (simp_all add: co_insert_def co_init_def netstate.extend_def net_init_def)
  have clock: "co_clock 21000 st1" using p base ts by (simp add: co_clock_def)
  obtain st' due outs where w: "coalesce_flush_waiting sample_cfg 21000 st1 = Some st'"
    and d: "[?key] = due @ co_pending st'" "\<forall>k \<in> set (co_pending st'). unat (21000 :: u64) < unat (co_ts st1 k) + 20000"
    and o: "n_sent st' = outs" "list_all2 (\<lambda>k s. \<exists>ok. s = flushed sample_cfg k (((\<lambda>_. [])(?key := [[7]])) k) ok) due outs"
    using coalesce_delay_bounded [OF a clock] p n base by auto
  have "co_pending st' = []" using d(1) [symmetric] d(2) ts by (cases due) auto
  moreover have "length outs = 1" using d(1) [symmetric] calculation list_all2_lengthD [OF o(2)] by simp
  ultimately show ?thesis using w p base o(1)
    by (intro exI [of _ st1] exI [of _ st']) simp
qed

text \<open>
  At the end nothing is left behind: \<open>coalesce_cleanup\<close> always returns, sends every pending
  payload, oldest first and each as one coalesced packet, and empties both lists.
\<close>

theorem coalesce_cleanup_flushes:
  assumes "co_rep cfg Q st"
  shows "\<exists>st' outs. coalesce_cleanup cfg st = Some st' \<and> co_table st' = [] \<and> co_pending st' = [] \<and>
    n_sent st' = n_sent st @ outs \<and>
    list_all2 (\<lambda>k s. \<exists>ok. s = flushed cfg k (Q k) ok) (co_pending st) outs"
proof -
  have "\<exists>st' outs. coalesce_flush_all cfg st = Some st' \<and> co_pending st' = [] \<and>
      n_sent st' = n_sent st @ outs \<and> list_all2 (\<lambda>k s. \<exists>ok. s = flushed cfg k (Q k) ok) ps outs"
    if "co_pending st = ps" "co_rep cfg Q st" for ps
    using that
  proof (induction ps arbitrary: st Q)
    case Nil
    then show ?case by (simp add: coalesce_flush_all.simps [of cfg st])
  next
    case (Cons key ps)
    have ne: "Q key \<noteq> []" using co_repD(2) [OF Cons.prems(2), of key] Cons.prems(1) by simp
    obtain st1 ok where f: "coalesce_flush cfg key st = Some st1"
      and r: "co_rep cfg (Q(key := [])) st1" "n_sent st1 = n_sent st @ [flushed cfg key (Q key) ok]"
      "co_pending st1 = remove1 key (co_pending st)"
      using coalesce_flush_rep [OF Cons.prems(2) ne] by metis
    have p1: "co_pending st1 = ps" using r(3) Cons.prems(1) by simp
    obtain st' outs where w: "coalesce_flush_all cfg st1 = Some st'" "co_pending st' = []"
      "n_sent st' = n_sent st1 @ outs"
      "list_all2 (\<lambda>k s. \<exists>ok. s = flushed cfg k ((Q(key := [])) k) ok) ps outs"
      using Cons.IH [OF p1 r(1)] by blast
    have "key \<notin> set ps" using co_repD(5) [OF Cons.prems(2)] Cons.prems(1) by simp
    then have "list_all2 (\<lambda>k s. \<exists>ok. s = flushed cfg k (Q k) ok) ps outs"
      by (rule flushed_cong [OF _ w(4)])
    then have "list_all2 (\<lambda>k s. \<exists>ok. s = flushed cfg k (Q k) ok) (key # ps)
        (flushed cfg key (Q key) ok # outs)" by auto
    moreover have "coalesce_flush_all cfg st = Some st'"
      using Cons.prems(1) f w(1) by (simp add: coalesce_flush_all.simps [of cfg st])
    ultimately show ?case using w(2,3) r(2) by auto
  qed
  from this [OF refl assms] obtain st1 outs where c: "coalesce_flush_all cfg st = Some st1"
    "co_pending st1 = []" "n_sent st1 = n_sent st @ outs"
    "list_all2 (\<lambda>k s. \<exists>ok. s = flushed cfg k (Q k) ok) (co_pending st) outs" by blast
  let ?st' = "fold (\<lambda>key st. co_delete st key) (co_keys st1) st1"
  have pend: "co_pending (fold (\<lambda>key st. co_delete st key) ks st1) = co_pending st1 \<and>
      n_sent (fold (\<lambda>key st. co_delete st key) ks st1) = n_sent st1" for ks
    by (induction ks rule: rev_induct) (simp_all add: co_delete_def)
  have "co_keys ?st' = []" by (rule co_tab.keys_del_all)
  then have "co_table ?st' = []" by (simp add: co_keys_def)
  with c pend show ?thesis by (simp add: coalesce_cleanup_def)
qed

theorem coalesce_cleanup_flushes_witness:
  "\<exists>st' :: coalesce_state. coalesce_cleanup sample_cfg co_init = Some st' \<and> co_table st' = []"
  using coalesce_cleanup_flushes [OF co_rep_init] by blast

end
