(* ===== verification/Router.thy ===== *)
theory Router
  imports AddrCache Interface Coalesce
begin

text \<open>
  The router (router.c): the thread that receives packets for all sockets of the process and
  relays them to the sockets' private ports, answers lookups of listening SPX sockets, and
  keeps the connection to a DOSBox server. The sockets lock makes \<open>deliver_packet\<close> and the
  lookup atomic; the handlers run on one thread. What the system answers (clocks, results of
  sends and allocations, received datagrams and frames) are parameters. \<open>None\<close> is an
  \<open>abort\<close>, an access outside a buffer, or a call that never returns.
\<close>

subsection \<open>State\<close>

record ('w, 's) gstate = coalesce_state +
  g_ifaces :: "('w, 's) iface_cache"
  g_sockets :: sockets
  g_hosts :: host_table
  g_dosbox_server_addr :: sockaddr_in
  g_ready_event :: bool
  g_next_connection_attempt_at :: u64
  g_next_registration_request_at :: u64
  g_registration_retry_interval_ms :: u32
  g_registration_timeout_at :: u64

text \<open>
  The globals that are set once, and the system: the network's answers, whether a packet can be
  allocated for the socket with a given descriptor, and the two readings of \<open>time\<close>.
\<close>

record ('w, 's) genv =
  e_sys :: "('w, 's) sysenv"
  e_config :: main_config
  e_shared_socket :: nat
  e_private_socket :: nat
  e_private_port :: u16
  e_send_err :: "nat \<Rightarrow> u32"
  e_pkt_mem :: "nat \<Rightarrow> bool"
  e_now :: int
  e_now' :: int

definition g_dosbox :: "('w, 's, 'z) gstate_scheme \<Rightarrow> dosbox_globals" where
  "g_dosbox g = dosbox (g_ifaces g)"

definition set_dosbox :: "dosbox_globals \<Rightarrow> ('w, 's, 'z) gstate_scheme \<Rightarrow> ('w, 's, 'z) gstate_scheme" where
  "set_dosbox d g = g\<lparr>g_ifaces := (g_ifaces g)\<lparr>dosbox := d\<rparr>\<rparr>"

definition coal_cfg :: "('w, 's) genv \<Rightarrow> ('w, 's, 'z) gstate_scheme \<Rightarrow> coalesce_cfg" where
  "coal_cfg env g =
     \<lparr>cf_coalesce = mc_dosbox_coalesce (e_config env), cf_private_socket = e_private_socket env,
      cf_server = g_dosbox_server_addr g, cf_local_net = dosbox_local_netnum (g_dosbox g),
      cf_local_node = dosbox_local_nodenum (g_dosbox g), cf_send_err = e_send_err env\<rparr>"

subsection \<open>Delivery to the sockets of the process\<close>

text \<open>Whether a socket is to get a packet: the tests of \<open>deliver_packet\<close>, in its order.\<close>

definition deliver_to ::
  "bool \<Rightarrow> u8 \<Rightarrow> u32 \<Rightarrow> u64 \<Rightarrow> u16 \<Rightarrow> u32 \<Rightarrow> u64 \<Rightarrow> u16 \<Rightarrow> ipx_socket \<Rightarrow> bool" where
  "deliver_to w95_bug type src_net src_node src_socket dest_net dest_node dest_socket sock \<longleftrightarrow>
     (if flag_set (sk_flags sock) IPX_IS_SPX then False
      else if \<not> flag_set (sk_flags sock) IPX_BOUND then False
      else if \<not> flag_set (sk_flags sock) IPX_RECV then False
      else if flag_set (sk_flags sock) IPX_FILTER \<and> sk_f_ptype sock \<noteq> type then False
      else if (dest_net \<noteq> addr32_in (sa_netnum (sk_addr sock)) \<and> dest_net \<noteq> BCAST_NET) \<or>
              (dest_node \<noteq> addr48_in (sa_nodenum (sk_addr sock)) \<and> dest_node \<noteq> BCAST_NODE) \<or>
              dest_socket \<noteq> sa_socket (sk_addr sock) then False
      else if (dest_net = BCAST_NET \<or> dest_node = BCAST_NODE) \<and>
              \<not> flag_set (sk_flags sock) IPX_RECV_BCAST then False
      else if (dest_net = BCAST_NET \<or> dest_node = BCAST_NODE) \<and>
              (w95_bug \<and> \<not> flag_set (sk_flags sock) IPX_BROADCAST) then False
      else if flag_set (sk_flags sock) IPX_CONNECTED \<and>
              (src_net \<noteq> addr32_in (sa_netnum (sk_remote_addr sock)) \<or>
               src_node \<noteq> addr48_in (sa_nodenum (sk_remote_addr sock)) \<or>
               src_socket \<noteq> sa_socket (sk_remote_addr sock)) then False
      else True)"

definition loopback_addr :: "u16 \<Rightarrow> sockaddr_in" where
  "loopback_addr port = \<lparr>sin_family = AF_INET, sin_port = port, sin_addr = INADDR_LOOPBACK\<rparr>"

text \<open>The packet as it is relayed; its size is stored as it is, not in network byte order.\<close>

definition relay_packet :: "u8 \<Rightarrow> u32 \<Rightarrow> u64 \<Rightarrow> u16 \<Rightarrow> u32 \<Rightarrow> u64 \<Rightarrow> u16 \<Rightarrow> bytes \<Rightarrow> bytes" where
  "relay_packet type src_net src_node src_socket dest_net dest_node dest_socket dat =
     ipx_packet type (addr32_out dest_net) (addr48_out dest_node) dest_socket
       (addr32_out src_net) (addr48_out src_node) src_socket (of_nat (length dat)) dat"

text \<open>
  \<open>dat = None\<close> stands for a size that has wrapped below zero, with which the copy into the
  allocated packet runs out of bounds.
\<close>

fun deliver_loop ::
  "('w, 's) genv \<Rightarrow> u8 \<Rightarrow> u32 \<Rightarrow> u64 \<Rightarrow> u16 \<Rightarrow> u32 \<Rightarrow> u64 \<Rightarrow> u16 \<Rightarrow> bytes option \<Rightarrow> (nat \<times> ipx_socket) list
     \<Rightarrow> ('w, 's, 'z) gstate_scheme \<Rightarrow> ('w, 's, 'z) gstate_scheme option" where
  "deliver_loop env ty sn sd ss dn dd ds dat [] g = Some g"
| "deliver_loop env ty sn sd ss dn dd ds dat ((fd, sock) # rest) g =
     (if \<not> deliver_to (mc_w95_bug (e_config env)) ty sn sd ss dn dd ds sock
      then deliver_loop env ty sn sd ss dn dd ds dat rest g
      else if \<not> e_pkt_mem env fd then deliver_loop env ty sn sd ss dn dd ds dat rest g
      else case dat of
             None \<Rightarrow> None
           | Some d \<Rightarrow>
               let (err, g) = udp_sendto (e_send_err env) (e_private_socket env)
                                (loopback_addr (sk_port sock)) (relay_packet ty sn sd ss dn dd ds d) g;
                   g = (if err = 0 then count_recv (length d) g else g)
               in deliver_loop env ty sn sd ss dn dd ds dat rest g)"

definition deliver_packet ::
  "('w, 's) genv \<Rightarrow> u8 \<Rightarrow> u32 \<Rightarrow> u64 \<Rightarrow> u16 \<Rightarrow> u32 \<Rightarrow> u64 \<Rightarrow> u16 \<Rightarrow> bytes option
     \<Rightarrow> ('w, 's, 'z) gstate_scheme \<Rightarrow> ('w, 's, 'z) gstate_scheme option" where
  "deliver_packet env ty sn sd ss dn dd ds dat g =
     deliver_loop env ty sn sd ss dn dd ds dat (g_sockets g) g"

subsection \<open>Packets from other instances\<close>

definition IPX_MAGIC_SPXLOOKUP :: u8 where "IPX_MAGIC_SPXLOOKUP = 1"
definition SPXLOOKUP_REQ_SIZE :: nat where "SPXLOOKUP_REQ_SIZE = 32"

text \<open>\<open>spxlookup_req_t\<close>: network, node, socket, padding; the reply has the port after them.\<close>

definition spx_matches :: "bytes \<Rightarrow> ipx_socket \<Rightarrow> bool" where
  "spx_matches req s \<longleftrightarrow>
     flag_set (sk_flags s) IPX_IS_SPX \<and> flag_set (sk_flags s) IPX_LISTENING \<and>
     (slice req 0 4 = sa_netnum (sk_addr s) \<or> addr32_in (slice req 0 4) = ZERO_NET) \<and>
     slice req 4 6 = sa_nodenum (sk_addr s) \<and> le_word (slice req 10 2) = sa_socket (sk_addr s)"

definition spxlookup_reply :: "bytes \<Rightarrow> u16 \<Rightarrow> bytes" where
  "spxlookup_reply req port = slice req 0 12 @ le_bytes 2 port @ replicate 18 0"

definition handle_spxlookup ::
  "('w, 's) genv \<Rightarrow> bytes \<Rightarrow> sockaddr_in \<Rightarrow> ('w, 's, 'z) gstate_scheme \<Rightarrow> ('w, 's, 'z) gstate_scheme" where
  "handle_spxlookup env req src_ip g =
     (case find (\<lambda>(fd, s). spx_matches req s) (g_sockets g) of
        None \<Rightarrow> g
      | Some (fd, s) \<Rightarrow>
          snd (udp_sendto (e_send_err env) (e_private_socket env) src_ip (spxlookup_reply req (sk_port s)) g))"

text \<open>The interfaces a packet may come in on, and the state after looking them up.\<close>

definition allowed_interfaces ::
  "('w, 's) genv \<Rightarrow> bytes \<Rightarrow> ('w, 's, 'z) gstate_scheme
     \<Rightarrow> (ipx_interface list \<times> ('w, 's, 'z) gstate_scheme) option" where
  "allowed_interfaces env packet g =
     (if addr48_in (pkt_dest_node packet) = BCAST_NODE
      then map_option (\<lambda>(l, c). (l, g\<lparr>g_ifaces := c\<rparr>))
             (get_ipx_interfaces (e_sys env) (e_now env) (e_now' env) (g_ifaces g))
      else map_option (\<lambda>(i, c). ((case i of None \<Rightarrow> [] | Some i \<Rightarrow> [i]), g\<lparr>g_ifaces := c\<rparr>))
             (ipx_interface_by_addr (e_sys env) (e_now env) (e_now' env)
                (addr32_in (pkt_dest_net packet)) (addr48_in (pkt_dest_node packet)) (g_ifaces g)))"

definition same_subnet :: "u32 \<Rightarrow> iface_ip \<Rightarrow> bool" where
  "same_subnet addr ip \<longleftrightarrow> ip_ipaddr ip AND ip_netmask ip = addr AND ip_netmask ip"

definition handle_udp_recv ::
  "('w, 's) genv \<Rightarrow> bool \<Rightarrow> bytes \<Rightarrow> sockaddr_in \<Rightarrow> ('w, 's, 'z) gstate_scheme
     \<Rightarrow> ('w, 's, 'z) gstate_scheme option" where
  "handle_udp_recv env malloc_ok packet src_ip g =
     (let data_size = unat (ntohs (pkt_size packet)) in
      if length packet < IPX_PACKET_HEADER \<or> data_size > MAX_DATA_SIZE \<or>
         data_size + IPX_PACKET_HEADER \<noteq> length packet
      then Some g
      else if pkt_src_socket packet = 0 then
        (if pkt_ptype packet = IPX_MAGIC_SPXLOOKUP
         then (if data_size \<noteq> SPXLOOKUP_REQ_SIZE then Some g
               else Some (handle_spxlookup env (pkt_data packet) src_ip g))
         else Some g)
      else
        case allowed_interfaces env packet g of
          None \<Rightarrow> None
        | Some (allow_interfaces, g) \<Rightarrow>
            if \<not> list_ex (\<lambda>i. list_ex (same_subnet (sin_addr src_ip)) (if_ips i)) allow_interfaces
            then Some g
            else
              case addr_cache_set malloc_ok (e_now' env) (sockaddr_in_bytes src_ip) SOCKADDR_IN_SIZE
                     (addr32_in (pkt_src_net packet)) (addr48_in (pkt_src_node packet))
                     (pkt_src_socket packet) (g_hosts g) of
                None \<Rightarrow> None
              | Some hosts \<Rightarrow>
                  deliver_packet env (pkt_ptype packet)
                    (addr32_in (pkt_src_net packet)) (addr48_in (pkt_src_node packet)) (pkt_src_socket packet)
                    (addr32_in (pkt_dest_net packet)) (addr48_in (pkt_dest_node packet)) (pkt_dest_socket packet)
                    (Some (pkt_data packet)) (g\<lparr>g_hosts := hosts\<rparr>))"

subsection \<open>Packets from a DOSBox server\<close>

text \<open>
  \<open>buf\<close> is the whole receive buffer, of which the first \<open>packet_size\<close> bytes were received: an
  invalid response is logged as ignored but used all the same.
\<close>

definition handle_dosbox_registration_response ::
  "('w, 's) genv \<Rightarrow> bytes \<Rightarrow> nat \<Rightarrow> ('w, 's, 'z) gstate_scheme \<Rightarrow> ('w, 's, 'z) gstate_scheme option" where
  "handle_dosbox_registration_response env buf packet_size g =
     (let g = set_dosbox \<lparr>dosbox_state = DOSBOX_CONNECTED,
                dosbox_local_netnum = addr32_in (ipx_dest_net buf),
                dosbox_local_nodenum = addr48_in (ipx_dest_node buf)\<rparr> g
      in case ipx_interfaces_reload (e_sys env) (e_now env) (e_now' env) (g_ifaces g) of
           None \<Rightarrow> None
         | Some c \<Rightarrow> Some (g\<lparr>g_ifaces := c, g_ready_event := True\<rparr>))"

definition ipx_len_at :: "bytes \<Rightarrow> nat \<Rightarrow> nat" where
  "ipx_len_at buf off = unat (ntohs (ipx_length (drop off buf)))"

text \<open>The first pass over a coalesced packet; the amount of remaining data never changes.\<close>

partial_function (option) check_inner :: "bytes \<Rightarrow> nat \<Rightarrow> nat \<Rightarrow> nat \<Rightarrow> bool option" where
  "check_inner buf remaining_data end_off p =
     (if \<not> p < end_off then Some True
      else if remaining_data < NOVELL_IPX_PACKET_SIZE then Some False
      else if p + 4 > length buf then None
      else if ipx_len_at buf p > remaining_data then Some False
      else check_inner buf remaining_data end_off (p + ipx_len_at buf p))"

text \<open>The packet at an offset of the buffer, delivered with what its length field says.\<close>

definition deliver_ipx_at ::
  "('w, 's) genv \<Rightarrow> bytes \<Rightarrow> nat \<Rightarrow> ('w, 's, 'z) gstate_scheme \<Rightarrow> ('w, 's, 'z) gstate_scheme option" where
  "deliver_ipx_at env buf off g =
     (let p = drop off buf; len = ipx_len_at buf off in
      if length p < NOVELL_IPX_PACKET_SIZE \<or> len > length p then None
      else
        deliver_packet env (ipx_type p)
          (addr32_in (ipx_src_net p)) (addr48_in (ipx_src_node p)) (ipx_src_socket p)
          (addr32_in (ipx_dest_net p)) (addr48_in (ipx_dest_node p)) (ipx_dest_socket p)
          (if len < NOVELL_IPX_PACKET_SIZE then None
           else Some (take (len - NOVELL_IPX_PACKET_SIZE) (ipx_data p))) g)"

partial_function (option) deliver_inner ::
  "('w, 's) genv \<Rightarrow> bytes \<Rightarrow> nat \<Rightarrow> nat \<Rightarrow> ('w, 's, 'z) gstate_scheme \<Rightarrow> ('w, 's, 'z) gstate_scheme option" where
  "deliver_inner env buf end_off p g =
     (if \<not> p < end_off then Some g
      else case deliver_ipx_at env buf p g of
             None \<Rightarrow> None
           | Some g' \<Rightarrow> deliver_inner env buf end_off (p + ipx_len_at buf p) g')"

definition handle_dosbox_recv ::
  "('w, 's) genv \<Rightarrow> bytes \<Rightarrow> nat \<Rightarrow> ('w, 's, 'z) gstate_scheme \<Rightarrow> ('w, 's, 'z) gstate_scheme option" where
  "handle_dosbox_recv env buf packet_size g =
     (if packet_size < NOVELL_IPX_PACKET_SIZE \<or> unat (ntohs (ipx_length buf)) \<noteq> packet_size then Some g
      else if ipx_src_socket buf = 0 \<and> ipx_type buf = IPX_MAGIC_COALESCED then
        let remaining_data = packet_size - NOVELL_IPX_PACKET_SIZE in
        case check_inner buf remaining_data packet_size NOVELL_IPX_PACKET_SIZE of
          None \<Rightarrow> None
        | Some False \<Rightarrow> Some g
        | Some True \<Rightarrow> deliver_inner env buf packet_size NOVELL_IPX_PACKET_SIZE g
      else deliver_ipx_at env buf 0 g)"

subsection \<open>Receiving\<close>

definition WSAEWOULDBLOCK :: u32 where "WSAEWOULDBLOCK = 10035"
definition WSAECONNRESET :: u32 where "WSAECONNRESET = 10054"

text \<open>
  What \<open>recvfrom\<close> returns: an error, or the sender, the size and the buffer afterwards (the
  bytes beyond the size are what was on the stack). The outcome of the allocation in the
  address cache comes with it.
\<close>

datatype recv_result =
    RecvErr u32
  | RecvData sockaddr_in nat bytes bool

fun do_udp_recv ::
  "('w, 's) genv \<Rightarrow> recv_result \<Rightarrow> ('w, 's, 'z) gstate_scheme \<Rightarrow> (int \<times> ('w, 's, 'z) gstate_scheme) option" where
  "do_udp_recv env (RecvErr err) g =
     Some (if err = WSAEWOULDBLOCK then 0 else if err = WSAECONNRESET then 1 else -1, g)"
| "do_udp_recv env (RecvData addr len buf malloc_ok) g =
     (let g = count_recv_udp len g in
      if ipx_encap_type (g_ifaces g) = ENCAP_TYPE_DOSBOX then
        (if sin_family addr \<noteq> sin_family (g_dosbox_server_addr g) \<or>
            sin_addr addr \<noteq> sin_addr (g_dosbox_server_addr g) \<or>
            sin_port addr \<noteq> sin_port (g_dosbox_server_addr g)
         then Some (1, g)
         else
           case dosbox_state (g_dosbox g) of
             DOSBOX_REGISTERING \<Rightarrow>
               map_option (Pair 1) (handle_dosbox_registration_response env buf len g)
           | DOSBOX_CONNECTED \<Rightarrow> map_option (Pair 1) (handle_dosbox_recv env buf len g)
           | DOSBOX_DISCONNECTED \<Rightarrow> None)
      else if sin_port addr \<noteq> e_private_port env
      then map_option (Pair 1) (handle_udp_recv env malloc_ok (take len buf) addr g)
      else
        case ipv4_address_is_local (e_sys env) (e_now env) (e_now' env) (sin_addr addr) (g_ifaces g) of
          None \<Rightarrow> None
        | Some (local, c) \<Rightarrow>
            let g = g\<lparr>g_ifaces := c\<rparr> in
            if local then Some (1, g)
            else map_option (Pair 1) (handle_udp_recv env malloc_ok (take len buf) addr g))"

text \<open>The frame type of the configuration, a plain integer in \<open>main_config\<close>.\<close>

definition frame_type_of :: "u32 \<Rightarrow> frame_type option" where
  "frame_type_of t =
     (if t = Config.FRAME_TYPE_ETH_II then Some frame_type.FRAME_TYPE_ETH_II
      else if t = Config.FRAME_TYPE_NOVELL then Some frame_type.FRAME_TYPE_NOVELL
      else if t = Config.FRAME_TYPE_LLC then Some frame_type.FRAME_TYPE_LLC
      else None)"

text \<open>A frame captured on an interface; with an unknown frame type \<open>ipx\<close> is not initialised.\<close>

definition handle_pcap_frame ::
  "('w, 's) genv \<Rightarrow> ipx_interface \<Rightarrow> bytes \<Rightarrow> ('w, 's, 'z) gstate_scheme \<Rightarrow> ('w, 's, 'z) gstate_scheme option" where
  "handle_pcap_frame env iface frame g =
     (case frame_type_of (mc_frame_type (e_config env)) of
        None \<Rightarrow> None
      | Some ft \<Rightarrow>
          (case frame_unpack ft frame of
             None \<Rightarrow> Some g
           | Some (off, ipx_len) \<Rightarrow>
               let ipx = drop off frame; len = unat (ntohs (ipx_length ipx));
                   dest = addr48_in (ipx_dest_node ipx)
               in if ipx_checksum ipx \<noteq> 0xFFFF then Some g
                  else if len > ipx_len then Some g
                  else if dest \<noteq> if_mac iface \<and> dest \<noteq> BCAST_NODE then Some g
                  else
                    deliver_packet env (ipx_type ipx)
                      (addr32_in (ipx_src_net ipx)) (addr48_in (ipx_src_node ipx)) (ipx_src_socket ipx)
                      (addr32_in (ipx_dest_net ipx)) dest (ipx_dest_socket ipx)
                      (if len < NOVELL_IPX_PACKET_SIZE then None
                       else Some (take (len - NOVELL_IPX_PACKET_SIZE) (ipx_data ipx))) g))"

definition IPX_SOCK_ECHO :: u16 where "IPX_SOCK_ECHO = 2"

definition registration_request :: bytes where
  "registration_request =
     novell_ipx_packet 0xFFFF (htons (of_nat NOVELL_IPX_PACKET_SIZE)) 0 2
       (replicate 4 0) (replicate 6 0) (htons IPX_SOCK_ECHO)
       (replicate 4 0) (replicate 6 0) (htons IPX_SOCK_ECHO) []"

definition send_dosbox_registration_request ::
  "('w, 's) genv \<Rightarrow> ('w, 's, 'z) gstate_scheme \<Rightarrow> ('w, 's, 'z) gstate_scheme" where
  "send_dosbox_registration_request env g =
     snd (udp_sendto (e_send_err env) (e_private_socket env) (g_dosbox_server_addr g)
            registration_request g)"

subsection \<open>The router thread\<close>

definition MAX_RECV_PER_LOOP :: nat where "MAX_RECV_PER_LOOP = 50"
definition INITIAL_RETRY_INTERVAL_MS :: u32 where "INITIAL_RETRY_INTERVAL_MS = 250"
definition MAX_RETRY_INTERVAL_MS :: u32 where "MAX_RETRY_INTERVAL_MS = 8000"
definition REGISTRATION_TIMEOUT_MS :: u64 where "REGISTRATION_TIMEOUT_MS = 30000"
definition CONNECT_RETRY_INTERVAL_MS :: u64 where "CONNECT_RETRY_INTERVAL_MS = 10000"

definition until_time :: "u64 \<Rightarrow> u64 \<Rightarrow> u32" where
  "until_time now at = (if now \<ge> at then 0 else min (ucast (at - now)) 1000)"

text \<open>How long the next wait may last; pending coalesced packets are sent before it.\<close>

definition router_prepare ::
  "('w, 's) genv \<Rightarrow> u64 \<Rightarrow> u64 \<Rightarrow> ('w, 's, 'z) gstate_scheme \<Rightarrow> (u32 \<times> ('w, 's, 'z) gstate_scheme) option" where
  "router_prepare env uticks ticks g =
     (if ipx_encap_type (g_ifaces g) \<noteq> ENCAP_TYPE_DOSBOX then Some (1000, g)
      else case coalesce_flush_waiting (coal_cfg env g) uticks g of
             None \<Rightarrow> None
           | Some g \<Rightarrow>
               Some (case dosbox_state (g_dosbox g) of
                       DOSBOX_DISCONNECTED \<Rightarrow> until_time ticks (g_next_connection_attempt_at g)
                     | DOSBOX_REGISTERING \<Rightarrow> until_time ticks (g_next_registration_request_at g)
                     | DOSBOX_CONNECTED \<Rightarrow> 1000, g))"

text \<open>
  The receive loops: \<open>rx fd i\<close> is what the \<open>i\<close>-th receive on a socket returns in this round.
  The status is negative on a failure that ends the thread.
\<close>

fun recv_loop_dosbox ::
  "('w, 's) genv \<Rightarrow> (nat \<Rightarrow> nat \<Rightarrow> recv_result) \<Rightarrow> nat \<Rightarrow> nat \<Rightarrow> ('w, 's, 'z) gstate_scheme
     \<Rightarrow> (int \<times> ('w, 's, 'z) gstate_scheme) option" where
  "recv_loop_dosbox env rx i 0 g = Some (0, g)"
| "recv_loop_dosbox env rx i (Suc n) g =
     (case do_udp_recv env (rx (e_private_socket env) i) g of
        None \<Rightarrow> None
      | Some (status, g) \<Rightarrow>
          if status \<le> 0 then Some (status, g) else recv_loop_dosbox env rx (Suc i) n g)"

fun recv_loop_ip ::
  "('w, 's) genv \<Rightarrow> (nat \<Rightarrow> nat \<Rightarrow> recv_result) \<Rightarrow> nat \<Rightarrow> nat \<Rightarrow> ('w, 's, 'z) gstate_scheme
     \<Rightarrow> (int \<times> ('w, 's, 'z) gstate_scheme) option" where
  "recv_loop_ip env rx i 0 g = Some (0, g)"
| "recv_loop_ip env rx i (Suc n) g =
     (case do_udp_recv env (rx (e_shared_socket env) i) g of
        None \<Rightarrow> None
      | Some (s1, g) \<Rightarrow>
          (case do_udp_recv env (rx (e_private_socket env) i) g of
             None \<Rightarrow> None
           | Some (s2, g) \<Rightarrow>
               if s1 < 0 \<or> s2 < 0 then Some (-1, g)
               else if s1 = 0 \<and> s2 = 0 then Some (0, g)
               else recv_loop_ip env rx (Suc i) n g))"

text \<open>The frames each interface has for \<open>pcap_dispatch\<close>, \<open>None\<close> when it fails.\<close>

fun pcap_frames ::
  "('w, 's) genv \<Rightarrow> ipx_interface \<Rightarrow> bytes list \<Rightarrow> ('w, 's, 'z) gstate_scheme
     \<Rightarrow> ('w, 's, 'z) gstate_scheme option" where
  "pcap_frames env i [] g = Some g"
| "pcap_frames env i (f # fs) g =
     (case handle_pcap_frame env i f g of None \<Rightarrow> None | Some g \<Rightarrow> pcap_frames env i fs g)"

fun pcap_loop ::
  "('w, 's) genv \<Rightarrow> (ipx_interface \<Rightarrow> bytes list option) \<Rightarrow> ipx_interface list \<Rightarrow> ('w, 's, 'z) gstate_scheme
     \<Rightarrow> (bool \<times> ('w, 's, 'z) gstate_scheme) option" where
  "pcap_loop env frames [] g = Some (True, g)"
| "pcap_loop env frames (i # is) g =
     (case frames i of
        None \<Rightarrow> Some (False, g)
      | Some fs \<Rightarrow>
          (case pcap_frames env i fs g of None \<Rightarrow> None | Some g \<Rightarrow> pcap_loop env frames is g))"

text \<open>
  Connecting: \<open>host\<close> is what \<open>gethostbyname\<close> finds for the server. The clock is read before
  and after the lookup.
\<close>

definition dosbox_connect ::
  "('w, 's) genv \<Rightarrow> u64 \<Rightarrow> u64 \<Rightarrow> u32 option \<Rightarrow> ('w, 's, 'z) gstate_scheme \<Rightarrow> ('w, 's, 'z) gstate_scheme" where
  "dosbox_connect env ticks now host g =
     (if ipx_encap_type (g_ifaces g) = ENCAP_TYPE_DOSBOX \<and> dosbox_state (g_dosbox g) = DOSBOX_DISCONNECTED \<and>
         ticks \<ge> g_next_connection_attempt_at g
      then
        case host of
          Some addr \<Rightarrow>
            set_dosbox ((g_dosbox g)\<lparr>dosbox_state := DOSBOX_REGISTERING\<rparr>)
              (g\<lparr>g_dosbox_server_addr :=
                   \<lparr>sin_family = AF_INET,
                    sin_port = htons (mc_dosbox_server_port (e_config env)), sin_addr = addr\<rparr>,
                 g_next_registration_request_at := 0,
                 g_registration_retry_interval_ms := INITIAL_RETRY_INTERVAL_MS,
                 g_registration_timeout_at := now + REGISTRATION_TIMEOUT_MS\<rparr>)
        | None \<Rightarrow> g\<lparr>g_next_connection_attempt_at := now + CONNECT_RETRY_INTERVAL_MS\<rparr>
      else g)"

definition dosbox_register ::
  "('w, 's) genv \<Rightarrow> u64 \<Rightarrow> ('w, 's, 'z) gstate_scheme \<Rightarrow> ('w, 's, 'z) gstate_scheme" where
  "dosbox_register env now g =
     (if ipx_encap_type (g_ifaces g) = ENCAP_TYPE_DOSBOX \<and> dosbox_state (g_dosbox g) = DOSBOX_REGISTERING
      then
        let g = (if now \<ge> g_registration_timeout_at g
                 then set_dosbox ((g_dosbox g)\<lparr>dosbox_state := DOSBOX_DISCONNECTED\<rparr>) g else g)
        in if now \<ge> g_next_registration_request_at g then
             let g = send_dosbox_registration_request env g;
                 interval = g_registration_retry_interval_ms g
             in g\<lparr>g_next_registration_request_at := now + ucast interval,
                  g_registration_retry_interval_ms := min (interval * 2) MAX_RETRY_INTERVAL_MS\<rparr>
           else g
      else g)"

text \<open>
  What one round of the loop gets from outside: whether the thread is to go on, the clocks in
  the order they are read, the received datagrams and frames, and the server's address.
\<close>

record round =
  r_running :: bool
  r_uticks :: u64
  r_ticks_wait :: u64
  r_ticks_connect :: u64
  r_ticks_resolved :: u64
  r_ticks_register :: u64
  r_rx :: "nat \<Rightarrow> nat \<Rightarrow> recv_result"
  r_frames :: "ipx_interface \<Rightarrow> bytes list option"
  r_host :: "u32 option"

datatype router_status = Running u32 | Exited u32

text \<open>
  One round of \<open>router_main\<close>: the wait, the receives, and the state machine of the connection. A
  failed \<open>pcap_dispatch\<close> leaves the loop over the interfaces and sets the status the thread
  will return; a failed receive ends the thread at once.
\<close>

definition router_round ::
  "('w, 's) genv \<Rightarrow> ipx_interface list \<Rightarrow> round \<Rightarrow> u32 \<Rightarrow> ('w, 's, 'z) gstate_scheme
     \<Rightarrow> (router_status \<times> ('w, 's, 'z) gstate_scheme) option" where
  "router_round env interfaces r exit_status g =
     (case router_prepare env (r_uticks r) (r_ticks_wait r) g of
        None \<Rightarrow> None
      | Some (wait_ms, g) \<Rightarrow>
          if \<not> r_running r then Some (Exited exit_status, g)
          else
            case (if ipx_encap_type (g_ifaces g) = ENCAP_TYPE_PCAP
                  then map_option (\<lambda>(ok, g). (0, if ok then exit_status else 1, g))
                         (pcap_loop env (r_frames r) interfaces g)
                  else map_option (\<lambda>(status, g). (status, exit_status, g))
                         (if ipx_encap_type (g_ifaces g) = ENCAP_TYPE_DOSBOX
                          then recv_loop_dosbox env (r_rx r) 0 MAX_RECV_PER_LOOP g
                          else recv_loop_ip env (r_rx r) 0 MAX_RECV_PER_LOOP g)) of
              None \<Rightarrow> None
            | Some (status, exit_status, g) \<Rightarrow>
                if status < 0 then Some (Exited 1, g)
                else
                  Some (Running exit_status,
                    dosbox_register env (r_ticks_register r)
                      (dosbox_connect env (r_ticks_connect r) (r_ticks_resolved r) (r_host r) g)))"

subsection \<open>Delivery\<close>

fun sent_datagram :: "sent \<Rightarrow> nat \<times> sockaddr_in \<times> bytes" where
  "sent_datagram (Udp fd to dat ok) = (fd, to, dat)"
| "sent_datagram (Frame i dat ok) = (i, loopback_addr 0, dat)"

definition datagrams :: "'n netstate_scheme \<Rightarrow> (nat \<times> sockaddr_in \<times> bytes) list" where
  "datagrams n = map sent_datagram (n_sent n)"

lemma datagrams_udp [simp]:
  "datagrams (snd (udp_sendto e fd to dat n)) = datagrams n @ [(fd, to, dat)]"
  by (simp add: datagrams_def udp_sendto_def Let_def)

lemma datagrams_count [simp]:
  "datagrams (count_recv k n) = datagrams n" "datagrams (count_recv_udp k n) = datagrams n"
  by (simp_all add: datagrams_def)

text \<open>The parts of the state that sending and counting leave alone.\<close>

definition same_router :: "('w, 's, 'z) gstate_scheme \<Rightarrow> ('w, 's, 'z) gstate_scheme \<Rightarrow> bool" where
  "same_router g g' \<longleftrightarrow>
     g_ifaces g' = g_ifaces g \<and> g_sockets g' = g_sockets g \<and> g_hosts g' = g_hosts g \<and>
     g_dosbox_server_addr g' = g_dosbox_server_addr g \<and> g_ready_event g' = g_ready_event g \<and>
     g_next_connection_attempt_at g' = g_next_connection_attempt_at g \<and>
     g_next_registration_request_at g' = g_next_registration_request_at g \<and>
     g_registration_retry_interval_ms g' = g_registration_retry_interval_ms g \<and>
     g_registration_timeout_at g' = g_registration_timeout_at g"

lemma same_router_refl [simp]: "same_router g g"
  by (simp add: same_router_def)

lemma same_router_trans: "same_router a b \<Longrightarrow> same_router b c \<Longrightarrow> same_router a c"
  by (simp add: same_router_def)

lemma same_router_send [simp]:
  "same_router g (snd (udp_sendto e fd to dat g))" "same_router g (count_recv k g)"
  "same_router g (count_recv_udp k g)" "same_router g (count_send_udp k g)"
  by (simp_all add: same_router_def udp_sendto_def count_recv_def count_recv_udp_def
      count_send_udp_def Let_def)

lemma deliver_loop_relays:
  "\<exists>g'. deliver_loop env ty sn sd ss dn dd ds (Some dat) socks g = Some g' \<and> same_router g g' \<and>
     datagrams g' = datagrams g @
       map (\<lambda>(fd, s). (e_private_socket env, loopback_addr (sk_port s), relay_packet ty sn sd ss dn dd ds dat))
         (filter (\<lambda>(fd, s). deliver_to (mc_w95_bug (e_config env)) ty sn sd ss dn dd ds s \<and> e_pkt_mem env fd) socks)"
proof (induction socks arbitrary: g)
  case (Cons e socks)
  let ?p = "relay_packet ty sn sd ss dn dd ds dat"
  let ?ok = "\<lambda>(fd, s). deliver_to (mc_w95_bug (e_config env)) ty sn sd ss dn dd ds s \<and> e_pkt_mem env fd"
  obtain fd s where e: "e = (fd, s)" by (cases e)
  show ?case
  proof (cases "?ok (fd, s)")
    case False
    with Cons.IH [of g] show ?thesis by (auto simp: e)
  next
    case True
    let ?send = "udp_sendto (e_send_err env) (e_private_socket env) (loopback_addr (sk_port s)) ?p g"
    define g1 where "g1 = (if fst ?send = 0 then count_recv (length dat) (snd ?send) else snd ?send)"
    have g1: "same_router g g1"
      by (auto simp: g1_def same_router_def udp_sendto_def count_recv_def Let_def)
    have d1: "datagrams g1 = datagrams g @ [(e_private_socket env, loopback_addr (sk_port s), ?p)]"
      by (simp add: g1_def)
    have "deliver_loop env ty sn sd ss dn dd ds (Some dat) (e # socks) g =
        deliver_loop env ty sn sd ss dn dd ds (Some dat) socks g1"
      using True by (simp add: e g1_def split_beta Let_def)
    with Cons.IH [of g1] True g1 d1 show ?thesis
      by (auto simp: e intro: same_router_trans)
  qed
qed simp


lemma deliver_packet_same_router:
  assumes "deliver_packet env ty sn sd ss dn dd ds dat g = Some g'"
  shows "same_router g g'"
proof (cases dat)
  case (Some d)
  with assms deliver_loop_relays [of env ty sn sd ss dn dd ds d "g_sockets g" g] show ?thesis
    by (auto simp: deliver_packet_def)
next
  case None
  have "deliver_loop env ty sn sd ss dn dd ds None socks g = Some g' \<Longrightarrow> g' = g" for socks
    by (induction socks) (auto split: if_splits)
  from this [of "g_sockets g"] assms None show ?thesis by (simp add: deliver_packet_def)
qed

text \<open>A relayed packet has the addresses, the type, the true size and the payload.\<close>

lemma relay_packet_fields [layout_simps]:
  "pkt_ptype (relay_packet ty sn sd ss dn dd ds dat) = ty"
  "pkt_dest_net (relay_packet ty sn sd ss dn dd ds dat) = addr32_out dn"
  "pkt_dest_node (relay_packet ty sn sd ss dn dd ds dat) = addr48_out dd"
  "pkt_dest_socket (relay_packet ty sn sd ss dn dd ds dat) = ds"
  "pkt_src_net (relay_packet ty sn sd ss dn dd ds dat) = addr32_out sn"
  "pkt_src_node (relay_packet ty sn sd ss dn dd ds dat) = addr48_out sd"
  "pkt_src_socket (relay_packet ty sn sd ss dn dd ds dat) = ss"
  "pkt_size (relay_packet ty sn sd ss dn dd ds dat) = of_nat (length dat)"
  "pkt_data (relay_packet ty sn sd ss dn dd ds dat) = dat"
  "length (relay_packet ty sn sd ss dn dd ds dat) = IPX_PACKET_HEADER + length dat"
  by (simp_all add: relay_packet_def layout_simps)

text \<open>
  A size below zero is only used for a socket that passes the tests; then the copy overruns.
\<close>

lemma deliver_packet_wrapped:
  assumes "(fd, s) \<in> set (g_sockets g)" and "e_pkt_mem env fd"
    and "deliver_to (mc_w95_bug (e_config env)) ty sn sd ss dn dd ds s"
  shows "deliver_packet env ty sn sd ss dn dd ds None g = None"
proof -
  have "(fd, s) \<in> set socks \<Longrightarrow> deliver_loop env ty sn sd ss dn dd ds None socks g = None" for socks
    using assms(2,3) by (induction socks) auto
  with assms(1) show ?thesis unfolding deliver_packet_def by blast
qed

subsection \<open>Frames\<close>

text \<open>
  C13. A frame sent by one program reaches the sockets of another. A frame packed in the configured
  format and addressed to the interface's hardware address or the broadcast address is
  delivered with exactly the type, addresses, sockets and payload it was packed with.
\<close>

theorem pcap_frame_delivered:
  assumes "frame_type_of (mc_frame_type (e_config env)) = Some ft" and "frame_size ft (length pl) \<noteq> 0"
    and "addr48_ok sd" and "addr48_ok dd" and "dd = if_mac iface \<or> dd = BCAST_NODE"
  shows "handle_pcap_frame env iface (frame_pack ft ty sn sd ss dn dd ds pl) g =
           deliver_packet env ty sn sd ss dn dd ds (Some pl) g"
proof -
  let ?f = "frame_pack ft ty sn sd ss dn dd ds pl" and ?p = "pack_ipx_packet ty sn sd ss dn dd ds pl"
  have u: "frame_unpack ft ?f = Some (frame_header_size ft, NOVELL_IPX_PACKET_SIZE + length pl)"
    using assms(2) by (rule configured_unpack_pack)
  note d = configured_packed_packet [of ft ty sn sd ss dn dd ds pl]
  have len: "unat (ntohs (ipx_length ?p)) = NOVELL_IPX_PACKET_SIZE + length pl"
    using configured_packed_length_field [OF assms(2), of ty sn sd ss dn dd ds] by (simp only: d)
  have fields: "ipx_checksum ?p = 0xFFFF" "ipx_type ?p = ty" "addr32_in (ipx_src_net ?p) = sn"
    "addr48_in (ipx_src_node ?p) = sd" "ipx_src_socket ?p = ss" "addr32_in (ipx_dest_net ?p) = dn"
    "addr48_in (ipx_dest_node ?p) = dd" "ipx_dest_socket ?p = ds" "ipx_data ?p = pl"
    using assms(3,4) by (simp_all add: pack_ipx_packet_def layout_simps)
  show ?thesis
    unfolding handle_pcap_frame_def
    using assms(5) by (auto simp: assms(1) u d len fields Let_def)
qed

text \<open>The sockets an example process has: one bound to network 1, node 7, socket 0x5000.\<close>

definition sample_socket :: ipx_socket where
  "sample_socket =
     \<lparr>sk_ptr = 100, sk_port = htons 1234, sk_flags = 0x11A, sk_s_ptype = 0, sk_f_ptype = 0,
      sk_addr = \<lparr>sa_family = AF_IPX, sa_netnum = [0, 0, 0, 1], sa_nodenum = [2, 0, 0, 0, 0, 7], sa_socket = htons 0x5000\<rparr>,
      sk_sock_mut = 0,
      sk_remote_addr = \<lparr>sa_family = 0, sa_netnum = [], sa_nodenum = [], sa_socket = 0\<rparr>, sk_recv_queue = 1\<rparr>"

definition sample_genv :: "(unit, nat) genv" where
  "sample_genv =
     \<lparr>e_sys = sample_env, e_config = default_config\<lparr>mc_w95_bug := False\<rparr>, e_shared_socket = 3,
      e_private_socket = 5, e_private_port = htons 6000, e_send_err = (\<lambda>n. 0), e_pkt_mem = (\<lambda>fd. True),
      e_now = 105, e_now' = 105\<rparr>"

definition sample_g :: "u32 \<Rightarrow> dosbox_state \<Rightarrow> (unit, nat) gstate" where
  "sample_g encap dstate = coalesce_state.extend co_init
     \<lparr>g_ifaces = sample_cache\<lparr>ipx_encap_type := encap,
        dosbox := \<lparr>dosbox_state = dstate, dosbox_local_netnum = 0, dosbox_local_nodenum = 0\<rparr>\<rparr>,
      g_sockets = [(8, sample_socket)], g_hosts = [],
      g_dosbox_server_addr = \<lparr>sin_family = AF_INET, sin_port = htons 213, sin_addr = addr32_in [10, 0, 0, 1]\<rparr>,
      g_ready_event = False, g_next_connection_attempt_at = 0, g_next_registration_request_at = 0,
      g_registration_retry_interval_ms = 250, g_registration_timeout_at = 30000\<rparr>"

lemmas sample_g_simps = sample_g_def coalesce_state.extend_def co_init_def netstate.extend_def
  net_init_def sample_cache_def sysst.extend_def

theorem pcap_frame_delivered_witness:
  "handle_pcap_frame sample_genv \<lparr>if_net = 1, if_node = 0, if_ips = [], if_mac = addr48_in [2, 0, 0, 0, 0, 7], if_pcap = 1\<rparr>
     (frame_pack frame_type.FRAME_TYPE_ETH_II 4 1 0 (htons 0x4000) 1 (addr48_in [2, 0, 0, 0, 0, 7]) (htons 0x5000) [9])
     (sample_g ENCAP_TYPE_PCAP DOSBOX_DISCONNECTED) =
   deliver_packet sample_genv 4 1 0 (htons 0x4000) 1 (addr48_in [2, 0, 0, 0, 0, 7]) (htons 0x5000) (Some [9])
     (sample_g ENCAP_TYPE_PCAP DOSBOX_DISCONNECTED)"
proof (rule pcap_frame_delivered)
  show "frame_type_of (mc_frame_type (e_config sample_genv)) = Some frame_type.FRAME_TYPE_ETH_II"
    by (simp add: sample_genv_def default_config_def frame_type_of_def)
  show "addr48_ok 0" by (simp add: addr48_ok_def)
  show "addr48_ok (addr48_in [2, 0, 0, 0, 0, 7])" by (rule addr48_ok_in) simp
qed (simp_all add: ethII_frame_size_def frame_sizes)

subsection \<open>DOSBox packets\<close>

definition whole_packet :: "bytes \<Rightarrow> bool" where
  "whole_packet q \<longleftrightarrow> NOVELL_IPX_PACKET_SIZE \<le> length q \<and> ipx_len_at q 0 = length q"

text \<open>Delivering several packets one after the other.\<close>

fun deliver_each ::
  "('w, 's) genv \<Rightarrow> bytes list \<Rightarrow> ('w, 's, 'z) gstate_scheme \<Rightarrow> ('w, 's, 'z) gstate_scheme option" where
  "deliver_each env [] g = Some g"
| "deliver_each env (q # qs) g =
     (case deliver_ipx_at env q 0 g of None \<Rightarrow> None | Some g' \<Rightarrow> deliver_each env qs g')"

lemma slice_front: "off + n \<le> length q \<Longrightarrow> slice (q @ rest) off n = slice q off n"
  by (simp add: slice_def)

lemma ipx_fields_front:
  assumes "NOVELL_IPX_PACKET_SIZE \<le> length q"
  shows "ipx_length (q @ rest) = ipx_length q" "ipx_type (q @ rest) = ipx_type q"
    "ipx_src_net (q @ rest) = ipx_src_net q" "ipx_src_node (q @ rest) = ipx_src_node q"
    "ipx_src_socket (q @ rest) = ipx_src_socket q" "ipx_dest_net (q @ rest) = ipx_dest_net q"
    "ipx_dest_node (q @ rest) = ipx_dest_node q" "ipx_dest_socket (q @ rest) = ipx_dest_socket q"
  using assms by (simp_all add: ipx_fields slice_front NOVELL_IPX_PACKET_SIZE_def nth_append)

lemma ipx_len_at_split:
  "whole_packet q \<Longrightarrow> ipx_len_at (pre @ q @ rest) (length pre) = length q"
  by (simp add: whole_packet_def ipx_len_at_def ipx_fields_front)

lemma deliver_ipx_at_split:
  assumes "whole_packet q"
  shows "deliver_ipx_at env (pre @ q @ rest) (length pre) g = deliver_ipx_at env q 0 g"
proof -
  have w: "NOVELL_IPX_PACKET_SIZE \<le> length q" "ipx_len_at q 0 = length q"
    using assms by (simp_all add: whole_packet_def)
  have "take (length q - NOVELL_IPX_PACKET_SIZE) (ipx_data (q @ rest)) = drop 30 q"
    using w(1) by (simp add: ipx_data_def frame_sizes)
  moreover have "take (length q - NOVELL_IPX_PACKET_SIZE) (ipx_data q) = drop 30 q"
    by (simp add: ipx_data_def frame_sizes)
  ultimately show ?thesis
    using w by (simp add: deliver_ipx_at_def ipx_len_at_split [OF assms] ipx_fields_front Let_def)
qed

lemma check_inner_packets:
  assumes "list_all whole_packet qs" and "length (concat qs) \<le> remaining"
  shows "check_inner (pre @ concat qs @ rest) remaining (length pre + length (concat qs)) (length pre) = Some True"
  using assms
proof (induction qs arbitrary: pre)
  case Nil
  then show ?case by (subst check_inner.simps) simp
next
  case (Cons q qs)
  have w: "whole_packet q" "NOVELL_IPX_PACKET_SIZE \<le> length q" using Cons.prems(1) by (simp_all add: whole_packet_def)
  have ne: "q \<noteq> []" using w(2) by (auto simp: frame_sizes)
  have "check_inner (pre @ concat (q # qs) @ rest) remaining (length pre + length (concat (q # qs))) (length pre) =
      check_inner ((pre @ q) @ concat qs @ rest) remaining (length (pre @ q) + length (concat qs)) (length (pre @ q))"
    using w ne Cons.prems(2) ipx_len_at_split [OF w(1), of pre "concat qs @ rest"]
    by (subst check_inner.simps) (simp add: frame_sizes add.assoc)
  also have "\<dots> = Some True" by (rule Cons.IH) (use Cons.prems in auto)
  finally show ?case .
qed

lemma deliver_inner_packets:
  fixes g :: "('w, 's, 'z) gstate_scheme"
  assumes "list_all whole_packet qs"
  shows "deliver_inner env (pre @ concat qs @ rest) (length pre + length (concat qs)) (length pre) g =
           deliver_each env qs g"
  using assms
proof (induction qs arbitrary: pre g)
  case Nil
  then show ?case by (subst deliver_inner.simps) simp
next
  case (Cons q qs)
  have w: "whole_packet q" "NOVELL_IPX_PACKET_SIZE \<le> length q" using Cons.prems(1) by (simp_all add: whole_packet_def)
  have ne: "q \<noteq> []" using w(2) by (auto simp: frame_sizes)
  have IH: "deliver_inner env (pre @ q @ concat qs @ rest)
      (length pre + (length q + length (concat qs))) (length pre + length q) g' = deliver_each env qs g'"
    for g' :: "('w, 's, 'z) gstate_scheme"
    using Cons.IH [of "pre @ q" g'] Cons.prems by (simp add: add.assoc)
  show ?case
    using w ne deliver_ipx_at_split [OF w(1), of env pre "concat qs @ rest" g]
      ipx_len_at_split [OF w(1), of pre "concat qs @ rest"]
    by (subst deliver_inner.simps) (simp add: IH frame_sizes split: option.splits)
qed

text \<open>
  C8. What one program coalesces another takes apart again. For whole packets whose total fits a
  datagram, the receiver of the coalesced packet returns and has delivered precisely these
  packets, in their order, as if each had arrived alone, whatever lies behind the datagram
  in the receive buffer.
\<close>

theorem coalesced_packets_delivered:
  assumes "list_all whole_packet qs" and "NOVELL_IPX_PACKET_SIZE + length (concat qs) < 65536"
  shows "handle_dosbox_recv env (coalesced cfg key qs @ rest) (length (coalesced cfg key qs)) g =
           deliver_each env qs g"
proof -
  let ?n = "NOVELL_IPX_PACKET_SIZE + length (concat qs)"
  let ?h = "coalesce_header cfg key (htons (of_nat ?n))"
  have h: "length ?h = NOVELL_IPX_PACKET_SIZE" by simp
  have c: "coalesced cfg key qs = ?h @ concat qs" by (simp only: coalesced_def)
  have l: "length (coalesced cfg key qs) = ?n" unfolding c by simp
  have f: "ipx_length ?h = htons (of_nat ?n)" "ipx_src_socket ?h = 0" "ipx_type ?h = IPX_MAGIC_COALESCED"
    by (auto simp: coalesce_header_def layout_simps split: prod.splits)
  have "unat (ntohs (ipx_length ?h)) = ?n"
    using assms(2) by (simp add: f unat_of_nat16 del: of_nat_add of_nat_numeral)
  moreover have "check_inner (?h @ concat qs @ rest) (length (concat qs)) ?n NOVELL_IPX_PACKET_SIZE = Some True"
    using check_inner_packets [OF assms(1) order_refl, of ?h rest] by simp
  moreover have "deliver_inner env (?h @ concat qs @ rest) ?n NOVELL_IPX_PACKET_SIZE g = deliver_each env qs g"
    using deliver_inner_packets [OF assms(1), of env ?h rest g] by simp
  ultimately show ?thesis
    unfolding handle_dosbox_recv_def l unfolding c
    by (simp add: ipx_fields_front f Let_def del: of_nat_add)
qed

text \<open>Two packets with different payloads, and what was on the stack behind them.\<close>

definition sample_packet :: "bytes \<Rightarrow> bytes" where
  "sample_packet dat =
     pack_ipx_packet 4 1 0 (htons 0x4000) 1 (addr48_in [2, 0, 0, 0, 0, 7]) (htons 0x5000) dat"

theorem coalesced_packets_delivered_witness:
  "handle_dosbox_recv sample_genv
     (coalesced sample_cfg (1, 2, 3) [sample_packet [9], sample_packet [8, 7]] @ [0, 0])
     (length (coalesced sample_cfg (1, 2, 3) [sample_packet [9], sample_packet [8, 7]]))
     (sample_g ENCAP_TYPE_DOSBOX DOSBOX_CONNECTED) =
   deliver_each sample_genv [sample_packet [9], sample_packet [8, 7]]
     (sample_g ENCAP_TYPE_DOSBOX DOSBOX_CONNECTED)"
proof (rule coalesced_packets_delivered)
  have "whole_packet (sample_packet d)" if "length d < 60000" for d
  proof -
    have "ipx_length (sample_packet d) = htons (of_nat (NOVELL_IPX_PACKET_SIZE + length d))"
      by (simp add: sample_packet_def pack_ipx_packet_def layout_simps)
    moreover have "length (sample_packet d) = NOVELL_IPX_PACKET_SIZE + length d"
      by (simp add: sample_packet_def pack_ipx_packet_def layout_simps)
    ultimately show ?thesis
      using that by (simp add: whole_packet_def ipx_len_at_def frame_sizes unat_of_nat16 del: of_nat_add)
  qed
  then show "list_all whole_packet [sample_packet [9], sample_packet [8, 7]]" by simp
  show "NOVELL_IPX_PACKET_SIZE + length (concat [sample_packet [9], sample_packet [8, 7]]) < 65536"
    by (simp add: sample_packet_def pack_ipx_packet_def layout_simps frame_sizes)
qed

end
