(* ===== verification/RouterThread.thy ===== *)
theory RouterThread
  imports Router
begin

text \<open>
  What the router thread keeps to: the connection to a DOSBox server as a state machine that
  every round refines, the checks a packet from the network has to pass before its sender is
  believed, the lookup of listening SPX sockets, and the inputs for which a handler does not
  return, overruns a buffer, or aborts.
\<close>

subsection \<open>The connection to a DOSBox server\<close>

text \<open>The connection: its state, and the interval to the next registration request.\<close>

type_synonym conn = "dosbox_state \<times> u32"

definition conn_of :: "('w, 's, 'z) gstate_scheme \<Rightarrow> conn" where
  "conn_of g = (dosbox_state (g_dosbox g), g_registration_retry_interval_ms g)"

definition backoff :: "u32 \<Rightarrow> u32" where
  "backoff i = min (i * 2) MAX_RETRY_INTERVAL_MS"

inductive conn_step :: "conn \<Rightarrow> conn \<Rightarrow> bool" where
  resolved: "conn_step (DOSBOX_DISCONNECTED, i) (DOSBOX_REGISTERING, INITIAL_RETRY_INTERVAL_MS)"
| accepted: "conn_step (DOSBOX_REGISTERING, i) (DOSBOX_CONNECTED, i)"
| requested: "conn_step (DOSBOX_REGISTERING, i) (DOSBOX_REGISTERING, backoff i)"
| timed_out: "conn_step (DOSBOX_REGISTERING, i) (DOSBOX_DISCONNECTED, i)"

inductive_cases conn_step_connectedE: "conn_step (DOSBOX_CONNECTED, i) c"
inductive_simps conn_step_from_disconnected: "conn_step (DOSBOX_DISCONNECTED, i) c"

definition retry_intervals :: "u32 set" where
  "retry_intervals = {250, 500, 1000, 2000, 4000, 8000}"

definition conn_inv :: "conn \<Rightarrow> bool" where
  "conn_inv c \<longleftrightarrow> (fst c = DOSBOX_REGISTERING \<longrightarrow> snd c \<in> retry_intervals)"

lemma backoff_closed: "i \<in> retry_intervals \<Longrightarrow> backoff i \<in> retry_intervals"
  by (auto simp: retry_intervals_def backoff_def MAX_RETRY_INTERVAL_MS_def min_def)

lemma conn_step_inv: "conn_step c c' \<Longrightarrow> conn_inv c \<Longrightarrow> conn_inv c'"
  by (induction rule: conn_step.induct)
    (auto simp: conn_inv_def backoff_closed, simp add: retry_intervals_def INITIAL_RETRY_INTERVAL_MS_def)

lemma conn_steps_inv: "conn_step\<^sup>*\<^sup>* c c' \<Longrightarrow> conn_inv c \<Longrightarrow> conn_inv c'"
  by (induction rule: rtranclp_induct) (auto intro: conn_step_inv)

lemma conn_steps_connected: "conn_step\<^sup>*\<^sup>* c c' \<Longrightarrow> fst c = DOSBOX_CONNECTED \<Longrightarrow> c' = c"
  by (induction rule: rtranclp_induct) (auto elim: conn_step_connectedE conn_step.cases)

text \<open>What the handlers leave of the connection.\<close>

lemma with_sys_keeps [simp]:
  "ipx_encap_type (with_sys c st) = ipx_encap_type c" "dosbox (with_sys c st) = dosbox c"
  by (simp_all add: with_sys_def)

lemma renew_keeps:
  "renew_interface_cache senv now now' force c = Some c' \<Longrightarrow>
     ipx_encap_type c' = ipx_encap_type c \<and> dosbox c' = dosbox c"
  by (auto simp: renew_interface_cache_def split: if_splits option.splits)

lemma get_interfaces_keeps:
  "get_ipx_interfaces senv now now' c = Some (l, c') \<Longrightarrow>
     ipx_encap_type c' = ipx_encap_type c \<and> dosbox c' = dosbox c"
  by (auto simp: get_ipx_interfaces_def split: option.splits prod.splits dest!: renew_keeps)

lemma copy_found_keeps:
  "copy_found senv found c = (r, c') \<Longrightarrow> ipx_encap_type c' = ipx_encap_type c \<and> dosbox c' = dosbox c"
  by (auto simp: copy_found_def split: option.splits prod.splits)

lemma by_addr_keeps:
  "ipx_interface_by_addr senv now now' net node c = Some (i, c') \<Longrightarrow>
     ipx_encap_type c' = ipx_encap_type c \<and> dosbox c' = dosbox c"
  by (auto simp: ipx_interface_by_addr_def split: option.splits dest!: renew_keeps copy_found_keeps [rotated])

definition same_conn :: "('w, 's, 'z) gstate_scheme \<Rightarrow> ('w, 's, 'z) gstate_scheme \<Rightarrow> bool" where
  "same_conn g g' \<longleftrightarrow>
     conn_of g' = conn_of g \<and> ipx_encap_type (g_ifaces g') = ipx_encap_type (g_ifaces g)"

lemma same_conn_refl [simp]: "same_conn g g"
  by (simp add: same_conn_def)

lemma same_router_conn: "same_router g g' \<Longrightarrow> same_conn g g'"
  by (simp add: same_router_def same_conn_def conn_of_def g_dosbox_def)

lemma allowed_interfaces_conn:
  "allowed_interfaces env packet g = Some (l, g') \<Longrightarrow> same_conn g g'"
  by (auto simp: allowed_interfaces_def same_conn_def conn_of_def g_dosbox_def
      dest!: get_interfaces_keeps by_addr_keeps split: if_splits)

lemma handle_udp_recv_conn:
  assumes "handle_udp_recv env ok packet src g = Some g'"
  shows "same_conn g g'"
proof -
  have spx: "same_conn g (handle_spxlookup env req to g)" for req to
    by (auto simp: handle_spxlookup_def intro!: same_router_conn split: option.splits)
  have hosts: "same_conn g1 (g1\<lparr>g_hosts := h\<rparr>)" for g1 :: "('a, 'b, 'c) gstate_scheme" and h
    by (simp add: same_conn_def conn_of_def g_dosbox_def)
  have trans: "same_conn a b \<Longrightarrow> same_conn b c \<Longrightarrow> same_conn a c" for a b c :: "('a, 'b, 'c) gstate_scheme"
    by (simp add: same_conn_def)
  show ?thesis
    using assms unfolding handle_udp_recv_def Let_def
    by (auto split: if_splits option.splits prod.splits
        intro: spx allowed_interfaces_conn
        dest!: deliver_packet_same_router [THEN same_router_conn] allowed_interfaces_conn
        elim: trans [OF _ trans [OF hosts]])
qed

lemma deliver_ipx_at_conn: "deliver_ipx_at env buf off g = Some g' \<Longrightarrow> same_router g g'"
  by (auto simp: deliver_ipx_at_def Let_def dest!: deliver_packet_same_router split: if_splits)

lemma deliver_inner_conn:
  assumes "deliver_inner env buf end_off p g = Some g'"
  shows "same_router g g'"
  using assms
  by (rule deliver_inner.raw_induct [where P = "\<lambda>env buf e p g g'. same_router g g'", rotated])
    (auto split: if_splits option.splits dest: deliver_ipx_at_conn intro: same_router_trans)

lemma handle_dosbox_recv_conn: "handle_dosbox_recv env buf len g = Some g' \<Longrightarrow> same_router g g'"
  by (auto simp: handle_dosbox_recv_def Let_def split: if_splits option.splits bool.splits
      dest: deliver_ipx_at_conn deliver_inner_conn)

lemma handle_pcap_frame_conn: "handle_pcap_frame env iface frame g = Some g' \<Longrightarrow> same_router g g'"
  by (auto simp: handle_pcap_frame_def Let_def split: if_splits option.splits prod.splits
      dest: deliver_packet_same_router)

lemma registration_response_conn:
  "handle_dosbox_registration_response env buf len g = Some g' \<Longrightarrow>
     conn_of g' = (DOSBOX_CONNECTED, g_registration_retry_interval_ms g) \<and>
     ipx_encap_type (g_ifaces g') = ipx_encap_type (g_ifaces g)"
  by (auto simp: handle_dosbox_registration_response_def Let_def ipx_interfaces_reload_def conn_of_def
      g_dosbox_def set_dosbox_def dest!: renew_keeps split: option.splits)

lemma local_address_keeps:
  "ipv4_address_is_local senv now now' ip c = Some (l, c') \<Longrightarrow>
     ipx_encap_type c' = ipx_encap_type c \<and> dosbox c' = dosbox c"
  by (auto simp: ipv4_address_is_local_def dest!: renew_keeps split: if_splits option.splits)

lemma same_conn_ifaces:
  "ipx_encap_type c = ipx_encap_type (g_ifaces g) \<Longrightarrow> dosbox c = dosbox (g_ifaces g) \<Longrightarrow>
     same_conn (g\<lparr>g_ifaces := c\<rparr>) g' \<longleftrightarrow> same_conn g g'"
  by (simp add: same_conn_def conn_of_def g_dosbox_def)

lemma g_ifaces_counted [simp]: "g_ifaces (count_recv_udp n g) = g_ifaces g"
  by (simp add: count_recv_udp_def)

text \<open>A step of a handler: at most the acceptance of a registration.\<close>

lemma do_udp_recv_conn:
  assumes "do_udp_recv env r g = Some (status, g')"
  shows "conn_step\<^sup>*\<^sup>* (conn_of g) (conn_of g')"
proof (cases r)
  case (RecvErr e)
  with assms show ?thesis by simp
next
  case (RecvData addr len buf ok)
  have counted: "same_conn g (count_recv_udp len g)" by (intro same_router_conn) simp
  show ?thesis
  proof (cases "ipx_encap_type (g_ifaces g) = ENCAP_TYPE_DOSBOX \<and> dosbox_state (g_dosbox g) = DOSBOX_REGISTERING")
    case True
    then have "g' = count_recv_udp len g \<or>
        handle_dosbox_registration_response env buf len (count_recv_udp len g) = Some g'"
      using assms by (auto simp: RecvData Let_def g_dosbox_def count_recv_udp_def split: if_splits)
    with True counted conn_step.accepted [of "g_registration_retry_interval_ms g"] show ?thesis
      by (auto simp: same_conn_def conn_of_def count_recv_udp_def dest!: registration_response_conn)
  next
    case False
    then have "same_conn (count_recv_udp len g) g'"
      using assms
      by (auto simp: RecvData Let_def g_dosbox_def split: if_splits option.splits prod.splits dosbox_state.splits
          dest!: handle_udp_recv_conn handle_dosbox_recv_conn [THEN same_router_conn] local_address_keeps)
        (simp_all add: same_conn_ifaces, simp_all add: same_conn_def conn_of_def g_dosbox_def)
    with counted show ?thesis by (simp add: same_conn_def)
  qed
qed

lemma coalesce_flush_conn: "coalesce_flush cfg key g = Some g' \<Longrightarrow> same_router g g'"
  by (auto simp: coalesce_flush_def co_update_def udp_sendto_def count_send_udp_def Let_def same_router_def
      split: option.splits if_splits)

lemma coalesce_flush_waiting_conn: "coalesce_flush_waiting cfg now g = Some g' \<Longrightarrow> same_router g g'"
proof (induction cfg now g rule: coalesce_flush_waiting.induct)
  case (1 cfg now g)
  from "1.prems" show ?case
    by (subst (asm) coalesce_flush_waiting.simps)
      (auto split: list.splits option.splits if_splits
        intro: same_router_trans dest: coalesce_flush_conn "1.IH")
qed

lemma router_prepare_conn:
  "router_prepare env uticks ticks g = Some (w, g') \<Longrightarrow> same_router g g'"
  by (auto simp: router_prepare_def split: if_splits option.splits dest: coalesce_flush_waiting_conn)

lemma recv_loop_dosbox_conn:
  "recv_loop_dosbox env rx i n g = Some (status, g') \<Longrightarrow> conn_step\<^sup>*\<^sup>* (conn_of g) (conn_of g')"
  by (induction env rx i n g rule: recv_loop_dosbox.induct)
    (auto split: option.splits if_splits dest: do_udp_recv_conn intro: rtranclp_trans)

lemma recv_loop_ip_conn:
  "recv_loop_ip env rx i n g = Some (status, g') \<Longrightarrow> conn_step\<^sup>*\<^sup>* (conn_of g) (conn_of g')"
proof (induction env rx i n g arbitrary: status g' rule: recv_loop_ip.induct)
  case (2 env rx i n g)
  obtain s1 g1 where r1: "do_udp_recv env (rx (e_shared_socket env) i) g = Some (s1, g1)"
    using "2.prems" by (auto split: option.splits)
  obtain s2 g2 where r2: "do_udp_recv env (rx (e_private_socket env) i) g1 = Some (s2, g2)"
    using "2.prems" by (auto simp: r1 split: option.splits)
  have "conn_step\<^sup>*\<^sup>* (conn_of g) (conn_of g2)"
    using do_udp_recv_conn [OF r1] do_udp_recv_conn [OF r2] by (rule rtranclp_trans)
  moreover have "g' = g2 \<or> recv_loop_ip env rx (Suc i) n g2 = Some (status, g') \<and>
      \<not> (s1 < 0 \<or> s2 < 0) \<and> \<not> (s1 = 0 \<and> s2 = 0)"
    using "2.prems" by (auto simp: r1 r2 split: if_splits)
  ultimately show ?case
    using "2.IH" [OF r1 refl r2 refl] by (auto intro: rtranclp_trans)
qed simp

lemma pcap_frames_conn: "pcap_frames env i fs g = Some g' \<Longrightarrow> same_router g g'"
  by (induction env i fs g rule: pcap_frames.induct)
    (auto split: option.splits dest: handle_pcap_frame_conn intro: same_router_trans)

lemma pcap_loop_conn: "pcap_loop env frames is g = Some (ok, g') \<Longrightarrow> same_router g g'"
  by (induction env frames "is" g rule: pcap_loop.induct)
    (auto split: option.splits dest: pcap_frames_conn intro: same_router_trans)

lemma dosbox_connect_conn:
  "conn_step\<^sup>*\<^sup>* (conn_of g) (conn_of (dosbox_connect env ticks now host g))"
  by (auto simp: dosbox_connect_def conn_of_def set_dosbox_def g_dosbox_def split: option.splits
      intro: conn_step.resolved)

text \<open>A request that is due is sent even when the registration has just timed out.\<close>

lemma dosbox_register_conn:
  "conn_step\<^sup>*\<^sup>* (conn_of g) (conn_of (dosbox_register env now g))"
proof (cases "ipx_encap_type (g_ifaces g) = ENCAP_TYPE_DOSBOX \<and> dosbox_state (g_dosbox g) = DOSBOX_REGISTERING")
  case True
  let ?i = "g_registration_retry_interval_ms g"
  have "conn_of (dosbox_register env now g) =
      (if now \<ge> g_registration_timeout_at g then DOSBOX_DISCONNECTED else DOSBOX_REGISTERING,
       if now \<ge> g_next_registration_request_at g then backoff ?i else ?i)"
    using True by (simp add: dosbox_register_def conn_of_def set_dosbox_def g_dosbox_def backoff_def
        send_dosbox_registration_request_def udp_sendto_def Let_def)
  moreover have "conn_of g = (DOSBOX_REGISTERING, ?i)" using True by (simp add: conn_of_def)
  moreover have "conn_step\<^sup>*\<^sup>* (DOSBOX_REGISTERING, i) (DOSBOX_REGISTERING, backoff i)"
    "conn_step\<^sup>*\<^sup>* (DOSBOX_REGISTERING, i) (DOSBOX_DISCONNECTED, i)" for i
    by (auto intro: conn_step.intros)
  ultimately show ?thesis by (auto intro: rtranclp_trans)
qed (auto simp: dosbox_register_def)

lemma router_round_conn:
  fixes g g' :: "('w, 's, 'z) gstate_scheme"
  assumes "router_round env interfaces r exit_status g = Some (status, g')"
  shows "conn_step\<^sup>*\<^sup>* (conn_of g) (conn_of g')"
proof -
  let ?fin = "\<lambda>g1. dosbox_register env (r_ticks_register r)
    (dosbox_connect env (r_ticks_connect r) (r_ticks_resolved r) (r_host r) g1)"
  have finish: "conn_step\<^sup>*\<^sup>* c (conn_of (?fin g1))" if "conn_step\<^sup>*\<^sup>* c (conn_of g1)"
    for g1 :: "('w, 's, 'z) gstate_scheme" and c
    using that dosbox_connect_conn dosbox_register_conn by (meson rtranclp_trans)
  have same: "same_router a b \<Longrightarrow> conn_of b = conn_of a" for a b :: "('w, 's, 'z) gstate_scheme"
    using same_router_conn by (auto simp: same_conn_def)
  show ?thesis
    using assms unfolding router_round_def
    by (auto split: option.splits if_splits intro!: finish
        dest!: router_prepare_conn [THEN same] pcap_loop_conn [THEN same] recv_loop_dosbox_conn recv_loop_ip_conn)
qed


text \<open>A round in which nothing arrives and the name of the server is resolved.\<close>

definition quiet_round :: "u64 \<Rightarrow> round" where
  "quiet_round t =
     \<lparr>r_running = True, r_uticks = 1000 * t, r_ticks_wait = t, r_ticks_connect = t, r_ticks_resolved = t,
      r_ticks_register = t, r_rx = (\<lambda>fd i. RecvErr WSAEWOULDBLOCK), r_frames = (\<lambda>i. Some []),
      r_host = Some (addr32_in [10, 0, 0, 1])\<rparr>"

lemma quiet_round_connects:
  "\<exists>g'. router_round sample_genv [] (quiet_round 100) 0 (sample_g ENCAP_TYPE_DOSBOX DOSBOX_DISCONNECTED) =
     Some (Running 0, g') \<and> conn_of g' = (DOSBOX_REGISTERING, 500) \<and>
     datagrams g' = [(5, g_dosbox_server_addr g', registration_request)]"
proof -
  let ?g = "sample_g ENCAP_TYPE_DOSBOX DOSBOX_DISCONNECTED"
  have "coalesce_flush_waiting (coal_cfg sample_genv ?g) (r_uticks (quiet_round 100)) ?g = Some ?g"
    by (subst coalesce_flush_waiting.simps) (simp add: sample_g_simps)
  moreover have encap: "ipx_encap_type (g_ifaces ?g) = ENCAP_TYPE_DOSBOX"
    "ENCAP_TYPE_DOSBOX \<noteq> ENCAP_TYPE_PCAP"
    by (simp_all add: sample_g_simps ENCAP_TYPE_DOSBOX_def ENCAP_TYPE_PCAP_def)
  moreover have "recv_loop_dosbox sample_genv (r_rx (quiet_round 100)) 0 (Suc k) ?g = Some (0, ?g)" for k
    by (simp add: quiet_round_def)
  from this [of 49] have "recv_loop_dosbox sample_genv (r_rx (quiet_round 100)) 0 MAX_RECV_PER_LOOP ?g = Some (0, ?g)"
    by (simp add: MAX_RECV_PER_LOOP_def)
  ultimately have "router_round sample_genv [] (quiet_round 100) 0 ?g =
      Some (Running 0, dosbox_register sample_genv 100
        (dosbox_connect sample_genv 100 100 (Some (addr32_in [10, 0, 0, 1])) ?g))"
    by (simp add: router_round_def router_prepare_def quiet_round_def)
  moreover have "g_next_connection_attempt_at ?g = 0" "dosbox_state (g_dosbox ?g) = DOSBOX_DISCONNECTED"
    "e_private_socket sample_genv = 5" "datagrams ?g = []"
    by (simp_all add: sample_g_simps g_dosbox_def sample_genv_def datagrams_def)
  ultimately show ?thesis
    using encap(1)
    by (simp add: dosbox_connect_def dosbox_register_def send_dosbox_registration_request_def conn_of_def
        g_dosbox_def set_dosbox_def udp_sendto_def datagrams_def INITIAL_RETRY_INTERVAL_MS_def
        MAX_RETRY_INTERVAL_MS_def REGISTRATION_TIMEOUT_MS_def Let_def)
qed


text \<open>
  The states the thread can be in: it starts disconnected, and between its rounds the threads of
  the program change whatever they like but the connection.
\<close>

inductive router_reach :: "('w, 's) genv \<Rightarrow> ('w, 's, 'z) gstate_scheme \<Rightarrow> bool" for env where
  start: "dosbox_state (g_dosbox g) = DOSBOX_DISCONNECTED \<Longrightarrow> router_reach env g"
| round: "router_reach env g \<Longrightarrow> router_round env interfaces r exit_status g = Some (status, g') \<Longrightarrow>
    router_reach env g'"
| others: "router_reach env g \<Longrightarrow> conn_of g' = conn_of g \<Longrightarrow> router_reach env g'"

text \<open>
  In every state the thread can reach, however its rounds and the other threads interleave,
  the interval between two registration requests is one of 250 ms, 500 ms, 1 s, 2 s, 4 s and
  8 s whenever the program is registering, so the requests neither flood the server nor stop.
\<close>

theorem registration_interval_bounded:
  assumes "router_reach env g" and "dosbox_state (g_dosbox g) = DOSBOX_REGISTERING"
  shows "g_registration_retry_interval_ms g \<in> retry_intervals"
proof -
  have "conn_inv (conn_of g)"
    using assms(1)
  proof induction
    case (start g)
    then show ?case by (simp add: conn_inv_def conn_of_def)
  next
    case (round g interfaces r exit_status status g')
    then show ?case using router_round_conn conn_steps_inv by blast
  qed simp
  with assms(2) show ?thesis by (simp add: conn_inv_def conn_of_def)
qed

theorem registration_interval_bounded_witness:
  "\<exists>g'. conn_of (g' :: (unit, nat) gstate) = (DOSBOX_REGISTERING, 500) \<and>
     g_registration_retry_interval_ms g' \<in> retry_intervals"
proof -
  obtain g' where r: "router_round sample_genv [] (quiet_round 100) 0
      (sample_g ENCAP_TYPE_DOSBOX DOSBOX_DISCONNECTED) = Some (Running 0, g')"
    and g': "conn_of g' = (DOSBOX_REGISTERING, 500)"
    using quiet_round_connects by blast
  have "router_reach sample_genv (sample_g ENCAP_TYPE_DOSBOX DOSBOX_DISCONNECTED)"
    by (rule router_reach.start) (simp add: sample_g_simps g_dosbox_def)
  then have "router_reach sample_genv g'" using r by (rule router_reach.round)
  from registration_interval_bounded [OF this] g' show ?thesis
    by (intro exI [of _ g']) (simp add: conn_of_def)
qed

subsection \<open>Faults of the handlers\<close>

text \<open>
  Once a registration has timed out, a datagram that the server sends after all aborts the
  process: the code calls the branch unreachable, but the address of the server is kept and
  datagrams are read before the next attempt to connect.
\<close>

theorem late_reply_aborts:
  assumes "ipx_encap_type (g_ifaces g) = ENCAP_TYPE_DOSBOX"
    and "dosbox_state (g_dosbox g) = DOSBOX_REGISTERING" and "g_registration_timeout_at g \<le> now"
  shows "do_udp_recv env (RecvData (g_dosbox_server_addr g) len buf ok) (dosbox_register env now g) = None"
  using assms
  by (simp add: dosbox_register_def send_dosbox_registration_request_def g_dosbox_def set_dosbox_def
      udp_sendto_def count_recv_udp_def Let_def)

theorem late_reply_aborts_witness:
  "do_udp_recv sample_genv
     (RecvData (g_dosbox_server_addr (sample_g ENCAP_TYPE_DOSBOX DOSBOX_REGISTERING)) 30 (replicate 30 0) True)
     (dosbox_register sample_genv 30000 (sample_g ENCAP_TYPE_DOSBOX DOSBOX_REGISTERING)) = None"
  by (rule late_reply_aborts) (simp_all add: sample_g_simps g_dosbox_def)

text \<open>
  C39. A coalesced packet whose first inner packet claims the length zero keeps the router thread
  busy for ever: the check advances by that length. Any such packet from the server will do.
\<close>

theorem empty_inner_packet_hangs:
  assumes "2 * NOVELL_IPX_PACKET_SIZE \<le> len" and "len \<le> length buf"
    and "unat (ntohs (ipx_length buf)) = len"
    and "ipx_src_socket buf = 0" and "ipx_type buf = IPX_MAGIC_COALESCED"
    and "ipx_len_at buf NOVELL_IPX_PACKET_SIZE = 0"
  shows "handle_dosbox_recv env buf len g = None"
proof -
  have "b = buf \<longrightarrow> p = NOVELL_IPX_PACKET_SIZE \<longrightarrow> r = len - NOVELL_IPX_PACKET_SIZE \<longrightarrow> e = len \<longrightarrow> False"
    if "check_inner b r e p = Some x" for b r e p x
    using that
    by (rule check_inner.raw_induct
        [where P = "\<lambda>b r e p x. b = buf \<longrightarrow> p = NOVELL_IPX_PACKET_SIZE \<longrightarrow>
           r = len - NOVELL_IPX_PACKET_SIZE \<longrightarrow> e = len \<longrightarrow> False", rotated])
      (use assms(1,2,6) in \<open>auto simp: frame_sizes split: if_splits\<close>)
  then have "check_inner buf (len - NOVELL_IPX_PACKET_SIZE) len NOVELL_IPX_PACKET_SIZE \<noteq> Some x" for x
    by blast
  then have "check_inner buf (len - NOVELL_IPX_PACKET_SIZE) len NOVELL_IPX_PACKET_SIZE = None"
    using not_None_eq by blast
  with assms show ?thesis by (simp add: handle_dosbox_recv_def Let_def frame_sizes)
qed

theorem empty_inner_packet_hangs_witness:
  "handle_dosbox_recv sample_genv
     (novell_ipx_packet 0xFFFF (htons 60) 0 2 [0, 0, 0, 0] [0, 0, 0, 0, 0, 0] 0
        [0, 0, 0, 0] [0, 0, 0, 0, 0, 0] 0 (replicate 30 0)) 60
     (sample_g ENCAP_TYPE_DOSBOX DOSBOX_CONNECTED) = None"
proof (rule empty_inner_packet_hangs)
  let ?buf = "novell_ipx_packet 0xFFFF (htons 60) 0 2 [0, 0, 0, 0] [0, 0, 0, 0, 0, 0] 0
        [0, 0, 0, 0] [0, 0, 0, 0, 0, 0] 0 (replicate 30 0)"
  have "drop NOVELL_IPX_PACKET_SIZE ?buf = replicate 30 0"
    using novell_fields(11) [of "[0, 0, 0, 0]" "[0, 0, 0, 0, 0, 0]" "[0, 0, 0, 0]" "[0, 0, 0, 0, 0, 0]"]
    by (simp add: ipx_data_def frame_sizes)
  then show "ipx_len_at ?buf NOVELL_IPX_PACKET_SIZE = 0"
    by (simp add: ipx_len_at_def ipx_length_def slice_def numeral_nat le_word_def ntohs_def)
qed (simp_all add: layout_simps frame_sizes IPX_MAGIC_COALESCED_def)

text \<open>
  While the program is registering, \<^emph>\<open>any\<close> datagram from the server's address, even an empty
  one, completes the registration, although the code reports that it ignores an invalid
  response: the program's address is taken from whatever the receive buffer holds, and becomes its
  only interface.
\<close>

theorem any_reply_registers:
  assumes "ipx_encap_type (g_ifaces g) = ENCAP_TYPE_DOSBOX"
    and "dosbox_state (g_dosbox g) = DOSBOX_REGISTERING" and "\<And>n. env_mem (e_sys env) n"
  shows "\<exists>g'. do_udp_recv env (RecvData (g_dosbox_server_addr g) len buf ok) g = Some (1, g') \<and>
     dosbox_state (g_dosbox g') = DOSBOX_CONNECTED \<and> g_ready_event g' \<and>
     map (\<lambda>i. (if_net i, if_node i)) (interface_cache (g_ifaces g')) =
       [(addr32_in (ipx_dest_net buf), addr48_in (ipx_dest_node buf))]"
proof -
  have "ENCAP_TYPE_DOSBOX \<noteq> ENCAP_TYPE_PCAP" by (simp add: ENCAP_TYPE_DOSBOX_def ENCAP_TYPE_PCAP_def)
  with assms(1,2) show ?thesis
    by (simp add: handle_dosbox_registration_response_def ipx_interfaces_reload_def renew_interface_cache_def
        load_dosbox_interfaces_def new_iface_ok [OF assms(3)] set_dosbox_def g_dosbox_def with_sys_def
        count_recv_udp_def Let_def)
qed

theorem any_reply_registers_witness:
  "\<exists>g'. do_udp_recv sample_genv
       (RecvData (g_dosbox_server_addr (sample_g ENCAP_TYPE_DOSBOX DOSBOX_REGISTERING)) 0 (replicate 8219 0) True)
       (sample_g ENCAP_TYPE_DOSBOX DOSBOX_REGISTERING) = Some (1, g') \<and>
     dosbox_state (g_dosbox g') = DOSBOX_CONNECTED"
  using any_reply_registers [of "sample_g ENCAP_TYPE_DOSBOX DOSBOX_REGISTERING" sample_genv 0 "replicate 8219 0" True]
  by (auto simp: sample_g_simps g_dosbox_def sample_genv_def sample_env_def)


lemma sample_delivers:
  "deliver_to False ty sn sd ss (addr32_in [0, 0, 0, 1]) (addr48_in [2, 0, 0, 0, 0, 7]) (htons 0x5000) sample_socket"
proof -
  have "addr48_in [2, 0, 0, 0, 0, 7] \<noteq> BCAST_NODE" "addr32_in [0, 0, 0, 1] \<noteq> BCAST_NET"
    by code_simp+
  then show ?thesis by (simp add: deliver_to_def sample_socket_def flag_set_def ipx_flags)
qed


subsection \<open>Packets from the network\<close>

text \<open>
  The lookup of a listening SPX socket is answered exactly once: when a socket matches, one
  datagram goes back to the sender, with the request's address and the port of the first match
  in the table; when none does, nothing is sent. Nothing else changes.
\<close>

theorem spxlookup_answered_once:
  assumes "length req = SPXLOOKUP_REQ_SIZE" and "length dn = 4" and "length dd = 6" and "length sn = 4" and "length sd = 6"
  shows "\<exists>g'. handle_udp_recv env ok
             (ipx_packet IPX_MAGIC_SPXLOOKUP dn dd ds sn sd 0 (htons 32) req) src g = Some g' \<and>
           same_router g g' \<and>
           (case filter (\<lambda>(fd, s). spx_matches req s) (g_sockets g) of
              [] \<Rightarrow> datagrams g' = datagrams g
            | (fd, s) # _ \<Rightarrow> \<exists>reply. datagrams g' = datagrams g @ [(e_private_socket env, src, reply)] \<and>
                length reply = SPXLOOKUP_REQ_SIZE \<and> take 12 reply = take 12 req \<and>
                le_word (slice reply 12 2) = sk_port s)"
proof -
  let ?pkt = "ipx_packet IPX_MAGIC_SPXLOOKUP dn dd ds sn sd 0 (htons 32) req"
  have "handle_udp_recv env ok ?pkt src g = Some (handle_spxlookup env req src g)"
    using assms by (simp add: handle_udp_recv_def layout_simps pkt_sizes SPXLOOKUP_REQ_SIZE_def)
  moreover have "find P xs = (case filter P xs of [] \<Rightarrow> None | x # _ \<Rightarrow> Some x)" for P and xs :: "(nat \<times> ipx_socket) list"
    by (induction xs) auto
  moreover have "length (spxlookup_reply req port) = 32" "take 12 (spxlookup_reply req port) = take 12 req"
    "le_word (slice (spxlookup_reply req port) 12 2) = port" for port
    using assms(1) by (simp_all add: spxlookup_reply_def slice_def SPXLOOKUP_REQ_SIZE_def)
  ultimately show ?thesis
    by (auto simp: handle_spxlookup_def SPXLOOKUP_REQ_SIZE_def split: list.splits)
qed

definition listening_socket :: ipx_socket where
  "listening_socket = sample_socket\<lparr>sk_flags := IPX_IS_SPX OR IPX_LISTENING OR IPX_BOUND\<rparr>"

theorem spxlookup_answered_once_witness:
  "\<exists>g' reply. handle_udp_recv sample_genv True
       (ipx_packet IPX_MAGIC_SPXLOOKUP [0, 0, 0, 0] [0, 0, 0, 0, 0, 0] 0 [0, 0, 0, 0] [0, 0, 0, 0, 0, 0] 0 (htons 32)
         ([0, 0, 0, 0] @ [2, 0, 0, 0, 0, 7] @ le_bytes 2 (htons 0x5000) @ replicate 20 0)) (loopback_addr 7)
       (sample_g ENCAP_TYPE_IPXWRAPPER DOSBOX_DISCONNECTED\<lparr>g_sockets := [(7, sample_socket), (8, listening_socket)]\<rparr>) =
       Some g' \<and>
     datagrams g' = [(5, loopback_addr 7, reply)] \<and> le_word (slice reply 12 2) = htons 1234"
proof -
  let ?req = "[0, 0, 0, 0] @ [2, 0, 0, 0, 0, 7] @ le_bytes 2 (htons 0x5000) @ replicate 20 0"
  let ?g = "sample_g ENCAP_TYPE_IPXWRAPPER DOSBOX_DISCONNECTED\<lparr>g_sockets := [(7, sample_socket), (8, listening_socket)]\<rparr>"
  have "addr32_in [0, 0, 0, 0] = ZERO_NET" by code_simp
  moreover have "slice ?req 0 4 = [0, 0, 0, 0]" "slice ?req 4 6 = [2, 0, 0, 0, 0, 7]"
    "slice ?req 10 2 = le_bytes 2 (htons 0x5000)"
    by (simp_all add: slice_def)
  ultimately have "\<not> spx_matches ?req sample_socket" "spx_matches ?req listening_socket"
    by (simp_all add: spx_matches_def listening_socket_def sample_socket_def flag_set_def ipx_flags)
  then have "filter (\<lambda>(fd, s). spx_matches ?req s) (g_sockets ?g) = [(8, listening_socket)]" by simp
  moreover have "sk_port listening_socket = htons 1234" "e_private_socket sample_genv = 5" "datagrams ?g = []"
    by (simp_all add: listening_socket_def sample_socket_def sample_genv_def sample_g_simps datagrams_def)
  ultimately show ?thesis
    using spxlookup_answered_once [of ?req "[0, 0, 0, 0]" "[0, 0, 0, 0, 0, 0]" "[0, 0, 0, 0]" "[0, 0, 0, 0, 0, 0]"
        sample_genv True 0 "loopback_addr 7" ?g]
    by (fastforce simp: SPXLOOKUP_REQ_SIZE_def)
qed

text \<open>The interfaces on which a packet for a node is accepted, as a function of the cached list.\<close>

definition accepting :: "u32 \<Rightarrow> u64 \<Rightarrow> ipx_interface list \<Rightarrow> ipx_interface list" where
  "accepting net node L =
     (if node = BCAST_NODE then L
      else case find (\<lambda>i. if_net i = net \<and> if_node i = node) L of None \<Rightarrow> [] | Some i \<Rightarrow> [i])"

lemma allowed_interfaces_fresh:
  assumes mem: "\<And>n. env_mem (e_sys env) n"
    and fresh: "e_now env - interface_cache_ctime (g_ifaces g) \<le> INTERFACE_CACHE_TTL"
  shows "\<exists>c. allowed_interfaces env packet g =
    Some (accepting (addr32_in (pkt_dest_net packet)) (addr48_in (pkt_dest_node packet)) (interface_cache (g_ifaces g)),
          g\<lparr>g_ifaces := c\<rparr>)"
proof -
  let ?L = "interface_cache (g_ifaces g)"
  have r: "renew_interface_cache (e_sys env) (e_now env) (e_now' env) False (g_ifaces g) = Some (g_ifaces g)"
    using fresh by (intro renew_fresh) simp
  obtain st' where "copy_ifaces (e_sys env) ?L (sys_of (g_ifaces g)) = (Some ?L, st')"
    using copy_ifaces_ok [OF mem] by blast
  moreover have "\<exists>c. copy_found (e_sys env) f (g_ifaces g) = (f, c)" for f
    using copy_found_ok [OF mem, of f "g_ifaces g"] by (cases "copy_found (e_sys env) f (g_ifaces g)") auto
  then obtain c' where "copy_found (e_sys env)
      (find (\<lambda>i. if_net i = addr32_in (pkt_dest_net packet) \<and> if_node i = addr48_in (pkt_dest_node packet)) ?L)
      (g_ifaces g) = (find (\<lambda>i. if_net i = addr32_in (pkt_dest_net packet) \<and>
         if_node i = addr48_in (pkt_dest_node packet)) ?L, c')" by blast
  ultimately show ?thesis
    by (auto simp: allowed_interfaces_def accepting_def get_ipx_interfaces_def copy_ipx_interface_list_def
        ipx_interface_by_addr_def r)
qed

text \<open>
  C9. A packet from another instance is believed only when it comes from the right subnet. With a
  fresh interface cache and memory to be had, a packet is handled as follows: when the sender's IP
  address is in the subnet of an interface that may receive it (any interface for a broadcast,
  the addressed one otherwise), the sender's address is remembered for the packet's IPX source and
  the packet is relayed to precisely the sockets it is for; otherwise nothing is remembered or sent.
\<close>

theorem udp_packet_accepted:
  assumes mem: "\<And>n. env_mem (e_sys env) n"
    and fresh: "e_now env - interface_cache_ctime (g_ifaces g) \<le> INTERFACE_CACHE_TTL"
    and "length dn = 4" "length dd = 6" "length sn = 4" "length sd = 6"
    and "length pl \<le> MAX_DATA_SIZE" and "ss \<noteq> 0"
  shows "\<exists>g'. handle_udp_recv env True (ipx_packet ty dn dd ds sn sd ss (htons (of_nat (length pl))) pl) src g = Some g' \<and>
    (if \<exists>i \<in> set (accepting (addr32_in dn) (addr48_in dd) (interface_cache (g_ifaces g))).
          \<exists>a \<in> set (if_ips i). same_subnet (sin_addr src) a
     then addr_cache_get (e_now' env) (g_hosts g') (addr32_in sn) (addr48_in sd) ss =
            Some (sockaddr_in_bytes src, SOCKADDR_IN_SIZE) \<and>
          datagrams g' = datagrams g @
            map (\<lambda>(fd, s). (e_private_socket env, loopback_addr (sk_port s),
                   relay_packet ty (addr32_in sn) (addr48_in sd) ss (addr32_in dn) (addr48_in dd) ds pl))
              (filter (\<lambda>(fd, s). deliver_to (mc_w95_bug (e_config env)) ty (addr32_in sn) (addr48_in sd) ss
                         (addr32_in dn) (addr48_in dd) ds s \<and> e_pkt_mem env fd) (g_sockets g))
     else g_hosts g' = g_hosts g \<and> datagrams g' = datagrams g)"
proof -
  let ?pkt = "ipx_packet ty dn dd ds sn sd ss (htons (of_nat (length pl))) pl"
  let ?in = "\<exists>i \<in> set (accepting (addr32_in dn) (addr48_in dd) (interface_cache (g_ifaces g))).
          \<exists>a \<in> set (if_ips i). same_subnet (sin_addr src) a"
  obtain c where c: "allowed_interfaces env ?pkt g =
      Some (accepting (addr32_in dn) (addr48_in dd) (interface_cache (g_ifaces g)), g\<lparr>g_ifaces := c\<rparr>)"
    using allowed_interfaces_fresh [OF mem fresh, of ?pkt] assms(3-6) by (auto simp: layout_simps)
  obtain hosts old where h: "addr_cache_set True (e_now' env) (sockaddr_in_bytes src) SOCKADDR_IN_SIZE
      (addr32_in sn) (addr48_in sd) ss (g_hosts g) = Some hosts"
    and find: "host_table_find hosts = (host_table_find (g_hosts g))((addr32_in sn, addr48_in sd, ss) \<mapsto>
           old\<lparr>ht_addr := take SOCKADDR_IN_SIZE (sockaddr_in_bytes src) @ drop SOCKADDR_IN_SIZE (ht_addr old),
               ht_addrlen := SOCKADDR_IN_SIZE, ht_time := e_now' env\<rparr>)"
    by (rule addr_cache_set_Some [of SOCKADDR_IN_SIZE "sockaddr_in_bytes src" True "g_hosts g"
          "addr32_in sn" "addr48_in sd" ss "e_now' env"])
      (simp_all add: SOCKADDR_IN_SIZE_def SOCKADDR_STORAGE_SIZE_def)
  have get: "addr_cache_get (e_now' env) hosts (addr32_in sn) (addr48_in sd) ss =
      Some (sockaddr_in_bytes src, SOCKADDR_IN_SIZE)"
    by (simp add: addr_cache_get_def find ADDR_CACHE_TTL_def)
  let ?g1 = "g\<lparr>g_ifaces := c, g_hosts := hosts\<rparr>"
  have "unat (of_nat (length pl) :: u16) = length pl"
    using assms(7) by (intro unat_of_nat16) (simp add: pkt_sizes)
  then have e: "handle_udp_recv env True ?pkt src g =
      (if ?in then deliver_packet env ty (addr32_in sn) (addr48_in sd) ss (addr32_in dn) (addr48_in dd) ds (Some pl) ?g1
       else Some (g\<lparr>g_ifaces := c\<rparr>))"
    using assms(3-8) by (simp add: handle_udp_recv_def layout_simps c h list_ex_iff pkt_sizes Let_def)
  have "datagrams ?g1 = datagrams g" "g_sockets ?g1 = g_sockets g" "g_hosts ?g1 = hosts"
    by (simp_all add: datagrams_def)
  with e get deliver_loop_relays [of env ty "addr32_in sn" "addr48_in sd" ss "addr32_in dn" "addr48_in dd" ds pl
      "g_sockets ?g1" ?g1] show ?thesis
    by (auto simp: deliver_packet_def same_router_def datagrams_def)
qed

definition lan_g :: "(unit, nat) gstate" where
  "lan_g = (let g = sample_g ENCAP_TYPE_IPXWRAPPER DOSBOX_DISCONNECTED in
     g\<lparr>g_ifaces := (g_ifaces g)\<lparr>interface_cache :=
       [\<lparr>if_net = 1, if_node = 7, if_ips = [\<lparr>ip_ipaddr = 0x0101A8C0, ip_netmask = 0x00FFFFFF, ip_bcast = 0xFF01A8C0\<rparr>],
         if_mac = 0, if_pcap = 0\<rparr>]\<rparr>\<rparr>)"

theorem udp_packet_accepted_witness:
  "\<exists>g'. handle_udp_recv sample_genv True
       (ipx_packet 4 [0, 0, 0, 1] [0xFF, 0xFF, 0xFF, 0xFF, 0xFF, 0xFF] (htons 0x5000)
          [0, 0, 0, 1] [2, 0, 0, 0, 0, 9] (htons 0x4000) (htons (of_nat (length [1, 2 :: u8]))) [1, 2])
       \<lparr>sin_family = AF_INET, sin_port = htons 54792, sin_addr = 0x0701A8C0\<rparr> lan_g = Some g' \<and>
     addr_cache_get 105 (g_hosts g') (addr32_in [0, 0, 0, 1]) (addr48_in [2, 0, 0, 0, 0, 9]) (htons 0x4000) =
       Some (sockaddr_in_bytes \<lparr>sin_family = AF_INET, sin_port = htons 54792, sin_addr = 0x0701A8C0\<rparr>, 16)"
proof -
  let ?src = "\<lparr>sin_family = AF_INET, sin_port = htons 54792, sin_addr = 0x0701A8C0 :: u32\<rparr>"
  have "addr48_in [0xFF, 0xFF, 0xFF, 0xFF, 0xFF, 0xFF] = BCAST_NODE" by code_simp
  then have "\<exists>i \<in> set (accepting (addr32_in [0, 0, 0, 1]) (addr48_in [0xFF, 0xFF, 0xFF, 0xFF, 0xFF, 0xFF])
        (interface_cache (g_ifaces lan_g))). \<exists>a \<in> set (if_ips i). same_subnet (sin_addr ?src) a"
    by (simp add: accepting_def lan_g_def Let_def same_subnet_def)
  moreover have "\<And>n. env_mem (e_sys sample_genv) n" "e_now sample_genv = 105" "e_now' sample_genv = 105"
    "interface_cache_ctime (g_ifaces lan_g) = 100" "htons 0x4000 \<noteq> 0"
    by (simp_all add: sample_genv_def sample_env_def lan_g_def sample_g_simps Let_def htons_def)
  ultimately show ?thesis
    using udp_packet_accepted [of sample_genv lan_g "[0, 0, 0, 1]" "[0xFF, 0xFF, 0xFF, 0xFF, 0xFF, 0xFF]"
        "[0, 0, 0, 1]" "[2, 0, 0, 0, 0, 9]" "[1, 2]" "htons 0x4000" 4 "htons 0x5000" ?src]
    by (simp add: INTERFACE_CACHE_TTL_def pkt_sizes SOCKADDR_IN_SIZE_def) blast
qed

end
