(* ===== verification/RecvQueue.thy ===== *)
theory RecvQueue
  imports Net
begin

text \<open>
  The receive queue of an IPX socket (\<open>struct ipx_recv_queue\<close> in ipxwrapper.h and the parts of
  winsock.c that use it): 32 buffers, of which each is free, locked by a thread that receives
  into it, or holds a packet and is listed in the order of arrival. The operations are the pieces of
  \<open>recv_pump\<close> and \<open>recv_packet\<close> that run under the sockets lock; between them other threads run.
\<close>

definition RECV_QUEUE_MAX_PACKETS :: nat where "RECV_QUEUE_MAX_PACKETS = 32"
definition IPX_RECV_QUEUE_FREE :: int where "IPX_RECV_QUEUE_FREE = -1"
definition IPX_RECV_QUEUE_LOCKED :: int where "IPX_RECV_QUEUE_LOCKED = -2"

lemmas rq_consts = RECV_QUEUE_MAX_PACKETS_def IPX_RECV_QUEUE_FREE_def IPX_RECV_QUEUE_LOCKED_def

record recv_queue =
  rq_refcount :: int
  rq_ready :: "nat list"
  rq_n_ready :: nat
  rq_data :: "bytes list"
  rq_sizes :: "int list"

definition recv_queue_adjust_refcount :: "int \<Rightarrow> recv_queue \<Rightarrow> recv_queue" where
  "recv_queue_adjust_refcount adj q = q\<lparr>rq_refcount := rq_refcount q + adj\<rparr>"

text \<open>\<open>None\<close>: the queue is freed.\<close>

definition release_recv_queue :: "recv_queue \<Rightarrow> recv_queue option" where
  "release_recv_queue q =
     (let q = recv_queue_adjust_refcount (-1) q in if rq_refcount q = 0 then None else Some q)"

text \<open>A new queue; the arrays \<open>ready\<close> and \<open>data\<close> hold whatever the memory held.\<close>

definition new_recv_queue :: "nat list \<Rightarrow> bytes list \<Rightarrow> recv_queue" where
  "new_recv_queue ready dat =
     \<lparr>rq_refcount = 1, rq_ready = ready, rq_n_ready = 0, rq_data = dat,
      rq_sizes = replicate RECV_QUEUE_MAX_PACKETS IPX_RECV_QUEUE_FREE\<rparr>"

definition recv_queue_claim :: "recv_queue \<Rightarrow> (nat \<times> recv_queue) option" where
  "recv_queue_claim q =
     (case find (\<lambda>i. rq_sizes q ! i = IPX_RECV_QUEUE_FREE) [0..<RECV_QUEUE_MAX_PACKETS] of
        None \<Rightarrow> None
      | Some i \<Rightarrow>
          Some (i, recv_queue_adjust_refcount 1 (q\<lparr>rq_sizes := (rq_sizes q)[i := IPX_RECV_QUEUE_LOCKED]\<rparr>)))"

text \<open>What \<open>recv\<close> writes into the buffer of a claimed slot.\<close>

definition recv_queue_fill :: "nat \<Rightarrow> bytes \<Rightarrow> recv_queue \<Rightarrow> recv_queue" where
  "recv_queue_fill slot dat q =
     q\<lparr>rq_data := (rq_data q)[slot := dat @ drop (length dat) (rq_data q ! slot)]\<rparr>"

definition recv_queue_abort :: "nat \<Rightarrow> recv_queue \<Rightarrow> recv_queue" where
  "recv_queue_abort slot q = q\<lparr>rq_sizes := (rq_sizes q)[slot := IPX_RECV_QUEUE_FREE]\<rparr>"

text \<open>\<open>None\<close>: the slot number is written behind the end of \<open>ready\<close>.\<close>

definition recv_queue_commit :: "nat \<Rightarrow> nat \<Rightarrow> recv_queue \<Rightarrow> recv_queue option" where
  "recv_queue_commit slot r q =
     (if \<not> rq_n_ready q < RECV_QUEUE_MAX_PACKETS then None
      else
        Some (q\<lparr>rq_sizes := (rq_sizes q)[slot := int r],
                rq_ready := (rq_ready q)[rq_n_ready q := slot],
                rq_n_ready := rq_n_ready q + 1\<rparr>))"

definition recv_queue_front :: "recv_queue \<Rightarrow> nat" where
  "recv_queue_front q = rq_ready q ! 0"

text \<open>Releasing the first packet: \<open>memmove\<close> of the entries behind it.\<close>

definition recv_queue_pop :: "recv_queue \<Rightarrow> recv_queue" where
  "recv_queue_pop q =
     (let slot = recv_queue_front q; n = rq_n_ready q - 1
      in q\<lparr>rq_sizes := (rq_sizes q)[slot := IPX_RECV_QUEUE_FREE],
           rq_n_ready := n,
           rq_ready := take n (drop 1 (rq_ready q)) @ drop n (rq_ready q)\<rparr>)"

subsection \<open>Contract\<close>

definition rq_slots :: "recv_queue \<Rightarrow> nat list" where
  "rq_slots q = take (rq_n_ready q) (rq_ready q)"

definition rq_locked :: "recv_queue \<Rightarrow> nat set" where
  "rq_locked q = {s. s < RECV_QUEUE_MAX_PACKETS \<and> rq_sizes q ! s = IPX_RECV_QUEUE_LOCKED}"

definition rq_content :: "recv_queue \<Rightarrow> bytes list" where
  "rq_content q = map (\<lambda>s. take (nat (rq_sizes q ! s)) (rq_data q ! s)) (rq_slots q)"

text \<open>Every buffer is free, locked, or listed exactly once.\<close>

definition rq_inv :: "recv_queue \<Rightarrow> bool" where
  "rq_inv q \<longleftrightarrow>
     length (rq_sizes q) = RECV_QUEUE_MAX_PACKETS \<and> length (rq_ready q) = RECV_QUEUE_MAX_PACKETS \<and>
     length (rq_data q) = RECV_QUEUE_MAX_PACKETS \<and> (\<forall>d \<in> set (rq_data q). length d = MAX_PKT_SIZE) \<and>
     rq_n_ready q \<le> RECV_QUEUE_MAX_PACKETS \<and> distinct (rq_slots q) \<and>
     set (rq_slots q) = {s. s < RECV_QUEUE_MAX_PACKETS \<and> 0 \<le> rq_sizes q ! s} \<and>
     (\<forall>s < RECV_QUEUE_MAX_PACKETS. rq_sizes q ! s = IPX_RECV_QUEUE_FREE \<or>
        rq_sizes q ! s = IPX_RECV_QUEUE_LOCKED \<or> 0 \<le> rq_sizes q ! s \<and> rq_sizes q ! s \<le> int MAX_PKT_SIZE)"

text \<open>
  What the receive functions rely on: a bounded first-in first-out queue of packets, into which a
  packet goes in two steps, so that several threads can be receiving at a time.
\<close>

locale packet_queue =
  fixes inv :: "'q \<Rightarrow> bool" and content :: "'q \<Rightarrow> bytes list" and locked :: "'q \<Rightarrow> nat set"
    and claim :: "'q \<Rightarrow> (nat \<times> 'q) option" and fill :: "nat \<Rightarrow> bytes \<Rightarrow> 'q \<Rightarrow> 'q"
    and commit :: "nat \<Rightarrow> nat \<Rightarrow> 'q \<Rightarrow> 'q option" and abort :: "nat \<Rightarrow> 'q \<Rightarrow> 'q"
    and pop :: "'q \<Rightarrow> 'q" and buffer :: "'q \<Rightarrow> nat \<Rightarrow> bytes" and max_size :: nat
  assumes claim: "inv q \<Longrightarrow> claim q = Some (s, q') \<Longrightarrow>
      inv q' \<and> content q' = content q \<and> s \<notin> locked q \<and> locked q' = insert s (locked q)"
    and fill: "inv q \<Longrightarrow> s \<in> locked q \<Longrightarrow> length d \<le> max_size \<Longrightarrow>
      inv (fill s d q) \<and> content (fill s d q) = content q \<and> locked (fill s d q) = locked q \<and>
      take (length d) (buffer (fill s d q) s) = d"
    and commit: "inv q \<Longrightarrow> s \<in> locked q \<Longrightarrow> r \<le> max_size \<Longrightarrow>
      \<exists>q'. commit s r q = Some q' \<and> inv q' \<and> content q' = content q @ [take r (buffer q s)] \<and>
        locked q' = locked q - {s}"
    and abort: "inv q \<Longrightarrow> s \<in> locked q \<Longrightarrow>
      inv (abort s q) \<and> content (abort s q) = content q \<and> locked (abort s q) = locked q - {s}"
    and pop: "inv q \<Longrightarrow> content q = d # ds \<Longrightarrow>
      inv (pop q) \<and> content (pop q) = ds \<and> locked (pop q) = locked q"
begin

text \<open>A packet received into a slot ends up behind everything that is queued.\<close>

lemma receive:
  assumes "inv q" and "claim q = Some (s, q1)" and "length d \<le> max_size"
  shows "\<exists>q2. commit s (length d) (fill s d q1) = Some q2 \<and> inv q2 \<and> content q2 = content q @ [d] \<and>
           locked q2 = locked q"
proof -
  have q1: "inv q1" "content q1 = content q" "s \<notin> locked q" "locked q1 = insert s (locked q)"
    using claim [OF assms(1,2)] by blast+
  then have f: "inv (fill s d q1)" "content (fill s d q1) = content q" "locked (fill s d q1) = insert s (locked q)"
      "take (length d) (buffer (fill s d q1) s) = d"
    using fill [OF q1(1), of s d] assms(3) by auto
  with commit [OF f(1), of s "length d"] assms(3) q1(3) show ?thesis by auto
qed

text \<open>A failed receive leaves the queue as it was.\<close>

lemma receive_failed:
  assumes "inv q" and "claim q = Some (s, q1)"
  shows "inv (abort s q1) \<and> content (abort s q1) = content q \<and> locked (abort s q1) = locked q"
  using claim [OF assms] abort [of q1 s] by auto

end

subsection \<open>The model keeps the contract\<close>

lemma map_other: "s \<notin> set xs \<Longrightarrow> (\<And>x. x \<noteq> s \<Longrightarrow> f x = g x) \<Longrightarrow> map f xs = map g xs"
  by (metis map_eq_conv)

lemma rq_content_other:
  assumes "rq_slots q' = rq_slots q" and "s \<notin> set (rq_slots q)"
    and "\<And>x. x \<noteq> s \<Longrightarrow> rq_sizes q' ! x = rq_sizes q ! x \<and> rq_data q' ! x = rq_data q ! x"
  shows "rq_content q' = rq_content q"
  unfolding rq_content_def assms(1) by (rule map_other [OF assms(2)]) (simp add: assms(3))

lemma rq_claim:
  assumes "rq_inv q" and "recv_queue_claim q = Some (s, q')"
  shows "rq_inv q' \<and> rq_content q' = rq_content q \<and> s \<notin> rq_locked q \<and> rq_locked q' = insert s (rq_locked q)"
proof -
  obtain i where f: "find (\<lambda>i. rq_sizes q ! i = IPX_RECV_QUEUE_FREE) [0..<RECV_QUEUE_MAX_PACKETS] = Some i"
    using assms(2) by (auto simp: recv_queue_claim_def split: option.splits)
  have i: "i < RECV_QUEUE_MAX_PACKETS" "rq_sizes q ! i = IPX_RECV_QUEUE_FREE"
    using f by (auto simp: find_Some_iff)
  have q': "s = i" "q' = recv_queue_adjust_refcount 1 (q\<lparr>rq_sizes := (rq_sizes q)[i := IPX_RECV_QUEUE_LOCKED]\<rparr>)"
    using assms(2) f by (auto simp: recv_queue_claim_def)
  have slots: "rq_slots q' = rq_slots q" by (simp add: q' rq_slots_def recv_queue_adjust_refcount_def)
  have len: "length (rq_sizes q) = RECV_QUEUE_MAX_PACKETS" using assms(1) by (simp add: rq_inv_def)
  have sz: "rq_sizes q' ! k = (if k = i then IPX_RECV_QUEUE_LOCKED else rq_sizes q ! k)" if "k < RECV_QUEUE_MAX_PACKETS" for k
    using that len by (simp add: q' recv_queue_adjust_refcount_def nth_list_update)
  have "i \<notin> set (rq_slots q)" using assms(1) i by (simp add: rq_inv_def rq_consts)
  then have "rq_content q' = rq_content q"
    by (rule rq_content_other [OF slots]) (simp add: q' recv_queue_adjust_refcount_def)
  moreover have "rq_inv q'"
    using assms(1) i unfolding rq_inv_def slots
    by (auto simp: q' recv_queue_adjust_refcount_def rq_consts nth_list_update split: if_splits)
  moreover have "rq_locked q' = insert s (rq_locked q)" "s \<notin> rq_locked q"
    using i by (auto simp: rq_locked_def sz q'(1) rq_consts)
  ultimately show ?thesis by blast
qed

lemma rq_fill:
  assumes "rq_inv q" and "s \<in> rq_locked q" and "length d \<le> MAX_PKT_SIZE"
  shows "rq_inv (recv_queue_fill s d q) \<and> rq_content (recv_queue_fill s d q) = rq_content q \<and>
    rq_locked (recv_queue_fill s d q) = rq_locked q \<and> take (length d) (rq_data (recv_queue_fill s d q) ! s) = d"
proof -
  let ?q = "recv_queue_fill s d q"
  have s: "s < RECV_QUEUE_MAX_PACKETS" "rq_sizes q ! s = IPX_RECV_QUEUE_LOCKED"
    using assms(2) by (auto simp: rq_locked_def)
  have same: "rq_slots ?q = rq_slots q" "rq_locked ?q = rq_locked q" "rq_sizes ?q = rq_sizes q"
    by (simp_all add: recv_queue_fill_def rq_slots_def rq_locked_def)
  have "s \<notin> set (rq_slots q)" using assms(1) s by (simp add: rq_inv_def rq_consts)
  then have "rq_content ?q = rq_content q"
    by (rule rq_content_other [OF same(1)]) (simp add: recv_queue_fill_def)
  moreover have len: "length (rq_data q) = RECV_QUEUE_MAX_PACKETS" "length (rq_data q ! s) = MAX_PKT_SIZE"
    using assms(1) s by (simp_all add: rq_inv_def)
  then have "rq_inv ?q"
    using assms(1,3) unfolding rq_inv_def same
    by (auto simp: recv_queue_fill_def dest!: set_update_subset_insert [THEN subsetD])
  moreover have "take (length d) (rq_data ?q ! s) = d"
    using s(1) len(1) by (simp add: recv_queue_fill_def)
  ultimately show ?thesis using same by blast
qed

lemma rq_abort:
  assumes "rq_inv q" and "s \<in> rq_locked q"
  shows "rq_inv (recv_queue_abort s q) \<and> rq_content (recv_queue_abort s q) = rq_content q \<and>
    rq_locked (recv_queue_abort s q) = rq_locked q - {s}"
proof -
  let ?q = "recv_queue_abort s q"
  have s: "s < RECV_QUEUE_MAX_PACKETS" "rq_sizes q ! s = IPX_RECV_QUEUE_LOCKED"
    using assms(2) by (auto simp: rq_locked_def)
  have slots: "rq_slots ?q = rq_slots q" by (simp add: recv_queue_abort_def rq_slots_def)
  have sz: "rq_sizes ?q ! k = (if k = s then IPX_RECV_QUEUE_FREE else rq_sizes q ! k)" if "k < RECV_QUEUE_MAX_PACKETS" for k
    using that assms(1) by (simp add: recv_queue_abort_def nth_list_update rq_inv_def)
  have "s \<notin> set (rq_slots q)" using assms(1) s by (simp add: rq_inv_def rq_consts)
  then have "rq_content ?q = rq_content q"
    by (rule rq_content_other [OF slots]) (simp add: recv_queue_abort_def)
  moreover have "rq_inv ?q"
    using assms(1) s unfolding rq_inv_def slots
    by (auto simp: recv_queue_abort_def rq_consts nth_list_update split: if_splits)
  moreover have "rq_locked ?q = rq_locked q - {s}"
    by (auto simp: rq_locked_def sz rq_consts split: if_splits)
  ultimately show ?thesis by blast
qed

lemma rq_commit:
  assumes "rq_inv q" and "s \<in> rq_locked q" and "r \<le> MAX_PKT_SIZE"
  shows "\<exists>q'. recv_queue_commit s r q = Some q' \<and> rq_inv q' \<and>
    rq_content q' = rq_content q @ [take r (rq_data q ! s)] \<and> rq_locked q' = rq_locked q - {s}"
proof -
  have s: "s < RECV_QUEUE_MAX_PACKETS" "rq_sizes q ! s = IPX_RECV_QUEUE_LOCKED"
    using assms(2) by (auto simp: rq_locked_def)
  have new: "s \<notin> set (rq_slots q)" using assms(1) s by (simp add: rq_inv_def rq_consts)
  have len: "length (rq_slots q) = rq_n_ready q" using assms(1) by (simp add: rq_inv_def rq_slots_def)
  have "insert s (set (rq_slots q)) \<subseteq> {..<RECV_QUEUE_MAX_PACKETS}" using assms(1) s by (auto simp: rq_inv_def)
  then have "card (insert s (set (rq_slots q))) \<le> RECV_QUEUE_MAX_PACKETS"
    by (metis card_lessThan card_mono finite_lessThan)
  then have room: "rq_n_ready q < RECV_QUEUE_MAX_PACKETS"
  proof -
    have "card (set (rq_slots q)) = rq_n_ready q"
      using assms(1) len distinct_card [of "rq_slots q"] by (simp only: rq_inv_def)
    then show ?thesis using \<open>card _ \<le> _\<close> new by simp
  qed
  define q' where "q' = q\<lparr>rq_sizes := (rq_sizes q)[s := int r],
      rq_ready := (rq_ready q)[rq_n_ready q := s], rq_n_ready := rq_n_ready q + 1\<rparr>"
  have c: "recv_queue_commit s r q = Some q'" using room by (simp add: recv_queue_commit_def q'_def)
  have slots: "rq_slots q' = rq_slots q @ [s]"
    using room assms(1) by (simp add: rq_slots_def q'_def rq_inv_def take_Suc_conv_app_nth)
  have sz: "rq_sizes q' ! k = (if k = s then int r else rq_sizes q ! k)" if "k < RECV_QUEUE_MAX_PACKETS" for k
    using that assms(1) by (simp add: q'_def nth_list_update rq_inv_def)
  have "map (\<lambda>s. take (nat (rq_sizes q' ! s)) (rq_data q' ! s)) (rq_slots q) = rq_content q"
    unfolding rq_content_def by (rule map_other [OF new]) (simp add: q'_def)
  then have "rq_content q' = rq_content q @ [take r (rq_data q ! s)]"
    using s by (simp add: rq_content_def [of q'] slots sz) (simp add: q'_def)
  moreover have "rq_inv q'"
    using assms(1,3) s new room unfolding rq_inv_def slots
    by (auto simp: q'_def rq_consts nth_list_update split: if_splits)
  moreover have "rq_locked q' = rq_locked q - {s}"
    by (auto simp: rq_locked_def sz rq_consts split: if_splits)
  ultimately show ?thesis using c by blast
qed

lemma rq_pop:
  assumes "rq_inv q" and "rq_content q = d # ds"
  shows "rq_inv (recv_queue_pop q) \<and> rq_content (recv_queue_pop q) = ds \<and>
    rq_locked (recv_queue_pop q) = rq_locked q"
proof -
  let ?q = "recv_queue_pop q" and ?s = "recv_queue_front q"
  have n: "0 < rq_n_ready q" using assms(2) by (cases "rq_n_ready q") (auto simp: rq_content_def rq_slots_def)
  have ready: "rq_ready q \<noteq> []" using assms(1) by (auto simp: rq_inv_def rq_consts)
  obtain rest where slots: "rq_slots q = ?s # rest"
    using n ready by (cases "rq_ready q"; cases "rq_n_ready q") (auto simp: rq_slots_def recv_queue_front_def)
  have slots': "rq_slots ?q = rest"
  proof -
    have "take (rq_n_ready q - 1) (drop 1 (rq_ready q)) = rest"
      using slots n by (cases "rq_ready q"; cases "rq_n_ready q") (auto simp: rq_slots_def)
    moreover have "length rest = rq_n_ready q - 1"
      using slots assms(1) by (metis length_Cons length_take min.absorb2 rq_inv_def rq_slots_def diff_Suc_1)
    ultimately show ?thesis by (simp add: rq_slots_def recv_queue_pop_def Let_def)
  qed
  have s: "?s < RECV_QUEUE_MAX_PACKETS" "?s \<notin> set rest" "0 \<le> rq_sizes q ! ?s"
    using assms(1) slots by (auto simp: rq_inv_def)
  have sz: "rq_sizes ?q ! k = (if k = ?s then IPX_RECV_QUEUE_FREE else rq_sizes q ! k)" if "k < RECV_QUEUE_MAX_PACKETS" for k
    using that assms(1) by (simp add: recv_queue_pop_def Let_def nth_list_update rq_inv_def)
  have "rq_content ?q = map (\<lambda>s. take (nat (rq_sizes q ! s)) (rq_data q ! s)) rest"
    unfolding rq_content_def slots' by (rule map_other [OF s(2)]) (simp add: recv_queue_pop_def Let_def)
  then have "rq_content ?q = ds" using assms(2) by (simp add: rq_content_def slots)
  moreover have "rq_locked ?q = rq_locked q"
    using s(3) by (auto simp: rq_locked_def sz rq_consts split: if_splits)
  moreover have "rq_inv ?q"
  proof -
    have "set (?s # rest) = {k. k < RECV_QUEUE_MAX_PACKETS \<and> 0 \<le> rq_sizes q ! k}"
      using assms(1) unfolding rq_inv_def slots by blast
    then have "set rest = {k. k < RECV_QUEUE_MAX_PACKETS \<and> 0 \<le> rq_sizes q ! k} - {?s}"
      using s(2) by auto
    also have "\<dots> = {k. k < RECV_QUEUE_MAX_PACKETS \<and> 0 \<le> rq_sizes ?q ! k}"
      by (auto simp: sz IPX_RECV_QUEUE_FREE_def split: if_splits)
    finally have "set rest = {k. k < RECV_QUEUE_MAX_PACKETS \<and> 0 \<le> rq_sizes ?q ! k}" .
    moreover have "distinct rest" using assms(1) slots by (simp add: rq_inv_def)
    moreover have "length (rq_ready ?q) = RECV_QUEUE_MAX_PACKETS" "length (rq_sizes ?q) = RECV_QUEUE_MAX_PACKETS"
      "rq_data ?q = rq_data q" "rq_n_ready ?q \<le> RECV_QUEUE_MAX_PACKETS"
      using assms(1) n by (auto simp: recv_queue_pop_def Let_def rq_inv_def)
    ultimately show ?thesis
      using assms(1) unfolding rq_inv_def slots' by (auto simp: sz)
  qed
  ultimately show ?thesis by blast
qed

interpretation rq: packet_queue rq_inv rq_content rq_locked recv_queue_claim recv_queue_fill recv_queue_commit
  recv_queue_abort recv_queue_pop "\<lambda>q s. rq_data q ! s" MAX_PKT_SIZE
  by unfold_locales (fact rq_claim rq_fill rq_commit rq_abort rq_pop)+

subsection \<open>Interleavings\<close>

text \<open>
  What the threads of the program do to one queue, each step under the sockets lock but for the
  receive itself: \<open>Claimed\<close> before a \<open>recv\<close>, \<open>Filled\<close> by it, \<open>Arrived\<close> after one that
  succeeded, \<open>Failed\<close> after one that did not, \<open>Taken\<close> when the application reads.
\<close>

datatype rq_event = Claimed nat | Filled nat bytes | Arrived nat bytes | Failed nat | Taken bytes

inductive rq_step :: "recv_queue \<Rightarrow> rq_event \<Rightarrow> recv_queue \<Rightarrow> bool" where
  claim: "recv_queue_claim q = Some (s, q') \<Longrightarrow> rq_step q (Claimed s) q'"
| fill: "s \<in> rq_locked q \<Longrightarrow> length d \<le> MAX_PKT_SIZE \<Longrightarrow> rq_step q (Filled s d) (recv_queue_fill s d q)"
| arrive: "s \<in> rq_locked q \<Longrightarrow> r \<le> MAX_PKT_SIZE \<Longrightarrow> recv_queue_commit s r q = Some q' \<Longrightarrow>
    rq_step q (Arrived s (take r (rq_data q ! s))) q'"
| fail: "s \<in> rq_locked q \<Longrightarrow> release_recv_queue (recv_queue_abort s q) = Some q' \<Longrightarrow> rq_step q (Failed s) q'"
| take: "rq_content q = d # ds \<Longrightarrow> rq_step q (Taken d) (recv_queue_pop q)"

inductive rq_run :: "recv_queue \<Rightarrow> rq_event list \<Rightarrow> recv_queue \<Rightarrow> bool" where
  start: "rq_run q [] q"
| step: "rq_run q es q' \<Longrightarrow> rq_step q' e q'' \<Longrightarrow> rq_run q (es @ [e]) q''"

inductive_cases rq_stepE: "rq_step q e q'"

fun arrived :: "rq_event list \<Rightarrow> bytes list" where
  "arrived [] = []"
| "arrived (Arrived s d # es) = d # arrived es"
| "arrived (e # es) = arrived es"

fun taken :: "rq_event list \<Rightarrow> bytes list" where
  "taken [] = []"
| "taken (Taken d # es) = d # taken es"
| "taken (e # es) = taken es"

lemma arrived_append [simp]: "arrived (es @ es') = arrived es @ arrived es'"
  by (induction es rule: arrived.induct) simp_all

lemma taken_append [simp]: "taken (es @ es') = taken es @ taken es'"
  by (induction es rule: taken.induct) simp_all

lemma rq_inv_refcount [simp]:
  "rq_inv (q\<lparr>rq_refcount := n\<rparr>) = rq_inv q" "rq_content (q\<lparr>rq_refcount := n\<rparr>) = rq_content q"
  "rq_locked (q\<lparr>rq_refcount := n\<rparr>) = rq_locked q"
  by (simp_all add: rq_inv_def rq_content_def rq_locked_def rq_slots_def)

lemma release_keeps:
  "release_recv_queue q = Some q' \<Longrightarrow> q' = q\<lparr>rq_refcount := rq_refcount q - 1\<rparr>"
  by (auto simp: release_recv_queue_def recv_queue_adjust_refcount_def Let_def split: if_splits)

lemma rq_step_fifo:
  assumes "rq_step q e q'" and "rq_inv q"
  shows "rq_inv q' \<and> rq_content q @ arrived [e] = taken [e] @ rq_content q'"
  using assms
proof cases
  case (claim s)
  with rq.claim [OF assms(2)] show ?thesis by simp
next
  case (fill s d)
  with rq.fill [OF assms(2)] show ?thesis by simp
next
  case (arrive s r)
  with rq.commit [OF assms(2), of s r] show ?thesis by auto
next
  case (fail s)
  with rq.abort [OF assms(2) fail(2)] show ?thesis
    unfolding release_keeps [OF fail(3)] fail(1) by (simp only: rq_inv_refcount arrived.simps taken.simps append_Nil append_Nil2 simp_thms)
next
  case (take d ds)
  with rq.pop [OF assms(2), of d ds] show ?thesis by simp
qed

lemma new_recv_queue_inv:
  assumes "length ready = RECV_QUEUE_MAX_PACKETS" and "length dat = RECV_QUEUE_MAX_PACKETS"
    and "\<forall>d \<in> set dat. length d = MAX_PKT_SIZE"
  shows "rq_inv (new_recv_queue ready dat)" "rq_content (new_recv_queue ready dat) = []"
    "rq_locked (new_recv_queue ready dat) = {}"
  using assms by (auto simp: rq_inv_def rq_content_def rq_slots_def rq_locked_def new_recv_queue_def rq_consts)

lemma rq_run_fifo:
  "rq_run q0 es q \<Longrightarrow> rq_inv q0 \<Longrightarrow> rq_inv q \<and> rq_content q0 @ arrived es = taken es @ rq_content q"
proof (induction rule: rq_run.induct)
  case (step q es q' e q'')
  from step.IH [OF step.prems] have inv: "rq_inv q'"
    and IH: "rq_content q @ arrived es = taken es @ rq_content q'" by (simp_all only:)
  from rq_step_fifo [OF step.hyps(2) inv]
  have q'': "rq_inv q''" "rq_content q' @ arrived [e] = taken [e] @ rq_content q''" by blast+
  have "rq_content q @ arrived (es @ [e]) = taken es @ (rq_content q' @ arrived [e])"
    unfolding arrived_append append_assoc [symmetric] IH ..
  then have "rq_content q @ arrived (es @ [e]) = taken (es @ [e]) @ rq_content q''"
    unfolding q''(2) taken_append by simp
  with q''(1) show ?case by blast
qed simp

text \<open>
  C5. However the threads of a program interleave their receives and reads, the receive queue of
  a socket delivers the packets in the order in which they arrived, each exactly once and with the
  bytes that were received, and every buffer is at any time free, owned by one receiving thread, or
  listed once; what was read and what is still queued make up what has arrived.
\<close>

theorem recv_queue_fifo:
  assumes "rq_run (new_recv_queue ready dat) es q"
    and "length ready = RECV_QUEUE_MAX_PACKETS" and "length dat = RECV_QUEUE_MAX_PACKETS"
    and "\<forall>d \<in> set dat. length d = MAX_PKT_SIZE"
  shows "rq_inv q \<and> arrived es = taken es @ rq_content q"
  using rq_run_fifo [OF assms(1)] new_recv_queue_inv [OF assms(2-4)] by simp

text \<open>A run with one packet received and read.\<close>

definition sample_rq :: recv_queue where
  "sample_rq = new_recv_queue (replicate 32 0) (replicate 32 (replicate MAX_PKT_SIZE 0))"

lemma sample_rq_claim:
  "recv_queue_claim sample_rq = Some (0, recv_queue_adjust_refcount 1
     (sample_rq\<lparr>rq_sizes := (rq_sizes sample_rq)[0 := IPX_RECV_QUEUE_LOCKED]\<rparr>))"
proof -
  have "[0..<RECV_QUEUE_MAX_PACKETS] = 0 # [1..<RECV_QUEUE_MAX_PACKETS]"
    by (simp add: upt_conv_Cons RECV_QUEUE_MAX_PACKETS_def)
  then show ?thesis
    by (simp add: recv_queue_claim_def sample_rq_def new_recv_queue_def RECV_QUEUE_MAX_PACKETS_def)
qed

lemma sample_rq_inv: "rq_inv sample_rq" "rq_content sample_rq = []" "rq_locked sample_rq = {}"
  unfolding sample_rq_def
  by (rule new_recv_queue_inv; simp add: RECV_QUEUE_MAX_PACKETS_def)+

lemma sample_rq_run:
  assumes "length d \<le> MAX_PKT_SIZE"
  shows "\<exists>q. rq_run sample_rq [Claimed 0, Filled 0 d, Arrived 0 d] q \<and> rq_locked q = {} \<and> rq_content q = [d]"
proof -
  let ?q1 = "recv_queue_adjust_refcount 1
     (sample_rq\<lparr>rq_sizes := (rq_sizes sample_rq)[0 := IPX_RECV_QUEUE_LOCKED]\<rparr>)"
  note q1 = rq.claim [OF sample_rq_inv(1) sample_rq_claim]
  have locked: "0 \<in> rq_locked ?q1" using q1 by blast
  note q2 = rq.fill [OF conjunct1 [OF q1] locked assms]
  obtain q3 where q3: "recv_queue_commit 0 (length d) (recv_queue_fill 0 d ?q1) = Some q3" "rq_locked q3 = {}"
      "rq_content q3 = [d]"
    using rq.receive [OF sample_rq_inv(1) sample_rq_claim assms] sample_rq_inv(2,3) by auto
  have "rq_run sample_rq [] sample_rq" by (rule rq_run.start)
  from rq_run.step [OF this rq_step.claim [OF sample_rq_claim]]
  have "rq_run sample_rq [Claimed 0] ?q1" by simp
  from rq_run.step [OF this rq_step.fill [OF locked assms]]
  have r2: "rq_run sample_rq [Claimed 0, Filled 0 d] (recv_queue_fill 0 d ?q1)" by simp
  have "rq_step (recv_queue_fill 0 d ?q1) (Arrived 0 (take (length d) (rq_data (recv_queue_fill 0 d ?q1) ! 0))) q3"
    by (rule rq_step.arrive [OF _ assms q3(1)]) (use q2 locked in blast)
  from rq_run.step [OF r2 this] q2 have "rq_run sample_rq [Claimed 0, Filled 0 d, Arrived 0 d] q3" by simp
  with q3 show ?thesis by blast
qed

theorem recv_queue_fifo_witness:
  "\<exists>q. rq_run sample_rq [Claimed 0, Filled 0 [1, 2], Arrived 0 [1, 2]] q \<and> rq_inv q \<and> rq_content q = [[1, 2]]"
proof -
  obtain q where q: "rq_run sample_rq [Claimed 0, Filled 0 [1, 2], Arrived 0 [1, 2]] q"
    using sample_rq_run [of "[1, 2]"] by (auto simp: pkt_sizes)
  from recv_queue_fifo [OF q [unfolded sample_rq_def]] have "rq_inv q \<and> rq_content q = [[1, 2]]"
    by (simp add: RECV_QUEUE_MAX_PACKETS_def)
  with q show ?thesis by blast
qed

subsection \<open>The reference count\<close>

lemma rq_locked_finite: "finite (rq_locked q)"
  by (rule finite_subset [of _ "{..<RECV_QUEUE_MAX_PACKETS}"]) (auto simp: rq_locked_def)

lemma rq_step_refcount:
  assumes "rq_step q e q'" and "rq_inv q"
  shows "rq_refcount q' - int (card (rq_locked q')) =
    rq_refcount q - int (card (rq_locked q)) + int (length (arrived [e]))"
  using assms
proof cases
  case (claim s)
  then have "rq_refcount q' = rq_refcount q + 1"
    by (auto simp: recv_queue_claim_def recv_queue_adjust_refcount_def split: option.splits)
  with rq.claim [OF assms(2) claim(2)] claim(1) show ?thesis by (simp add: rq_locked_finite)
next
  case (fill s d)
  with rq.fill [OF assms(2)] show ?thesis by (simp add: recv_queue_fill_def)
next
  case (arrive s r)
  have "rq_refcount q' = rq_refcount q"
    using arrive(4) by (auto simp: recv_queue_commit_def split: if_splits)
  moreover have "rq_locked q' = rq_locked q - {s}"
    using rq.commit [OF assms(2) arrive(2,3)] unfolding arrive(4) by simp
  moreover have "0 < card (rq_locked q)" using arrive(2) rq_locked_finite [of q] by (auto simp: card_gt_0_iff)
  ultimately show ?thesis using arrive(1,2) by (simp add: rq_locked_finite of_nat_diff)
next
  case (fail s)
  have "rq_refcount q' = rq_refcount q - 1" "rq_locked q' = rq_locked q - {s}" "s \<in> rq_locked q"
    unfolding release_keeps [OF fail(3)] using rq.abort [OF assms(2) fail(2)] fail(2)
    by (simp_all add: recv_queue_abort_def)
  moreover have "0 < card (rq_locked q)" using fail(2) rq_locked_finite [of q] by (auto simp: card_gt_0_iff)
  ultimately show ?thesis using fail(1,2) by (simp add: rq_locked_finite of_nat_diff)
next
  case (take d ds)
  with rq.pop [OF assms(2), of d ds] show ?thesis by (simp add: recv_queue_pop_def Let_def)
qed



end
