(* ===== verification/Winsock.thy ===== *)
theory Winsock
  imports Router RecvQueue RateLimit
begin

text \<open>
  The sockets API (winsock.c): what the wrapped functions do to the table of IPX and SPX sockets.
  A function runs under the sockets lock, which it takes in \<open>get_socket\<close> and has to give back on
  every path; \<open>w_lock\<close> is how often the calling thread holds it, so a negative depth is a section
  left without being entered. What the system's own functions (\<open>r_bind\<close> and the like) return is an
  argument: \<open>Inl\<close> an error, \<open>Inr\<close> a result. A function returns its value and the state; the error
  for \<open>WSAGetLastError\<close> is \<open>n_errno\<close>. \<open>None\<close> is a crash or a call that does not return.
\<close>

definition WSAEFAULT :: u32 where "WSAEFAULT = 10014"
definition WSAEINVAL :: u32 where "WSAEINVAL = 10022"
definition WSAENOTSOCK :: u32 where "WSAENOTSOCK = 10038"
definition WSAEDESTADDRREQ :: u32 where "WSAEDESTADDRREQ = 10039"
definition WSAEMSGSIZE :: u32 where "WSAEMSGSIZE = 10040"
definition WSAENOPROTOOPT :: u32 where "WSAENOPROTOOPT = 10042"
definition WSAEPROTONOSUPPORT :: u32 where "WSAEPROTONOSUPPORT = 10043"
definition WSAEOPNOTSUPP :: u32 where "WSAEOPNOTSUPP = 10045"
definition WSAEAFNOSUPPORT :: u32 where "WSAEAFNOSUPPORT = 10047"
definition WSAEADDRINUSE :: u32 where "WSAEADDRINUSE = 10048"
definition WSAEADDRNOTAVAIL :: u32 where "WSAEADDRNOTAVAIL = 10049"
definition WSAENETDOWN :: u32 where "WSAENETDOWN = 10050"
definition WSAENETUNREACH :: u32 where "WSAENETUNREACH = 10051"
definition WSAEISCONN :: u32 where "WSAEISCONN = 10056"
definition WSAENOTCONN :: u32 where "WSAENOTCONN = 10057"
definition WSAESHUTDOWN :: u32 where "WSAESHUTDOWN = 10058"
definition ERROR_OUTOFMEMORY :: u32 where "ERROR_OUTOFMEMORY = 14"
definition ERROR_NO_DATA :: u32 where "ERROR_NO_DATA = 232"

subsection \<open>State\<close>

text \<open>
  The receive queues by their addresses, the lock, the handles this process has of the named
  mutexes that mark socket numbers as used, next to the numbers other processes have marked, and
  the counters of the rate limits, which are static variables of \<open>sendto\<close>.
\<close>

record ('w, 's) wstate = "('w, 's) gstate" +
  w_queues :: "nat \<Rightarrow> recv_queue option"
  w_lock :: int
  w_mutexes :: "(nat \<times> u16) list"
  w_foreign :: "u16 list"
  w_next_handle :: nat
  w_packet_rate :: ratelimit
  w_byte_rate :: ratelimit

definition lock_sockets :: "('w, 's, 'z) wstate_scheme \<Rightarrow> ('w, 's, 'z) wstate_scheme" where
  "lock_sockets st = st\<lparr>w_lock := w_lock st + 1\<rparr>"

definition unlock_sockets :: "('w, 's, 'z) wstate_scheme \<Rightarrow> ('w, 's, 'z) wstate_scheme" where
  "unlock_sockets st = st\<lparr>w_lock := w_lock st - 1\<rparr>"

definition set_error :: "u32 \<Rightarrow> 'n netstate_scheme \<Rightarrow> 'n netstate_scheme" where
  "set_error err st = st\<lparr>n_errno := err\<rparr>"

text \<open>What an unwrapped function returned, with its error set.\<close>

definition sys_result :: "u32 + int \<Rightarrow> 'n netstate_scheme \<Rightarrow> int \<times> 'n netstate_scheme" where
  "sys_result r st = (case r of Inl err \<Rightarrow> (-1, set_error err st) | Inr v \<Rightarrow> (v, st))"

definition get_socket ::
  "nat \<Rightarrow> ('w, 's, 'z) wstate_scheme \<Rightarrow> ipx_socket option \<times> ('w, 's, 'z) wstate_scheme" where
  "get_socket fd st =
     (let st = lock_sockets st in
      case hash_find (g_sockets st) fd of
        None \<Rightarrow> (None, unlock_sockets st)
      | Some sock \<Rightarrow> (Some sock, st))"

text \<open>\<open>others\<close> is what the other threads do while this one waits for the network to be ready.\<close>

definition get_socket_wait_for_ready ::
  "(('w, 's, 'z) wstate_scheme \<Rightarrow> ('w, 's, 'z) wstate_scheme) \<Rightarrow> nat \<Rightarrow> ('w, 's, 'z) wstate_scheme
     \<Rightarrow> ipx_socket option \<times> ('w, 's, 'z) wstate_scheme" where
  "get_socket_wait_for_ready others fd st =
     (case get_socket fd st of
        (None, st) \<Rightarrow> (None, st)
      | (Some sock, st) \<Rightarrow> get_socket fd (others (unlock_sockets st)))"

text \<open>An assignment through the pointer \<open>get_socket\<close> returned.\<close>

definition update_socket ::
  "nat \<Rightarrow> (ipx_socket \<Rightarrow> ipx_socket) \<Rightarrow> ('w, 's, 'z) wstate_scheme \<Rightarrow> ('w, 's, 'z) wstate_scheme" where
  "update_socket fd f st = st\<lparr>g_sockets := hash_modify (g_sockets st) fd f\<rparr>"

definition set_flags :: "u32 \<Rightarrow> ipx_socket \<Rightarrow> ipx_socket" where
  "set_flags f s = s\<lparr>sk_flags := sk_flags s OR f\<rparr>"

definition clear_flags :: "u32 \<Rightarrow> ipx_socket \<Rightarrow> ipx_socket" where
  "clear_flags f s = s\<lparr>sk_flags := sk_flags s AND NOT f\<rparr>"

text \<open>Setting an error, unlocking and returning -1, in either order.\<close>

definition fail_unlock ::
  "u32 \<Rightarrow> ('w, 's, 'z) wstate_scheme \<Rightarrow> int \<times> ('w, 's, 'z) wstate_scheme" where
  "fail_unlock err st = (-1, set_error err (unlock_sockets st))"

definition ok_unlock :: "('w, 's, 'z) wstate_scheme \<Rightarrow> int \<times> ('w, 's, 'z) wstate_scheme" where
  "ok_unlock st = (0, unlock_sockets st)"

subsection \<open>Creating and closing sockets\<close>

definition SOCK_STREAM :: int where "SOCK_STREAM = 1"
definition SOCK_DGRAM :: int where "SOCK_DGRAM = 2"
definition NSPROTO_IPX :: int where "NSPROTO_IPX = 1000"
definition NSPROTO_SPX :: int where "NSPROTO_SPX = 1256"
definition NSPROTO_SPXII :: int where "NSPROTO_SPXII = 1257"

text \<open>
  What the system gives to a call: the memory for the socket and its queue (the address, 0 for a
  failure, and what it holds), the result of creating the critical section, and of \<open>r_socket\<close>.
\<close>

record socket_sys =
  ss_ptr :: nat
  ss_junk :: ipx_socket
  ss_queue :: nat
  ss_ready :: "nat list"
  ss_data :: "bytes list"
  ss_cs_error :: u32
  ss_socket :: "u32 + int"

definition add_socket ::
  "int \<Rightarrow> ipx_socket \<Rightarrow> ('w, 's, 'z) wstate_scheme \<Rightarrow> int \<times> ('w, 's, 'z) wstate_scheme" where
  "add_socket fd sock st =
     (let st = lock_sockets st;
          st = st\<lparr>g_sockets := hash_add (g_sockets st) (nat fd) sock\<rparr>
      in (fd, unlock_sockets st))"

definition socket_dgram ::
  "int \<Rightarrow> socket_sys \<Rightarrow> ('w, 's, 'z) wstate_scheme \<Rightarrow> int \<times> ('w, 's, 'z) wstate_scheme" where
  "socket_dgram protocol sys st =
     (if ss_ptr sys = 0 \<or> ss_queue sys = 0 then (-1, set_error ERROR_OUTOFMEMORY st)
      else if ss_cs_error sys \<noteq> 0 then (-1, set_error (ss_cs_error sys) st)
      else
        let st = st\<lparr>w_queues := (w_queues st)(ss_queue sys \<mapsto> new_recv_queue (ss_ready sys) (ss_data sys))\<rparr>
        in case ss_socket sys of
             Inl err \<Rightarrow>
               (-1, set_error err (st\<lparr>w_queues := (w_queues st)(ss_queue sys :=
                      release_recv_queue (new_recv_queue (ss_ready sys) (ss_data sys)))\<rparr>))
           | Inr fd \<Rightarrow>
               add_socket fd
                 ((ss_junk sys)\<lparr>sk_ptr := ss_ptr sys,
                    sk_flags := IPX_SEND OR IPX_RECV OR IPX_RECV_BCAST,
                    sk_s_ptype := (if protocol \<noteq> 0 then of_int (protocol - NSPROTO_IPX) else 0),
                    sk_recv_queue := ss_queue sys\<rparr>) st)"

definition socket_stream ::
  "int \<Rightarrow> socket_sys \<Rightarrow> ('w, 's, 'z) wstate_scheme \<Rightarrow> int \<times> ('w, 's, 'z) wstate_scheme" where
  "socket_stream protocol sys st =
     (if ipx_encap_type (g_ifaces st) = ENCAP_TYPE_PCAP \<or> ipx_encap_type (g_ifaces st) = ENCAP_TYPE_DOSBOX
      then (-1, set_error WSAEPROTONOSUPPORT st)
      else if protocol \<noteq> 0 \<and> protocol \<noteq> NSPROTO_SPX \<and> protocol \<noteq> NSPROTO_SPXII
      then (-1, set_error WSAEPROTONOSUPPORT st)
      else if ss_ptr sys = 0 then (-1, set_error ERROR_OUTOFMEMORY st)
      else
        case ss_socket sys of
          Inl err \<Rightarrow> (-1, set_error err st)
        | Inr fd \<Rightarrow>
            add_socket fd
              ((ss_junk sys)\<lparr>sk_ptr := ss_ptr sys,
                 sk_flags := IPX_IS_SPX OR (if protocol = NSPROTO_SPXII then IPX_IS_SPXII else 0),
                 sk_recv_queue := 0\<rparr>) st)"

definition socket ::
  "int \<Rightarrow> int \<Rightarrow> int \<Rightarrow> socket_sys \<Rightarrow> ('w, 's, 'z) wstate_scheme \<Rightarrow> int \<times> ('w, 's, 'z) wstate_scheme" where
  "socket af type protocol sys st =
     (if af = uint AF_IPX then
        (if type = SOCK_DGRAM then socket_dgram protocol sys st
         else if type = SOCK_STREAM then socket_stream protocol sys st
         else (-1, set_error WSAEINVAL st))
      else sys_result (ss_socket sys) st)"

definition CloseHandle :: "nat \<Rightarrow> ('w, 's, 'z) wstate_scheme \<Rightarrow> ('w, 's, 'z) wstate_scheme" where
  "CloseHandle h st = st\<lparr>w_mutexes := filter (\<lambda>m. fst m \<noteq> h) (w_mutexes st)\<rparr>"

text \<open>\<open>None\<close>: a queue that has been freed already.\<close>

definition release_queue_at ::
  "nat \<Rightarrow> ('w, 's, 'z) wstate_scheme \<Rightarrow> ('w, 's, 'z) wstate_scheme option" where
  "release_queue_at p st =
     (case w_queues st p of
        None \<Rightarrow> None
      | Some q \<Rightarrow> Some (st\<lparr>w_queues := (w_queues st)(p := release_recv_queue q)\<rparr>))"

definition closesocket ::
  "nat \<Rightarrow> u32 + int \<Rightarrow> ('w, 's, 'z) wstate_scheme \<Rightarrow> (int \<times> ('w, 's, 'z) wstate_scheme) option" where
  "closesocket sockfd r st =
     (let (ret, st) = sys_result r st in
      case get_socket sockfd st of
        (None, st) \<Rightarrow> Some (ret, st)
      | (Some sock, st) \<Rightarrow>
          if ret = -1 then Some (-1, unlock_sockets st)
          else
            case (if sk_recv_queue sock \<noteq> 0 then release_queue_at (sk_recv_queue sock) st else Some st) of
              None \<Rightarrow> None
            | Some st \<Rightarrow>
                let st = (if flag_set (sk_flags sock) IPX_BOUND then CloseHandle (sk_sock_mut sock) st else st);
                    st = st\<lparr>g_sockets := hash_del (g_sockets st) sockfd\<rparr>
                in Some (0, unlock_sockets st))"

subsection \<open>Addresses of sockets\<close>

text \<open>\<open>struct sockaddr_ipx\<close> and \<open>struct sockaddr_ipx_ext\<close> as bytes.\<close>

definition SOCKADDR_IPX_SIZE :: nat where "SOCKADDR_IPX_SIZE = 14"
definition SOCKADDR_IPX_EXT_SIZE :: nat where "SOCKADDR_IPX_EXT_SIZE = 16"

definition sockaddr_ipx_bytes :: "sockaddr_ipx \<Rightarrow> bytes" where
  "sockaddr_ipx_bytes a = le_bytes 2 (sa_family a) @ sa_netnum a @ sa_nodenum a @ le_bytes 2 (sa_socket a)"

definition sockaddr_ipx_of :: "bytes \<Rightarrow> sockaddr_ipx" where
  "sockaddr_ipx_of b =
     \<lparr>sa_family = le_word (slice b 0 2), sa_netnum = slice b 2 4, sa_nodenum = slice b 6 6,
      sa_socket = le_word (slice b 12 2)\<rparr>"

text \<open>
  \<open>addrlen\<close> is the size of the application's buffer, an \<open>int\<close> that is compared with a \<open>sizeof\<close>
  and so as an unsigned number; the result is the error or 0, what is written to the buffer, and
  the new \<open>addrlen\<close>.
\<close>

type_synonym ('a) addr_result = "int \<times> bytes option \<times> u32 \<times> 'a"

definition getsockname ::
  "nat \<Rightarrow> u32 \<Rightarrow> (int \<times> bytes option \<times> u32) \<Rightarrow> ('w, 's, 'z) wstate_scheme \<Rightarrow> ('w, 's, 'z) wstate_scheme addr_result" where
  "getsockname fd addrlen r st =
     (case get_socket fd st of
        (None, st) \<Rightarrow> (case r of (ret, out, al) \<Rightarrow> (ret, out, al, st))
      | (Some sock, st) \<Rightarrow>
          if flag_set (sk_flags sock) IPX_BOUND then
            (if addrlen < of_nat SOCKADDR_IPX_SIZE
             then (-1, None, of_nat SOCKADDR_IPX_SIZE, snd (fail_unlock WSAEFAULT st))
             else (0, Some (sockaddr_ipx_bytes (sk_addr sock)), of_nat SOCKADDR_IPX_SIZE, unlock_sockets st))
          else (-1, None, addrlen, snd (fail_unlock WSAEINVAL st)))"

definition getpeername ::
  "nat \<Rightarrow> u32 \<Rightarrow> (int \<times> bytes option \<times> u32) \<Rightarrow> ('w, 's, 'z) wstate_scheme \<Rightarrow> ('w, 's, 'z) wstate_scheme addr_result" where
  "getpeername fd addrlen r st =
     (case get_socket fd st of
        (None, st) \<Rightarrow> (case r of (ret, out, al) \<Rightarrow> (ret, out, al, st))
      | (Some sock, st) \<Rightarrow>
          if \<not> flag_set (sk_flags sock) IPX_CONNECTED then (-1, None, addrlen, snd (fail_unlock WSAENOTCONN st))
          else if addrlen < of_nat SOCKADDR_IPX_SIZE then (-1, None, addrlen, snd (fail_unlock WSAEFAULT st))
          else (0, Some (sockaddr_ipx_bytes (sk_remote_addr sock)), of_nat SOCKADDR_IPX_SIZE, unlock_sockets st))"

subsection \<open>Options\<close>

definition IPX_PTYPE :: int where "IPX_PTYPE = 0x4000"
definition IPX_FILTERPTYPE :: int where "IPX_FILTERPTYPE = 0x4001"
definition IPX_STOPFILTERPTYPE :: int where "IPX_STOPFILTERPTYPE = 0x4003"
definition IPX_EXTENDED_ADDRESS :: int where "IPX_EXTENDED_ADDRESS = 0x4004"
definition IPX_MAXSIZE :: int where "IPX_MAXSIZE = 0x4006"
definition IPX_ADDRESS :: int where "IPX_ADDRESS = 0x4007"
definition IPX_MAX_ADAPTER_NUM :: int where "IPX_MAX_ADAPTER_NUM = 0x400d"
definition IPX_RECEIVE_BROADCAST :: int where "IPX_RECEIVE_BROADCAST = 0x400f"
definition SOL_SOCKET :: int where "SOL_SOCKET = 0xffff"
definition SO_REUSEADDR :: int where "SO_REUSEADDR = 4"
definition SO_BROADCAST :: int where "SO_BROADCAST = 0x20"
definition SO_LINGER :: int where "SO_LINGER = 0x80"

lemmas option_codes = IPX_PTYPE_def IPX_FILTERPTYPE_def IPX_STOPFILTERPTYPE_def IPX_EXTENDED_ADDRESS_def
  IPX_MAXSIZE_def IPX_ADDRESS_def IPX_MAX_ADAPTER_NUM_def IPX_RECEIVE_BROADCAST_def SOL_SOCKET_def
  SO_REUSEADDR_def SO_BROADCAST_def SO_LINGER_def NSPROTO_IPX_def

text \<open>The largest payload; an unknown frame type aborts.\<close>

definition max_ipx_payload :: "('w, 's) genv \<Rightarrow> ('w, 's, 'z) gstate_scheme \<Rightarrow> int option" where
  "max_ipx_payload env st =
     (if ipx_encap_type (g_ifaces st) = ENCAP_TYPE_PCAP then
        (if mc_frame_type (e_config env) = Config.FRAME_TYPE_ETH_II \<or>
            mc_frame_type (e_config env) = Config.FRAME_TYPE_NOVELL
         then Some (1500 - int NOVELL_IPX_PACKET_SIZE)
         else if mc_frame_type (e_config env) = Config.FRAME_TYPE_LLC
         then Some (1500 - (3 + int NOVELL_IPX_PACKET_SIZE))
         else None)
      else if ipx_encap_type (g_ifaces st) = ENCAP_TYPE_DOSBOX then Some 1424
      else Some (int MAX_DATA_SIZE))"

text \<open>
  The result of \<open>getsockopt\<close>: the value, what is written to the front of \<open>optval\<close>, the new
  \<open>optlen\<close>. \<open>IPX_ADDRESS_DATA\<close> has 24 bytes: the adapter's index, its network and node
  number, two flags, the payload size and the link speed.
\<close>

definition return_opt ::
  "nat \<Rightarrow> bytes \<Rightarrow> u32 \<Rightarrow> ('w, 's, 'z) wstate_scheme \<Rightarrow> ('w, 's, 'z) wstate_scheme addr_result" where
  "return_opt n val optlen st =
     (if optlen < of_nat n then (-1, None, of_nat n, unlock_sockets (set_error WSAEFAULT st))
      else (0, Some val, of_nat n, unlock_sockets st))"

definition return_int_opt :: "int \<Rightarrow> u32 \<Rightarrow> ('w, 's, 'z) wstate_scheme \<Rightarrow> ('w, 's, 'z) wstate_scheme addr_result" where
  "return_int_opt val = return_opt 4 (le_bytes 4 (of_int val :: u32))"

definition return_bool_opt :: "bool \<Rightarrow> u32 \<Rightarrow> ('w, 's, 'z) wstate_scheme \<Rightarrow> ('w, 's, 'z) wstate_scheme addr_result" where
  "return_bool_opt val = return_opt 4 (le_bytes 4 (if val then 1 else 0 :: u32))"

definition IPX_ADDRESS_DATA_SIZE :: nat where "IPX_ADDRESS_DATA_SIZE = 24"

definition ipx_address_data :: "bytes \<Rightarrow> ipx_interface \<Rightarrow> int \<Rightarrow> bytes" where
  "ipx_address_data optval nic maxpkt =
     slice optval 0 4 @ addr32_out (if_net nic) @ addr48_out (if_node nic) @ [0, 0] @
     le_bytes 4 (of_int maxpkt :: u32) @ le_bytes 4 (100000 :: u32)"

definition getsockopt_address ::
  "('w, 's) genv \<Rightarrow> bytes \<Rightarrow> u32 \<Rightarrow> ('w, 's, 'z) wstate_scheme \<Rightarrow> ('w, 's, 'z) wstate_scheme addr_result option" where
  "getsockopt_address env optval optlen st =
     (if optlen < of_nat IPX_ADDRESS_DATA_SIZE
      then Some (-1, None, of_nat IPX_ADDRESS_DATA_SIZE, unlock_sockets (set_error WSAEFAULT st))
      else
        case ipx_interface_by_index (e_sys env) (e_now env) (e_now' env)
               (sint (le_word (slice optval 0 4) :: u32)) (g_ifaces st) of
          None \<Rightarrow> None
        | Some (nic, c) \<Rightarrow>
            let st = st\<lparr>g_ifaces := c\<rparr> in
            case nic of
              None \<Rightarrow> Some (-1, None, of_nat IPX_ADDRESS_DATA_SIZE, unlock_sockets (set_error ERROR_NO_DATA st))
            | Some nic \<Rightarrow>
                (case max_ipx_payload env st of
                   None \<Rightarrow> None
                 | Some maxpkt \<Rightarrow>
                     Some (0, Some (ipx_address_data optval nic maxpkt), of_nat IPX_ADDRESS_DATA_SIZE,
                           unlock_sockets st)))"

definition getsockopt_ipx ::
  "('w, 's) genv \<Rightarrow> int \<Rightarrow> bytes \<Rightarrow> u32 \<Rightarrow> ipx_socket \<Rightarrow> ('w, 's, 'z) wstate_scheme
     \<Rightarrow> ('w, 's, 'z) wstate_scheme addr_result option" where
  "getsockopt_ipx env optname optval optlen sock st =
     (if optname = IPX_PTYPE then Some (return_int_opt (uint (sk_s_ptype sock)) optlen st)
      else if optname = IPX_FILTERPTYPE then Some (return_int_opt (uint (sk_f_ptype sock)) optlen st)
      else if optname = IPX_MAXSIZE then
        map_option (\<lambda>n. return_int_opt n optlen st) (if optlen < 4 then Some 0 else max_ipx_payload env st)
      else if optname = IPX_ADDRESS then getsockopt_address env optval optlen st
      else if optname = IPX_MAX_ADAPTER_NUM then
        (if optlen < 4 then Some (return_int_opt 0 optlen st)
         else map_option (\<lambda>(n, c). return_int_opt (int n) optlen (st\<lparr>g_ifaces := c\<rparr>))
                (ipx_interface_count (e_sys env) (e_now env) (e_now' env) (g_ifaces st)))
      else if optname = IPX_EXTENDED_ADDRESS
      then Some (return_bool_opt (flag_set (sk_flags sock) IPX_EXT_ADDR) optlen st)
      else Some (-1, None, optlen, unlock_sockets (set_error WSAENOPROTOOPT st)))"

definition getsockopt ::
  "('w, 's) genv \<Rightarrow> (('w, 's, 'z) wstate_scheme \<Rightarrow> ('w, 's, 'z) wstate_scheme) \<Rightarrow> nat \<Rightarrow> int \<Rightarrow> int \<Rightarrow> bytes \<Rightarrow> u32
     \<Rightarrow> (int \<times> bytes option \<times> u32) \<Rightarrow> ('w, 's, 'z) wstate_scheme \<Rightarrow> ('w, 's, 'z) wstate_scheme addr_result option" where
  "getsockopt env others fd level optname optval optlen r st =
     (case get_socket_wait_for_ready others fd st of
        (None, st) \<Rightarrow> Some (case r of (ret, out, al) \<Rightarrow> (ret, out, al, st))
      | (Some sock, st) \<Rightarrow>
          if level = NSPROTO_IPX then getsockopt_ipx env optname optval optlen sock st
          else if level = SOL_SOCKET \<and> optname = SO_BROADCAST
          then Some (return_bool_opt (flag_set (sk_flags sock) IPX_BROADCAST) optlen st)
          else if level = SOL_SOCKET \<and> optname = SO_REUSEADDR
          then Some (return_bool_opt (flag_set (sk_flags sock) IPX_REUSE) optlen st)
          else Some (case r of (ret, out, al) \<Rightarrow> (ret, out, al, unlock_sockets st)))"

text \<open>\<open>optval\<close> holds \<open>optlen\<close> bytes.\<close>

definition set_option ::
  "nat \<Rightarrow> bytes \<Rightarrow> (u32 \<Rightarrow> ipx_socket \<Rightarrow> ipx_socket) \<Rightarrow> ('w, 's, 'z) wstate_scheme
     \<Rightarrow> int \<times> ('w, 's, 'z) wstate_scheme" where
  "set_option fd optval f st =
     (if length optval < 4 then (-1, unlock_sockets (set_error WSAEFAULT st))
      else ok_unlock (update_socket fd (f (le_word (take 4 optval))) st))"

definition set_flag :: "u32 \<Rightarrow> u32 \<Rightarrow> ipx_socket \<Rightarrow> ipx_socket" where
  "set_flag flag val = (if val \<noteq> 0 then set_flags flag else clear_flags flag)"

definition setsockopt ::
  "nat \<Rightarrow> int \<Rightarrow> int \<Rightarrow> bytes \<Rightarrow> u32 + int \<Rightarrow> ('w, 's, 'z) wstate_scheme \<Rightarrow> int \<times> ('w, 's, 'z) wstate_scheme" where
  "setsockopt fd level optname optval r st =
     (case get_socket fd st of
        (None, st) \<Rightarrow> sys_result r st
      | (Some sock, st) \<Rightarrow>
          if level = NSPROTO_IPX then
            (if optname = IPX_PTYPE then set_option fd optval (\<lambda>v s. s\<lparr>sk_s_ptype := ucast v\<rparr>) st
             else if optname = IPX_FILTERPTYPE
             then set_option fd optval (\<lambda>v s. set_flags IPX_FILTER (s\<lparr>sk_f_ptype := ucast v\<rparr>)) st
             else if optname = IPX_STOPFILTERPTYPE
             then ok_unlock (update_socket fd (clear_flags IPX_FILTER) st)
             else if optname = IPX_RECEIVE_BROADCAST then set_option fd optval (set_flag IPX_RECV_BCAST) st
             else if optname = IPX_EXTENDED_ADDRESS then set_option fd optval (set_flag IPX_EXT_ADDR) st
             else (-1, unlock_sockets (set_error WSAENOPROTOOPT st)))
          else if level = SOL_SOCKET \<and> optname = SO_BROADCAST then set_option fd optval (set_flag IPX_BROADCAST) st
          else if level = SOL_SOCKET \<and> optname = SO_REUSEADDR then set_option fd optval (set_flag IPX_REUSE) st
          else if level = SOL_SOCKET \<and> optname = SO_LINGER \<and> \<not> flag_set (sk_flags sock) IPX_IS_SPX
          then ok_unlock st
          else if level = SOL_SOCKET \<and> optname = 16399 then ok_unlock st
          else sys_result r (unlock_sockets st))"

subsection \<open>Shutting down and listening\<close>

definition SD_RECEIVE :: int where "SD_RECEIVE = 0"
definition SD_SEND :: int where "SD_SEND = 1"
definition SD_BOTH :: int where "SD_BOTH = 2"

definition shutdown ::
  "nat \<Rightarrow> int \<Rightarrow> u32 + int \<Rightarrow> ('w, 's, 'z) wstate_scheme \<Rightarrow> int \<times> ('w, 's, 'z) wstate_scheme" where
  "shutdown fd cmd r st =
     (case get_socket fd st of
        (None, st) \<Rightarrow> sys_result r st
      | (Some sock, st) \<Rightarrow>
          if flag_set (sk_flags sock) IPX_IS_SPX then sys_result r (unlock_sockets st)
          else
            let st = (if cmd = SD_RECEIVE \<or> cmd = SD_BOTH then update_socket fd (clear_flags IPX_RECV) st else st);
                st = (if cmd = SD_SEND \<or> cmd = SD_BOTH then update_socket fd (clear_flags IPX_SEND) st else st)
            in ok_unlock st)"

definition listen ::
  "nat \<Rightarrow> u32 + int \<Rightarrow> ('w, 's, 'z) wstate_scheme \<Rightarrow> int \<times> ('w, 's, 'z) wstate_scheme" where
  "listen fd r st =
     (case get_socket fd st of
        (None, st) \<Rightarrow> sys_result r st
      | (Some sock, st) \<Rightarrow>
          if flag_set (sk_flags sock) IPX_IS_SPX then
            (if \<not> flag_set (sk_flags sock) IPX_BOUND then fail_unlock WSAEINVAL st
             else if flag_set (sk_flags sock) IPX_LISTENING then fail_unlock WSAEISCONN st
             else case r of
                    Inl err \<Rightarrow> (-1, unlock_sockets (set_error err st))
                  | Inr _ \<Rightarrow> ok_unlock (update_socket fd (set_flags IPX_LISTENING) st))
          else fail_unlock WSAEOPNOTSUPP st)"

text \<open>\<open>posted\<close> says whether a message about a completed connection is posted to the window.\<close>

definition FD_CONNECT :: u32 where "FD_CONNECT = 16"

definition WSAAsyncSelect ::
  "nat \<Rightarrow> u32 \<Rightarrow> u32 + int \<Rightarrow> ('w, 's, 'z) wstate_scheme \<Rightarrow> bool \<times> int \<times> ('w, 's, 'z) wstate_scheme" where
  "WSAAsyncSelect fd lEvent r st =
     (if flag_set lEvent FD_CONNECT then
        (case get_socket fd st of
           (None, st) \<Rightarrow> (False, sys_result r st)
         | (Some sock, st) \<Rightarrow>
             let posted = flag_set (sk_flags sock) IPX_CONNECT_OK;
                 st = (if posted then update_socket fd (clear_flags IPX_CONNECT_OK) st else st)
             in (posted, sys_result r (unlock_sockets st)))
      else (False, sys_result r st))"

subsection \<open>Facts about the table and the lock\<close>

lemma lock_simps [simp]:
  "w_lock (lock_sockets st) = w_lock st + 1" "w_lock (unlock_sockets st) = w_lock st - 1"
  "g_sockets (lock_sockets st) = g_sockets st" "g_sockets (unlock_sockets st) = g_sockets st"
  "w_queues (lock_sockets st) = w_queues st" "w_queues (unlock_sockets st) = w_queues st"
  "g_ifaces (lock_sockets st) = g_ifaces st" "g_ifaces (unlock_sockets st) = g_ifaces st"
  "w_mutexes (lock_sockets st) = w_mutexes st" "w_mutexes (unlock_sockets st) = w_mutexes st"
  "w_foreign (lock_sockets st) = w_foreign st" "w_foreign (unlock_sockets st) = w_foreign st"
  "w_next_handle (lock_sockets st) = w_next_handle st" "w_next_handle (unlock_sockets st) = w_next_handle st"
  "n_errno (lock_sockets st) = n_errno st" "n_errno (unlock_sockets st) = n_errno st"
  "n_sent (lock_sockets st) = n_sent st" "n_sent (unlock_sockets st) = n_sent st"
  "wstate.more (lock_sockets st) = wstate.more st" "wstate.more (unlock_sockets st) = wstate.more st"
  by (simp_all add: lock_sockets_def unlock_sockets_def)

lemma unlock_lock [simp]: "unlock_sockets (lock_sockets st) = st"
  by (simp add: lock_sockets_def unlock_sockets_def)

lemma set_error_simps [simp]:
  fixes st :: "('w, 's, 'z) wstate_scheme"
  shows "w_lock (set_error err st) = w_lock st" "g_sockets (set_error err st) = g_sockets st"
    "w_queues (set_error err st) = w_queues st" "g_ifaces (set_error err st) = g_ifaces st"
    "w_mutexes (set_error err st) = w_mutexes st" "w_foreign (set_error err st) = w_foreign st"
    "w_next_handle (set_error err st) = w_next_handle st" "n_sent (set_error err st) = n_sent st"
    "n_errno (set_error err st) = err" "wstate.more (set_error err st) = wstate.more st"
  by (simp_all add: set_error_def)

lemma update_socket_simps [simp]:
  "w_lock (update_socket fd f st) = w_lock st" "w_queues (update_socket fd f st) = w_queues st"
  "g_sockets (update_socket fd f st) = hash_modify (g_sockets st) fd f"
  "g_ifaces (update_socket fd f st) = g_ifaces st" "w_mutexes (update_socket fd f st) = w_mutexes st"
  "w_foreign (update_socket fd f st) = w_foreign st" "w_next_handle (update_socket fd f st) = w_next_handle st"
  "n_errno (update_socket fd f st) = n_errno st" "n_sent (update_socket fd f st) = n_sent st"
  "wstate.more (update_socket fd f st) = wstate.more st"
  by (simp_all add: update_socket_def)

lemma get_socket_found:
  "hash_find (g_sockets st) fd = Some sock \<Longrightarrow> get_socket fd st = (Some sock, lock_sockets st)"
  by (simp add: get_socket_def Let_def)

lemma get_socket_none: "hash_find (g_sockets st) fd = None \<Longrightarrow> get_socket fd st = (None, st)"
  by (simp add: get_socket_def Let_def)

lemma get_socket_cases:
  "get_socket fd st = (case hash_find (g_sockets st) fd of None \<Rightarrow> (None, st) | Some sock \<Rightarrow> (Some sock, lock_sockets st))"
  by (auto simp: get_socket_found get_socket_none split: option.splits)

lemma hash_find_modify [simp]:
  "hash_find (hash_modify t k f) k' = (if k' = k then map_option f (hash_find t k) else hash_find t k')"
  using uthash.find_modify [of t k f] by (simp add: fun_eq_iff)

lemma sys_result_lock [simp]: "w_lock (snd (sys_result r st)) = w_lock (st :: ('w, 's, 'z) wstate_scheme)"
  by (simp add: sys_result_def split: sum.splits)

lemma set_flag_simps [simp]:
  "flag_set (sk_flags (set_flags f s)) f' \<longleftrightarrow> flag_set (sk_flags s) f' \<or> flag_set f f'"
  by (simp add: set_flags_def flag_simps)

end
