(* ===== verification/Bind.thy ===== *)
theory Bind
  imports Winsock
begin

text \<open>
  Binding sockets (\<open>bind\<close> and its helpers in winsock.c). A named mutex per IPX socket number
  marks the number as used in the whole system; it exists as long as any process holds a handle of
  it. Whether \<open>CreateMutex\<close> succeeds for a number is an argument. The helpers work on the structure
  of one socket, which the caller writes back into the table.
\<close>

definition mutex_exists :: "u16 \<Rightarrow> ('w, 's, 'z) wstate_scheme \<Rightarrow> bool" where
  "mutex_exists n st \<longleftrightarrow> n \<in> set (w_foreign st) \<or> n \<in> snd ` set (w_mutexes st)"

text \<open>0 is a \<open>NULL\<close> handle.\<close>

definition open_socket_mutex ::
  "(u16 \<Rightarrow> bool) \<Rightarrow> u16 \<Rightarrow> bool \<Rightarrow> ('w, 's, 'z) wstate_scheme \<Rightarrow> nat \<times> ('w, 's, 'z) wstate_scheme" where
  "open_socket_mutex create_ok socknum exclusive st =
     (if \<not> create_ok socknum then (0, st)
      else
        let already_exists = mutex_exists socknum st;
            mutex = w_next_handle st;
            st = st\<lparr>w_mutexes := (mutex, socknum) # w_mutexes st, w_next_handle := mutex + 1\<rparr>
        in if already_exists \<and> exclusive then (0, CloseHandle mutex st) else (mutex, st))"

lemma socknum_succ:
  assumes "n \<noteq> (65535 :: u16)"
  shows "unat (n + 1) = Suc (unat n)" "unat n < 65535"
proof -
  have "unat n < 65536" by (rule unsigned_less [where 'b = 16, simplified])
  then show "unat n < 65535" using assms by (simp add: word_unat_eq_iff)
  then show "unat (n + 1) = Suc (unat n)" by (simp add: unat_word_ariths)
qed

function complete_bind_loop ::
  "(u16 \<Rightarrow> bool) \<Rightarrow> u16 \<Rightarrow> ipx_socket \<Rightarrow> ('w, 's, 'z) wstate_scheme
     \<Rightarrow> bool \<times> ipx_socket \<times> ('w, 's, 'z) wstate_scheme" where
  "complete_bind_loop create_ok socknum sock st =
     (let (mutex, st) = open_socket_mutex create_ok socknum True st in
      if mutex \<noteq> 0 then
        (True,
         set_flags IPX_BOUND (sock\<lparr>sk_addr := (sk_addr sock)\<lparr>sa_socket := htons socknum\<rparr>, sk_sock_mut := mutex\<rparr>),
         st)
      else if socknum \<noteq> 65535 then complete_bind_loop create_ok (socknum + 1) sock st
      else (False, sock, st))"
  by pat_completeness auto

termination
  by (relation "measure (\<lambda>(_, n, _, _). 65535 - unat n)") (auto simp: socknum_succ(1) dest!: socknum_succ(2))

declare complete_bind_loop.simps [simp del]

definition complete_bind ::
  "(u16 \<Rightarrow> bool) \<Rightarrow> ipx_socket \<Rightarrow> ('w, 's, 'z) wstate_scheme
     \<Rightarrow> bool \<times> ipx_socket \<times> ('w, 's, 'z) wstate_scheme" where
  "complete_bind create_ok sock st =
     (if ntohs (sa_socket (sk_addr sock)) = 0 then complete_bind_loop create_ok 1024 sock st
      else
        let (mutex, st) = open_socket_mutex create_ok (ntohs (sa_socket (sk_addr sock)))
                            (\<not> flag_set (sk_flags sock) IPX_REUSE) st;
            sock = sock\<lparr>sk_sock_mut := mutex\<rparr>
        in if mutex \<noteq> 0 then (True, set_flags IPX_BOUND sock, st) else (False, sock, st))"

text \<open>The first interface that matches, where a zero network or node matches any.\<close>

definition bind_match :: "sockaddr_ipx \<Rightarrow> ipx_interface \<Rightarrow> bool" where
  "bind_match addr iface \<longleftrightarrow>
     (addr32_in (sa_netnum addr) = if_net iface \<or> addr32_in (sa_netnum addr) = 0) \<and>
     (addr48_in (sa_nodenum addr) = if_node iface \<or> addr48_in (sa_nodenum addr) = 0)"

definition resolve_bind_address ::
  "('w, 's) genv \<Rightarrow> ipx_socket \<Rightarrow> sockaddr_ipx \<Rightarrow> ('w, 's, 'z) wstate_scheme
     \<Rightarrow> (bool \<times> ipx_socket \<times> ('w, 's, 'z) wstate_scheme) option" where
  "resolve_bind_address env sock addr st =
     (case get_ipx_interfaces (e_sys env) (e_now env) (e_now' env) (g_ifaces st) of
        None \<Rightarrow> None
      | Some (ifaces, c) \<Rightarrow>
          let st = st\<lparr>g_ifaces := c\<rparr> in
          case find (bind_match addr) ifaces of
            None \<Rightarrow> Some (False, sock, st)
          | Some iface \<Rightarrow>
              Some (True,
                sock\<lparr>sk_addr := (sk_addr sock)\<lparr>sa_netnum := addr32_out (if_net iface),
                       sa_nodenum := addr48_out (if_node iface), sa_socket := sa_socket addr\<rparr>\<rparr>, st))"

text \<open>What the system answers: the mutexes, \<open>r_bind\<close>, and the port from \<open>r_getsockname\<close>.\<close>

record bind_sys =
  bs_create_ok :: "u16 \<Rightarrow> bool"
  bs_bind :: "u32 + int"
  bs_getsockname :: "u32 + u16"

text \<open>\<open>bind\<close> after the lock has been taken for the socket \<open>sock\<close>, to an address of that family.\<close>

definition bind_ipx ::
  "('w, 's) genv \<Rightarrow> bind_sys \<Rightarrow> nat \<Rightarrow> ipx_socket \<Rightarrow> sockaddr_ipx \<Rightarrow> ('w, 's, 'z) wstate_scheme
     \<Rightarrow> (int \<times> ('w, 's, 'z) wstate_scheme) option" where
  "bind_ipx env sys fd sock ipxaddr st =
     (if flag_set (sk_flags sock) IPX_BOUND then Some (fail_unlock WSAEINVAL st)
      else
        let sock = sock\<lparr>sk_addr := (sk_addr sock)\<lparr>sa_family := AF_IPX\<rparr>\<rparr> in
        case resolve_bind_address env sock ipxaddr st of
          None \<Rightarrow> None
        | Some (ok, sock, st) \<Rightarrow>
            if \<not> ok then Some (fail_unlock WSAEADDRNOTAVAIL (update_socket fd (\<lambda>_. sock) st))
            else
              let (ok, sock, st) = complete_bind (bs_create_ok sys) sock st in
              if \<not> ok then Some (fail_unlock WSAEADDRINUSE (update_socket fd (\<lambda>_. sock) st))
              else
                let undone = CloseHandle (sk_sock_mut sock) (update_socket fd (\<lambda>_. clear_flags IPX_BOUND sock) st) in
                case bs_bind sys of
                  Inl err \<Rightarrow> Some (-1, unlock_sockets (set_error err undone))
                | Inr _ \<Rightarrow>
                    (case bs_getsockname sys of
                       Inl err \<Rightarrow> Some (-1, unlock_sockets (set_error err undone))
                     | Inr port \<Rightarrow> Some (ok_unlock (update_socket fd (\<lambda>_. sock\<lparr>sk_port := port\<rparr>) st))))"

definition bind ::
  "('w, 's) genv \<Rightarrow> bind_sys \<Rightarrow> (('w, 's, 'z) wstate_scheme \<Rightarrow> ('w, 's, 'z) wstate_scheme) \<Rightarrow> nat
     \<Rightarrow> sockaddr_ipx \<Rightarrow> u32 \<Rightarrow> ('w, 's, 'z) wstate_scheme \<Rightarrow> (int \<times> ('w, 's, 'z) wstate_scheme) option" where
  "bind env sys others fd addr addrlen st =
     (case get_socket_wait_for_ready others fd st of
        (None, st) \<Rightarrow> Some (sys_result (bs_bind sys) st)
      | (Some sock, st) \<Rightarrow>
          if addrlen < of_nat SOCKADDR_IPX_SIZE \<or> sa_family addr \<noteq> AF_IPX
          then Some (fail_unlock WSAEFAULT st)
          else bind_ipx env sys fd sock addr st)"

end
