(* ===== verification/Receive.thy ===== *)
theory Receive
  imports Winsock
begin

text \<open>
  Receiving from IPX sockets (\<open>recv_pump\<close>, \<open>recv_packet\<close> and the functions over them in winsock.c).
  Packets are relayed to the socket's private port by the router; a receive claims a buffer of
  the socket's queue, waits in \<open>r_recv\<close> without the lock, and appends what arrived. An event of
  such a wait is what the other threads do meanwhile and what \<open>r_recv\<close> returned. \<open>None\<close> is a crash or a
  call that never returns.
\<close>

record 'st rx_event =
  rx_others :: "'st \<Rightarrow> 'st"
  rx_recv :: "u32 + bytes"

definition set_queue :: "nat \<Rightarrow> recv_queue option \<Rightarrow> ('w, 's, 'z) wstate_scheme \<Rightarrow> ('w, 's, 'z) wstate_scheme" where
  "set_queue p q st = st\<lparr>w_queues := (w_queues st)(p := q)\<rparr>"

text \<open>An access to a queue through its pointer; \<open>None\<close> when it has been freed.\<close>

definition with_queue ::
  "nat \<Rightarrow> (recv_queue \<Rightarrow> recv_queue option) \<Rightarrow> ('w, 's, 'z) wstate_scheme \<Rightarrow> ('w, 's, 'z) wstate_scheme option" where
  "with_queue p f st =
     (case w_queues st p of
        None \<Rightarrow> None
      | Some q \<Rightarrow> (case f q of None \<Rightarrow> None | Some q' \<Rightarrow> Some (set_queue p (Some q') st)))"

definition reclaim_socket :: "nat \<Rightarrow> nat \<Rightarrow> ('w, 's, 'z) wstate_scheme \<Rightarrow> bool \<times> ('w, 's, 'z) wstate_scheme" where
  "reclaim_socket sockptr lookup_fd st =
     (case get_socket lookup_fd st of
        (None, st) \<Rightarrow> (False, st)
      | (Some reclaim_sock, st) \<Rightarrow>
          if sk_ptr reclaim_sock \<noteq> sockptr then (False, unlock_sockets st) else (True, st))"

text \<open>Whether what was received is a packet as \<open>deliver_packet\<close> sends it.\<close>

definition valid_relayed :: "bytes \<Rightarrow> bool" where
  "valid_relayed d \<longleftrightarrow>
     \<not> (length d < IPX_PACKET_HEADER \<or> length d \<noteq> unat (pkt_size d) + IPX_PACKET_HEADER)"

text \<open>The end of \<open>recv_pump\<close>, after \<open>r_recv\<close>.\<close>

definition recv_pump_done ::
  "nat \<Rightarrow> nat \<Rightarrow> nat \<Rightarrow> nat \<Rightarrow> u32 + bytes \<Rightarrow> ('w, 's, 'z) wstate_scheme
     \<Rightarrow> (int \<times> ('w, 's, 'z) wstate_scheme) option" where
  "recv_pump_done sockptr fd queue recv_slot r st =
     (case reclaim_socket sockptr fd st of
        (False, st) \<Rightarrow>
          map_option (\<lambda>st. (-1, set_error WSAENOTSOCK st)) (release_queue_at queue st)
      | (True, st) \<Rightarrow>
          (case r of
             Inl err \<Rightarrow>
               (case with_queue queue (\<lambda>q. Some (recv_queue_abort recv_slot q)) st of
                  None \<Rightarrow> None
                | Some st \<Rightarrow> map_option (\<lambda>st. (-1, unlock_sockets st)) (release_queue_at queue st))
           | Inr d \<Rightarrow>
               if \<not> valid_relayed d then
                 (case with_queue queue (\<lambda>q. Some (recv_queue_abort recv_slot q)) st of
                    None \<Rightarrow> None
                  | Some st \<Rightarrow>
                      map_option (\<lambda>st. (-1, unlock_sockets (set_error WSAEWOULDBLOCK st)))
                        (release_queue_at queue st))
               else map_option (Pair 1) (with_queue queue (recv_queue_commit recv_slot (length d)) st)))"

text \<open>
  \<open>available\<close> is what the query of the underlying socket answers, for a receive that does not block.
  The result is 1 when a packet was queued, 0 when none was waiting or all buffers are in use, and -1
  on an error, when the lock has been released.
\<close>

definition recv_pump ::
  "('w, 's, 'z) wstate_scheme rx_event \<Rightarrow> (u32 + u32) option \<Rightarrow> nat \<Rightarrow> ipx_socket \<Rightarrow> ('w, 's, 'z) wstate_scheme
     \<Rightarrow> (int \<times> ('w, 's, 'z) wstate_scheme) option" where
  "recv_pump ev available fd sock st =
     (case available of
        Some (Inl err) \<Rightarrow> Some (-1, unlock_sockets (set_error err st))
      | _ \<Rightarrow>
          if available = Some (Inr 0) then Some (0, st)
          else
            let queue = sk_recv_queue sock in
            case w_queues st queue of
              None \<Rightarrow> None
            | Some q \<Rightarrow>
                (case recv_queue_claim q of
                   None \<Rightarrow> Some (0, st)
                 | Some (recv_slot, q) \<Rightarrow>
                     let st = rx_others ev (unlock_sockets (set_queue queue (Some q) st)) in
                     case (case rx_recv ev of
                             Inl err \<Rightarrow> Some (set_error err st)
                           | Inr d \<Rightarrow> with_queue queue (\<lambda>q. Some (recv_queue_fill recv_slot d q)) st) of
                       None \<Rightarrow> None
                     | Some st \<Rightarrow> recv_pump_done (sk_ptr sock) fd queue recv_slot (rx_recv ev) st))"

text \<open>
  Waiting until the queue has a packet; several threads may race for the packets. The structure of
  the socket is read anew each time, as it may have changed while the lock was released. A receive
  that finds every buffer locked by other receives goes round without ever giving up the lock.
\<close>

partial_function (option) recv_wait ::
  "(nat \<Rightarrow> ('w, 's, 'z) wstate_scheme rx_event) \<Rightarrow> nat \<Rightarrow> nat \<Rightarrow> ('w, 's, 'z) wstate_scheme
     \<Rightarrow> (bool \<times> ('w, 's, 'z) wstate_scheme) option" where
  "recv_wait rx i fd st =
     (case hash_find (g_sockets st) fd of
        None \<Rightarrow> None
      | Some sock \<Rightarrow>
          (case w_queues st (sk_recv_queue sock) of
             None \<Rightarrow> None
           | Some q \<Rightarrow>
               if \<not> rq_n_ready q < 1 then Some (True, st)
               else
                 case recv_pump (rx i) None fd sock st of
                   None \<Rightarrow> None
                 | Some (r, st') \<Rightarrow> if r < 0 then Some (False, st') else recv_wait rx (Suc i) fd st'))"

text \<open>
  The sender's address of a packet, with its type and two flags if the socket asks for them: a packet
  that was broadcast, and one that claims to come from this system.
\<close>

definition recv_address ::
  "('w, 's) genv \<Rightarrow> bytes \<Rightarrow> ipx_socket \<Rightarrow> u32 \<Rightarrow> ('w, 's, 'z) wstate_scheme
     \<Rightarrow> (bytes \<times> ('w, 's, 'z) wstate_scheme) option" where
  "recv_address env packet sock addrlen st =
     (let addr = sockaddr_ipx_bytes \<lparr>sa_family = AF_IPX, sa_netnum = pkt_src_net packet,
                   sa_nodenum = pkt_src_node packet, sa_socket = pkt_src_socket packet\<rparr>
      in if flag_set (sk_flags sock) IPX_EXT_ADDR \<and> addrlen \<ge> of_nat SOCKADDR_IPX_EXT_SIZE then
           (case ipx_interface_by_addr (e_sys env) (e_now env) (e_now' env)
                   (addr32_in (pkt_src_net packet)) (addr48_in (pkt_src_node packet)) (g_ifaces st) of
              None \<Rightarrow> None
            | Some (src_iface, c) \<Rightarrow>
                Some (addr @ [pkt_ptype packet,
                        (if pkt_dest_node packet = replicate 6 0xFF then 1 else 0) OR
                        (if src_iface \<noteq> None then 2 else 0)],
                      st\<lparr>g_ifaces := c\<rparr>))
         else Some (addr, st))"

text \<open>
  The result: the size of the packet or -1, what was written to the front of \<open>buf\<close> and of \<open>addr\<close>.
  \<open>addr = None\<close> is a null pointer, otherwise it is the size of the address buffer.
\<close>

type_synonym 'st recv_ret = "int \<times> bytes \<times> bytes \<times> 'st"

definition recv_packet ::
  "('w, 's) genv \<Rightarrow> (nat \<Rightarrow> ('w, 's, 'z) wstate_scheme rx_event) \<Rightarrow> nat \<Rightarrow> ipx_socket \<Rightarrow> int \<Rightarrow> bool \<Rightarrow> u32 option
     \<Rightarrow> ('w, 's, 'z) wstate_scheme \<Rightarrow> ('w, 's, 'z) wstate_scheme recv_ret option" where
  "recv_packet env rx fd sock bufsize peek addr st =
     (if \<not> flag_set (sk_flags sock) IPX_BOUND then Some (-1, [], [], set_error WSAEINVAL (unlock_sockets st))
      else
        case recv_wait rx 0 fd st of
          None \<Rightarrow> None
        | Some (False, st) \<Rightarrow> Some (-1, [], [], st)
        | Some (True, st) \<Rightarrow>
            (case hash_find (g_sockets st) fd of
               None \<Rightarrow> None
             | Some sock \<Rightarrow>
                 (case w_queues st (sk_recv_queue sock) of
                    None \<Rightarrow> None
                  | Some q \<Rightarrow>
                      let packet = rq_data q ! recv_queue_front q; size = unat (pkt_size packet) in
                      case (case addr of
                              None \<Rightarrow> Some ([], st)
                            | Some addrlen \<Rightarrow> recv_address env packet sock addrlen st) of
                        None \<Rightarrow> None
                      | Some (addr, st) \<Rightarrow>
                          if bufsize < 0 then None
                          else
                            let st = (if peek then st
                                      else set_queue (sk_recv_queue sock) (Some (recv_queue_pop q)) st)
                            in Some (int size, take (min size (nat bufsize)) (pkt_data packet), addr,
                                     unlock_sockets st))))"

subsection \<open>The functions of the API\<close>

text \<open>What an unwrapped receive returned: an error, or its value and what it wrote.\<close>

definition sys_recv ::
  "u32 + (int \<times> bytes \<times> bytes) \<Rightarrow> ('w, 's, 'z) wstate_scheme \<Rightarrow> ('w, 's, 'z) wstate_scheme recv_ret" where
  "sys_recv r st = (case r of Inl err \<Rightarrow> (-1, [], [], set_error err st) | Inr (v, out, addr) \<Rightarrow> (v, out, addr, st))"

text \<open>
  \<open>addr\<close> says whether the application passed a buffer for the address, \<open>addrlen\<close> is the size it
  passed, if it did; the new size is the last result.
\<close>

definition recvfrom ::
  "('w, 's) genv \<Rightarrow> (nat \<Rightarrow> ('w, 's, 'z) wstate_scheme rx_event) \<Rightarrow> nat \<Rightarrow> int \<Rightarrow> bool \<Rightarrow> bool \<Rightarrow> u32 option
     \<Rightarrow> u32 + (int \<times> bytes \<times> bytes) \<Rightarrow> ('w, 's, 'z) wstate_scheme
     \<Rightarrow> (('w, 's, 'z) wstate_scheme recv_ret \<times> u32 option) option" where
  "recvfrom env rx fd len peek addr addrlen r st =
     (case get_socket fd st of
        (None, st) \<Rightarrow> Some (sys_recv r st, addrlen)
      | (Some sock, st) \<Rightarrow>
          if flag_set (sk_flags sock) IPX_IS_SPX then Some (sys_recv r (unlock_sockets st), addrlen)
          else if addr \<and> (case addrlen of None \<Rightarrow> False | Some al \<Rightarrow> al < of_nat SOCKADDR_IPX_SIZE)
          then Some ((-1, [], [], set_error WSAEFAULT (unlock_sockets st)), addrlen)
          else
            case recv_packet env rx fd sock len peek
                   (if addr then Some (case addrlen of None \<Rightarrow> 0 | Some al \<Rightarrow> al) else None) st of
              None \<Rightarrow> None
            | Some (rval, out, ad, st) \<Rightarrow>
                let addrlen' = (if rval \<ge> 0 \<and> addr
                                then map_option (\<lambda>al. of_nat
                                       (if al \<ge> of_nat SOCKADDR_IPX_EXT_SIZE \<and> flag_set (sk_flags sock) IPX_EXT_ADDR
                                        then SOCKADDR_IPX_EXT_SIZE else SOCKADDR_IPX_SIZE)) addrlen
                                else addrlen)
                in if rval > len then Some ((-1, out, ad, set_error WSAEMSGSIZE st), addrlen')
                   else Some ((rval, out, ad, st), addrlen'))"

definition recv ::
  "('w, 's) genv \<Rightarrow> (nat \<Rightarrow> ('w, 's, 'z) wstate_scheme rx_event) \<Rightarrow> nat \<Rightarrow> int \<Rightarrow> bool
     \<Rightarrow> u32 + (int \<times> bytes \<times> bytes) \<Rightarrow> ('w, 's, 'z) wstate_scheme \<Rightarrow> ('w, 's, 'z) wstate_scheme recv_ret option" where
  "recv env rx fd len peek r st =
     (case get_socket fd st of
        (None, st) \<Rightarrow> Some (sys_recv r st)
      | (Some sock, st) \<Rightarrow>
          if flag_set (sk_flags sock) IPX_IS_SPX then Some (sys_recv r (unlock_sockets st))
          else
            case recv_packet env rx fd sock len peek None st of
              None \<Rightarrow> None
            | Some (rval, out, ad, st) \<Rightarrow>
                if rval > len then Some (-1, out, ad, set_error WSAEMSGSIZE st) else Some (rval, out, ad, st))"

text \<open>The new value of \<open>flags\<close> is the last result.\<close>

definition MSG_PARTIAL :: u32 where "MSG_PARTIAL = 0x8000"

definition WSARecvEx ::
  "('w, 's) genv \<Rightarrow> (nat \<Rightarrow> ('w, 's, 'z) wstate_scheme rx_event) \<Rightarrow> nat \<Rightarrow> int \<Rightarrow> u32
     \<Rightarrow> u32 + (int \<times> bytes \<times> bytes) \<Rightarrow> u32 \<Rightarrow> ('w, 's, 'z) wstate_scheme
     \<Rightarrow> (('w, 's, 'z) wstate_scheme recv_ret \<times> u32) option" where
  "WSARecvEx env rx fd len flags r r_flags st =
     (case get_socket fd st of
        (None, st) \<Rightarrow> Some (sys_recv r st, r_flags)
      | (Some sock, st) \<Rightarrow>
          if flag_set (sk_flags sock) IPX_IS_SPX then Some (sys_recv r (unlock_sockets st), r_flags)
          else
            case recv_packet env rx fd sock len False None st of
              None \<Rightarrow> None
            | Some (rval, out, ad, st) \<Rightarrow>
                if rval > len then Some ((len, out, ad, st), MSG_PARTIAL)
                else if rval \<noteq> -1 then Some ((rval, out, ad, st), 0)
                else Some ((rval, out, ad, st), flags))"

text \<open>Everything that waits in the underlying socket is moved to the queue.\<close>

definition FIONREAD :: u32 where "FIONREAD = 0x4004667F"

partial_function (option) pump_all ::
  "(nat \<Rightarrow> ('w, 's, 'z) wstate_scheme rx_event) \<Rightarrow> (nat \<Rightarrow> u32 + u32) \<Rightarrow> nat \<Rightarrow> nat
     \<Rightarrow> ('w, 's, 'z) wstate_scheme \<Rightarrow> (bool \<times> ('w, 's, 'z) wstate_scheme) option" where
  "pump_all rx available i fd st =
     (case hash_find (g_sockets st) fd of
        None \<Rightarrow> None
      | Some sock \<Rightarrow>
          (case recv_pump (rx i) (Some (available i)) fd sock st of
             None \<Rightarrow> None
           | Some (r, st') \<Rightarrow>
               if r < 0 then Some (False, st')
               else if r = 0 then Some (True, st')
               else pump_all rx available (Suc i) fd st'))"

definition ioctlsocket ::
  "(nat \<Rightarrow> ('w, 's, 'z) wstate_scheme rx_event) \<Rightarrow> (nat \<Rightarrow> u32 + u32) \<Rightarrow> nat \<Rightarrow> u32 \<Rightarrow> u32
     \<Rightarrow> u32 + (int \<times> u32) \<Rightarrow> ('w, 's, 'z) wstate_scheme \<Rightarrow> (int \<times> u32 \<times> ('w, 's, 'z) wstate_scheme) option" where
  "ioctlsocket rx available fd cmd argp r st =
     (let unwrapped = (\<lambda>st. case r of
                          Inl err \<Rightarrow> (-1, argp, set_error err st)
                        | Inr (v, arg) \<Rightarrow> (v, arg, st))
      in case get_socket fd st of
           (None, st) \<Rightarrow> Some (unwrapped st)
         | (Some sock, st) \<Rightarrow>
             if cmd = FIONREAD \<and> \<not> flag_set (sk_flags sock) IPX_IS_SPX then
               (case pump_all rx available 0 fd st of
                  None \<Rightarrow> None
                | Some (False, st) \<Rightarrow> Some (-1, argp, st)
                | Some (True, st) \<Rightarrow>
                    (case map_option (\<lambda>s. w_queues st (sk_recv_queue s)) (hash_find (g_sockets st) fd) of
                       Some (Some q) \<Rightarrow>
                         Some (0, (\<Sum>s \<leftarrow> rq_slots q. ucast (pkt_size (rq_data q ! s))), unlock_sockets st)
                     | _ \<Rightarrow> None))
             else Some (unwrapped (unlock_sockets st)))"

text \<open>
  Sets of descriptors as the system's macros treat them. \<open>r_select\<close> is what the unwrapped function
  returns, and the set it leaves, when the timeout is zero or the application's.
\<close>

definition FD_SETSIZE :: nat where "FD_SETSIZE = 64"

definition FD_SET :: "nat \<Rightarrow> nat list \<Rightarrow> nat list" where
  "FD_SET fd fds = (if fd \<in> set fds \<or> \<not> length fds < FD_SETSIZE then fds else fds @ [fd])"

definition select_forced :: "nat list \<Rightarrow> ('w, 's, 'z) wstate_scheme \<Rightarrow> (nat list \<times> bool) option" where
  "select_forced readfds st =
     foldl (\<lambda>acc fd. case acc of
              None \<Rightarrow> None
            | Some (force, immediate) \<Rightarrow>
                (case hash_find (g_sockets st) fd of
                   None \<Rightarrow> Some (force, immediate)
                 | Some sock \<Rightarrow>
                     if flag_set (sk_flags sock) IPX_IS_SPX then Some (force, immediate)
                     else
                       case w_queues st (sk_recv_queue sock) of
                         None \<Rightarrow> None
                       | Some q \<Rightarrow>
                           if rq_n_ready q > 0 then Some (FD_SET fd force, True) else Some (force, immediate)))
       (Some ([], False)) readfds"

definition select ::
  "nat list option \<Rightarrow> (bool \<Rightarrow> int \<times> nat list) \<Rightarrow> ('w, 's, 'z) wstate_scheme \<Rightarrow> (int \<times> nat list) option" where
  "select readfds r_select st =
     (case select_forced (case readfds of None \<Rightarrow> [] | Some fds \<Rightarrow> fds) st of
        None \<Rightarrow> None
      | Some (force, immediate) \<Rightarrow>
          let (r, fds) = r_select immediate in
          if r \<ge> 0
          then Some (foldl (\<lambda>(r, fds) fd. if fd \<notin> set fds then (r + 1, FD_SET fd fds) else (r, fds)) (r, fds) force)
          else Some (r, fds))"

end
