(* ===== verification/SocketTable.thy ===== *)
theory SocketTable
  imports Bind Receive
begin

text \<open>
  What holds of the table of sockets between two calls of the API, as a property of the parts of
  the state it speaks of (the table as a map, the receive queues, the handles of mutexes, the next
  handle), and how the elementary changes of these parts keep it.
\<close>

definition addr_ok :: "sockaddr_ipx \<Rightarrow> bool" where
  "addr_ok a \<longleftrightarrow> sa_family a = AF_IPX \<and> length (sa_netnum a) = 4 \<and> length (sa_nodenum a) = 6"

text \<open>The socket holds a reference on its queue, and every receive in progress holds another.\<close>

definition queue_ok :: "recv_queue \<Rightarrow> bool" where
  "queue_ok q \<longleftrightarrow> rq_inv q \<and> int (card (rq_locked q)) < rq_refcount q"

abbreviation is_spx :: "ipx_socket \<Rightarrow> bool" where "is_spx s \<equiv> flag_set (sk_flags s) IPX_IS_SPX"
abbreviation is_bound :: "ipx_socket \<Rightarrow> bool" where "is_bound s \<equiv> flag_set (sk_flags s) IPX_BOUND"
abbreviation is_connected :: "ipx_socket \<Rightarrow> bool" where "is_connected s \<equiv> flag_set (sk_flags s) IPX_CONNECTED"

definition sock_ok :: "(nat \<Rightarrow> recv_queue option) \<Rightarrow> (nat \<times> u16) list \<Rightarrow> ipx_socket \<Rightarrow> bool" where
  "sock_ok Q M s \<longleftrightarrow>
     (is_spx s \<longrightarrow> sk_recv_queue s = 0) \<and>
     (\<not> is_spx s \<longrightarrow> sk_recv_queue s \<noteq> 0 \<and> (\<exists>q. Q (sk_recv_queue s) = Some q \<and> queue_ok q)) \<and>
     (is_bound s \<longrightarrow> map_of M (sk_sock_mut s) = Some (ntohs (sa_socket (sk_addr s))) \<and> addr_ok (sk_addr s)) \<and>
     (is_connected s \<longrightarrow> addr_ok (sk_remote_addr s))"

text \<open>No two sockets share a queue or a handle.\<close>

definition separate :: "ipx_socket \<Rightarrow> ipx_socket \<Rightarrow> bool" where
  "separate s s' \<longleftrightarrow>
     (\<not> is_spx s \<and> \<not> is_spx s' \<longrightarrow> sk_recv_queue s \<noteq> sk_recv_queue s') \<and>
     (is_bound s \<and> is_bound s' \<longrightarrow> sk_sock_mut s \<noteq> sk_sock_mut s')"

lemma separate_sym: "separate s s' \<Longrightarrow> separate s' s"
  by (auto simp: separate_def)

definition handles_ok :: "(nat \<times> u16) list \<Rightarrow> nat \<Rightarrow> bool" where
  "handles_ok M N \<longleftrightarrow> 0 < N \<and> distinct (map fst M) \<and> (\<forall>h \<in> fst ` set M. h < N)"

definition table_ok ::
  "(nat \<Rightarrow> ipx_socket option) \<Rightarrow> (nat \<Rightarrow> recv_queue option) \<Rightarrow> (nat \<times> u16) list \<Rightarrow> nat \<Rightarrow> bool" where
  "table_ok T Q M N \<longleftrightarrow>
     handles_ok M N \<and> (\<forall>fd s. T fd = Some s \<longrightarrow> sock_ok Q M s) \<and>
     (\<forall>fd fd' s s'. T fd = Some s \<longrightarrow> T fd' = Some s' \<longrightarrow> fd \<noteq> fd' \<longrightarrow> separate s s')"

definition api_ok :: "('w, 's, 'z) wstate_scheme \<Rightarrow> bool" where
  "api_ok st \<longleftrightarrow>
     distinct (map fst (g_sockets st)) \<and>
     table_ok (hash_find (g_sockets st)) (w_queues st) (w_mutexes st) (w_next_handle st)"

subsection \<open>Changes of the table\<close>

lemma handles_fresh: "handles_ok M N \<Longrightarrow> map_of M N = None"
  by (force simp: handles_ok_def map_of_eq_None_iff)

lemma handles_add: "handles_ok M N \<Longrightarrow> handles_ok ((N, n) # M) (N + 1)"
  by (force simp: handles_ok_def less_Suc_eq)

lemma handles_close: "handles_ok M N \<Longrightarrow> handles_ok (filter (\<lambda>m. fst m \<noteq> h) M) N"
  by (auto simp: handles_ok_def distinct_map intro: inj_on_subset)

lemma handles_Suc: "handles_ok M N \<Longrightarrow> handles_ok M (N + 1)"
  by (force simp: handles_ok_def less_Suc_eq)

lemma map_of_close: "map_of (filter (\<lambda>m. fst m \<noteq> h) M) k = (if k = h then None else map_of M k)"
  by (induction M) auto

lemma table_sock: "table_ok T Q M N \<Longrightarrow> T fd = Some s \<Longrightarrow> sock_ok Q M s"
  by (simp add: table_ok_def)

lemma table_separate:
  "table_ok T Q M N \<Longrightarrow> T fd = Some s \<Longrightarrow> T fd' = Some s' \<Longrightarrow> fd \<noteq> fd' \<Longrightarrow> separate s s'"
  by (simp add: table_ok_def)

lemma table_set:
  assumes "table_ok T Q M N" and "sock_ok Q M s'"
    and "\<And>fd' s2. T fd' = Some s2 \<Longrightarrow> fd' \<noteq> fd \<Longrightarrow> separate s' s2"
  shows "table_ok (T(fd \<mapsto> s')) Q M N"
  using assms by (auto simp: table_ok_def split: if_splits intro: separate_sym)

lemma table_update:
  assumes t: "table_ok T Q M N" and s: "T fd = Some s" and ok: "sock_ok Q M s'"
    and "is_spx s' = is_spx s" "sk_recv_queue s' = sk_recv_queue s"
    and "is_bound s' \<Longrightarrow> is_bound s \<and> sk_sock_mut s' = sk_sock_mut s"
  shows "table_ok (T(fd \<mapsto> s')) Q M N"
proof (rule table_set [OF t ok])
  fix fd' s2 assume "T fd' = Some s2" "fd' \<noteq> fd"
  with table_separate [OF t s, of fd' s2] assms(4-6) show "separate s' s2" by (auto simp: separate_def)
qed

lemma sock_ok_mono:
  assumes "sock_ok Q M s" and "\<And>h n. map_of M h = Some n \<Longrightarrow> map_of M' h = Some n"
  shows "sock_ok Q M' s"
  using assms by (auto simp: sock_ok_def)

lemma table_mutex:
  assumes "table_ok T Q M N"
  shows "table_ok T Q ((N, n) # M) (N + 1)"
proof -
  have fresh: "map_of M N = None" using assms handles_fresh by (simp add: table_ok_def)
  have "sock_ok Q ((N, n) # M) s" if "T fd = Some s" for fd s
    by (rule sock_ok_mono [OF table_sock [OF assms that]]) (use fresh in auto)
  with assms handles_add [of M N n] show ?thesis by (simp add: table_ok_def)
qed

lemma table_next: "table_ok T Q M N \<Longrightarrow> table_ok T Q M (N + 1)"
  using handles_Suc [of M N] by (simp add: table_ok_def)

text \<open>A socket becomes bound with a new handle.\<close>

lemma table_bind:
  assumes t: "table_ok T Q M N" and s: "T fd = Some s"
    and ok: "sock_ok Q ((N, n) # M) s'" and "is_spx s' = is_spx s" "sk_recv_queue s' = sk_recv_queue s"
    and "sk_sock_mut s' = N"
  shows "table_ok (T(fd \<mapsto> s')) Q ((N, n) # M) (N + 1)"
proof (rule table_set [OF table_mutex [OF t] ok])
  fix fd' s2 assume s2: "T fd' = Some s2" "fd' \<noteq> fd"
  from table_sock [OF t s2(1)] handles_fresh [of M N] t
  have "is_bound s2 \<Longrightarrow> sk_sock_mut s2 \<noteq> N" by (auto simp: sock_ok_def table_ok_def)
  with table_separate [OF t s s2(1)] s2(2) assms(4-6) show "separate s' s2" by (auto simp: separate_def)
qed

text \<open>A handle that no socket uses any more is closed.\<close>

lemma table_close:
  assumes t: "table_ok T Q M N" and un: "\<And>fd s. T fd = Some s \<Longrightarrow> is_bound s \<Longrightarrow> sk_sock_mut s \<noteq> h"
  shows "table_ok T Q (filter (\<lambda>m. fst m \<noteq> h) M) N"
proof -
  have "sock_ok Q (filter (\<lambda>m. fst m \<noteq> h) M) s" if "T fd = Some s" for fd s
    using table_sock [OF t that] un [OF that] by (auto simp: sock_ok_def map_of_close)
  with t handles_close show ?thesis by (auto simp: table_ok_def)
qed

lemma table_del:
  assumes "table_ok T Q M N"
  shows "table_ok (T(fd := None)) Q M N"
  using assms by (simp add: table_ok_def split: if_splits)

text \<open>A new socket; the queue of a datagram socket is new as well.\<close>

lemma table_add:
  assumes t: "table_ok T Q M N" and ok: "sock_ok Q M s"
    and "\<not> is_spx s \<Longrightarrow> (\<And>fd' s'. T fd' = Some s' \<Longrightarrow> \<not> is_spx s' \<Longrightarrow> sk_recv_queue s' \<noteq> sk_recv_queue s)"
    and "is_bound s \<Longrightarrow> (\<And>fd' s'. T fd' = Some s' \<Longrightarrow> is_bound s' \<Longrightarrow> sk_sock_mut s' \<noteq> sk_sock_mut s)"
  shows "table_ok (T(fd \<mapsto> s)) Q M N"
  by (rule table_set [OF t ok]) (use assms(3,4) in \<open>fastforce simp: separate_def\<close>)

lemma table_queue:
  assumes t: "table_ok T Q M N" and q: "\<And>fd s. T fd = Some s \<Longrightarrow> \<not> is_spx s \<Longrightarrow> sk_recv_queue s = p \<Longrightarrow>
      \<exists>q. q' = Some q \<and> queue_ok q"
  shows "table_ok T (Q(p := q')) M N"
proof -
  have "sock_ok (Q(p := q')) M s" if "T fd = Some s" for fd s
    using table_sock [OF t that] q [OF that] by (auto simp: sock_ok_def)
  with t show ?thesis by (simp add: table_ok_def)
qed

lemma queue_okI:
  assumes "rq_inv q'" "int (card (rq_locked q')) < rq_refcount q'"
  shows "queue_ok q'"
  using assms by (simp add: queue_ok_def)

subsection \<open>Changes outside the table\<close>

text \<open>What sending, counting and looking up interfaces leave alone.\<close>

definition same_sockets :: "('w, 's, 'z) wstate_scheme \<Rightarrow> ('w, 's, 'z) wstate_scheme \<Rightarrow> bool" where
  "same_sockets st st' \<longleftrightarrow>
     g_sockets st' = g_sockets st \<and> w_queues st' = w_queues st \<and> w_mutexes st' = w_mutexes st \<and>
     w_next_handle st' = w_next_handle st \<and> w_lock st' = w_lock st \<and> w_foreign st' = w_foreign st \<and>
     wstate.more st' = wstate.more st"

lemma same_sockets_trans: "same_sockets a b \<Longrightarrow> same_sockets b c \<Longrightarrow> same_sockets a c"
  by (simp add: same_sockets_def)

lemma same_sockets_simps [simp]:
  fixes st :: "('w, 's, 'z) wstate_scheme"
  shows "same_sockets st st" "same_sockets st (set_error err st)" "same_sockets st (st\<lparr>g_ifaces := c\<rparr>)"
    "same_sockets st (snd (udp_sendto e fd to dat st))" "same_sockets st (count_recv k st)"
    "same_sockets st (count_send k st)" "same_sockets st (count_send_udp k st)"
    "same_sockets st (st\<lparr>n_sent := l\<rparr>)" "same_sockets st (st\<lparr>w_packet_rate := pr, w_byte_rate := br\<rparr>)"
  by (simp_all add: same_sockets_def udp_sendto_def count_recv_def count_send_def count_send_udp_def Let_def)

lemma same_sockets_ok: "same_sockets st st' \<Longrightarrow> api_ok st' \<longleftrightarrow> api_ok st"
  by (simp add: same_sockets_def api_ok_def)

lemma deliver_loop_same:
  fixes g g' :: "('w, 's, 'z) wstate_scheme"
  assumes "deliver_loop env ty sn sd ss dn dd ds dat socks g = Some g'"
  shows "same_sockets g g'"
  using assms
proof (induction socks arbitrary: g)
  case (Cons e socks)
  obtain fd s where e: "e = (fd, s)" by (cases e)
  show ?case
  proof (cases "deliver_to (mc_w95_bug (e_config env)) ty sn sd ss dn dd ds s \<and> e_pkt_mem env fd")
    case False
    with Cons show ?thesis by (auto simp: e split: if_splits)
  next
    case True
    then obtain d where d: "dat = Some d" using Cons.prems by (auto simp: e split: option.splits)
    let ?send = "udp_sendto (e_send_err env) (e_private_socket env) (loopback_addr (sk_port s))
                   (relay_packet ty sn sd ss dn dd ds d) g"
    let ?g = "if fst ?send = 0 then count_recv (length d) (snd ?send) else snd ?send"
    have "deliver_loop env ty sn sd ss dn dd ds dat socks ?g = Some g'"
      using Cons.prems True by (simp add: e d Let_def split_beta)
    from Cons.IH [OF this] show ?thesis
      by (rule same_sockets_trans [rotated]) (simp add: same_sockets_trans [OF same_sockets_simps(4,5)])
  qed
qed simp

lemma deliver_packet_same:
  fixes g g' :: "('w, 's, 'z) wstate_scheme"
  shows "deliver_packet env ty sn sd ss dn dd ds dat g = Some g' \<Longrightarrow> same_sockets g g'"
  by (simp add: deliver_packet_def deliver_loop_same)

subsection \<open>An example\<close>

text \<open>A process with one socket, descriptor 8, whose queue is empty.\<close>

definition sample_w :: "u32 \<Rightarrow> (unit, nat) wstate" where
  "sample_w encap = gstate.extend (sample_g encap DOSBOX_CONNECTED)
     \<lparr>w_queues = [1 \<mapsto> sample_rq], w_lock = 0, w_mutexes = [(0, 0x5000)], w_foreign = [], w_next_handle = 1,
      w_packet_rate = rl_init, w_byte_rate = rl_init\<rparr>"

lemma sample_w_sel [simp]:
  "g_sockets (sample_w e) = [(8, sample_socket)]" "w_queues (sample_w e) = [1 \<mapsto> sample_rq]"
  "w_mutexes (sample_w e) = [(0, 0x5000)]" "w_next_handle (sample_w e) = 1" "w_lock (sample_w e) = 0"
  "w_foreign (sample_w e) = []"
  by (simp_all add: sample_w_def sample_g_simps gstate.extend_def)

lemma sample_rq_ok: "queue_ok sample_rq" "rq_n_ready sample_rq = 0" "rq_locked sample_rq = {}"
  using sample_rq_inv by (simp_all add: queue_ok_def) (simp_all add: sample_rq_def new_recv_queue_def)

lemma sample_socket_sel:
  "\<not> is_spx sample_socket" "is_bound sample_socket" "\<not> is_connected sample_socket"
  "\<not> flag_set (sk_flags sample_socket) IPX_EXT_ADDR" "sk_recv_queue sample_socket = 1"
  by (simp_all add: sample_socket_def flag_set_def ipx_flags)

lemma sample_w_ok: "api_ok (sample_w e)"
  using sample_rq_ok sample_socket_sel
  by (simp add: api_ok_def table_ok_def handles_ok_def sock_ok_def hash_find_def)
    (simp add: sample_socket_def addr_ok_def)

end
