(* ===== verification/Receiving.thy ===== *)
theory Receiving
  imports SocketTable
begin

text \<open>
  What the receive functions guarantee: they keep the table of sockets well-formed, they return
  unless every buffer of the queue is taken by other receives, and they return the packets the
  router relays.
\<close>

lemma api_ok_cong:
  fixes st st' :: "('w, 's, 'z) wstate_scheme"
  assumes "g_sockets st' = g_sockets st" "w_queues st' = w_queues st" "w_mutexes st' = w_mutexes st"
    "w_next_handle st' = w_next_handle st"
  shows "api_ok st' \<longleftrightarrow> api_ok st"
  using assms by (simp add: api_ok_def)

lemma api_ok_simps [simp]:
  fixes st :: "('w, 's, 'z) wstate_scheme"
  shows "api_ok (lock_sockets st) \<longleftrightarrow> api_ok st" "api_ok (unlock_sockets st) \<longleftrightarrow> api_ok st"
    "api_ok (set_error err st) \<longleftrightarrow> api_ok st" "api_ok (st\<lparr>g_ifaces := c\<rparr>) \<longleftrightarrow> api_ok st"
  by (simp_all add: api_ok_def)

lemma set_queue_simps [simp]:
  "g_sockets (set_queue p q st) = g_sockets st" "w_queues (set_queue p q st) = (w_queues st)(p := q)"
  "w_mutexes (set_queue p q st) = w_mutexes st" "w_next_handle (set_queue p q st) = w_next_handle st"
  "w_lock (set_queue p q st) = w_lock st" "g_ifaces (set_queue p q st) = g_ifaces st"
  "wstate.more (set_queue p q st) = wstate.more st"
  by (simp_all add: set_queue_def)

lemma api_ok_sock: "api_ok st \<Longrightarrow> hash_find (g_sockets st) fd = Some s \<Longrightarrow> sock_ok (w_queues st) (w_mutexes st) s"
  by (auto simp: api_ok_def dest: table_sock)

lemma api_ok_queue:
  "api_ok st \<Longrightarrow> hash_find (g_sockets st) fd = Some s \<Longrightarrow> \<not> is_spx s \<Longrightarrow>
     \<exists>q. w_queues st (sk_recv_queue s) = Some q \<and> queue_ok q"
  by (auto dest: api_ok_sock simp: sock_ok_def)

lemma api_ok_set_queue:
  assumes "api_ok st" and "\<And>fd s. hash_find (g_sockets st) fd = Some s \<Longrightarrow> \<not> is_spx s \<Longrightarrow> sk_recv_queue s = p \<Longrightarrow>
      \<exists>q. q' = Some q \<and> queue_ok q"
  shows "api_ok (set_queue p q' st)"
  using assms table_queue [of "hash_find (g_sockets st)"] by (simp add: api_ok_def)

lemma release_queue_at_eq:
  "w_queues st p = Some q \<Longrightarrow> release_queue_at p st = Some (set_queue p (release_recv_queue q) st)"
  by (simp add: release_queue_at_def set_queue_def)

lemma release_queue_ok:
  assumes "rq_inv q" and "int (card (rq_locked q)) + 1 < rq_refcount q"
  shows "\<exists>q'. release_recv_queue q = Some q' \<and> queue_ok q'"
proof -
  have "rq_inv (recv_queue_adjust_refcount (-1) q)" "rq_locked (recv_queue_adjust_refcount (-1) q) = rq_locked q"
    using assms(1) by (simp_all add: rq_inv_def rq_slots_def rq_locked_def recv_queue_adjust_refcount_def)
  with assms show ?thesis
    by (simp add: release_recv_queue_def queue_ok_def Let_def) (simp add: recv_queue_adjust_refcount_def)
qed

lemma refcount_simps [simp]:
  "rq_refcount (recv_queue_abort s q) = rq_refcount q" "rq_refcount (recv_queue_fill s d q) = rq_refcount q"
  "rq_refcount (recv_queue_pop q) = rq_refcount q"
  by (simp_all add: recv_queue_abort_def recv_queue_fill_def recv_queue_pop_def Let_def)

lemma refcount_commit: "recv_queue_commit s r q = Some q' \<Longrightarrow> rq_refcount q' = rq_refcount q"
  by (auto simp: recv_queue_commit_def split: if_splits)

lemma refcount_claim: "recv_queue_claim q = Some (s, q') \<Longrightarrow> rq_refcount q' = rq_refcount q + 1"
  by (auto simp: recv_queue_claim_def recv_queue_adjust_refcount_def split: option.splits)

lemma n_ready_commit: "recv_queue_commit s r q = Some q' \<Longrightarrow> 0 < rq_n_ready q'"
  by (auto simp: recv_queue_commit_def split: if_splits)

text \<open>
  What a receive relies on while it waits without the lock: the other threads keep the table
  well-formed and do not touch the buffer it has claimed, and a structure at the address of this
  socket that is still under this descriptor is this socket.
\<close>

definition rx_rely ::
  "nat \<Rightarrow> ipx_socket \<Rightarrow> nat \<Rightarrow> ('w, 's, 'z) wstate_scheme \<Rightarrow> ('w, 's, 'z) wstate_scheme \<Rightarrow> bool" where
  "rx_rely fd sock slot st st' \<longleftrightarrow>
     api_ok st' \<and> w_lock st' = w_lock st \<and> wstate.more st' = wstate.more st \<and>
     (\<exists>q. w_queues st' (sk_recv_queue sock) = Some q \<and> rq_inv q \<and> slot \<in> rq_locked q) \<and>
     (\<forall>fd' s. hash_find (g_sockets st') fd' = Some s \<longrightarrow> \<not> is_spx s \<longrightarrow> sk_recv_queue s = sk_recv_queue sock \<longrightarrow>
        fd' = fd \<and> sk_ptr s = sk_ptr sock) \<and>
     (\<forall>s. hash_find (g_sockets st') fd = Some s \<longrightarrow> sk_ptr s = sk_ptr sock \<longrightarrow>
        \<not> is_spx s \<and> sk_recv_queue s = sk_recv_queue sock)"

definition well_behaved :: "nat \<Rightarrow> ('w, 's, 'z) wstate_scheme rx_event \<Rightarrow> bool" where
  "well_behaved fd ev \<longleftrightarrow>
     (\<forall>d. rx_recv ev = Inr d \<longrightarrow> length d \<le> MAX_PKT_SIZE) \<and>
     (\<forall>st sock slot q. api_ok st \<longrightarrow> hash_find (g_sockets st) fd = Some sock \<longrightarrow> \<not> is_spx sock \<longrightarrow>
        w_queues st (sk_recv_queue sock) = Some q \<longrightarrow> slot \<in> rq_locked q \<longrightarrow>
        rx_rely fd sock slot st (rx_others ev st))"

subsection \<open>A pump\<close>

lemma claim_queue_ok:
  assumes "queue_ok q" and "recv_queue_claim q = Some (s, q')"
  shows "queue_ok q'" "s \<in> rq_locked q'"
proof -
  have "rq_inv q'" "s \<notin> rq_locked q" "rq_locked q' = insert s (rq_locked q)"
    using rq.claim [of q s q'] assms by (auto simp: queue_ok_def)
  then show "queue_ok q'" "s \<in> rq_locked q'"
    using assms refcount_claim [OF assms(2)] by (simp_all add: queue_ok_def rq_locked_finite)
qed

lemma with_queue_some:
  "w_queues st p = Some q \<Longrightarrow> f q = Some q' \<Longrightarrow> with_queue p f st = Some (set_queue p (Some q') st)"
  by (simp add: with_queue_def)

lemma locked_card: "s \<in> rq_locked q \<Longrightarrow> 0 < card (rq_locked q)"
  using rq_locked_finite [of q] by (auto simp: card_gt_0_iff)

text \<open>The state in which \<open>recv_pump\<close> comes back from \<open>r_recv\<close>, for the slot it has claimed.\<close>

definition received :: "nat \<Rightarrow> ipx_socket \<Rightarrow> nat \<Rightarrow> ('w, 's, 'z) wstate_scheme \<Rightarrow> bool" where
  "received fd sock slot st \<longleftrightarrow> rx_rely fd sock slot st st"

lemma received_owner:
  assumes "received fd sock slot st" and "hash_find (g_sockets st) fd = Some s" "sk_ptr s = sk_ptr sock"
  shows "\<not> is_spx s" "sk_recv_queue s = sk_recv_queue sock"
    "\<exists>q. w_queues st (sk_recv_queue sock) = Some q \<and> queue_ok q \<and> slot \<in> rq_locked q"
proof -
  have r: "api_ok st" "\<exists>q. w_queues st (sk_recv_queue sock) = Some q \<and> slot \<in> rq_locked q"
    using assms(1) unfolding received_def rx_rely_def by blast+
  show s: "\<not> is_spx s" "sk_recv_queue s = sk_recv_queue sock"
    using assms unfolding received_def rx_rely_def by blast+
  show "\<exists>q. w_queues st (sk_recv_queue sock) = Some q \<and> queue_ok q \<and> slot \<in> rq_locked q"
    using r(2) api_ok_queue [OF r(1) assms(2) s(1)] s(2) by auto
qed

lemma received_fill:
  assumes "received fd sock slot st" and "length d \<le> MAX_PKT_SIZE"
  shows "\<exists>q. w_queues st (sk_recv_queue sock) = Some q \<and>
    with_queue (sk_recv_queue sock) (\<lambda>q. Some (recv_queue_fill slot d q)) st =
      Some (set_queue (sk_recv_queue sock) (Some (recv_queue_fill slot d q)) st) \<and>
    received fd sock slot (set_queue (sk_recv_queue sock) (Some (recv_queue_fill slot d q)) st)"
proof -
  obtain q where q: "w_queues st (sk_recv_queue sock) = Some q" "rq_inv q" "slot \<in> rq_locked q"
    using assms(1) by (auto simp: received_def rx_rely_def)
  note f = rq.fill [OF q(2,3) assms(2)]
  let ?st = "set_queue (sk_recv_queue sock) (Some (recv_queue_fill slot d q)) st"
  have ok: "api_ok st" using assms(1) by (simp add: received_def rx_rely_def)
  have "api_ok ?st"
  proof (rule api_ok_set_queue [OF ok])
    fix fd' s assume "hash_find (g_sockets st) fd' = Some s" "\<not> is_spx s" "sk_recv_queue s = sk_recv_queue sock"
    with api_ok_queue [OF ok] q(1) have "queue_ok q" by fastforce
    with f show "\<exists>q'. Some (recv_queue_fill slot d q) = Some q' \<and> queue_ok q'" by (simp add: queue_ok_def)
  qed
  moreover have "rq_inv (recv_queue_fill slot d q)" "slot \<in> rq_locked (recv_queue_fill slot d q)"
    using f q(3) by simp_all
  moreover have "w_queues ?st (sk_recv_queue sock) = Some (recv_queue_fill slot d q)" "g_sockets ?st = g_sockets st"
    by simp_all
  ultimately have "received fd sock slot ?st"
    using assms(1) unfolding received_def rx_rely_def by metis
  then show ?thesis using q(1) by (simp add: with_queue_def)
qed

lemma release_after_abort:
  assumes "received fd sock slot st" "hash_find (g_sockets st) fd = Some s" "sk_ptr s = sk_ptr sock"
  shows "\<exists>st1 st2. with_queue (sk_recv_queue sock) (\<lambda>q. Some (recv_queue_abort slot q)) st = Some st1 \<and>
    release_queue_at (sk_recv_queue sock) st1 = Some st2 \<and> api_ok st2 \<and> w_lock st2 = w_lock st \<and> wstate.more st2 = wstate.more st"
proof -
  let ?p = "sk_recv_queue sock"
  obtain q where q: "w_queues st ?p = Some q" "queue_ok q" "slot \<in> rq_locked q"
    using received_owner [OF assms] by blast
  have a: "rq_inv (recv_queue_abort slot q)" "rq_locked (recv_queue_abort slot q) = rq_locked q - {slot}"
    using rq.abort [of q slot] q by (auto simp: queue_ok_def)
  obtain q' where q': "release_recv_queue (recv_queue_abort slot q) = Some q'" "queue_ok q'"
    using release_queue_ok [OF a(1)] q a(2) locked_card [OF q(3)]
    by (auto simp: queue_ok_def rq_locked_finite of_nat_diff)
  let ?st1 = "set_queue ?p (Some (recv_queue_abort slot q)) st"
  have "release_queue_at ?p ?st1 = Some (set_queue ?p (Some q') ?st1)"
    using release_queue_at_eq [of ?st1 ?p] q'(1) by simp
  moreover have "api_ok (set_queue ?p (Some q') ?st1)"
  proof -
    have "set_queue ?p (Some q') ?st1 = set_queue ?p (Some q') st" by (simp add: set_queue_def)
    moreover have "api_ok st" using assms(1) by (simp add: received_def rx_rely_def)
    ultimately show ?thesis using q'(2) by (simp add: api_ok_set_queue)
  qed
  ultimately show ?thesis
    using with_queue_some [OF q(1), of "\<lambda>q. Some (recv_queue_abort slot q)"] by fastforce
qed

text \<open>
  The end of a pump: it has a result, keeps the table, and keeps the lock only when it queued a
  packet.
\<close>

definition pump_result ::
  "nat \<Rightarrow> ('w, 's, 'z) wstate_scheme \<Rightarrow> (int \<times> ('w, 's, 'z) wstate_scheme) option \<Rightarrow> bool" where
  "pump_result fd st res \<longleftrightarrow>
     (\<exists>r st'. res = Some (r, st') \<and> api_ok st' \<and>
        (r < 0 \<longrightarrow> w_lock st' = w_lock st - 1 \<and> wstate.more st' = wstate.more st) \<and>
        (\<not> r < 0 \<longrightarrow> r = 1 \<and> w_lock st' = w_lock st \<and> wstate.more st' = wstate.more st \<and>
           (\<exists>s q. hash_find (g_sockets st') fd = Some s \<and> \<not> is_spx s \<and>
              w_queues st' (sk_recv_queue s) = Some q \<and> 0 < rq_n_ready q)))"

lemma received_lock: "received fd sock slot (lock_sockets st) \<longleftrightarrow> received fd sock slot st"
  by (simp add: received_def rx_rely_def)

lemma received_error: "received fd sock slot (set_error err st) \<longleftrightarrow> received fd sock slot st"
  by (simp add: received_def rx_rely_def)

lemma reclaim_gone:
  assumes "received fd sock slot st"
    and "\<And>s. hash_find (g_sockets st) fd = Some s \<Longrightarrow> sk_ptr s \<noteq> sk_ptr sock"
  shows "\<exists>st'. release_queue_at (sk_recv_queue sock) st = Some st' \<and> api_ok st' \<and> w_lock st' = w_lock st \<and> wstate.more st' = wstate.more st"
proof -
  obtain q where q: "w_queues st (sk_recv_queue sock) = Some q"
    using assms(1) unfolding received_def rx_rely_def by blast
  have "api_ok (set_queue (sk_recv_queue sock) (release_recv_queue q) st)"
  proof (rule api_ok_set_queue)
    show "api_ok st" using assms(1) unfolding received_def rx_rely_def by blast
    fix fd' s assume "hash_find (g_sockets st) fd' = Some s" "\<not> is_spx s" "sk_recv_queue s = sk_recv_queue sock"
    then have "hash_find (g_sockets st) fd = Some s \<and> sk_ptr s = sk_ptr sock"
      using assms(1) unfolding received_def rx_rely_def by blast
    with assms(2) show "\<exists>q'. release_recv_queue q = Some q' \<and> queue_ok q'" by blast
  qed
  with release_queue_at_eq [OF q] show ?thesis by simp
qed

lemma commit_keeps:
  assumes "received fd sock slot st" "hash_find (g_sockets st) fd = Some s" "sk_ptr s = sk_ptr sock"
    and "r \<le> MAX_PKT_SIZE"
  shows "\<exists>q q'. w_queues st (sk_recv_queue sock) = Some q \<and> recv_queue_commit slot r q = Some q' \<and>
    api_ok (set_queue (sk_recv_queue sock) (Some q') st) \<and> 0 < rq_n_ready q'"
proof -
  obtain q where q: "w_queues st (sk_recv_queue sock) = Some q" "queue_ok q" "slot \<in> rq_locked q"
    using received_owner [OF assms(1-3)] by blast
  obtain q' where q': "recv_queue_commit slot r q = Some q'" "rq_inv q'" "rq_locked q' = rq_locked q - {slot}"
    using rq.commit [of q slot r] q(2,3) assms(4) by (auto simp: queue_ok_def)
  have "queue_ok q'"
    using q(2,3) q'(2,3) refcount_commit [OF q'(1)] locked_card [OF q(3)]
    by (simp add: queue_ok_def rq_locked_finite of_nat_diff)
  moreover have "api_ok st" using assms(1) unfolding received_def rx_rely_def by blast
  ultimately have "api_ok (set_queue (sk_recv_queue sock) (Some q') st)" by (simp add: api_ok_set_queue)
  with q(1) q'(1) n_ready_commit [OF q'(1)] show ?thesis by blast
qed

lemma recv_pump_done_ok:
  assumes "received fd sock slot st" and r: "\<And>d. r = Inr d \<Longrightarrow> length d \<le> MAX_PKT_SIZE"
  shows "pump_result fd (lock_sockets st) (recv_pump_done (sk_ptr sock) fd (sk_recv_queue sock) slot r st)"
proof (cases "\<exists>s. hash_find (g_sockets st) fd = Some s \<and> sk_ptr s = sk_ptr sock")
  case False
  then have "reclaim_socket (sk_ptr sock) fd st = (False, st)"
    by (auto simp: reclaim_socket_def get_socket_cases split: option.splits)
  moreover obtain st' where "release_queue_at (sk_recv_queue sock) st = Some st'" "api_ok st'" "w_lock st' = w_lock st \<and> wstate.more st' = wstate.more st"
    using reclaim_gone [OF assms(1)] False by blast
  ultimately show ?thesis by (simp add: recv_pump_done_def pump_result_def)
next
  case True
  then obtain s where s: "hash_find (g_sockets st) fd = Some s" "sk_ptr s = sk_ptr sock" by blast
  have rec: "reclaim_socket (sk_ptr sock) fd st = (True, lock_sockets st)"
    by (simp add: reclaim_socket_def get_socket_cases s)
  have lk: "received fd sock slot (lock_sockets st)" "hash_find (g_sockets (lock_sockets st)) fd = Some s"
    using assms(1) s(1) by (simp_all add: received_lock)
  obtain st1 st2 where ab: "with_queue (sk_recv_queue sock) (\<lambda>q. Some (recv_queue_abort slot q)) (lock_sockets st) = Some st1"
      "release_queue_at (sk_recv_queue sock) st1 = Some st2" "api_ok st2" "w_lock st2 = w_lock st + 1 \<and> wstate.more st2 = wstate.more st"
    using release_after_abort [OF lk s(2)] by auto
  show ?thesis
  proof (cases "\<exists>d. r = Inr d \<and> valid_relayed d")
    case False
    then show ?thesis by (auto simp: recv_pump_done_def rec ab pump_result_def split: sum.splits)
  next
    case True
    then obtain d where d: "r = Inr d" "valid_relayed d" by blast
    obtain q q' where q: "w_queues (lock_sockets st) (sk_recv_queue sock) = Some q"
        "recv_queue_commit slot (length d) q = Some q'" "0 < rq_n_ready q'"
        "api_ok (set_queue (sk_recv_queue sock) (Some q') (lock_sockets st))"
      using commit_keeps [OF lk s(2) r [OF d(1)]] by blast
    have "recv_pump_done (sk_ptr sock) fd (sk_recv_queue sock) slot r st =
        Some (1, set_queue (sk_recv_queue sock) (Some q') (lock_sockets st))"
      using with_queue_some [OF q(1), of "recv_queue_commit slot (length d)", OF q(2)]
      by (simp add: recv_pump_done_def rec d)
    with q(3,4) received_owner [OF lk s(2)] s(1) show ?thesis by (simp add: pump_result_def)
  qed
qed

lemma rx_rely_received: "rx_rely fd sock slot st st' \<Longrightarrow> received fd sock slot st'"
  unfolding rx_rely_def received_def by blast

lemma rx_rely_lock: "rx_rely fd sock slot st st' \<Longrightarrow> w_lock st' = w_lock st \<and> wstate.more st' = wstate.more st"
  unfolding rx_rely_def by blast

lemma recv_pump_ok:
  assumes ok: "api_ok st" and s: "hash_find (g_sockets st) fd = Some sock" "\<not> is_spx sock"
    and wb: "well_behaved fd ev" and q: "w_queues st (sk_recv_queue sock) = Some q"
    and claim: "recv_queue_claim q = Some (slot, q1)"
    and av: "\<And>err. available \<noteq> Some (Inl err)" "available \<noteq> Some (Inr 0)"
  shows "pump_result fd st (recv_pump ev available fd sock st)"
proof -
  let ?p = "sk_recv_queue sock"
  define st1 where "st1 = unlock_sockets (set_queue ?p (Some q1) st)"
  have q_ok: "queue_ok q" using api_ok_queue [OF ok s] q by simp
  note q1 = claim_queue_ok [OF q_ok claim]
  have st1: "api_ok st1" "hash_find (g_sockets st1) fd = Some sock" "w_queues st1 ?p = Some q1"
      "w_lock st1 = w_lock st - 1 \<and> wstate.more st1 = wstate.more st"
    using api_ok_set_queue [OF ok, of ?p "Some q1"] q1(1) s(1) by (simp_all add: st1_def)
  have others_rely: "rx_rely fd sock slot st1 (rx_others ev st1)"
    using wb st1(1-3) s(2) q1(2) unfolding well_behaved_def by blast
  have others: "received fd sock slot (rx_others ev st1)" "w_lock (rx_others ev st1) = w_lock st - 1 \<and> wstate.more (rx_others ev st1) = wstate.more st"
    using rx_rely_received [OF others_rely] rx_rely_lock [OF others_rely] st1(4) by simp_all
  have len: "\<And>d. rx_recv ev = Inr d \<Longrightarrow> length d \<le> MAX_PKT_SIZE" using wb by (simp add: well_behaved_def)
  have "recv_pump ev available fd sock st =
      (case (case rx_recv ev of
               Inl err \<Rightarrow> Some (set_error err (rx_others ev st1))
             | Inr d \<Rightarrow> with_queue ?p (\<lambda>q. Some (recv_queue_fill slot d q)) (rx_others ev st1)) of
         None \<Rightarrow> None
       | Some st \<Rightarrow> recv_pump_done (sk_ptr sock) fd ?p slot (rx_recv ev) st)"
    using av q claim by (auto simp: recv_pump_def st1_def Let_def split: option.splits sum.splits)
  moreover have "\<exists>st2. (case rx_recv ev of
               Inl err \<Rightarrow> Some (set_error err (rx_others ev st1))
             | Inr d \<Rightarrow> with_queue ?p (\<lambda>q. Some (recv_queue_fill slot d q)) (rx_others ev st1)) = Some st2 \<and>
      received fd sock slot st2 \<and> w_lock st2 = w_lock st - 1 \<and> wstate.more st2 = wstate.more st"
  proof (cases "rx_recv ev")
    case (Inl err)
    with others show ?thesis by (simp add: received_error)
  next
    case (Inr d)
    with received_fill [OF others(1) len [OF Inr]] others(2) show ?thesis by auto
  qed
  then obtain st2 where st2: "(case rx_recv ev of
               Inl err \<Rightarrow> Some (set_error err (rx_others ev st1))
             | Inr d \<Rightarrow> with_queue ?p (\<lambda>q. Some (recv_queue_fill slot d q)) (rx_others ev st1)) = Some st2"
      "received fd sock slot st2" "w_lock st2 = w_lock st - 1 \<and> wstate.more st2 = wstate.more st" by blast
  ultimately have "recv_pump ev available fd sock st = recv_pump_done (sk_ptr sock) fd ?p slot (rx_recv ev) st2"
    by simp
  with recv_pump_done_ok [OF st2(2), of "rx_recv ev", OF len] st2(3) show ?thesis
    by (simp add: pump_result_def)
qed

subsection \<open>Waiting\<close>

lemma recv_wait_ready:
  "hash_find (g_sockets st) fd = Some sock \<Longrightarrow> w_queues st (sk_recv_queue sock) = Some q \<Longrightarrow> 0 < rq_n_ready q \<Longrightarrow>
     recv_wait rx i fd st = Some (True, st)"
  by (subst recv_wait.simps) simp

lemma recv_wait_pump:
  assumes ok: "api_ok st" and s: "hash_find (g_sockets st) fd = Some sock" "\<not> is_spx sock"
    and wb: "well_behaved fd (rx i)" and q: "w_queues st (sk_recv_queue sock) = Some q"
    and empty: "rq_n_ready q = 0" and claim: "recv_queue_claim q \<noteq> None"
  shows "\<exists>b st'. recv_wait rx i fd st = Some (b, st') \<and> api_ok st' \<and>
    w_lock st' = (if b then w_lock st else w_lock st - 1) \<and> wstate.more st' = wstate.more st \<and>
    (b \<longrightarrow> (\<exists>s q. hash_find (g_sockets st') fd = Some s \<and> \<not> is_spx s \<and>
              w_queues st' (sk_recv_queue s) = Some q \<and> 0 < rq_n_ready q))"
proof -
  obtain slot q1 where c: "recv_queue_claim q = Some (slot, q1)" using claim by auto
  have "pump_result fd st (recv_pump (rx i) None fd sock st)"
    by (rule recv_pump_ok [OF ok s wb q c]) simp_all
  then obtain r st' where p: "recv_pump (rx i) None fd sock st = Some (r, st')" "api_ok st'"
      "r < 0 \<Longrightarrow> w_lock st' = w_lock st - 1 \<and> wstate.more st' = wstate.more st" "\<not> r < 0 \<Longrightarrow> w_lock st' = w_lock st \<and> wstate.more st' = wstate.more st"
      "\<not> r < 0 \<Longrightarrow> \<exists>s q. hash_find (g_sockets st') fd = Some s \<and> \<not> is_spx s \<and>
         w_queues st' (sk_recv_queue s) = Some q \<and> 0 < rq_n_ready q"
    unfolding pump_result_def by blast
  have step: "recv_wait rx i fd st = (if r < 0 then Some (False, st') else recv_wait rx (Suc i) fd st')"
    by (subst recv_wait.simps) (simp add: s q empty p(1))
  show ?thesis
  proof (cases "r < 0")
    case True
    with step p(2,3) show ?thesis by (intro exI [of _ False] exI [of _ st']) simp
  next
    case False
    then obtain s q where s': "hash_find (g_sockets st') fd = Some s" "\<not> is_spx s"
        "w_queues st' (sk_recv_queue s) = Some q" "0 < rq_n_ready q" using p(5) by blast
    with False step p(2,4) recv_wait_ready [OF s'(1,3,4)] show ?thesis by auto
  qed
qed

lemma recv_wait_spins:
  assumes s: "hash_find (g_sockets st) fd = Some sock" and q: "w_queues st (sk_recv_queue sock) = Some q"
    and empty: "rq_n_ready q = 0" and claim: "recv_queue_claim q = None"
  shows "recv_wait rx i fd st = None"
proof -
  have pump: "recv_pump (rx i) None fd sock st = Some (0, st)" for i
    by (simp add: recv_pump_def q claim)
  have "rx' = rx \<longrightarrow> fd' = fd \<longrightarrow> st' = st \<longrightarrow> False" if "recv_wait rx' i' fd' st' = Some y" for rx' i' fd' st' y
    using that
    by (rule recv_wait.raw_induct
        [where P = "\<lambda>rx' i' fd' st' y. rx' = rx \<longrightarrow> fd' = fd \<longrightarrow> st' = st \<longrightarrow> False", rotated])
      (use s q empty pump in \<open>auto split: if_splits option.splits prod.splits\<close>, blast)
  then have "recv_wait rx i fd st \<noteq> Some y" for y by blast
  then show ?thesis using not_None_eq by blast
qed

lemma claim_none:
  assumes "rq_inv q" and "rq_n_ready q = 0"
  shows "recv_queue_claim q = None \<longleftrightarrow> rq_locked q = {..<RECV_QUEUE_MAX_PACKETS}"
proof -
  have "\<And>s. s < RECV_QUEUE_MAX_PACKETS \<Longrightarrow>
      rq_sizes q ! s = IPX_RECV_QUEUE_FREE \<or> rq_sizes q ! s = IPX_RECV_QUEUE_LOCKED"
    using assms unfolding rq_inv_def rq_slots_def by auto
  moreover have "recv_queue_claim q = None \<longleftrightarrow> (\<forall>s < RECV_QUEUE_MAX_PACKETS. rq_sizes q ! s \<noteq> IPX_RECV_QUEUE_FREE)"
  proof -
    have "recv_queue_claim q = None \<longleftrightarrow>
        find (\<lambda>i. rq_sizes q ! i = IPX_RECV_QUEUE_FREE) [0..<RECV_QUEUE_MAX_PACKETS] = None"
      by (simp add: recv_queue_claim_def split: option.splits)
    then show ?thesis by (auto simp: find_None_iff)
  qed
  moreover have "IPX_RECV_QUEUE_FREE \<noteq> IPX_RECV_QUEUE_LOCKED" by (simp add: rq_consts)
  ultimately have "recv_queue_claim q = None \<longleftrightarrow>
      (\<forall>s < RECV_QUEUE_MAX_PACKETS. rq_sizes q ! s = IPX_RECV_QUEUE_LOCKED)" by metis
  then show ?thesis unfolding rq_locked_def by blast
qed

text \<open>A receive on a bound datagram socket without an address buffer, up to the result.\<close>

lemma recv_packet_returns:
  assumes ok: "api_ok st" and s: "hash_find (g_sockets st) fd = Some sock" "\<not> is_spx sock" "is_bound sock"
    and wb: "well_behaved fd (rx 0)" and q: "w_queues st (sk_recv_queue sock) = Some q" and len: "0 \<le> bufsize"
  shows "recv_packet env rx fd sock bufsize peek None st = None \<longleftrightarrow>
    rq_n_ready q = 0 \<and> rq_locked q = {..<RECV_QUEUE_MAX_PACKETS}"
proof -
  have inv: "rq_inv q" using api_ok_queue [OF ok s(1,2)] q by (auto simp: queue_ok_def)
  consider "0 < rq_n_ready q" | "rq_n_ready q = 0" "recv_queue_claim q \<noteq> None"
    | "rq_n_ready q = 0" "recv_queue_claim q = None" by blast
  then show ?thesis
  proof cases
    case 1
    with recv_wait_ready [OF s(1) q] show ?thesis using s q len by (simp add: recv_packet_def Let_def)
  next
    case 2
    obtain b st' where w: "recv_wait rx 0 fd st = Some (b, st')"
        "b \<Longrightarrow> \<exists>s q. hash_find (g_sockets st') fd = Some s \<and> \<not> is_spx s \<and>
              w_queues st' (sk_recv_queue s) = Some q \<and> 0 < rq_n_ready q"
      using recv_wait_pump [where rx = rx and i = 0, OF ok s(1,2) wb q 2] by blast
    have "recv_packet env rx fd sock bufsize peek None st \<noteq> None"
    proof (cases b)
      case True
      with w(2) obtain s' q' where "hash_find (g_sockets st') fd = Some s'" "w_queues st' (sk_recv_queue s') = Some q'"
        by blast
      with True w(1) s(3) len show ?thesis by (simp add: recv_packet_def Let_def)
    next
      case False
      with w(1) s(3) show ?thesis by (simp add: recv_packet_def)
    qed
    with 2 claim_none [OF inv] show ?thesis by simp
  next
    case 3
    with recv_wait_spins [OF s(1) q 3] claim_none [OF inv] s(3) show ?thesis by (simp add: recv_packet_def)
  qed
qed


lemma recvfrom_no_address:
  "recvfrom env rx fd len peek False addrlen r st =
     map_option (\<lambda>res. (res, addrlen)) (recv env rx fd len peek r st)"
proof (cases "hash_find (g_sockets st) fd")
  case (Some s)
  then show ?thesis
    by (cases "recv_packet env rx fd s len peek None (lock_sockets st)")
      (auto simp: recvfrom_def recv_def get_socket_cases Let_def)
qed (simp add: recvfrom_def recv_def get_socket_cases)

lemma WSARecvEx_agrees:
  assumes "hash_find (g_sockets st) fd = Some sock" and "\<not> is_spx sock"
  shows "case recv_packet env rx fd sock len False None (lock_sockets st) of
      None \<Rightarrow> WSARecvEx env rx fd len flags r r_flags st = None \<and> recv env rx fd len False r st = None
    | Some (rval, out, ad, st') \<Rightarrow>
        (rval \<le> len \<longrightarrow> recv env rx fd len False r st = Some (rval, out, ad, st') \<and>
           map_option fst (WSARecvEx env rx fd len flags r r_flags st) = recv env rx fd len False r st) \<and>
        (len < rval \<longrightarrow>
           recv env rx fd len False r st = Some (-1, out, ad, set_error WSAEMSGSIZE st') \<and>
           WSARecvEx env rx fd len flags r r_flags st = Some ((len, out, ad, st'), MSG_PARTIAL))"
  using assms by (cases "recv_packet env rx fd sock len False None (lock_sockets st)")
    (auto simp: recv_def WSARecvEx_def get_socket_cases)


text \<open>A thread that is alone is well-behaved.\<close>

lemma well_behaved_id:
  fixes ev :: "('w, 's, 'z) wstate_scheme rx_event"
  assumes "rx_others ev = id" and "\<And>d. rx_recv ev = Inr d \<Longrightarrow> length d \<le> MAX_PKT_SIZE"
  shows "well_behaved fd ev"
  unfolding well_behaved_def
proof (intro conjI allI impI)
  fix st :: "('w, 's, 'z) wstate_scheme" and sock slot q
  assume h: "api_ok st" "hash_find (g_sockets st) fd = Some sock" "\<not> is_spx sock"
    "w_queues st (sk_recv_queue sock) = Some q" "slot \<in> rq_locked q"
  have "fd' = fd \<and> sk_ptr s = sk_ptr sock"
    if s: "hash_find (g_sockets st) fd' = Some s" "\<not> is_spx s" "sk_recv_queue s = sk_recv_queue sock" for fd' s
  proof (cases "fd' = fd")
    case False
    then have "separate s sock" using h(1,2) s(1) table_separate unfolding api_ok_def by blast
    with s(2,3) h(3) show ?thesis by (simp add: separate_def)
  qed (use s h(2) in simp)
  moreover have "rq_inv q" using api_ok_queue [OF h(1-3)] h(4) by (simp add: queue_ok_def)
  ultimately show "rx_rely fd sock slot st (rx_others ev st)"
    unfolding rx_rely_def assms(1) id_apply using h(1-5) option.inject by metis
qed (use assms(2) in blast)

definition alone :: "u32 + bytes \<Rightarrow> nat \<Rightarrow> ('w, 's, 'z) wstate_scheme rx_event" where
  "alone r = (\<lambda>_. \<lparr>rx_others = id, rx_recv = r\<rparr>)"

lemma sample_not_full: "rq_locked sample_rq \<noteq> {..<RECV_QUEUE_MAX_PACKETS}"
proof -
  have "0 \<in> {..<RECV_QUEUE_MAX_PACKETS}" by (simp add: RECV_QUEUE_MAX_PACKETS_def)
  with sample_rq_ok(3) show ?thesis by auto
qed

lemma sample_recv_returns: "recv_packet sample_genv (alone (Inl 10054)) 8 sample_socket 100 False None
    (lock_sockets (sample_w ENCAP_TYPE_IPXWRAPPER)) \<noteq> None"
proof -
  have "well_behaved 8 (alone (Inl 10054) 0 :: (unit, nat) wstate rx_event)"
    by (rule well_behaved_id) (simp_all add: alone_def)
  then show ?thesis
    using recv_packet_returns [of "lock_sockets (sample_w ENCAP_TYPE_IPXWRAPPER)" 8 sample_socket "alone (Inl 10054)"
        sample_rq 100 sample_genv False] sample_w_ok sample_socket_sel sample_not_full
    by (simp add: hash_find_def)
qed



end
