(* ===== verification/Relay.thy ===== *)
theory Relay
  imports Receiving
begin

text \<open>
  The router and the receive functions together: what \<open>deliver_packet\<close> sends to a socket's private
  port is what \<open>recvfrom\<close> on that socket gives the application.
\<close>

lemma take_slice: "off + n \<le> k \<Longrightarrow> slice (take k b) off n = slice b off n"
  by (simp add: slice_def drop_take min_def)

text \<open>The packet at the front of the buffer is read from the whole buffer.\<close>

lemma packet_in_buffer:
  assumes "take n b = d" and "IPX_PACKET_HEADER \<le> n"
  shows "pkt_size b = pkt_size d" "pkt_src_net b = pkt_src_net d" "pkt_src_node b = pkt_src_node d"
    "pkt_src_socket b = pkt_src_socket d" "pkt_dest_node b = pkt_dest_node d" "pkt_ptype b = pkt_ptype d"
    "take (n - IPX_PACKET_HEADER) (pkt_data b) = pkt_data d"
  using assms(2) unfolding assms(1) [symmetric]
  by (simp_all add: pkt_size_def pkt_src_net_def pkt_src_node_def pkt_src_socket_def pkt_dest_node_def
      pkt_ptype_def pkt_data_def take_slice IPX_PACKET_HEADER_def drop_take)

lemma front_buffer:
  assumes "rq_inv q" and "rq_content q = d # ds"
  shows "0 < rq_n_ready q" "take (length d) (rq_data q ! recv_queue_front q) = d"
proof -
  have ne: "rq_slots q \<noteq> []" using assms(2) by (auto simp: rq_content_def)
  then have "rq_slots q = recv_queue_front q # tl (rq_slots q)"
    by (cases "rq_ready q"; cases "rq_n_ready q") (auto simp: rq_slots_def recv_queue_front_def)
  with assms(2) have d: "d = take (nat (rq_sizes q ! recv_queue_front q)) (rq_data q ! recv_queue_front q)"
    by (metis list.inject list.simps(9) rq_content_def)
  show "take (length d) (rq_data q ! recv_queue_front q) = d" by (subst (2) d) (simp add: d min_def)
  show "0 < rq_n_ready q" using ne by (cases "rq_n_ready q") (auto simp: rq_slots_def)
qed

text \<open>A packet that is queued is returned at once, and is taken off the queue.\<close>

lemma recv_packet_front:
  assumes s: "hash_find (g_sockets st) fd = Some sock" "is_bound sock" "\<not> flag_set (sk_flags sock) IPX_EXT_ADDR"
    and w: "recv_wait rx 0 fd st' = Some (True, st)"
    and q: "w_queues st (sk_recv_queue sock) = Some q" "rq_inv q" "rq_content q = d # ds"
    and d: "valid_relayed d" and len: "0 \<le> len"
  shows "recv_packet env rx fd sock len False (Some al) st' =
    Some (int (length (pkt_data d)), take (nat len) (pkt_data d),
      sockaddr_ipx_bytes \<lparr>sa_family = AF_IPX, sa_netnum = pkt_src_net d, sa_nodenum = pkt_src_node d,
         sa_socket = pkt_src_socket d\<rparr>,
      unlock_sockets (set_queue (sk_recv_queue sock) (Some (recv_queue_pop q)) st))"
proof -
  let ?b = "rq_data q ! recv_queue_front q"
  have h: "IPX_PACKET_HEADER \<le> length d" "length (pkt_data d) = unat (pkt_size d)"
    using d by (auto simp: valid_relayed_def pkt_data_def IPX_PACKET_HEADER_def)
  note f = packet_in_buffer [OF front_buffer(2) [OF q(2,3)] h(1)]
  have "take (unat (pkt_size d)) (pkt_data ?b) = pkt_data d"
    using f(7) h by (simp add: pkt_data_def IPX_PACKET_HEADER_def)
  then have "take (min (unat (pkt_size d)) (nat len)) (pkt_data ?b) = take (nat len) (pkt_data d)"
    by (metis take_take min.commute)
  then show ?thesis
    using s w q(1) len by (simp add: recv_packet_def recv_address_def Let_def f(1-6) h(2))
qed

text \<open>A packet that arrives while the socket's queue is empty.\<close>

lemma recv_wait_arrives:
  fixes st :: "('w, 's, 'z) wstate_scheme"
  assumes s: "hash_find (g_sockets st) fd = Some sock"
    and q: "w_queues st (sk_recv_queue sock) = Some q" "rq_inv q" "rq_n_ready q = 0" "rq_locked q = {}"
    and rx: "rx_others (rx i) = id" "rx_recv (rx i) = Inr d"
    and d: "valid_relayed d" "length d \<le> MAX_PKT_SIZE"
  shows "\<exists>q'. recv_wait rx i fd st = Some (True, set_queue (sk_recv_queue sock) (Some q') st) \<and>
    rq_inv q' \<and> rq_content q' = [d]"
proof -
  let ?p = "sk_recv_queue sock"
  have "0 \<in> {..<RECV_QUEUE_MAX_PACKETS}" by (simp add: rq_consts)
  then have "recv_queue_claim q \<noteq> None" using claim_none [OF q(2,3)] q(4) by auto
  then obtain slot q1 where c: "recv_queue_claim q = Some (slot, q1)" by auto
  have "rq_content q = []" using q(3) by (simp add: rq_content_def rq_slots_def)
  then obtain q2 where q2: "recv_queue_commit slot (length d) (recv_queue_fill slot d q1) = Some q2"
      "rq_inv q2" "rq_content q2 = [d]"
    using rq.receive [OF q(2) c d(2)] by auto
  have set2: "set_queue p x (set_queue p y s) = set_queue p x s" for p x y and s :: "('w, 's, 'z) wstate_scheme"
    by (simp add: set_queue_def)
  have lk: "lock_sockets (set_queue p x (unlock_sockets s)) = set_queue p x s"
    for p x and s :: "('w, 's, 'z) wstate_scheme"
    by (simp add: set_queue_def lock_sockets_def unlock_sockets_def)
  have rec: "reclaim_socket (sk_ptr sock) fd (set_queue ?p x (unlock_sockets st)) = (True, set_queue ?p x st)" for x
    using s by (simp add: reclaim_socket_def get_socket_cases lk)
  have un: "unlock_sockets (set_queue p x s) = set_queue p x (unlock_sockets s)"
    for p x and s :: "('w, 's, 'z) wstate_scheme"
    by (simp add: set_queue_def unlock_sockets_def)
  have "recv_pump (rx i) None fd sock st = Some (1, set_queue ?p (Some q2) st)"
    using q2(1) by (simp add: recv_pump_def q(1) c rx Let_def with_queue_def set2 un recv_pump_done_def rec d(1))
  then have "recv_wait rx i fd st = recv_wait rx (Suc i) fd (set_queue ?p (Some q2) st)"
    by (subst recv_wait.simps) (simp add: s q(1,3))
  also have "\<dots> = Some (True, set_queue ?p (Some q2) st)"
    by (rule recv_wait_ready [of _ _ sock q2]) (use s front_buffer(1) [OF q2(2,3)] in simp_all)
  finally show ?thesis using q2(2,3) by blast
qed

lemma relayed_fields:
  assumes "length dat \<le> MAX_DATA_SIZE"
  shows "valid_relayed (relay_packet ty sn sd ss dn dd ds dat)"
    "length (relay_packet ty sn sd ss dn dd ds dat) \<le> MAX_PKT_SIZE"
    "pkt_data (relay_packet ty sn sd ss dn dd ds dat) = dat"
    "pkt_src_net (relay_packet ty sn sd ss dn dd ds dat) = addr32_out sn"
    "pkt_src_node (relay_packet ty sn sd ss dn dd ds dat) = addr48_out sd"
    "pkt_src_socket (relay_packet ty sn sd ss dn dd ds dat) = ss"
  using assms
  by (simp_all add: relay_packet_def valid_relayed_def packet_fields pkt_sizes unat_of_nat take_bit_nat_eq_self)

lemma deliver_to_bound:
  "deliver_to w95 ty sn sd ss dn dd ds s \<Longrightarrow> \<not> is_spx s \<and> is_bound s"
  by (auto simp: deliver_to_def split: if_splits)

text \<open>A relayed packet is received on any socket that is waiting for one.\<close>

lemma recvfrom_relayed:
  fixes st :: "('w, 's, 'z) wstate_scheme"
  assumes ok: "api_ok st" and find: "hash_find (g_sockets st) fd = Some sock" and b: "\<not> is_spx sock" "is_bound sock"
    and ext: "\<not> flag_set (sk_flags sock) IPX_EXT_ADDR"
    and q: "w_queues st (sk_recv_queue sock) = Some q" "rq_n_ready q = 0" "rq_locked q = {}"
    and dat: "length dat \<le> MAX_DATA_SIZE" and len: "0 \<le> len" and al: "of_nat SOCKADDR_IPX_SIZE \<le> al"
  shows "\<exists>st' q'. recvfrom env (\<lambda>_. \<lparr>rx_others = id, rx_recv = Inr (relay_packet ty sn sd ss dn dd ds dat)\<rparr>)
      fd len False True (Some al) r st =
      Some ((if int (length dat) \<le> len then int (length dat) else -1, take (nat len) dat,
             sockaddr_ipx_bytes \<lparr>sa_family = AF_IPX, sa_netnum = addr32_out sn, sa_nodenum = addr48_out sd,
               sa_socket = ss\<rparr>, st'), Some (of_nat SOCKADDR_IPX_SIZE)) \<and>
    w_lock st' = w_lock st \<and> wstate.more st' = wstate.more st \<and>
    w_queues st' (sk_recv_queue sock) = Some q' \<and> rq_content q' = []"
proof -
  let ?p = "relay_packet ty sn sd ss dn dd ds dat" and ?h = "lock_sockets st"
  let ?rx = "\<lambda>_ :: nat. \<lparr>rx_others = id, rx_recv = Inr ?p\<rparr> :: ('w, 's, 'z) wstate_scheme rx_event"
  note f = relayed_fields [OF dat, of ty sn sd ss dn dd ds]
  have "rq_inv q" using api_ok_queue [OF ok find b(1)] q(1) by (simp add: queue_ok_def)
  then obtain q1 where w: "recv_wait ?rx 0 fd ?h = Some (True, set_queue (sk_recv_queue sock) (Some q1) ?h)"
      "rq_inv q1" "rq_content q1 = [?p]"
    using recv_wait_arrives [where rx = ?rx and i = 0 and d = ?p and st = ?h and fd = fd and sock = sock] find q f(1,2) by auto
  define u where "u = unlock_sockets (set_queue (sk_recv_queue sock) (Some (recv_queue_pop q1))
      (set_queue (sk_recv_queue sock) (Some q1) ?h))"
  have "recv_packet env ?rx fd sock len False (Some al) ?h =
    Some (int (length dat), take (nat len) dat,
      sockaddr_ipx_bytes \<lparr>sa_family = AF_IPX, sa_netnum = addr32_out sn, sa_nodenum = addr48_out sd,
         sa_socket = ss\<rparr>, u)"
    using recv_packet_front [of "set_queue (sk_recv_queue sock) (Some q1) ?h" fd sock ?rx ?h q1 ?p "[]" len env al]
      w find b ext len f by (simp add: u_def)
  then have "recvfrom env ?rx fd len False True (Some al) r st =
      Some ((if int (length dat) \<le> len then int (length dat) else -1, take (nat len) dat,
             sockaddr_ipx_bytes \<lparr>sa_family = AF_IPX, sa_netnum = addr32_out sn, sa_nodenum = addr48_out sd,
               sa_socket = ss\<rparr>, if int (length dat) \<le> len then u else set_error WSAEMSGSIZE u),
            Some (of_nat SOCKADDR_IPX_SIZE))"
    using find b ext leD [OF al] by (auto simp: recvfrom_def get_socket_cases Let_def)
  moreover have "rq_content (recv_queue_pop q1) = []" using rq.pop [OF w(2,3)] by simp
  ultimately show ?thesis by (auto simp: u_def)
qed

text \<open>What the router sends for a socket that is to have the packet.\<close>

lemma deliver_sends:
  fixes st :: "('w, 's, 'z) wstate_scheme"
  assumes "(fd, sock) \<in> set (g_sockets st)"
    and "deliver_to (mc_w95_bug (e_config env)) ty sn sd ss dn dd ds sock" and "e_pkt_mem env fd"
  shows "\<exists>g. deliver_packet env ty sn sd ss dn dd ds (Some dat) st = Some g \<and> same_sockets st g \<and>
    (e_private_socket env, loopback_addr (sk_port sock), relay_packet ty sn sd ss dn dd ds dat)
      \<in> set (drop (length (datagrams st)) (datagrams g))"
proof -
  obtain g where g: "deliver_packet env ty sn sd ss dn dd ds (Some dat) st = Some g"
      "datagrams g = datagrams st @
         map (\<lambda>(fd, s). (e_private_socket env, loopback_addr (sk_port s), relay_packet ty sn sd ss dn dd ds dat))
         (filter (\<lambda>(fd, s). deliver_to (mc_w95_bug (e_config env)) ty sn sd ss dn dd ds s \<and> e_pkt_mem env fd)
            (g_sockets st))"
    using deliver_loop_relays [of env ty sn sd ss dn dd ds dat "g_sockets st" st]
    unfolding deliver_packet_def by blast
  with assms deliver_packet_same [OF g(1)] show ?thesis by force
qed

text \<open>
  C2. A packet that the router delivers to a bound socket is received by the application: among the
  datagrams \<open>deliver_packet\<close> sends there is one for the socket's private port with which
  \<open>recvfrom\<close>, waiting on an idle queue, returns the payload (its beginning, and an error, when the
  buffer is too small) and the sender's network, node and socket number, leaving the queue empty.
\<close>

theorem relayed_packet_received:
  fixes st :: "('w, 's, 'z) wstate_scheme"
  assumes ok: "api_ok st" and sock: "(fd, sock) \<in> set (g_sockets st)"
    and dlv: "deliver_to (mc_w95_bug (e_config env)) ty sn sd ss dn dd ds sock" and mem: "e_pkt_mem env fd"
    and ext: "\<not> flag_set (sk_flags sock) IPX_EXT_ADDR"
    and q: "w_queues st (sk_recv_queue sock) = Some q" "rq_n_ready q = 0" "rq_locked q = {}"
    and dat: "length dat \<le> MAX_DATA_SIZE" and len: "0 \<le> len" and al: "of_nat SOCKADDR_IPX_SIZE \<le> al"
  shows "\<exists>g p st' q'. deliver_packet env ty sn sd ss dn dd ds (Some dat) st = Some g \<and>
    (e_private_socket env, loopback_addr (sk_port sock), p) \<in> set (drop (length (datagrams st)) (datagrams g)) \<and>
    recvfrom env (\<lambda>_. \<lparr>rx_others = id, rx_recv = Inr p\<rparr>) fd len False True (Some al) r g =
      Some ((if int (length dat) \<le> len then int (length dat) else -1, take (nat len) dat,
             sockaddr_ipx_bytes \<lparr>sa_family = AF_IPX, sa_netnum = addr32_out sn, sa_nodenum = addr48_out sd,
               sa_socket = ss\<rparr>, st'), Some (of_nat SOCKADDR_IPX_SIZE)) \<and>
    w_lock st' = w_lock st \<and> w_queues st' (sk_recv_queue sock) = Some q' \<and> rq_content q' = []"
proof -
  obtain g where g: "deliver_packet env ty sn sd ss dn dd ds (Some dat) st = Some g" "same_sockets st g"
      "(e_private_socket env, loopback_addr (sk_port sock), relay_packet ty sn sd ss dn dd ds dat)
         \<in> set (drop (length (datagrams st)) (datagrams g))"
    using deliver_sends [where env = env, OF sock dlv mem] by blast
  have "api_ok g" "hash_find (g_sockets g) fd = Some sock" "w_queues g (sk_recv_queue sock) = Some q" "w_lock g = w_lock st"
    using ok sock q(1) g(2) same_sockets_ok [OF g(2)] by (auto simp: same_sockets_def api_ok_def hash_find_def)
  from recvfrom_relayed [OF this(1,2) _ _ ext this(3) q(2,3) dat len al, where env = env and r = r] deliver_to_bound [OF dlv]
    g(1,3) this(4) show ?thesis by fastforce
qed

lemma sample_deliver_to:
  "deliver_to False 4 9 0x050000000002 (htons 0x4000) (addr32_in [0, 0, 0, 1]) (addr48_in [2, 0, 0, 0, 0, 7])
     (htons 0x5000) sample_socket"
  by (simp add: deliver_to_def sample_socket_def flag_set_def ipx_flags)

theorem relayed_packet_received_witness:
  "\<exists>g p st'. deliver_packet sample_genv 4 9 0x050000000002 (htons 0x4000) (addr32_in [0, 0, 0, 1])
      (addr48_in [2, 0, 0, 0, 0, 7]) (htons 0x5000) (Some [1, 2, 3]) (sample_w ENCAP_TYPE_IPXWRAPPER) = Some g \<and>
    recvfrom sample_genv (\<lambda>_. \<lparr>rx_others = id, rx_recv = Inr p\<rparr>) 8 2 False True (Some 16) (Inl 0) g =
      Some ((-1, [1, 2],
             sockaddr_ipx_bytes \<lparr>sa_family = AF_IPX, sa_netnum = addr32_out 9,
               sa_nodenum = addr48_out 0x050000000002, sa_socket = htons 0x4000\<rparr>, st'), Some 14)"
proof -
  note t = relayed_packet_received [where st = "sample_w ENCAP_TYPE_IPXWRAPPER" and fd = "8" and sock = sample_socket
      and env = sample_genv and ty = "4" and sn = "9" and sd = "0x050000000002" and ss = "htons 0x4000"
      and dn = "addr32_in [0, 0, 0, 1]" and dd = "addr48_in [2, 0, 0, 0, 0, 7]" and ds = "htons 0x5000"
      and q = sample_rq and dat = "[1, 2, 3]" and len = "2" and al = "16" and r = "Inl 0", OF sample_w_ok]
  show ?thesis
    using t sample_deliver_to sample_rq_ok sample_socket_sel
    by (auto simp: sample_genv_def MAX_DATA_SIZE_def SOCKADDR_IPX_SIZE_def)
qed

end
