(* ===== verification/Binding.thy ===== *)
theory Binding
  imports Receiving
begin

text \<open>
  What binding guarantees: an unspecified socket number becomes the smallest one that is free, and a
  socket that is bound exclusively has a number nobody else in the system uses.
\<close>

text \<open>What opening the mutex of a number does, and what it returns when that is not \<open>NULL\<close>.\<close>

lemma close_new_handle: "handles_ok M N \<Longrightarrow> filter (\<lambda>m. fst m \<noteq> N) ((N, n) # M) = M"
  by (force simp: handles_ok_def filter_id_conv)

lemma open_socket_mutex_cases:
  assumes "handles_ok (w_mutexes st) (w_next_handle st)"
  shows "open_socket_mutex create_ok n ex st =
    (if \<not> create_ok n then (0, st)
     else if mutex_exists n st \<and> ex then (0, st\<lparr>w_next_handle := w_next_handle st + 1\<rparr>)
     else (w_next_handle st, st\<lparr>w_mutexes := (w_next_handle st, n) # w_mutexes st,
                                w_next_handle := w_next_handle st + 1\<rparr>))"
proof -
  have f: "filter (\<lambda>m. fst m \<noteq> w_next_handle st) (w_mutexes st) = w_mutexes st"
    using close_new_handle [OF assms] by simp
  have "st\<lparr>w_mutexes := w_mutexes st, w_next_handle := k\<rparr> = st\<lparr>w_next_handle := k\<rparr>" for k by simp
  with f show ?thesis unfolding open_socket_mutex_def CloseHandle_def Let_def by simp
qed

lemma mutex_exists_next [simp]: "mutex_exists n (st\<lparr>w_next_handle := k\<rparr>) = mutex_exists n st"
  by (simp add: mutex_exists_def)

definition number_free :: "(u16 \<Rightarrow> bool) \<Rightarrow> ('w, 's, 'z) wstate_scheme \<Rightarrow> u16 \<Rightarrow> bool" where
  "number_free create_ok st n \<longleftrightarrow> create_ok n \<and> \<not> mutex_exists n st"

definition numbers_from :: "u16 \<Rightarrow> u16 list" where
  "numbers_from n = map of_nat [unat n..<65536]"

lemma numbers_from_rec: "numbers_from n = n # (if n = 65535 then [] else numbers_from (n + 1))"
proof -
  have "unat n < 65536" by (rule unsigned_less [where 'b = 16, simplified])
  then have "[unat n..<65536] = unat n # [Suc (unat n)..<65536]" by (simp add: upt_conv_Cons)
  then show ?thesis by (cases "n = 65535") (simp_all add: numbers_from_def socknum_succ(1))
qed

lemma find_smallest:
  "case find P (numbers_from n) of
     None \<Rightarrow> \<forall>k \<ge> n. \<not> P k
   | Some m \<Rightarrow> n \<le> m \<and> P m \<and> (\<forall>k. n \<le> k \<longrightarrow> k < m \<longrightarrow> \<not> P k)"
proof (induction "65535 - unat n" arbitrary: n rule: less_induct)
  case less
  show ?case
  proof (cases "n = 65535")
    case True
    have "k = n" if "n \<le> k" for k
    proof -
      have "unat k < 65536" by (rule unsigned_less [where 'b = 16, simplified])
      with that show ?thesis by (simp add: True word_le_nat_alt word_unat_eq_iff)
    qed
    then show ?thesis by (subst numbers_from_rec) (auto simp: True)
  next
    case False
    have split: "n \<le> k \<longleftrightarrow> k = n \<or> n + 1 \<le> k" for k
      using socknum_succ [OF False] by (auto simp: word_le_nat_alt word_unat_eq_iff)
    have lt: "n + 1 \<le> k \<Longrightarrow> \<not> k < n" for k
      using socknum_succ [OF False] by (auto simp: word_le_nat_alt word_less_nat_alt)
    have "65535 - unat (n + 1) < 65535 - unat n" using socknum_succ [OF False] by simp
    from less [OF this] show ?thesis
      by (subst numbers_from_rec) (use False in \<open>auto simp: split split: option.splits dest: lt\<close>)
  qed
qed

text \<open>The loop finds the first number that is free, counting up.\<close>

lemma complete_bind_loop_spec:
  assumes "handles_ok (w_mutexes st) (w_next_handle st)"
  shows "\<exists>h \<ge> w_next_handle st.
    (case find (number_free create_ok st) (numbers_from n) of
       None \<Rightarrow> complete_bind_loop create_ok n sock st = (False, sock, st\<lparr>w_next_handle := h\<rparr>)
     | Some m \<Rightarrow> complete_bind_loop create_ok n sock st =
         (True, set_flags IPX_BOUND (sock\<lparr>sk_addr := (sk_addr sock)\<lparr>sa_socket := htons m\<rparr>, sk_sock_mut := h\<rparr>),
          st\<lparr>w_mutexes := (h, m) # w_mutexes st, w_next_handle := h + 1\<rparr>))"
  using assms
proof (induction create_ok n sock st rule: complete_bind_loop.induct)
  case (1 create_ok n sock st)
  let ?N = "w_next_handle st"
  have upt: "numbers_from n = n # (if n = 65535 then [] else numbers_from (n + 1))" by (rule numbers_from_rec)
  show ?case
  proof (cases "number_free create_ok st n")
    case True
    then have "find (number_free create_ok st) (numbers_from n) = Some n" by (subst upt) simp
    moreover have "open_socket_mutex create_ok n True st =
        (?N, st\<lparr>w_mutexes := (?N, n) # w_mutexes st, w_next_handle := ?N + 1\<rparr>)"
      using True open_socket_mutex_cases [OF "1.prems"] by (simp add: number_free_def)
    moreover have "?N \<noteq> 0" using "1.prems" by (simp add: handles_ok_def)
    ultimately show ?thesis by (intro exI [of _ ?N]) (simp add: complete_bind_loop.simps [of create_ok n])
  next
    case False
    define st1 where "st1 = (if create_ok n then st\<lparr>w_next_handle := ?N + 1\<rparr> else st)"
    have o: "open_socket_mutex create_ok n True st = (0, st1)"
      using False "1.prems" by (auto simp: open_socket_mutex_cases number_free_def st1_def)
    have st1: "handles_ok (w_mutexes st1) (w_next_handle st1)" "number_free create_ok st1 = number_free create_ok st"
        "w_mutexes st1 = w_mutexes st" "?N \<le> w_next_handle st1"
        "st1\<lparr>w_next_handle := k\<rparr> = st\<lparr>w_next_handle := k\<rparr>"
        "st1\<lparr>w_mutexes := M, w_next_handle := k\<rparr> = st\<lparr>w_mutexes := M, w_next_handle := k\<rparr>" for k M
      using "1.prems" handles_Suc [of "w_mutexes st" ?N] by (simp_all add: st1_def number_free_def fun_eq_iff)
    show ?thesis
    proof (cases "n = 65535")
      case True
      have "find (number_free create_ok st) (numbers_from n) = None"
        by (subst upt) (use False in \<open>simp add: True\<close>)
      moreover have "complete_bind_loop create_ok n sock st = (False, sock, st1)"
        by (subst complete_bind_loop.simps) (use o True in simp)
      moreover have "st1 = st\<lparr>w_next_handle := w_next_handle st1\<rparr>" by (simp add: st1_def)
      ultimately show ?thesis
        using st1(4) by (intro exI [of _ "w_next_handle st1"]) simp
    next
      case n: False
      have "find (number_free create_ok st) (numbers_from n) =
          find (number_free create_ok st) (numbers_from (n + 1))"
        by (subst upt) (use False n in simp)
      moreover have "complete_bind_loop create_ok n sock st = complete_bind_loop create_ok (n + 1) sock st1"
        using n by (subst complete_bind_loop.simps) (simp add: o)
      moreover obtain h where "w_next_handle st1 \<le> h"
        "case find (number_free create_ok st) (numbers_from (n + 1)) of
           None \<Rightarrow> complete_bind_loop create_ok (n + 1) sock st1 = (False, sock, st\<lparr>w_next_handle := h\<rparr>)
         | Some m \<Rightarrow> complete_bind_loop create_ok (n + 1) sock st1 =
             (True, set_flags IPX_BOUND (sock\<lparr>sk_addr := (sk_addr sock)\<lparr>sa_socket := htons m\<rparr>, sk_sock_mut := h\<rparr>),
              st\<lparr>w_mutexes := (h, m) # w_mutexes st, w_next_handle := h + 1\<rparr>)"
        using "1.IH" [OF o [symmetric] _ _ n st1(1)] unfolding st1(2,3,5,6) by auto
      ultimately show ?thesis using st1(4) by (intro exI [of _ h]) (simp split: option.splits)
    qed
  qed
qed

lemma htons_zero [simp]: "htons 0 = 0" "ntohs 0 = 0"
  by (simp_all add: htons_def ntohs_def)

lemma ntohs_eq_0 [simp]: "ntohs w = 0 \<longleftrightarrow> w = 0"
  by (metis htons_ntohs htons_zero)

text \<open>
  What a completed and a failed binding of the structure \<open>sock\<close> look like. \<open>n\<close> is the number in host
  order and \<open>N\<close> the handle.
\<close>

definition bound_to :: "ipx_socket \<Rightarrow> u16 \<Rightarrow> nat \<Rightarrow> ipx_socket" where
  "bound_to sock n N =
     set_flags IPX_BOUND (sock\<lparr>sk_addr := (sk_addr sock)\<lparr>sa_socket := htons n\<rparr>, sk_sock_mut := N\<rparr>)"

lemma complete_bind_cases:
  assumes h: "handles_ok (w_mutexes st) (w_next_handle st)" and c: "complete_bind create_ok sock st = (ok, sock', st')"
  shows "\<exists>N n. w_next_handle st \<le> N \<and>
    (if ok then sock' = bound_to sock n N \<and> st' = st\<lparr>w_mutexes := (N, n) # w_mutexes st, w_next_handle := N + 1\<rparr> \<and>
         (mutex_exists n st \<longrightarrow> flag_set (sk_flags sock) IPX_REUSE) \<and>
         (sa_socket (sk_addr sock) \<noteq> 0 \<longrightarrow> htons n = sa_socket (sk_addr sock))
     else (sock' = sock \<or> sock' = sock\<lparr>sk_sock_mut := 0\<rparr>) \<and> st' = st\<lparr>w_next_handle := N\<rparr>)"
proof (cases "sa_socket (sk_addr sock) = 0")
  case True
  then have loop: "complete_bind_loop create_ok 1024 sock st = (ok, sock', st')" using c by (simp add: complete_bind_def)
  show ?thesis
  proof (cases "find (number_free create_ok st) (numbers_from 1024)")
    case None
    with complete_bind_loop_spec [OF h, of create_ok 1024 sock] loop show ?thesis by auto
  next
    case (Some m)
    then have "number_free create_ok st m" by (auto simp: find_Some_iff)
    with Some complete_bind_loop_spec [OF h, of create_ok 1024 sock] loop True show ?thesis
      by (auto simp: bound_to_def number_free_def)
  qed
next
  case False
  let ?n = "ntohs (sa_socket (sk_addr sock))" and ?N = "w_next_handle st"
  let ?ex = "\<not> flag_set (sk_flags sock) IPX_REUSE"
  have N: "?N \<noteq> 0" using h by (simp add: handles_ok_def)
  have to: "bound_to sock ?n k = set_flags IPX_BOUND (sock\<lparr>sk_sock_mut := k\<rparr>)" for k by (simp add: bound_to_def)
  have c': "(let (mutex, st) = open_socket_mutex create_ok ?n ?ex st; sock = sock\<lparr>sk_sock_mut := mutex\<rparr>
      in if mutex \<noteq> 0 then (True, set_flags IPX_BOUND sock, st) else (False, sock, st)) = (ok, sock', st')"
    using c False by (simp add: complete_bind_def)
  note o = open_socket_mutex_cases [OF h, of create_ok ?n ?ex]
  consider "open_socket_mutex create_ok ?n ?ex st = (0, st)"
    | "open_socket_mutex create_ok ?n ?ex st = (0, st\<lparr>w_next_handle := ?N + 1\<rparr>)"
    | "open_socket_mutex create_ok ?n ?ex st =
         (?N, st\<lparr>w_mutexes := (?N, ?n) # w_mutexes st, w_next_handle := ?N + 1\<rparr>)"
      "mutex_exists ?n st \<longrightarrow> flag_set (sk_flags sock) IPX_REUSE"
  proof (cases "\<not> create_ok ?n")
    case True
    show ?thesis by (rule that(1)) (rule o [unfolded if_P [OF True]])
  next
    case c: False
    show ?thesis
    proof (cases "mutex_exists ?n st \<and> ?ex")
      case True
      show ?thesis by (rule that(2)) (rule o [unfolded if_not_P [OF c] if_P [OF True]])
    next
      case False
      then have "mutex_exists ?n st \<longrightarrow> flag_set (sk_flags sock) IPX_REUSE" by blast
      then show ?thesis by (rule that(3) [OF o [unfolded if_not_P [OF c] if_not_P [OF False]]])
    qed
  qed
  then show ?thesis
  proof cases
    case 1
    moreover have "st = st\<lparr>w_next_handle := ?N\<rparr>" by simp
    ultimately show ?thesis using c' by (intro exI [of _ ?N]) auto
  next
    case 2
    with c' show ?thesis by (intro exI [of _ "?N + 1"]) auto
  next
    case 3
    with c' N have "ok" "sock' = bound_to sock ?n ?N"
      "st' = st\<lparr>w_mutexes := (?N, ?n) # w_mutexes st, w_next_handle := ?N + 1\<rparr>" by (auto simp: to)
    with 3(2) False show ?thesis by (intro exI [of _ ?N] exI [of _ ?n]) simp
  qed
qed

lemma bound_to_sel [simp]:
  "is_bound (bound_to s n N)" "is_spx (bound_to s n N) = is_spx s" "is_connected (bound_to s n N) = is_connected s"
  "sk_sock_mut (bound_to s n N) = N" "sk_recv_queue (bound_to s n N) = sk_recv_queue s"
  "sk_addr (bound_to s n N) = (sk_addr s)\<lparr>sa_socket := htons n\<rparr>" "sk_remote_addr (bound_to s n N) = sk_remote_addr s"
  "sk_ptr (bound_to s n N) = sk_ptr s"
proof -
  have "\<not> flag_set IPX_BOUND IPX_IS_SPX" "\<not> flag_set IPX_BOUND IPX_CONNECTED" "flag_set IPX_BOUND IPX_BOUND"
    by (simp_all add: flag_set_def ipx_flags)
  then show "is_bound (bound_to s n N)" "is_spx (bound_to s n N) = is_spx s"
    "is_connected (bound_to s n N) = is_connected s"
    by (simp_all add: bound_to_def)
qed (simp_all add: bound_to_def set_flags_def)

text \<open>
  A socket that is bound without naming a socket number gets the smallest number from 1024 on for
  which no mutex exists in the system (and one can be created); when there is none the binding
  fails and nothing is changed.
\<close>

theorem complete_bind_smallest:
  assumes "handles_ok (w_mutexes st) (w_next_handle st)" and "sa_socket (sk_addr sock) = 0"
    and "complete_bind create_ok sock st = (ok, sock', st')"
  shows "(ok \<longleftrightarrow> (\<exists>n \<ge> 1024. number_free create_ok st n)) \<and>
    (if ok then
       let n = ntohs (sa_socket (sk_addr sock'))
       in 1024 \<le> n \<and> number_free create_ok st n \<and> (\<forall>m. 1024 \<le> m \<longrightarrow> m < n \<longrightarrow> \<not> number_free create_ok st m) \<and>
          is_bound sock' \<and> w_mutexes st' = (sk_sock_mut sock', n) # w_mutexes st
     else sock' = sock \<and> w_mutexes st' = w_mutexes st)"
proof -
  have loop: "complete_bind_loop create_ok 1024 sock st = (ok, sock', st')" using assms(2,3) by (simp add: complete_bind_def)
  obtain h where h: "case find (number_free create_ok st) (numbers_from 1024) of
       None \<Rightarrow> complete_bind_loop create_ok 1024 sock st = (False, sock, st\<lparr>w_next_handle := h\<rparr>)
     | Some m \<Rightarrow> complete_bind_loop create_ok 1024 sock st =
         (True, bound_to sock m h, st\<lparr>w_mutexes := (h, m) # w_mutexes st, w_next_handle := h + 1\<rparr>)"
    using complete_bind_loop_spec [OF assms(1), of create_ok 1024 sock] unfolding bound_to_def by blast
  show ?thesis
  proof (cases "find (number_free create_ok st) (numbers_from 1024)")
    case None
    with h loop find_smallest [where P = "number_free create_ok st" and n = 1024] show ?thesis by auto
  next
    case (Some m)
    with h loop have "ok" "sock' = bound_to sock m h" "w_mutexes st' = (h, m) # w_mutexes st" by auto
    with Some find_smallest [where P = "number_free create_ok st" and n = 1024] show ?thesis by (auto simp: Let_def)
  qed
qed

subsection \<open>Binding a socket of the table\<close>

lemma resolve_bind_address_cases:
  assumes "resolve_bind_address env sock addr st = Some (ok, sock', st')"
  shows "\<exists>c. st' = st\<lparr>g_ifaces := c\<rparr> \<and>
    (if ok then \<exists>net node. length net = 4 \<and> length node = 6 \<and>
       sock' = sock\<lparr>sk_addr := (sk_addr sock)\<lparr>sa_netnum := net, sa_nodenum := node, sa_socket := sa_socket addr\<rparr>\<rparr>
     else sock' = sock)"
  using assms
  by (auto simp: resolve_bind_address_def Let_def split: option.splits) (metis length_addr32_out length_addr48_out)

text \<open>What a successful \<open>bind\<close> leaves: the structure, the mutex, the port.\<close>

lemma bind_ipx_ok:
  assumes ok: "api_ok st" and b: "bind_ipx env sys fd sock addr st = Some (0, st')"
  shows "\<exists>net node n N port c. length net = 4 \<and> length node = 6 \<and> w_next_handle st \<le> N \<and> \<not> is_bound sock \<and>
    (mutex_exists n st \<longrightarrow> flag_set (sk_flags sock) IPX_REUSE) \<and> (sa_socket addr \<noteq> 0 \<longrightarrow> htons n = sa_socket addr) \<and>
    st' = unlock_sockets (update_socket fd
      (\<lambda>_. (bound_to (sock\<lparr>sk_addr := \<lparr>sa_family = AF_IPX, sa_netnum = net, sa_nodenum = node,
                 sa_socket = sa_socket addr\<rparr>\<rparr>) n N)\<lparr>sk_port := port\<rparr>)
      (st\<lparr>g_ifaces := c, w_mutexes := (N, n) # w_mutexes st, w_next_handle := N + 1\<rparr>))"
proof -
  let ?sock = "sock\<lparr>sk_addr := (sk_addr sock)\<lparr>sa_family := AF_IPX\<rparr>\<rparr>"
  have nb: "\<not> is_bound sock" using b by (auto simp: bind_ipx_def fail_unlock_def)
  obtain sock1 st1 sock2 st2 where r: "resolve_bind_address env ?sock addr st = Some (True, sock1, st1)"
      and c: "complete_bind (bs_create_ok sys) sock1 st1 = (True, sock2, st2)"
    using b nb by (auto simp: bind_ipx_def fail_unlock_def Let_def split: option.splits prod.splits if_splits)
  obtain port where st': "st' = unlock_sockets (update_socket fd (\<lambda>_. sock2\<lparr>sk_port := port\<rparr>) st2)"
    using b nb by (auto simp: bind_ipx_def r c ok_unlock_def Let_def split: sum.splits)
  obtain cc net node where r': "st1 = st\<lparr>g_ifaces := cc\<rparr>" "length net = 4" "length node = 6"
      "sock1 = sock\<lparr>sk_addr := \<lparr>sa_family = AF_IPX, sa_netnum = net, sa_nodenum = node, sa_socket = sa_socket addr\<rparr>\<rparr>"
    using resolve_bind_address_cases [OF r] by auto
  have "handles_ok (w_mutexes st1) (w_next_handle st1)" using ok by (simp add: r' api_ok_def table_ok_def)
  from complete_bind_cases [OF this c] obtain N n where "w_next_handle st1 \<le> N" "sock2 = bound_to sock1 n N"
      "st2 = st1\<lparr>w_mutexes := (N, n) # w_mutexes st1, w_next_handle := N + 1\<rparr>"
      "mutex_exists n st1 \<longrightarrow> flag_set (sk_flags sock1) IPX_REUSE"
      "sa_socket (sk_addr sock1) \<noteq> 0 \<longrightarrow> htons n = sa_socket (sk_addr sock1)" by auto
  with r' nb st' show ?thesis
    by (intro exI [of _ net] exI [of _ node] exI [of _ n] exI [of _ N] exI [of _ port] exI [of _ cc])
      (simp add: mutex_exists_def)
qed

lemma bind_ok_ipx:
  assumes "bind env sys id fd addr addrlen st = Some (0, st')" and "hash_find (g_sockets st) fd = Some sock"
  shows "bind_ipx env sys fd sock addr (lock_sockets st) = Some (0, st')"
  using assms
  by (auto simp: bind_def get_socket_wait_for_ready_def get_socket_cases fail_unlock_def split: if_splits)

text \<open>
  C6. A socket that is bound without \<open>SO_REUSEADDR\<close> gets a number (the one the application asked for,
  if it named one) that nobody in the system was using: no process holds a handle of its mutex, and
  in particular no other socket of this process is bound to it.
\<close>

theorem bind_exclusive:
  assumes ok: "api_ok st" and s: "hash_find (g_sockets st) fd = Some sock"
    and reuse: "\<not> flag_set (sk_flags sock) IPX_REUSE"
    and b: "bind env sys id fd addr addrlen st = Some (0, st')"
  shows "\<exists>sock'. hash_find (g_sockets st') fd = Some sock' \<and> is_bound sock' \<and>
    (let n = ntohs (sa_socket (sk_addr sock'))
     in (sa_socket addr \<noteq> 0 \<longrightarrow> sa_socket (sk_addr sock') = sa_socket addr) \<and>
        \<not> mutex_exists n st \<and> mutex_exists n st' \<and>
        (\<forall>fd' s. fd' \<noteq> fd \<longrightarrow> hash_find (g_sockets st') fd' = Some s \<longrightarrow> is_bound s \<longrightarrow>
           sa_socket (sk_addr s) \<noteq> sa_socket (sk_addr sock')))"
proof -
  have lk: "mutex_exists n (lock_sockets st) = mutex_exists n st" for n by (simp add: mutex_exists_def)
  have ok': "api_ok (lock_sockets st)" using ok by simp
  obtain net node n N port c where r: "\<not> mutex_exists n st" "sa_socket addr \<noteq> 0 \<longrightarrow> htons n = sa_socket addr"
    "st' = unlock_sockets (update_socket fd
      (\<lambda>_. (bound_to (sock\<lparr>sk_addr := \<lparr>sa_family = AF_IPX, sa_netnum = net, sa_nodenum = node,
                 sa_socket = sa_socket addr\<rparr>\<rparr>) n N)\<lparr>sk_port := port\<rparr>)
      ((lock_sockets st)\<lparr>g_ifaces := c, w_mutexes := (N, n) # w_mutexes st, w_next_handle := N + 1\<rparr>))"
    using bind_ipx_ok [OF ok' bind_ok_ipx [OF b s]] reuse unfolding lock_simps lk by blast
  let ?new = "(bound_to (sock\<lparr>sk_addr := \<lparr>sa_family = AF_IPX, sa_netnum = net, sa_nodenum = node,
                 sa_socket = sa_socket addr\<rparr>\<rparr>) n N)\<lparr>sk_port := port\<rparr>"
  have "sa_socket (sk_addr s') \<noteq> htons n"
    if f: "hash_find (g_sockets st') fd' = Some s'" "fd' \<noteq> fd" "is_bound s'" for fd' s'
  proof -
    have "hash_find (g_sockets st) fd' = Some s'" using f(1,2) by (simp add: r(3))
    then have "map_of (w_mutexes st) (sk_sock_mut s') = Some (ntohs (sa_socket (sk_addr s')))"
      using api_ok_sock [OF ok] f(3) by (simp add: sock_ok_def)
    then have "mutex_exists (ntohs (sa_socket (sk_addr s'))) st"
      unfolding mutex_exists_def by (metis image_eqI map_of_SomeD snd_conv)
    with r(1) show ?thesis by auto
  qed
  moreover have "hash_find (g_sockets st') fd = Some ?new" using s by (simp add: r(3))
  moreover have "mutex_exists n st'" by (simp add: r(3) mutex_exists_def)
  ultimately show ?thesis using r(1,2) by (intro exI [of _ ?new]) (auto simp: Let_def)
qed

subsection \<open>Examples\<close>

theorem complete_bind_smallest_witness:
  "\<exists>sock' st'. complete_bind (\<lambda>_. True) (sample_socket\<lparr>sk_addr := (sk_addr sample_socket)\<lparr>sa_socket := 0\<rparr>\<rparr>)
      (sample_w ENCAP_TYPE_IPXWRAPPER) = (True, sock', st') \<and> sa_socket (sk_addr sock') = htons 1024"
proof -
  let ?s = "sample_socket\<lparr>sk_addr := (sk_addr sample_socket)\<lparr>sa_socket := 0\<rparr>\<rparr>" and ?st = "sample_w ENCAP_TYPE_IPXWRAPPER"
  obtain ok sock' st' where c: "complete_bind (\<lambda>_. True) ?s ?st = (ok, sock', st')" using prod_cases3 by blast
  have "handles_ok (w_mutexes ?st) (w_next_handle ?st)" by (simp add: handles_ok_def)
  note t = complete_bind_smallest [OF this _ c, simplified]
  have free: "number_free (\<lambda>_. True) ?st 1024" by (simp add: number_free_def mutex_exists_def)
  with t have ok: "ok" by auto
  define n where "n = ntohs (sa_socket (sk_addr sock'))"
  have "1024 \<le> n" "\<And>m. 1024 \<le> m \<Longrightarrow> m < n \<Longrightarrow> \<not> number_free (\<lambda>_. True) ?st m"
    using t ok by (simp_all add: Let_def n_def)
  with free have "n = 1024" by (metis dual_order.order_iff_strict)
  then have "sa_socket (sk_addr sock') = htons 1024" by (simp add: n_def flip: ntohs_htons) (metis htons_ntohs)
  with c ok show ?thesis by (intro exI [of _ sock'] exI [of _ st']) simp
qed

text \<open>The example process with a second socket, descriptor 9, that is not bound.\<close>

definition sample_unbound :: ipx_socket where
  "sample_unbound = sample_socket\<lparr>sk_ptr := 200, sk_flags := IPX_SEND OR IPX_RECV OR IPX_RECV_BCAST, sk_recv_queue := 2\<rparr>"

definition sample_w2 :: "(unit, nat) wstate" where
  "sample_w2 = (sample_w ENCAP_TYPE_IPXWRAPPER)\<lparr>g_sockets := [(8, sample_socket), (9, sample_unbound)],
     w_queues := [1 \<mapsto> sample_rq, 2 \<mapsto> sample_rq]\<rparr>"

lemma sample_unbound_sel:
  "\<not> is_spx sample_unbound" "\<not> is_bound sample_unbound" "\<not> is_connected sample_unbound"
  "\<not> flag_set (sk_flags sample_unbound) IPX_REUSE" "sk_recv_queue sample_unbound = 2" "sk_ptr sample_unbound = 200"
  by (simp_all add: sample_unbound_def flag_set_def ipx_flags)

lemma sample_w2_sel [simp]:
  "g_sockets sample_w2 = [(8, sample_socket), (9, sample_unbound)]" "w_queues sample_w2 = [1 \<mapsto> sample_rq, 2 \<mapsto> sample_rq]"
  "w_mutexes sample_w2 = [(0, 0x5000)]" "w_next_handle sample_w2 = 1" "w_lock sample_w2 = 0" "w_foreign sample_w2 = []"
  by (simp_all add: sample_w2_def)

lemma sample_w2_ok: "api_ok sample_w2"
  using sample_rq_ok sample_socket_sel sample_unbound_sel
  by (simp add: api_ok_def table_ok_def handles_ok_def sock_ok_def hash_find_def separate_def)
    (auto simp: sample_socket_def addr_ok_def)

definition sample_bsys :: bind_sys where
  "sample_bsys = \<lparr>bs_create_ok = (\<lambda>_. True), bs_bind = Inr 0, bs_getsockname = Inr (htons 1300)\<rparr>"

lemma sample_ifaces: "\<exists>c. get_ipx_interfaces sample_env 105 105 (g_ifaces sample_w2) =
    Some ([\<lparr>if_net = 1, if_node = 2, if_ips = [], if_mac = 0, if_pcap = 0\<rparr>], c)"
proof -
  let ?L = "[\<lparr>if_net = 1, if_node = 2, if_ips = [], if_mac = 0, if_pcap = 0\<rparr>]" and ?c = "g_ifaces sample_w2"
  have L: "interface_cache ?c = ?L" "105 - interface_cache_ctime ?c \<le> INTERFACE_CACHE_TTL"
    by (simp_all add: sample_w2_def sample_w_def gstate.extend_def sample_g_simps INTERFACE_CACHE_TTL_def)
  have "\<And>n. env_mem sample_env n" by (simp add: sample_env_def)
  then obtain st' where "copy_ifaces sample_env ?L (sys_of ?c) = (Some ?L, st')" using copy_ifaces_ok by blast
  with renew_fresh [of 105 ?c sample_env 105] L show ?thesis
    by (simp add: get_ipx_interfaces_def copy_ipx_interface_list_def)
qed

lemma sample_bind:
  "\<exists>st'. bind sample_genv sample_bsys id 9
     \<lparr>sa_family = AF_IPX, sa_netnum = replicate 4 0, sa_nodenum = replicate 6 0, sa_socket = htons 0x6000\<rparr> 14 sample_w2 =
     Some (0, st')"
proof -
  have z: "addr32_in (replicate 4 0) = 0" "addr48_in (replicate 6 0) = 0" by code_simp+
  have h: "htons 0x6000 \<noteq> 0" by code_simp
  obtain c where c: "get_ipx_interfaces sample_env 105 105 (g_ifaces sample_w2) =
      Some ([\<lparr>if_net = 1, if_node = 2, if_ips = [], if_mac = 0, if_pcap = 0\<rparr>], c)" using sample_ifaces by blast
  have lk: "handles_ok (w_mutexes ((lock_sockets sample_w2)\<lparr>g_ifaces := c\<rparr>)) (w_next_handle ((lock_sockets sample_w2)\<lparr>g_ifaces := c\<rparr>))"
    by (simp add: handles_ok_def)
  have f: "hash_find [(8 :: nat, sample_socket), (9, sample_unbound)] 9 = Some sample_unbound" by (simp add: hash_find_def)
  have e: "e_sys sample_genv = sample_env" "e_now sample_genv = 105" "e_now' sample_genv = 105"
    by (simp_all add: sample_genv_def)
  show ?thesis
    by (simp add: bind_def get_socket_wait_for_ready_def get_socket_cases f SOCKADDR_IPX_SIZE_def bind_ipx_def
        sample_unbound_sel resolve_bind_address_def e c bind_match_def z complete_bind_def h open_socket_mutex_cases [OF lk]
        sample_bsys_def mutex_exists_def ok_unlock_def Let_def)
qed

theorem bind_exclusive_witness:
  "\<exists>st' sock'. bind sample_genv sample_bsys id 9
     \<lparr>sa_family = AF_IPX, sa_netnum = replicate 4 0, sa_nodenum = replicate 6 0, sa_socket = htons 0x6000\<rparr> 14 sample_w2 =
     Some (0, st') \<and> hash_find (g_sockets st') 9 = Some sock' \<and> sa_socket (sk_addr sock') = htons 0x6000 \<and>
     mutex_exists 0x6000 st'"
proof -
  have h: "htons 0x6000 \<noteq> 0" by code_simp
  obtain st' where b: "bind sample_genv sample_bsys id 9
     \<lparr>sa_family = AF_IPX, sa_netnum = replicate 4 0, sa_nodenum = replicate 6 0, sa_socket = htons 0x6000\<rparr> 14 sample_w2 =
     Some (0, st')" using sample_bind by blast
  have "hash_find (g_sockets sample_w2) 9 = Some sample_unbound" by (simp add: hash_find_def)
  from bind_exclusive [OF sample_w2_ok this sample_unbound_sel(4) b] h b show ?thesis by (auto simp: Let_def)
qed

end
