(* ===== verification/Send.thy ===== *)
theory Send
  imports Bind
begin

text \<open>
  Sending from IPX sockets (\<open>ipx_send_packet\<close>, \<open>sendto\<close>, \<open>send\<close> and \<open>connect\<close> for datagram sockets in
  winsock.c): as an Ethernet frame, to a DOSBox server, or in a datagram of the program's own
  format to the address the cache has for the destination, or to the broadcast addresses of the
  sending interface. \<open>None\<close> is an abort or a copy that runs out of a buffer.
\<close>

record sockaddr_ipx_ext = sockaddr_ipx +
  sa_ptype :: u8
  sa_flags :: u8

definition sockaddr_in_of :: "bytes \<Rightarrow> sockaddr_in" where
  "sockaddr_in_of b =
     \<lparr>sin_family = le_word (slice b 0 2), sin_port = le_word (slice b 2 2), sin_addr = le_word (slice b 4 4)\<rparr>"

text \<open>What \<open>send_packet\<close> returns is the result of \<open>r_sendto\<close>, the size or -1.\<close>

definition send_packet ::
  "('w, 's) genv \<Rightarrow> bytes \<Rightarrow> sockaddr_in \<Rightarrow> ('w, 's, 'z) wstate_scheme \<Rightarrow> int \<times> ('w, 's, 'z) wstate_scheme" where
  "send_packet env packet addr st =
     (let (err, st) = udp_sendto (e_send_err env) (e_private_socket env) addr packet st;
          r = (if err = 0 then int (length packet) else -1)
      in (r, if r = int (length packet) then count_send_udp (length packet) st else st))"

text \<open>
  What the system answers to a send: whether the buffer for the packet and the record of a
  destination can be allocated, and what the fast clock and the uninitialised bytes hold.
\<close>

record send_sys =
  tx_malloc :: bool
  tx_cd_mem :: bool
  tx_junk :: u16
  tx_uticks :: u64

definition pcap_sendpacket ::
  "('w, 's) genv \<Rightarrow> nat \<Rightarrow> bytes \<Rightarrow> ('w, 's, 'z) wstate_scheme \<Rightarrow> bool \<times> ('w, 's, 'z) wstate_scheme" where
  "pcap_sendpacket env pcap frame st =
     (let ok = (e_send_err env (length (n_sent st)) = 0)
      in (ok, st\<lparr>n_sent := n_sent st @ [Frame pcap frame ok]\<rparr>))"

text \<open>\<open>dat = None\<close> is a size that has wrapped around zero.\<close>

definition send_pcap ::
  "('w, 's) genv \<Rightarrow> send_sys \<Rightarrow> u8 \<Rightarrow> u32 \<Rightarrow> u64 \<Rightarrow> u16 \<Rightarrow> u32 \<Rightarrow> u64 \<Rightarrow> u16 \<Rightarrow> bytes option
     \<Rightarrow> ('w, 's, 'z) wstate_scheme \<Rightarrow> (u32 \<times> ('w, 's, 'z) wstate_scheme) option" where
  "send_pcap env sys ty sn sd ss dn dd ds dat st =
     (case ipx_interface_by_addr (e_sys env) (e_now env) (e_now' env) sn sd (g_ifaces st) of
        None \<Rightarrow> None
      | Some (None, c) \<Rightarrow> Some (WSAENETDOWN, st\<lparr>g_ifaces := c\<rparr>)
      | Some (Some iface, c) \<Rightarrow>
          let st = st\<lparr>g_ifaces := c\<rparr> in
          case frame_type_of (mc_frame_type (e_config env)) of
            None \<Rightarrow> None
          | Some ft \<Rightarrow>
              (case dat of
                 None \<Rightarrow> Some (WSAEMSGSIZE, st)
               | Some d \<Rightarrow>
                   if frame_size ft (length d) = 0 then Some (WSAEMSGSIZE, st)
                   else if \<not> tx_malloc sys then Some (ERROR_OUTOFMEMORY, st)
                   else
                     let (ok, st) = pcap_sendpacket env (if_pcap iface) (frame_pack ft ty sn sd ss dn dd ds d) st
                     in Some (if ok then (0, count_send (length d) st) else (WSAENETDOWN, st))))"

definition send_dosbox ::
  "('w, 's) genv \<Rightarrow> send_sys \<Rightarrow> u8 \<Rightarrow> u32 \<Rightarrow> u64 \<Rightarrow> u16 \<Rightarrow> u32 \<Rightarrow> u64 \<Rightarrow> u16 \<Rightarrow> bytes option
     \<Rightarrow> ('w, 's, 'z) wstate_scheme \<Rightarrow> (u32 \<times> ('w, 's, 'z) wstate_scheme) option" where
  "send_dosbox env sys ty sn sd ss dn dd ds dat st =
     (let db = g_dosbox st in
      if dosbox_state db \<noteq> DOSBOX_CONNECTED then Some (WSAENETDOWN, st)
      else if sn \<noteq> dosbox_local_netnum db \<or> sd \<noteq> dosbox_local_nodenum db then Some (WSAENETDOWN, st)
      else if dn = dosbox_local_netnum db \<and> dd = dosbox_local_nodenum db
      then map_option (Pair 0) (deliver_packet env ty sn sd ss dn dd ds dat st)
      else if \<not> tx_malloc sys then Some (ERROR_OUTOFMEMORY, st)
      else
        case dat of
          None \<Rightarrow> None
        | Some d \<Rightarrow>
            let packet = novell_ipx_packet 0xFFFF (htons (of_nat (NOVELL_IPX_PACKET_SIZE + length d))) 0 ty
                           (addr32_out dn) (addr48_out dd) ds (addr32_out sn) (addr48_out sd) ss d
            in case coalesce_send (coal_cfg env st) (tx_cd_mem sys) (tx_junk sys) (tx_uticks sys) packet
                      (dn, dd, ds) st of
                 None \<Rightarrow> None
               | Some (err, st) \<Rightarrow>
                   let st = (if err = 0 then count_send (length d) st else st) in
                   if err = 0 \<and> dd = BCAST_NODE
                   then map_option (Pair err) (deliver_packet env ty sn sd ss dn dd ds dat st)
                   else Some (err, st))"

definition instance_packet :: "u8 \<Rightarrow> u32 \<Rightarrow> u64 \<Rightarrow> u16 \<Rightarrow> u32 \<Rightarrow> u64 \<Rightarrow> u16 \<Rightarrow> bytes \<Rightarrow> bytes" where
  "instance_packet ty sn sd ss dn dd ds d =
     ipx_packet ty (addr32_out dn) (addr48_out dd) ds (addr32_out sn) (addr48_out sd) ss
       (htons (of_nat (length d))) d"

text \<open>The loop over the addresses of the interface; whether a send succeeded, and the last error.\<close>

fun send_bcast ::
  "('w, 's) genv \<Rightarrow> bytes \<Rightarrow> iface_ip list \<Rightarrow> bool \<Rightarrow> u32 \<Rightarrow> ('w, 's, 'z) wstate_scheme
     \<Rightarrow> bool \<times> u32 \<times> ('w, 's, 'z) wstate_scheme" where
  "send_bcast env packet [] send_ok send_error st = (send_ok, send_error, st)"
| "send_bcast env packet (ip # ips) send_ok send_error st =
     (let (r, st) = send_packet env packet
                      \<lparr>sin_family = AF_INET, sin_port = htons (mc_udp_port (e_config env)), sin_addr = ip_bcast ip\<rparr> st
      in if r \<noteq> 0 then send_bcast env packet ips True send_error st
         else send_bcast env packet ips send_ok (n_errno st) st)"

definition send_ip ::
  "('w, 's) genv \<Rightarrow> send_sys \<Rightarrow> u8 \<Rightarrow> u32 \<Rightarrow> u64 \<Rightarrow> u16 \<Rightarrow> u32 \<Rightarrow> u64 \<Rightarrow> u16 \<Rightarrow> bytes option
     \<Rightarrow> ('w, 's, 'z) wstate_scheme \<Rightarrow> (u32 \<times> ('w, 's, 'z) wstate_scheme) option" where
  "send_ip env sys ty sn sd ss dn dd ds dat st =
     (if \<not> tx_malloc sys then Some (ERROR_OUTOFMEMORY, st)
      else
        case dat of
          None \<Rightarrow> None
        | Some d \<Rightarrow>
            let packet = instance_packet ty sn sd ss dn dd ds d;
                finish = (\<lambda>(send_ok, send_error, st).
                  if send_ok
                  then map_option (\<lambda>st. (0, count_send (length d) st))
                         (deliver_packet env ty sn sd ss dn dd ds dat st)
                  else Some (send_error, st))
            in case addr_cache_get (e_now env) (g_hosts st) dn dd ds of
                 Some (addr, addrlen) \<Rightarrow>
                   let (r, st) = send_packet env packet (sockaddr_in_of addr) st
                   in finish (if r \<noteq> 0 then (True, 0, st) else (False, n_errno st, st))
               | None \<Rightarrow>
                   (case ipx_interface_by_addr (e_sys env) (e_now env) (e_now' env) sn sd (g_ifaces st) of
                      None \<Rightarrow> None
                    | Some (iface, c) \<Rightarrow>
                        let st = st\<lparr>g_ifaces := c\<rparr> in
                        case iface of
                          None \<Rightarrow> Some (WSAENETUNREACH, st)
                        | Some iface \<Rightarrow>
                            if if_ips iface = [] then Some (WSAENETUNREACH, st)
                            else finish (send_bcast env packet (if_ips iface) False 0 st)))"

definition ipx_send_packet ::
  "('w, 's) genv \<Rightarrow> send_sys \<Rightarrow> u8 \<Rightarrow> u32 \<Rightarrow> u64 \<Rightarrow> u16 \<Rightarrow> u32 \<Rightarrow> u64 \<Rightarrow> u16 \<Rightarrow> bytes option
     \<Rightarrow> ('w, 's, 'z) wstate_scheme \<Rightarrow> (u32 \<times> ('w, 's, 'z) wstate_scheme) option" where
  "ipx_send_packet env sys ty sn sd ss dn dd ds dat st =
     (if ipx_encap_type (g_ifaces st) = ENCAP_TYPE_PCAP then send_pcap env sys ty sn sd ss dn dd ds dat st
      else if ipx_encap_type (g_ifaces st) = ENCAP_TYPE_DOSBOX then send_dosbox env sys ty sn sd ss dn dd ds dat st
      else send_ip env sys ty sn sd ss dn dd ds dat st)"

subsection \<open>The functions of the API\<close>

definition rate_limited :: "u32 \<Rightarrow> u32 \<Rightarrow> u32 \<Rightarrow> ratelimit \<Rightarrow> (u32 \<times> ratelimit) option" where
  "rate_limited limit count now rl =
     (if limit > 0 then ratelimit_get_delay rl count limit now else Some (0, rl))"

text \<open>The binding of a socket that sends or connects before it has been bound.\<close>

definition implicit_bind ::
  "('w, 's) genv \<Rightarrow> bind_sys \<Rightarrow> nat \<Rightarrow> bytes \<Rightarrow> ('w, 's, 'z) wstate_scheme
     \<Rightarrow> (int \<times> ('w, 's, 'z) wstate_scheme) option" where
  "implicit_bind env bsys fd net st =
     bind env bsys id fd \<lparr>sa_family = AF_IPX, sa_netnum = net, sa_nodenum = replicate 6 0, sa_socket = 0\<rparr>
       (of_nat SOCKADDR_IPX_SIZE) st"

text \<open>
  \<open>sendto\<close> once the socket is bound; the lock is held. The clock of the rate limits is read twice.
  The results are the return value, how long the thread sleeps, and the state.
\<close>

definition send_bound ::
  "('w, 's) genv \<Rightarrow> send_sys \<Rightarrow> u32 \<times> u32 \<Rightarrow> ipx_socket \<Rightarrow> bytes \<Rightarrow> int \<Rightarrow> sockaddr_ipx_ext \<Rightarrow> u32
     \<Rightarrow> ('w, 's, 'z) wstate_scheme \<Rightarrow> (int \<times> u32 \<times> ('w, 's, 'z) wstate_scheme) option" where
  "send_bound env sys ticks sock buf len ipxaddr addrlen st =
     (case max_ipx_payload env st of
        None \<Rightarrow> None
      | Some max_payload \<Rightarrow>
          if len > max_payload then Some (-1, 0, unlock_sockets (set_error WSAEMSGSIZE st))
          else
            let type = (if flag_set (sk_flags sock) IPX_EXT_ADDR \<and> addrlen \<ge> 15 then sa_ptype ipxaddr
                        else sk_s_ptype sock);
                src_net = addr32_in (sa_netnum (sk_addr sock));
                src_node = addr48_in (sa_nodenum (sk_addr sock));
                dest_net = (if addr32_in (sa_netnum ipxaddr) = ZERO_NET then src_net
                            else addr32_in (sa_netnum ipxaddr))
            in case ipx_send_packet env sys type src_net src_node (sa_socket (sk_addr sock))
                      dest_net (addr48_in (sa_nodenum ipxaddr)) (sa_socket ipxaddr)
                      (if len < 0 then None else Some (take (nat len) buf)) st of
                 None \<Rightarrow> None
               | Some (err, st) \<Rightarrow>
                   (case (rate_limited (mc_rate_limit_packets (e_config env)) 1 (fst ticks) (w_packet_rate st),
                          rate_limited (mc_rate_limit_bytes (e_config env)) (of_int len) (snd ticks) (w_byte_rate st)) of
                      (Some (packet_rate_delay, packet_rate), Some (byte_rate_delay, byte_rate)) \<Rightarrow>
                        let st = unlock_sockets (st\<lparr>w_packet_rate := packet_rate, w_byte_rate := byte_rate\<rparr>)
                        in Some (if err = 0 then (len, max packet_rate_delay byte_rate_delay, st)
                                 else (-1, max packet_rate_delay byte_rate_delay, set_error err st))
                    | _ \<Rightarrow> None))"

text \<open>\<open>r\<close> is what the unwrapped \<open>send\<close> or \<open>sendto\<close> returns, where that is called.\<close>

definition sendto ::
  "('w, 's) genv \<Rightarrow> send_sys \<Rightarrow> bind_sys \<Rightarrow> u32 \<times> u32 \<Rightarrow> (('w, 's, 'z) wstate_scheme \<Rightarrow> ('w, 's, 'z) wstate_scheme)
     \<Rightarrow> nat \<Rightarrow> bytes \<Rightarrow> int \<Rightarrow> sockaddr_ipx_ext option \<Rightarrow> u32 \<Rightarrow> u32 + int \<Rightarrow> ('w, 's, 'z) wstate_scheme
     \<Rightarrow> (int \<times> u32 \<times> ('w, 's, 'z) wstate_scheme) option" where
  "sendto env sys bsys ticks others fd buf len addr addrlen r st =
     (case get_socket_wait_for_ready others fd st of
        (None, st) \<Rightarrow> Some (case sys_result r st of (v, st) \<Rightarrow> (v, 0, st))
      | (Some sock, st) \<Rightarrow>
          if flag_set (sk_flags sock) IPX_IS_SPX
          then Some (case sys_result r (unlock_sockets st) of (v, st) \<Rightarrow> (v, 0, st))
          else case addr of
                 None \<Rightarrow> Some (-1, 0, unlock_sockets (set_error WSAEDESTADDRREQ st))
               | Some ipxaddr \<Rightarrow>
                   if addrlen < of_nat SOCKADDR_IPX_SIZE
                   then Some (-1, 0, unlock_sockets (set_error WSAEFAULT st))
                   else if \<not> flag_set (sk_flags sock) IPX_SEND
                   then Some (-1, 0, unlock_sockets (set_error WSAESHUTDOWN st))
                   else if flag_set (sk_flags sock) IPX_BOUND
                   then send_bound env sys ticks sock buf len ipxaddr addrlen st
                   else
                     case implicit_bind env bsys fd (sa_netnum ipxaddr) st of
                       None \<Rightarrow> None
                     | Some (b, st) \<Rightarrow>
                         if b = -1 then Some (-1, 0, unlock_sockets st)
                         else
                           case hash_find (g_sockets st) fd of
                             None \<Rightarrow> None
                           | Some sock \<Rightarrow> send_bound env sys ticks sock buf len ipxaddr addrlen st)"

definition send ::
  "('w, 's) genv \<Rightarrow> send_sys \<Rightarrow> bind_sys \<Rightarrow> u32 \<times> u32 \<Rightarrow> (('w, 's, 'z) wstate_scheme \<Rightarrow> ('w, 's, 'z) wstate_scheme)
     \<Rightarrow> nat \<Rightarrow> bytes \<Rightarrow> int \<Rightarrow> u32 + int \<Rightarrow> ('w, 's, 'z) wstate_scheme
     \<Rightarrow> (int \<times> u32 \<times> ('w, 's, 'z) wstate_scheme) option" where
  "send env sys bsys ticks others fd buf len r st =
     (case get_socket fd st of
        (None, st) \<Rightarrow> Some (case sys_result r st of (v, st) \<Rightarrow> (v, 0, st))
      | (Some sock, st) \<Rightarrow>
          if flag_set (sk_flags sock) IPX_IS_SPX
          then Some (case sys_result r (unlock_sockets st) of (v, st) \<Rightarrow> (v, 0, st))
          else if \<not> flag_set (sk_flags sock) IPX_CONNECTED
          then Some (-1, 0, set_error WSAENOTCONN (unlock_sockets st))
          else
            let dest_addr = sockaddr_ipx.extend (sk_remote_addr sock) \<lparr>sa_ptype = 0, sa_flags = 0\<rparr>
            in sendto env sys bsys ticks others fd buf len (Some dest_addr) (of_nat SOCKADDR_IPX_SIZE) r
                 (unlock_sockets st))"

text \<open>\<open>connect\<close> for datagram sockets, with the lock held.\<close>

definition AF_UNSPEC :: u16 where "AF_UNSPEC = 0"

definition connect_dgram ::
  "('w, 's) genv \<Rightarrow> bind_sys \<Rightarrow> nat \<Rightarrow> ipx_socket \<Rightarrow> sockaddr_ipx \<Rightarrow> u32 \<Rightarrow> ('w, 's, 'z) wstate_scheme
     \<Rightarrow> (int \<times> ('w, 's, 'z) wstate_scheme) option" where
  "connect_dgram env bsys fd sock addr addrlen st =
     (if addrlen \<ge> 2 \<and> sa_family addr = AF_UNSPEC
      then Some (ok_unlock (update_socket fd (clear_flags IPX_CONNECTED) st))
      else if addrlen < of_nat SOCKADDR_IPX_SIZE then Some (fail_unlock WSAEFAULT st)
      else if sa_family addr \<noteq> AF_IPX then Some (fail_unlock WSAEAFNOSUPPORT st)
      else if sa_nodenum addr = replicate 6 0
      then Some (ok_unlock (update_socket fd (clear_flags IPX_CONNECTED) st))
      else
        case (if flag_set (sk_flags sock) IPX_BOUND then Some (0, st)
              else implicit_bind env bsys fd (sa_netnum addr) st) of
          None \<Rightarrow> None
        | Some (b, st) \<Rightarrow>
            if b = -1 then Some (-1, unlock_sockets st)
            else
              Some (ok_unlock (update_socket fd
                (\<lambda>s. set_flags IPX_CONNECTED (s\<lparr>sk_remote_addr := addr\<rparr>)) st)))"

end
