(* ===== verification/Spx.thy ===== *)
theory Spx
  imports Send
begin

text \<open>
  Connecting and accepting SPX sockets (\<open>_connect_spx\<close>, \<open>connect\<close> and \<open>accept\<close> in winsock.c). An SPX
  connection is a TCP connection: the peer is found by a lookup that is broadcast to the instances
  of the program, and the first thing sent over the connection is the address of the connecting
  socket. What the system answers is in \<open>spx_sys\<close> and \<open>accept_sys\<close>; \<open>None\<close> is a call that does
  not return.
\<close>

definition MAX_CONNECT_BCAST_ADDRS :: nat where "MAX_CONNECT_BCAST_ADDRS = 64"
definition IPX_CONNECT_TIMEOUT :: u64 where "IPX_CONNECT_TIMEOUT = 6"
definition IPX_CONNECT_TRIES :: nat where "IPX_CONNECT_TRIES = 3"

fun connect_bcast_push :: "u32 list \<Rightarrow> iface_ip list \<Rightarrow> u32 list" where
  "connect_bcast_push addrs [] = addrs"
| "connect_bcast_push addrs (ip # ips) =
     connect_bcast_push
       (if ip_bcast ip \<in> set addrs then addrs
        else if length addrs < MAX_CONNECT_BCAST_ADDRS then addrs @ [ip_bcast ip] else addrs) ips"

text \<open>The addresses to ask: those of the interface the socket is bound to, or of all interfaces.\<close>

definition lookup_addresses ::
  "('w, 's) genv \<Rightarrow> ipx_socket \<Rightarrow> ('w, 's, 'z) wstate_scheme
     \<Rightarrow> (u32 list \<times> ('w, 's, 'z) wstate_scheme) option" where
  "lookup_addresses env sock st =
     (if flag_set (sk_flags sock) IPX_BOUND then
        map_option (\<lambda>(iface, c).
            ((case iface of None \<Rightarrow> [] | Some i \<Rightarrow> connect_bcast_push [] (if_ips i)), st\<lparr>g_ifaces := c\<rparr>))
          (ipx_interface_by_addr (e_sys env) (e_now env) (e_now' env)
             (addr32_in (sa_netnum (sk_addr sock))) (addr48_in (sa_nodenum (sk_addr sock))) (g_ifaces st))
      else
        map_option (\<lambda>(ifaces, c).
            (foldl (\<lambda>addrs i. connect_bcast_push addrs (if_ips i)) [] ifaces, st\<lparr>g_ifaces := c\<rparr>))
          (get_ipx_interfaces (e_sys env) (e_now env) (e_now' env) (g_ifaces st)))"

definition spxlookup_req :: "sockaddr_ipx \<Rightarrow> bytes" where
  "spxlookup_req a = sa_netnum a @ sa_nodenum a @ le_bytes 2 (sa_socket a) @ replicate 20 0"

definition spxlookup_packet :: "bytes \<Rightarrow> bytes" where
  "spxlookup_packet req =
     ipx_packet IPX_MAGIC_SPXLOOKUP (replicate 4 0) (replicate 6 0) 0 (replicate 4 0) (replicate 6 0) 0
       (htons (of_nat SPXLOOKUP_REQ_SIZE)) req"

text \<open>One batch of requests, and whether one of them could be sent.\<close>

fun send_lookups ::
  "('w, 's) genv \<Rightarrow> nat \<Rightarrow> bytes \<Rightarrow> u32 list \<Rightarrow> bool \<Rightarrow> ('w, 's, 'z) wstate_scheme \<Rightarrow> bool \<times> ('w, 's, 'z) wstate_scheme" where
  "send_lookups env lookup_fd packet [] sent_req st = (sent_req, st)"
| "send_lookups env lookup_fd packet (a # as) sent_req st =
     (let (err, st) = udp_sendto (e_send_err env) lookup_fd
            \<lparr>sin_family = AF_INET, sin_port = htons (mc_udp_port (e_config env)), sin_addr = a\<rparr> packet st
      in send_lookups env lookup_fd packet as (sent_req \<or> err = 0) st)"

text \<open>
  A turn of the wait for replies: the clock, what the other threads do, what \<open>r_select\<close> and the
  receive on the lookup socket return.
\<close>

record 'st lookup_event =
  lk_now :: u64
  lk_others :: "'st \<Rightarrow> 'st"
  lk_select :: "u32 + int"
  lk_recv :: "u32 + (bytes \<times> sockaddr_in)"

definition SPXLOOKUP_REPLY_SIZE :: nat where "SPXLOOKUP_REPLY_SIZE = 32"

definition reply_matches :: "bytes \<Rightarrow> bytes \<Rightarrow> bool" where
  "reply_matches req reply \<longleftrightarrow>
     length reply = SPXLOOKUP_REPLY_SIZE \<and> slice reply 0 4 = slice req 0 4 \<and>
     slice reply 4 6 = slice req 4 6 \<and> (le_word (slice reply 10 2) :: u16) = le_word (slice req 10 2)"

text \<open>
  A reply: an unbound socket gets the address of the interface on whose network the sender is, and
  the reply is passed over when there is none.
\<close>

definition lookup_reply ::
  "('w, 's) genv \<Rightarrow> nat \<Rightarrow> ipx_socket \<Rightarrow> u32 \<Rightarrow> ('w, 's, 'z) wstate_scheme
     \<Rightarrow> (bool \<times> ('w, 's, 'z) wstate_scheme) option" where
  "lookup_reply env fd sock from st =
     (if flag_set (sk_flags sock) IPX_BOUND then Some (True, st)
      else
        case ipx_interface_by_subnet (e_sys env) (e_now env) (e_now' env) from (g_ifaces st) of
          None \<Rightarrow> None
        | Some (None, c) \<Rightarrow> Some (False, st\<lparr>g_ifaces := c\<rparr>)
        | Some (Some iface, c) \<Rightarrow>
            Some (True, update_socket fd
              (\<lambda>s. s\<lparr>sk_addr := (sk_addr s)\<lparr>sa_netnum := addr32_out (if_net iface),
                                               sa_nodenum := addr48_out (if_node iface)\<rparr>\<rparr>)
              (st\<lparr>g_ifaces := c\<rparr>)))"

text \<open>
  One turn, and the loop over the turns from the \<open>i\<close>-th on. A turn without a result is followed by
  another; \<open>LkFailed\<close>: the call has returned -1, without the lock.
\<close>

datatype lookup_result = LkFailed | LkTimeout | LkFound sockaddr_in

definition lookup_turn ::
  "('w, 's) genv \<Rightarrow> ('w, 's, 'z) wstate_scheme lookup_event \<Rightarrow> nat \<Rightarrow> nat \<Rightarrow> bytes \<Rightarrow> ('w, 's, 'z) wstate_scheme
     \<Rightarrow> (lookup_result option \<times> ('w, 's, 'z) wstate_scheme) option" where
  "lookup_turn env ev sockptr fd req st =
     (let st = lk_others ev (unlock_sockets st) in
      case lk_select ev of
        Inl err \<Rightarrow> Some (Some LkFailed, set_error err st)
      | Inr _ \<Rightarrow>
          (case get_socket fd st of
             (None, st) \<Rightarrow> Some (Some LkFailed, set_error WSAENOTSOCK st)
           | (Some sock, st) \<Rightarrow>
               if sk_ptr sock \<noteq> sockptr
               then Some (Some LkFailed, set_error WSAENOTSOCK (unlock_sockets st))
               else
                 case lk_recv ev of
                   Inl err \<Rightarrow> Some (None, set_error err st)
                 | Inr (reply, from) \<Rightarrow>
                     if \<not> reply_matches req reply then Some (None, st)
                     else
                       case lookup_reply env fd sock (sin_addr from) st of
                         None \<Rightarrow> None
                       | Some (accepted, st) \<Rightarrow>
                           Some (if accepted then Some (LkFound (from\<lparr>sin_port := le_word (slice reply 12 2)\<rparr>)) else None,
                                 st)))"

partial_function (option) lookup_wait ::
  "('w, 's) genv \<Rightarrow> (nat \<Rightarrow> ('w, 's, 'z) wstate_scheme lookup_event) \<Rightarrow> nat \<Rightarrow> nat \<Rightarrow> bytes \<Rightarrow> u64 \<Rightarrow> nat
     \<Rightarrow> ('w, 's, 'z) wstate_scheme \<Rightarrow> (lookup_result \<times> nat \<times> ('w, 's, 'z) wstate_scheme) option" where
  "lookup_wait env ev sockptr fd req wait_until i st =
     (if \<not> lk_now (ev i) < wait_until then Some (LkTimeout, Suc i, st)
      else
        case lookup_turn env (ev i) sockptr fd req st of
          None \<Rightarrow> None
        | Some (res, st') \<Rightarrow>
            (case res of
               Some r \<Rightarrow> Some (r, Suc i, st')
             | None \<Rightarrow> lookup_wait env ev sockptr fd req wait_until (Suc i) st'))"

text \<open>
  The tries. \<open>ticks t\<close> is the clock after batch \<open>t\<close> has been sent.
\<close>

fun lookup_tries ::
  "('w, 's) genv \<Rightarrow> (nat \<Rightarrow> ('w, 's, 'z) wstate_scheme lookup_event) \<Rightarrow> (nat \<Rightarrow> u64) \<Rightarrow> nat \<Rightarrow> u32 list \<Rightarrow> nat \<Rightarrow> nat
     \<Rightarrow> bytes \<Rightarrow> nat \<Rightarrow> nat \<Rightarrow> ('w, 's, 'z) wstate_scheme \<Rightarrow> (lookup_result \<times> ('w, 's, 'z) wstate_scheme) option" where
  "lookup_tries env ev ticks lookup_fd addrs sockptr fd req i 0 st = Some (LkTimeout, st)"
| "lookup_tries env ev ticks lookup_fd addrs sockptr fd req i (Suc n) st =
     (let (sent_req, st) = send_lookups env lookup_fd (spxlookup_packet req) addrs False st in
      if \<not> sent_req then Some (LkFailed, set_error WSAENETUNREACH (unlock_sockets st))
      else
        case lookup_wait env ev sockptr fd req
               (ticks (IPX_CONNECT_TRIES - Suc n) + IPX_CONNECT_TIMEOUT div of_nat IPX_CONNECT_TRIES * 1000) i st of
          None \<Rightarrow> None
        | Some (LkTimeout, i, st) \<Rightarrow> lookup_tries env ev ticks lookup_fd addrs sockptr fd req i n st
        | Some (res, i, st) \<Rightarrow> Some (res, st))"

text \<open>
  The structure is sent piece by piece: \<open>tx n\<close> is what the \<open>n\<close>-th \<open>send\<close> returns. The result says
  whether all was sent and what has gone out.
\<close>

definition SPXINIT_SIZE :: nat where "SPXINIT_SIZE = 32"

definition spxinit :: "sockaddr_ipx \<Rightarrow> bytes" where
  "spxinit a = sa_netnum a @ sa_nodenum a @ le_bytes 2 (sa_socket a) @ replicate 20 0"

partial_function (option) send_all ::
  "(nat \<Rightarrow> u32 + nat) \<Rightarrow> nat \<Rightarrow> bytes \<Rightarrow> nat \<Rightarrow> ((u32 + unit) \<times> bytes) option" where
  "send_all tx n dat c =
     (if \<not> c < length dat then Some (Inr (), take c dat)
      else case tx n of
             Inl err \<Rightarrow> Some (Inl err, take c dat)
           | Inr s \<Rightarrow> send_all tx (Suc n) dat (c + s))"

record ('w, 's, 'z) spx_sys =
  sx_malloc :: bool
  sx_socket :: "u32 + nat"
  sx_bind :: "u32 + int"
  sx_ticks :: "nat \<Rightarrow> u64"
  sx_events :: "nat \<Rightarrow> ('w, 's, 'z) wstate_scheme lookup_event"
  sx_connect :: "u32 + int"
  sx_writable :: bool
  sx_getsockname :: "u32 + u16"
  sx_create_ok :: "u16 \<Rightarrow> bool"
  sx_send :: "nat \<Rightarrow> u32 + nat"

text \<open>
  The TCP connection is up: the socket becomes connected, is bound if it was not, and the address is
  sent. The state after a failure here is inconsistent, as the code logs.
\<close>

definition connected_spx ::
  "('w, 's, 'z) spx_sys \<Rightarrow> nat \<Rightarrow> sockaddr_ipx \<Rightarrow> ('w, 's, 'z) wstate_scheme
     \<Rightarrow> (int \<times> bytes \<times> ('w, 's, 'z) wstate_scheme) option" where
  "connected_spx sys fd ipxaddr st =
     (let st = update_socket fd
                 (\<lambda>s. set_flags IPX_CONNECTED ((set_flags IPX_CONNECT_OK s)\<lparr>sk_remote_addr := ipxaddr\<rparr>)) st in
      case hash_find (g_sockets st) fd of
        None \<Rightarrow> None
      | Some sock \<Rightarrow>
          let finish = (\<lambda>sock st.
            case send_all (sx_send sys) 0 (spxinit (sk_addr sock)) 0 of
              None \<Rightarrow> None
            | Some (Inl err, out) \<Rightarrow> Some (-1, out, unlock_sockets (set_error err st))
            | Some (Inr _, out) \<Rightarrow> Some (0, out, unlock_sockets st))
          in if flag_set (sk_flags sock) IPX_BOUND then finish sock st
             else
               let sock = sock\<lparr>sk_addr := (sk_addr sock)\<lparr>sa_family := AF_IPX\<rparr>\<rparr> in
               case sx_getsockname sys of
                 Inl err \<Rightarrow> Some (-1, [], unlock_sockets (set_error err (update_socket fd (\<lambda>_. sock) st)))
               | Inr port \<Rightarrow>
                   let (ok, sock, st) = complete_bind (sx_create_ok sys) (sock\<lparr>sk_port := port\<rparr>) st;
                       st = update_socket fd (\<lambda>_. sock) st
                   in if \<not> ok then Some (-1, [], unlock_sockets st) else finish sock st)"

text \<open>
  The result, what was sent over the connection, and the state. The socket the lookup uses is not one
  of the table, so the functions called on it are the system's.
\<close>

definition connect_spx ::
  "('w, 's) genv \<Rightarrow> ('w, 's, 'z) spx_sys \<Rightarrow> nat \<Rightarrow> ipx_socket \<Rightarrow> sockaddr_ipx \<Rightarrow> ('w, 's, 'z) wstate_scheme
     \<Rightarrow> (int \<times> bytes \<times> ('w, 's, 'z) wstate_scheme) option" where
  "connect_spx env sys fd sock ipxaddr st =
     (let failed = (\<lambda>err st. case fail_unlock err st of (r, st) \<Rightarrow> Some (r, [], st)) in
      if sa_family ipxaddr \<noteq> AF_IPX then failed WSAEAFNOSUPPORT st
      else
        case lookup_addresses env sock st of
          None \<Rightarrow> None
        | Some (addrs, st) \<Rightarrow>
            if addrs = [] then failed WSAENETUNREACH st
            else if \<not> sx_malloc sys then failed ERROR_OUTOFMEMORY st
            else
              case sx_socket sys of
                Inl err \<Rightarrow> failed err st
              | Inr lookup_fd \<Rightarrow>
                  (case sx_bind sys of
                     Inl err \<Rightarrow> failed err st
                   | Inr _ \<Rightarrow>
                       (case lookup_tries env (sx_events sys) (sx_ticks sys) lookup_fd addrs (sk_ptr sock) fd
                               (spxlookup_req ipxaddr) 0 IPX_CONNECT_TRIES st of
                          None \<Rightarrow> None
                        | Some (LkFailed, st) \<Rightarrow> Some (-1, [], st)
                        | Some (LkTimeout, st) \<Rightarrow> failed WSAENETUNREACH st
                        | Some (LkFound in_addr, st) \<Rightarrow>
                            (case sx_connect sys of
                               Inr _ \<Rightarrow> connected_spx sys fd ipxaddr st
                             | Inl err \<Rightarrow>
                                 if err \<noteq> WSAEWOULDBLOCK then failed err st
                                 else if sx_writable sys then connected_spx sys fd ipxaddr st
                                 else failed WSAEWOULDBLOCK st))))"

definition connect ::
  "('w, 's) genv \<Rightarrow> ('w, 's, 'z) spx_sys \<Rightarrow> bind_sys \<Rightarrow> nat \<Rightarrow> sockaddr_ipx \<Rightarrow> u32 \<Rightarrow> u32 + int
     \<Rightarrow> ('w, 's, 'z) wstate_scheme \<Rightarrow> (int \<times> bytes \<times> ('w, 's, 'z) wstate_scheme) option" where
  "connect env sys bsys fd addr addrlen r st =
     (case get_socket fd st of
        (None, st) \<Rightarrow> Some (case sys_result r st of (v, st) \<Rightarrow> (v, [], st))
      | (Some sock, st) \<Rightarrow>
          if flag_set (sk_flags sock) IPX_IS_SPX then
            (if addrlen < of_nat SOCKADDR_IPX_SIZE
             then Some (case fail_unlock WSAEFAULT st of (v, st) \<Rightarrow> (v, [], st))
             else if sa_family addr \<noteq> AF_IPX
             then Some (case fail_unlock WSAEAFNOSUPPORT st of (v, st) \<Rightarrow> (v, [], st))
             else connect_spx env sys fd sock addr st)
          else map_option (\<lambda>(v, st). (v, [], st)) (connect_dgram env bsys fd sock addr addrlen st))"

subsection \<open>Accepting\<close>

text \<open>\<open>rx n\<close> is what the \<open>n\<close>-th \<open>recv\<close> returns, nothing when the connection has been closed.\<close>

partial_function (option) recv_all ::
  "(nat \<Rightarrow> u32 + bytes) \<Rightarrow> nat \<Rightarrow> nat \<Rightarrow> bytes \<Rightarrow> ((u32 + unit) \<times> bytes) option" where
  "recv_all rx n want got =
     (if \<not> length got < want then Some (Inr (), got)
      else case rx n of
             Inl err \<Rightarrow> Some (Inl err, got)
           | Inr d \<Rightarrow> if d = [] then Some (Inl 0, got) else recv_all rx (Suc n) want (got @ d))"

record accept_sys =
  ac_ptr :: nat
  ac_junk :: ipx_socket
  ac_accept :: "u32 + nat"
  ac_recv :: "nat \<Rightarrow> u32 + bytes"
  ac_duplicate :: bool

definition DuplicateHandle ::
  "bool \<Rightarrow> nat \<Rightarrow> ('w, 's, 'z) wstate_scheme \<Rightarrow> nat option \<times> ('w, 's, 'z) wstate_scheme" where
  "DuplicateHandle ok h st =
     (case map_of (w_mutexes st) h of
        None \<Rightarrow> (None, st)
      | Some socknum \<Rightarrow>
          if \<not> ok then (None, st)
          else (Some (w_next_handle st),
                st\<lparr>w_mutexes := (w_next_handle st, socknum) # w_mutexes st, w_next_handle := w_next_handle st + 1\<rparr>))"

definition spxinit_addr :: "bytes \<Rightarrow> sockaddr_ipx" where
  "spxinit_addr d =
     \<lparr>sa_family = AF_IPX, sa_netnum = slice d 0 4, sa_nodenum = slice d 4 6, sa_socket = le_word (slice d 10 2)\<rparr>"

text \<open>
  \<open>addrlen\<close> is the size the application passed, if it passed one. A failed allocation returns with
  the lock held; the receive queue and the port of the new socket are never assigned.
\<close>

definition accept ::
  "accept_sys \<Rightarrow> nat \<Rightarrow> bool \<Rightarrow> u32 option \<Rightarrow> u32 + int \<Rightarrow> ('w, 's, 'z) wstate_scheme
     \<Rightarrow> (int \<times> bytes \<times> ('w, 's, 'z) wstate_scheme) option" where
  "accept sys s addr addrlen r st =
     (let failed = (\<lambda>err st. case fail_unlock err st of (r, st) \<Rightarrow> Some (r, [], st)) in
      case get_socket s st of
        (None, st) \<Rightarrow> Some (case sys_result r st of (v, st) \<Rightarrow> (v, [], st))
      | (Some sock, st) \<Rightarrow>
          if \<not> flag_set (sk_flags sock) IPX_IS_SPX then failed WSAEOPNOTSUPP st
          else if (case addrlen of None \<Rightarrow> False | Some al \<Rightarrow> al < of_nat SOCKADDR_IPX_SIZE)
          then failed WSAEFAULT st
          else if ac_ptr sys = 0 then Some (-1, [], set_error ERROR_OUTOFMEMORY st)
          else
            case ac_accept sys of
              Inl err \<Rightarrow> failed err st
            | Inr nfd \<Rightarrow>
                (case recv_all (ac_recv sys) 0 SPXINIT_SIZE [] of
                   None \<Rightarrow> None
                 | Some (Inl err, _) \<Rightarrow> failed WSAECONNRESET st
                 | Some (Inr _, init) \<Rightarrow>
                     (case DuplicateHandle (ac_duplicate sys) (sk_sock_mut sock) st of
                        (None, st) \<Rightarrow> failed WSAENETDOWN st
                      | (Some mut, st) \<Rightarrow>
                          let nsock = (ac_junk sys)\<lparr>sk_ptr := ac_ptr sys,
                                sk_flags := IPX_IS_SPX OR IPX_BOUND OR IPX_CONNECTED OR (sk_flags sock AND IPX_IS_SPXII),
                                sk_addr := sk_addr sock, sk_sock_mut := mut, sk_remote_addr := spxinit_addr init\<rparr>;
                              st = st\<lparr>g_sockets := hash_add (g_sockets st) nfd nsock\<rparr>
                          in Some (int nfd, (if addr then sockaddr_ipx_bytes (sk_remote_addr nsock) else []),
                                   unlock_sockets st))))"

end
