(* ===== verification/ApiKeeps.thy ===== *)
theory ApiKeeps
  imports Receiving Binding Spx
begin

text \<open>
  Every function of the API keeps the table of sockets well-formed and gives back the sockets lock as
  often as it takes it: the lemmas, function by function.
\<close>

definition keeps :: "('w, 's, 'z) wstate_scheme \<Rightarrow> ('w, 's, 'z) wstate_scheme \<Rightarrow> bool" where
  "keeps st st' \<longleftrightarrow> api_ok st' \<and> w_lock st' = w_lock st \<and> wstate.more st' = wstate.more st"

lemma keeps_refl [simp]: "keeps st st \<longleftrightarrow> api_ok st"
  by (simp add: keeps_def)

lemma keeps_error [simp]: "keeps st (set_error err st') \<longleftrightarrow> keeps st st'"
  by (simp add: keeps_def)

lemma unlock_error [simp]: "unlock_sockets (set_error err st) = set_error err (unlock_sockets st)"
  by (simp add: unlock_sockets_def set_error_def)

lemma keeps_trans: "keeps a b \<Longrightarrow> keeps b c \<Longrightarrow> keeps a c"
  by (simp add: keeps_def)

lemma keeps_sys_result [simp]: "keeps st (snd (sys_result r st')) \<longleftrightarrow> keeps st st'"
  by (simp add: sys_result_def split: sum.splits)

lemma keeps_unlock: "keeps (lock_sockets st) st' \<Longrightarrow> keeps st (unlock_sockets st')"
  by (simp add: keeps_def)

lemma same_sockets_keeps: "api_ok st \<Longrightarrow> same_sockets st st' \<Longrightarrow> keeps st st'"
  using same_sockets_ok [of st st'] by (simp add: keeps_def same_sockets_def)

lemma keeps_fail_unlock [simp]: "keeps st (snd (fail_unlock err st')) \<longleftrightarrow> keeps st (unlock_sockets st')"
  by (simp add: fail_unlock_def)

lemma keeps_ok_unlock [simp]: "keeps st (snd (ok_unlock st')) \<longleftrightarrow> keeps st (unlock_sockets st')"
  by (simp add: ok_unlock_def)

lemma keeps_if: "(c \<Longrightarrow> keeps st (snd a)) \<Longrightarrow> (\<not> c \<Longrightarrow> keeps st (snd b)) \<Longrightarrow> keeps st (snd (if c then a else b))"
  by simp

subsection \<open>Options and states of a socket\<close>

text \<open>A change of a structure that does not concern what the table keeps.\<close>

definition harmless :: "(ipx_socket \<Rightarrow> ipx_socket) \<Rightarrow> bool" where
  "harmless f \<longleftrightarrow>
     (\<forall>s. is_spx (f s) = is_spx s \<and> is_bound (f s) = is_bound s \<and> (is_connected (f s) \<longrightarrow> is_connected s) \<and>
          sk_recv_queue (f s) = sk_recv_queue s \<and> sk_sock_mut (f s) = sk_sock_mut s \<and>
          sk_addr (f s) = sk_addr s \<and> sk_remote_addr (f s) = sk_remote_addr s)"

lemma api_ok_update:
  assumes ok: "api_ok st"
    and f: "\<And>s. hash_find (g_sockets st) fd = Some s \<Longrightarrow>
      sock_ok (w_queues st) (w_mutexes st) (f s) \<and> is_spx (f s) = is_spx s \<and> sk_recv_queue (f s) = sk_recv_queue s \<and>
      (is_bound (f s) \<longrightarrow> is_bound s \<and> sk_sock_mut (f s) = sk_sock_mut s)"
  shows "api_ok (update_socket fd f st)"
proof -
  have find: "hash_find (hash_modify (g_sockets st) fd f) =
      (hash_find (g_sockets st))(fd := map_option f (hash_find (g_sockets st) fd))"
    by (auto simp: fun_eq_iff)
  have "distinct (map fst (hash_modify (g_sockets st) fd f))"
    using ok by (simp add: api_ok_def fst_hash_modify del: map_map)
  moreover have "table_ok (hash_find (hash_modify (g_sockets st) fd f)) (w_queues st) (w_mutexes st) (w_next_handle st)"
  proof (cases "hash_find (g_sockets st) fd")
    case None
    then have "hash_find (hash_modify (g_sockets st) fd f) = hash_find (g_sockets st)" by (auto simp: find fun_eq_iff)
    with ok show ?thesis by (simp add: api_ok_def)
  next
    case (Some s)
    with table_update [of "hash_find (g_sockets st)" _ _ _ fd s "f s"] f [OF Some] ok show ?thesis
      by (simp add: find api_ok_def)
  qed
  ultimately show ?thesis by (simp add: api_ok_def)
qed

lemma harmless_update:
  assumes "api_ok st" and "harmless f"
  shows "api_ok (update_socket fd f st)"
proof (rule api_ok_update [OF assms(1)])
  fix s assume "hash_find (g_sockets st) fd = Some s"
  from api_ok_sock [OF assms(1) this] assms(2)
  show "sock_ok (w_queues st) (w_mutexes st) (f s) \<and> is_spx (f s) = is_spx s \<and> sk_recv_queue (f s) = sk_recv_queue s \<and>
      (is_bound (f s) \<longrightarrow> is_bound s \<and> sk_sock_mut (f s) = sk_sock_mut s)"
    by (auto simp: harmless_def sock_ok_def)
qed

text \<open>Flags other than those three.\<close>

definition free_flag :: "u32 \<Rightarrow> bool" where
  "free_flag f \<longleftrightarrow> f AND (IPX_IS_SPX OR IPX_BOUND OR IPX_CONNECTED) = 0"

lemma free_flag_not_set: "free_flag f \<Longrightarrow> \<not> flag_set f IPX_IS_SPX \<and> \<not> flag_set f IPX_BOUND \<and> \<not> flag_set f IPX_CONNECTED"
  by (auto simp: free_flag_def flag_set_def bit.conj_disj_distrib or_eq_0_iff)

lemma free_flag_simps [simp]:
  "free_flag IPX_FILTER" "free_flag IPX_BROADCAST" "free_flag IPX_SEND" "free_flag IPX_RECV" "free_flag IPX_REUSE"
  "free_flag IPX_RECV_BCAST" "free_flag IPX_EXT_ADDR" "free_flag IPX_LISTENING" "free_flag IPX_CONNECT_OK"
  by (simp_all add: free_flag_def ipx_flags)

lemma harmless_flags:
  assumes "free_flag f"
  shows "harmless (set_flags f)" "harmless (clear_flags f)" "harmless (set_flag f v)"
proof -
  have c: "f AND IPX_IS_SPX = 0" "f AND IPX_BOUND = 0" "f AND IPX_CONNECTED = 0"
    using free_flag_not_set [OF assms] by (auto simp: flag_set_def)
  show "harmless (set_flags f)" "harmless (clear_flags f)" "harmless (set_flag f v)"
    using c free_flag_not_set [OF assms]
    by (auto simp: harmless_def set_flag_def set_flags_def clear_flags_def flag_simps)
qed

lemma harmless_fields: "harmless (\<lambda>s. s\<lparr>sk_s_ptype := a\<rparr>)" "harmless (\<lambda>s. set_flags IPX_FILTER (s\<lparr>sk_f_ptype := b\<rparr>))"
  using harmless_flags(1) [of IPX_FILTER] by (simp_all add: harmless_def set_flags_def)

lemma harmless_clear_connected: "harmless (clear_flags IPX_CONNECTED)"
proof -
  have "IPX_CONNECTED AND IPX_IS_SPX = 0" "IPX_CONNECTED AND IPX_BOUND = 0" by (simp_all add: ipx_flags)
  then show ?thesis by (simp add: harmless_def clear_flags_def flag_simps)
qed

lemmas harmless_changes = harmless_flags [OF free_flag_simps(1)] harmless_flags [OF free_flag_simps(2)]
  harmless_flags [OF free_flag_simps(3)] harmless_flags [OF free_flag_simps(4)] harmless_flags [OF free_flag_simps(5)]
  harmless_flags [OF free_flag_simps(6)] harmless_flags [OF free_flag_simps(7)] harmless_flags [OF free_flag_simps(8)]
  harmless_flags [OF free_flag_simps(9)] harmless_fields harmless_clear_connected

text \<open>A function that takes the lock, makes such a change, and gives the lock back.\<close>

lemma keeps_locked_update:
  "api_ok st \<Longrightarrow> harmless f \<Longrightarrow> keeps st (unlock_sockets (update_socket fd f (lock_sockets st)))"
  by (simp add: keeps_def harmless_update)

lemma keeps_locked: "api_ok st \<Longrightarrow> keeps st (unlock_sockets (lock_sockets st))"
  by simp

lemma set_option_keeps:
  "api_ok st \<Longrightarrow> (\<And>v. harmless (f v)) \<Longrightarrow> keeps st (snd (set_option fd optval f (lock_sockets st)))"
  by (simp add: set_option_def keeps_locked_update)

lemma setsockopt_keeps: "api_ok st \<Longrightarrow> keeps st (snd (setsockopt fd level optname optval r st))"
proof (cases "hash_find (g_sockets st) fd")
  case (Some sock)
  assume ok: "api_ok st"
  then have "keeps st (snd (ok_unlock (update_socket fd (clear_flags IPX_FILTER) (lock_sockets st))))"
    "keeps st (snd (ok_unlock (lock_sockets st)))"
    by (simp_all add: keeps_locked_update harmless_changes)
  moreover have "keeps st (snd (sys_result r (unlock_sockets (lock_sockets st))))"
    "keeps st (snd (-1 :: int, unlock_sockets (set_error WSAENOPROTOOPT (lock_sockets st))))" using ok by simp_all
  ultimately show ?thesis
    unfolding setsockopt_def get_socket_cases Some option.case prod.case
    by (intro keeps_if set_option_keeps [OF ok] harmless_changes)
qed (simp add: setsockopt_def get_socket_cases)

lemma shutdown_keeps: "api_ok st \<Longrightarrow> keeps st (snd (shutdown fd cmd r st))"
  by (simp add: shutdown_def get_socket_cases Let_def split: option.splits)
    (simp add: keeps_def harmless_update harmless_changes)

lemma listen_keeps: "api_ok st \<Longrightarrow> keeps st (snd (listen fd r st))"
  by (simp add: listen_def get_socket_cases keeps_locked_update harmless_changes split: option.splits sum.splits)

lemma WSAAsyncSelect_keeps: "api_ok st \<Longrightarrow> keeps st (snd (snd (WSAAsyncSelect fd lEvent r st)))"
  by (simp add: WSAAsyncSelect_def get_socket_cases Let_def split: option.splits)
    (simp add: keeps_def harmless_update harmless_changes)

lemma getsockname_keeps: "api_ok st \<Longrightarrow> keeps st (snd (snd (snd (getsockname fd addrlen r st))))"
  by (simp add: getsockname_def get_socket_cases split: option.splits prod.splits)

lemma getpeername_keeps: "api_ok st \<Longrightarrow> keeps st (snd (snd (snd (getpeername fd addrlen r st))))"
  by (simp add: getpeername_def get_socket_cases split: option.splits prod.splits)

text \<open>The options that are read can need the interfaces.\<close>

lemma return_opt_keeps: "keeps st (unlock_sockets st') \<Longrightarrow> keeps st (snd (snd (snd (return_opt n val optlen st'))))"
  by (simp add: return_opt_def)

lemma keeps_ifaces: "api_ok st \<Longrightarrow> keeps st (unlock_sockets ((lock_sockets st)\<lparr>g_ifaces := c\<rparr>))"
  by (simp add: keeps_def)

lemma getsockopt_ipx_keeps:
  assumes "api_ok st" and "getsockopt_ipx env optname optval optlen sock (lock_sockets st) = Some (ret, out, al, st')"
  shows "keeps st st'"
proof -
  have o: "keeps st st'" if "return_opt n val optlen (lock_sockets st) = (ret, out, al, st')" for n val
    using return_opt_keeps [of st "lock_sockets st" n val optlen] assms(1) that by simp
  have i: "keeps st st'" if "return_opt n val optlen ((lock_sockets st)\<lparr>g_ifaces := c\<rparr>) = (ret, out, al, st')" for n val c
    using return_opt_keeps [of st "(lock_sockets st)\<lparr>g_ifaces := c\<rparr>" n val optlen] keeps_ifaces [OF assms(1), of c] that
    by simp
  show ?thesis
    using assms
    by (auto simp: getsockopt_ipx_def return_int_opt_def return_bool_opt_def getsockopt_address_def Let_def keeps_ifaces
        dest: o i split: if_splits option.splits prod.splits)
qed

lemma getsockopt_keeps:
  assumes "api_ok st" and "getsockopt env id fd level optname optval optlen r st = Some (ret, out, al, st')"
  shows "keeps st st'"
proof -
  have o: "keeps st st'" if "return_opt n val optlen (lock_sockets st) = (ret, out, al, st')" for n val
    using return_opt_keeps [of st "lock_sockets st" n val optlen] assms(1) that by simp
  show ?thesis
    using assms getsockopt_ipx_keeps [OF assms(1)]
    by (auto simp: getsockopt_def get_socket_wait_for_ready_def get_socket_cases return_bool_opt_def
        dest: o split: if_splits option.splits prod.splits)
qed

subsection \<open>Binding\<close>

lemma api_ok_next:
  assumes "api_ok st" and "g_sockets st' = g_sockets st" "w_queues st' = w_queues st" "w_mutexes st' = w_mutexes st"
    and "w_next_handle st \<le> w_next_handle st'"
  shows "api_ok st'"
proof -
  have "handles_ok (w_mutexes st) (w_next_handle st')" using assms(1,5) by (force simp: api_ok_def table_ok_def handles_ok_def)
  with assms(1-4) show ?thesis by (simp add: api_ok_def table_ok_def)
qed

text \<open>The structure is written back without having become bound.\<close>

lemma api_ok_unbound:
  assumes ok: "api_ok st" and s: "hash_find (g_sockets st) fd = Some s"
    and s': "\<not> is_bound s'" "is_spx s' = is_spx s" "sk_recv_queue s' = sk_recv_queue s"
      "is_connected s' \<Longrightarrow> is_connected s \<and> sk_remote_addr s' = sk_remote_addr s"
    and st': "g_sockets st' = hash_modify (g_sockets st) fd (\<lambda>_. s')" "w_queues st' = w_queues st"
      "w_mutexes st' = w_mutexes st" "w_next_handle st \<le> w_next_handle st'"
  shows "api_ok st'"
proof -
  have "api_ok (update_socket fd (\<lambda>_. s') st)"
    by (rule api_ok_update [OF ok]) (use api_ok_sock [OF ok s] s s' in \<open>auto simp: sock_ok_def\<close>)
  from api_ok_next [OF this, of st'] st' show ?thesis by simp
qed

lemma api_ok_bound:
  assumes ok: "api_ok st" and s: "hash_find (g_sockets st) fd = Some s"
    and s': "is_spx s' = is_spx s" "sk_recv_queue s' = sk_recv_queue s" "sk_sock_mut s' = N"
      "is_connected s' \<Longrightarrow> addr_ok (sk_remote_addr s')" "addr_ok (sk_addr s')" "sa_socket (sk_addr s') = htons n"
    and st': "g_sockets st' = hash_modify (g_sockets st) fd (\<lambda>_. s')" "w_queues st' = w_queues st"
      "w_mutexes st' = (N, n) # w_mutexes st" "w_next_handle st \<le> N" "w_next_handle st' = N + 1"
  shows "api_ok st'"
proof -
  have find: "hash_find (g_sockets st') = (hash_find (g_sockets st))(fd \<mapsto> s')" using s by (auto simp: st' fun_eq_iff)
  have "api_ok (st\<lparr>w_next_handle := N\<rparr>)" by (rule api_ok_next [OF ok]) (use st' in simp_all)
  then have t: "table_ok (hash_find (g_sockets st)) (w_queues st) (w_mutexes st) N" "distinct (map fst (g_sockets st))"
    by (simp_all add: api_ok_def)
  have "sock_ok (w_queues st) ((N, n) # w_mutexes st) s'"
    using api_ok_sock [OF ok s] s' by (auto simp: sock_ok_def)
  from table_bind [OF t(1) s this s'(1-3)] t(2) show ?thesis
    unfolding api_ok_def find st'(2,3,5) by (simp add: st'(1) fst_hash_modify del: map_map)
qed

lemma bind_ipx_keeps:
  assumes ok: "api_ok st" and s: "hash_find (g_sockets st) fd = Some sock"
    and b: "bind_ipx env sys fd sock addr st = Some (ret, st')"
  shows "keeps (unlock_sockets st) st'"
proof (cases "is_bound sock")
  case True
  with ok b show ?thesis by (auto simp: bind_ipx_def fail_unlock_def keeps_def)
next
  case nb: False
  let ?sock = "sock\<lparr>sk_addr := (sk_addr sock)\<lparr>sa_family := AF_IPX\<rparr>\<rparr>"
  obtain ok1 sock1 st1 where r: "resolve_bind_address env ?sock addr st = Some (ok1, sock1, st1)"
    using b nb by (auto simp: bind_ipx_def Let_def split: option.splits)
  obtain c where st1: "st1 = st\<lparr>g_ifaces := c\<rparr>" using resolve_bind_address_cases [OF r] by blast
  have sock1: "\<not> is_bound sock1" "is_spx sock1 = is_spx sock" "sk_recv_queue sock1 = sk_recv_queue sock"
      "is_connected sock1 = is_connected sock" "sk_remote_addr sock1 = sk_remote_addr sock"
    using resolve_bind_address_cases [OF r] nb by (auto split: if_splits)
  obtain ok2 sock2 st2 where cb: "complete_bind (bs_create_ok sys) sock1 st1 = (ok2, sock2, st2)"
    using prod_cases3 by blast
  have h1: "handles_ok (w_mutexes st1) (w_next_handle st1)" using ok by (simp add: st1 api_ok_def table_ok_def)
  show ?thesis
  proof (cases "ok1 \<and> ok2")
    case False
    let ?s = "if ok1 then sock2 else sock1" and ?st = "if ok1 then st2 else st1"
    have st': "\<exists>err. fail_unlock err (update_socket fd (\<lambda>_. ?s) ?st) = (ret, st')"
      using b nb False by (auto simp: bind_ipx_def r cb Let_def split: if_splits)
    have "api_ok (update_socket fd (\<lambda>_. ?s) ?st)" "w_lock ?st = w_lock st"
    proof -
      have f: "\<not> is_bound ?s" "is_spx ?s = is_spx sock" "sk_recv_queue ?s = sk_recv_queue sock"
        "is_connected ?s = is_connected sock" "sk_remote_addr ?s = sk_remote_addr sock"
        "g_sockets ?st = g_sockets st" "w_queues ?st = w_queues st" "w_mutexes ?st = w_mutexes st"
        "w_next_handle st \<le> w_next_handle ?st" "w_lock ?st = w_lock st"
        using complete_bind_cases [OF h1 cb] False sock1 by (auto simp: st1)
      show "api_ok (update_socket fd (\<lambda>_. ?s) ?st)"
        by (rule api_ok_unbound [OF ok s f(1-3)]) (use f in simp_all)
      show "w_lock ?st = w_lock st" by (rule f(10))
    qed
    moreover have "wstate.more ?st = wstate.more st" using complete_bind_cases [OF h1 cb] False by (auto simp: st1)
    ultimately show ?thesis using st' by (auto simp: fail_unlock_def keeps_def)
  next
    case True
    with complete_bind_cases [OF h1 cb] obtain N n where N: "w_next_handle st \<le> N" "sock2 = bound_to sock1 n N"
      "st2 = st1\<lparr>w_mutexes := (N, n) # w_mutexes st1, w_next_handle := N + 1\<rparr>" by (auto simp: st1)
    show ?thesis
    proof (cases "ret = 0")
      case True
      from bind_ipx_ok [OF ok b [unfolded True]] obtain net node n N port c where
        f: "length net = 4" "length node = 6" "w_next_handle st \<le> N" and st': "st' = unlock_sockets (update_socket fd
          (\<lambda>_. (bound_to (sock\<lparr>sk_addr := \<lparr>sa_family = AF_IPX, sa_netnum = net, sa_nodenum = node,
                 sa_socket = sa_socket addr\<rparr>\<rparr>) n N)\<lparr>sk_port := port\<rparr>)
          (st\<lparr>g_ifaces := c, w_mutexes := (N, n) # w_mutexes st, w_next_handle := N + 1\<rparr>))" by blast
      have "is_connected sock \<Longrightarrow> addr_ok (sk_remote_addr sock)" using api_ok_sock [OF ok s] by (simp add: sock_ok_def)
      then have "api_ok st'"
        by (intro api_ok_bound [OF ok s, where n = n and N = N]) (use f in \<open>simp_all add: st' addr_ok_def\<close>)
      then show ?thesis by (simp add: keeps_def st')
    next
      case False
      let ?u = "CloseHandle (sk_sock_mut sock2) (update_socket fd (\<lambda>_. clear_flags IPX_BOUND sock2) st2)"
      have st': "\<exists>err. st' = unlock_sockets (set_error err ?u)"
        using b nb True False by (auto simp: bind_ipx_def r cb ok_unlock_def Let_def split: sum.splits)
      have hN: "handles_ok (w_mutexes st) N" using h1 N(1) by (force simp: st1 handles_ok_def)
      have cl: "IPX_BOUND AND IPX_IS_SPX = 0" "IPX_BOUND AND IPX_CONNECTED = 0" by (simp_all add: ipx_flags)
      have "api_ok ?u"
        by (rule api_ok_unbound [OF ok s, where s' = "clear_flags IPX_BOUND sock2"])
          (use sock1 N close_new_handle [OF hN] cl in
            \<open>simp_all add: CloseHandle_def st1 clear_flags_def flag_simps bound_to_sel [unfolded]\<close>)
      moreover have "w_lock ?u = w_lock st" "wstate.more ?u = wstate.more st" by (simp_all add: CloseHandle_def N st1)
      ultimately show ?thesis using st' by (auto simp: keeps_def)
    qed
  qed
qed

lemma bind_keeps:
  assumes ok: "api_ok st" and b: "bind env sys id fd addr addrlen st = Some (ret, st')"
  shows "keeps st st'"
proof (cases "hash_find (g_sockets st) fd")
  case None
  with b ok keeps_sys_result [of st "bs_bind sys" st] show ?thesis
    by (auto simp: bind_def get_socket_wait_for_ready_def get_socket_cases)
next
  case (Some sock)
  show ?thesis
  proof (cases "addrlen < of_nat SOCKADDR_IPX_SIZE \<or> sa_family addr \<noteq> AF_IPX")
    case True
    with b ok Some show ?thesis
      by (auto simp: bind_def get_socket_wait_for_ready_def get_socket_cases fail_unlock_def)
  next
    case False
    then have "bind_ipx env sys fd sock addr (lock_sockets st) = Some (ret, st')"
      using b Some by (simp add: bind_def get_socket_wait_for_ready_def get_socket_cases)
    with bind_ipx_keeps [of "lock_sockets st" fd sock] ok Some show ?thesis by fastforce
  qed
qed

subsection \<open>Creating and closing\<close>

text \<open>What the system guarantees of a new socket: memory and descriptor are not in use.\<close>

definition socket_fresh :: "socket_sys \<Rightarrow> ('w, 's, 'z) wstate_scheme \<Rightarrow> bool" where
  "socket_fresh sys st \<longleftrightarrow>
     w_queues st (ss_queue sys) = None \<and> length (ss_ready sys) = RECV_QUEUE_MAX_PACKETS \<and>
     length (ss_data sys) = RECV_QUEUE_MAX_PACKETS \<and> (\<forall>d \<in> set (ss_data sys). length d = MAX_PKT_SIZE) \<and>
     (\<forall>fd. ss_socket sys = Inr fd \<longrightarrow> hash_find (g_sockets st) (nat fd) = None)"

lemma api_ok_add:
  assumes ok: "api_ok st" and new: "hash_find (g_sockets st) fd = None" and s: "sock_ok (w_queues st) (w_mutexes st) s"
    and q: "\<And>fd' s'. \<not> is_spx s \<Longrightarrow> hash_find (g_sockets st) fd' = Some s' \<Longrightarrow> \<not> is_spx s' \<Longrightarrow>
      sk_recv_queue s' \<noteq> sk_recv_queue s"
    and m: "\<And>fd' s'. is_bound s \<Longrightarrow> hash_find (g_sockets st) fd' = Some s' \<Longrightarrow> is_bound s' \<Longrightarrow>
      sk_sock_mut s' \<noteq> sk_sock_mut s"
  shows "api_ok (st\<lparr>g_sockets := hash_add (g_sockets st) fd s\<rparr>)"
proof -
  have "table_ok ((hash_find (g_sockets st))(fd \<mapsto> s)) (w_queues st) (w_mutexes st) (w_next_handle st)"
    by (rule table_add) (use ok s q m in \<open>auto simp: api_ok_def\<close>)
  moreover have "distinct (map fst (hash_add (g_sockets st) fd s))"
    using uthash.distinct_add [OF _ new] ok by (simp add: api_ok_def)
  ultimately show ?thesis by (simp add: api_ok_def uthash.find_add [OF new])
qed

lemma add_socket_keeps:
  assumes "api_ok (st\<lparr>g_sockets := hash_add (g_sockets st) (nat fd) s\<rparr>)"
  shows "keeps st (snd (add_socket fd s st))"
  using assms by (simp add: add_socket_def Let_def keeps_def api_ok_def)

lemma new_queue_ok:
  assumes "socket_fresh sys st"
  shows "queue_ok (new_recv_queue (ss_ready sys) (ss_data sys))"
    "release_recv_queue (new_recv_queue (ss_ready sys) (ss_data sys)) = None"
  using assms new_recv_queue_inv [of "ss_ready sys" "ss_data sys"]
  by (simp_all add: socket_fresh_def queue_ok_def)
    (simp_all add: new_recv_queue_def release_recv_queue_def recv_queue_adjust_refcount_def)

lemma socket_dgram_keeps:
  assumes ok: "api_ok st" and fresh: "socket_fresh sys st"
  shows "keeps st (snd (socket_dgram protocol sys st))"
proof -
  let ?q = "new_recv_queue (ss_ready sys) (ss_data sys)" and ?p = "ss_queue sys"
  have unowned: "\<And>fd s. hash_find (g_sockets st) fd = Some s \<Longrightarrow> \<not> is_spx s \<Longrightarrow> sk_recv_queue s \<noteq> ?p"
    using api_ok_queue [OF ok] fresh by (fastforce simp: socket_fresh_def)
  have q: "api_ok (set_queue ?p q' st)" for q'
    by (rule api_ok_set_queue [OF ok]) (use unowned in blast)
  show ?thesis
  proof (cases "ss_ptr sys = 0 \<or> ?p = 0 \<or> ss_cs_error sys \<noteq> 0")
    case True
    with ok show ?thesis by (auto simp: socket_dgram_def)
  next
    case False
    then have p: "?p \<noteq> 0" by simp
    show ?thesis
    proof (cases "ss_socket sys")
      case (Inl err)
      have "st\<lparr>w_queues := (w_queues st)(?p := None)\<rparr> = set_queue ?p None st" by (simp add: set_queue_def)
      with q [of None] Inl False show ?thesis
        by (simp add: socket_dgram_def new_queue_ok(2) [OF fresh] keeps_def)
    next
      case (Inr fd)
      let ?s = "(ss_junk sys)\<lparr>sk_ptr := ss_ptr sys, sk_flags := IPX_SEND OR IPX_RECV OR IPX_RECV_BCAST,
          sk_s_ptype := (if protocol \<noteq> 0 then of_int (protocol - NSPROTO_IPX) else 0), sk_recv_queue := ?p\<rparr>"
      have fl: "\<not> is_spx ?s" "\<not> is_bound ?s" "\<not> is_connected ?s" by (simp_all add: flag_set_def ipx_flags)
      have new: "hash_find (g_sockets st) (nat fd) = None" using fresh Inr by (simp add: socket_fresh_def)
      have "api_ok ((set_queue ?p (Some ?q) st)\<lparr>g_sockets := hash_add (g_sockets (set_queue ?p (Some ?q) st)) (nat fd) ?s\<rparr>)"
        by (rule api_ok_add [OF q]) (use fl new unowned p new_queue_ok(1) [OF fresh] in \<open>auto simp: sock_ok_def\<close>)
      from add_socket_keeps [OF this]
      have "keeps st (snd (add_socket fd ?s (set_queue ?p (Some ?q) st)))" by (simp add: keeps_def)
      with Inr False show ?thesis by (simp add: socket_dgram_def set_queue_def Let_def)
    qed
  qed
qed

lemma socket_stream_keeps:
  assumes ok: "api_ok st" and fresh: "socket_fresh sys st"
  shows "keeps st (snd (socket_stream protocol sys st))"
proof (cases "ss_socket sys")
  case (Inl err)
  with ok show ?thesis by (simp add: socket_stream_def)
next
  case (Inr fd)
  let ?s = "(ss_junk sys)\<lparr>sk_ptr := ss_ptr sys,
      sk_flags := IPX_IS_SPX OR (if protocol = NSPROTO_SPXII then IPX_IS_SPXII else 0), sk_recv_queue := 0\<rparr>"
  have fl: "is_spx ?s" "\<not> is_bound ?s" "\<not> is_connected ?s" by (auto simp: flag_set_def ipx_flags)
  have new: "hash_find (g_sockets st) (nat fd) = None" using fresh Inr by (simp add: socket_fresh_def)
  have "api_ok (st\<lparr>g_sockets := hash_add (g_sockets st) (nat fd) ?s\<rparr>)"
    by (rule api_ok_add [OF ok new]) (use fl in \<open>auto simp: sock_ok_def\<close>)
  note k = add_socket_keeps [OF this]
  show ?thesis
    unfolding socket_stream_def Inr sum.case by (intro keeps_if k) (use ok in simp_all)
qed

lemma socket_keeps: "api_ok st \<Longrightarrow> socket_fresh sys st \<Longrightarrow> keeps st (snd (socket af type protocol sys st))"
  by (simp add: socket_def socket_dgram_keeps socket_stream_keeps)

lemma closesocket_keeps:
  assumes ok: "api_ok st" and c: "closesocket fd r st = Some (ret, st')"
  shows "keeps st st'"
proof -
  obtain v st1 where r: "sys_result r st = (v, st1)" by fastforce
  have st1: "api_ok st1" "w_lock st1 = w_lock st" "wstate.more st1 = wstate.more st"
    using r ok by (auto simp: sys_result_def split: sum.splits)
  show ?thesis
  proof (cases "hash_find (g_sockets st1) fd")
    case None
    with c st1 show ?thesis by (auto simp: closesocket_def r get_socket_cases keeps_def)
  next
    case (Some sock)
    show ?thesis
    proof (cases "v = -1")
      case True
      with c Some st1 show ?thesis by (auto simp: closesocket_def r get_socket_cases keeps_def)
    next
      case False
      let ?T = "hash_find (g_sockets st1)"
      obtain st2 where st2: "(if sk_recv_queue sock \<noteq> 0 then release_queue_at (sk_recv_queue sock) (lock_sockets st1)
          else Some (lock_sockets st1)) = Some st2"
        and st': "st' = unlock_sockets ((if is_bound sock then CloseHandle (sk_sock_mut sock) st2 else st2)
            \<lparr>g_sockets := hash_del (g_sockets (if is_bound sock then CloseHandle (sk_sock_mut sock) st2 else st2)) fd\<rparr>)"
        using c Some False by (auto simp: closesocket_def r get_socket_cases Let_def split: option.splits)
      have t: "table_ok ?T (w_queues st1) (w_mutexes st1) (w_next_handle st1)" using st1(1) by (simp add: api_ok_def)
      obtain q' where q': "w_queues st2 = (if sk_recv_queue sock \<noteq> 0 then (w_queues st1)(sk_recv_queue sock := q') else w_queues st1)"
          "g_sockets st2 = g_sockets st1" "w_mutexes st2 = w_mutexes st1" "w_next_handle st2 = w_next_handle st1"
          "w_lock st2 = w_lock st + 1" "wstate.more st2 = wstate.more st"
        using st2 st1(2,3) by (cases "sk_recv_queue sock \<noteq> 0") (auto simp: release_queue_at_def split: option.splits)
      have spx: "sk_recv_queue sock \<noteq> 0 \<Longrightarrow> \<not> is_spx sock" using table_sock [OF t Some] by (auto simp: sock_ok_def)
      have "table_ok (?T(fd := None)) (w_queues st2) (w_mutexes st1) (w_next_handle st1)"
      proof (cases "sk_recv_queue sock \<noteq> 0")
        case True
        show ?thesis unfolding q'(1) if_P [OF True]
        proof (rule table_queue [OF table_del [OF t]])
          fix fd' s assume s: "(?T(fd := None)) fd' = Some s" "\<not> is_spx s" "sk_recv_queue s = sk_recv_queue sock"
          then have "fd' \<noteq> fd" "?T fd' = Some s" by (auto split: if_splits)
          from table_separate [OF t Some this(2)] this(1) s(2,3) spx [OF True]
          show "\<exists>q. q' = Some q \<and> queue_ok q" by (auto simp: separate_def)
        qed
      next
        case False
        with t show ?thesis by (simp add: q'(1) table_del)
      qed
      note t2 = this
      have "table_ok (?T(fd := None)) (w_queues st2)
          (if is_bound sock then filter (\<lambda>m. fst m \<noteq> sk_sock_mut sock) (w_mutexes st1) else w_mutexes st1)
          (w_next_handle st1)"
      proof (cases "is_bound sock")
        case True
        have "sk_sock_mut s \<noteq> sk_sock_mut sock" if s: "(?T(fd := None)) fd' = Some s" "is_bound s" for fd' s
        proof -
          have "fd' \<noteq> fd" "?T fd' = Some s" using s(1) by (auto split: if_splits)
          from table_separate [OF t Some this(2)] this(1) s(2) True show ?thesis by (auto simp: separate_def)
        qed
        with table_close [OF t2] True show ?thesis by simp
      qed (use t2 in simp)
      moreover have "distinct (map fst (hash_del (g_sockets st1) fd))"
        by (rule uthash.distinct_del) (use st1(1) in \<open>simp add: api_ok_def\<close>)
      moreover have "g_sockets st' = hash_del (g_sockets st1) fd" "w_queues st' = w_queues st2"
        "w_mutexes st' = (if is_bound sock then filter (\<lambda>m. fst m \<noteq> sk_sock_mut sock) (w_mutexes st1) else w_mutexes st1)"
        "w_next_handle st' = w_next_handle st1" "w_lock st' = w_lock st" "wstate.more st' = wstate.more st"
        using q'(2-6) by (simp_all add: st' CloseHandle_def)
      ultimately show ?thesis unfolding keeps_def api_ok_def by (simp only: uthash.find_del simp_thms)
    qed
  qed
qed

end
