(* ===== verification/ApiIo.thy ===== *)
theory ApiIo
  imports ApiKeeps
begin

text \<open>
  Sending, connecting, accepting and receiving keep the table of sockets well-formed and give the lock
  back.
\<close>

subsection \<open>Sending\<close>

lemma same_sockets_coalesce [simp]:
  fixes st :: "('w, 's, 'z) wstate_scheme"
  shows "same_sockets st (co_update key f st)" "same_sockets st (co_insert st key cd)"
    "same_sockets st (st\<lparr>co_pending := l\<rparr>)"
  by (simp_all add: same_sockets_def co_update_def co_insert_def)

lemma same_sockets_iff:
  fixes a b :: "('w, 's, 'z) wstate_scheme"
  shows "same_sockets a (co_update key f b) \<longleftrightarrow> same_sockets a b" "same_sockets a (b\<lparr>co_pending := l\<rparr>) \<longleftrightarrow> same_sockets a b"
    "same_sockets a (count_send_udp k b) \<longleftrightarrow> same_sockets a b" "same_sockets a (count_send k b) \<longleftrightarrow> same_sockets a b"
    "same_sockets a (b\<lparr>n_sent := sl\<rparr>) \<longleftrightarrow> same_sockets a b" "same_sockets a (b\<lparr>n_errno := e\<rparr>) \<longleftrightarrow> same_sockets a b"
    "same_sockets a (b\<lparr>g_ifaces := c\<rparr>) \<longleftrightarrow> same_sockets a b"
    "same_sockets (b\<lparr>g_ifaces := c\<rparr>) a \<longleftrightarrow> same_sockets b a" "same_sockets (count_send k b) a \<longleftrightarrow> same_sockets b a"
    "same_sockets a (snd (udp_sendto ef fd to dat b)) \<longleftrightarrow> same_sockets a b"
    "same_sockets a (b\<lparr>w_packet_rate := pr, w_byte_rate := br\<rparr>) \<longleftrightarrow> same_sockets a b"
    "same_sockets a (set_error err b) \<longleftrightarrow> same_sockets a b"
  by (simp_all add: same_sockets_def co_update_def count_send_udp_def count_send_def udp_sendto_def Let_def)

lemma udp_sendto_same:
  fixes a b :: "('w, 's, 'z) wstate_scheme"
  shows "udp_sendto ef fd to dat b = (err, b') \<Longrightarrow> same_sockets a b' \<longleftrightarrow> same_sockets a b"
  using same_sockets_iff(10) [of a ef fd to dat b] by simp

lemma coalesce_flush_same:
  fixes st st' :: "('w, 's, 'z) wstate_scheme"
  shows "coalesce_flush cfg key st = Some st' \<Longrightarrow> same_sockets st st'"
  by (auto simp: coalesce_flush_def Let_def same_sockets_iff udp_sendto_same split: option.splits if_splits prod.splits)

lemma coalesce_add_data_same:
  fixes st st' :: "('w, 's, 'z) wstate_scheme"
  shows "coalesce_add_data cfg junk key dat now st = Some (r, st') \<Longrightarrow> same_sockets st st'"
  by (auto simp: coalesce_add_data_def Let_def same_sockets_iff split: option.splits if_splits prod.splits)

lemma coalesce_enqueue_same:
  fixes st st' :: "('w, 's, 'z) wstate_scheme"
  assumes "coalesce_enqueue cfg junk now dat key st = Some (r, st')"
  shows "same_sockets st st'"
proof -
  obtain cd where cd: "co_find st key = Some cd" using assms by (auto simp: coalesce_enqueue_def split: option.splits)
  obtain b cd' where r: "coalesce_register_send cd now = (b, cd')" by fastforce
  define st1 where "st1 = co_update key (\<lambda>_. cd'\<lparr>cd_active := b\<rparr>) st"
  have e: "coalesce_enqueue cfg junk now dat key st =
      (case (if b \<and> cd_payload_used cd' + length dat > COALESCE_MAX_SIZE \<and> length dat < COALESCE_MAX_SIZE div 2
             then coalesce_flush cfg key st1 else Some st1) of
         None \<Rightarrow> None
       | Some st \<Rightarrow>
           (case (if b then coalesce_add_data cfg junk key dat now st else Some (False, st)) of
              None \<Rightarrow> None
            | Some (queued, st) \<Rightarrow>
                (case co_find st key of
                   None \<Rightarrow> None
                 | Some cd \<Rightarrow>
                     if cd_payload_used cd > 0 \<and> cd_payload_timestamp cd + COALESCE_MAX_DELAY \<le> now
                     then map_option (Pair queued) (coalesce_flush cfg key st) else Some (queued, st))))"
    by (simp add: coalesce_enqueue_def cd r st1_def Let_def)
  obtain st2 where st2: "(if b \<and> cd_payload_used cd' + length dat > COALESCE_MAX_SIZE \<and> length dat < COALESCE_MAX_SIZE div 2
      then coalesce_flush cfg key st1 else Some st1) = Some st2"
    using assms unfolding e by (cases "if b \<and> cd_payload_used cd' + length dat > COALESCE_MAX_SIZE \<and>
        length dat < COALESCE_MAX_SIZE div 2 then coalesce_flush cfg key st1 else Some st1") auto
  obtain q st3 where st3: "(if b then coalesce_add_data cfg junk key dat now st2 else Some (False, st2)) = Some (q, st3)"
    using assms unfolding e st2 option.case
    by (cases "if b then coalesce_add_data cfg junk key dat now st2 else Some (False, st2)") auto
  have "same_sockets st1 st2" using st2 coalesce_flush_same [of cfg key st1 st2] by (auto split: if_splits)
  moreover have "same_sockets st2 st3" using st3 coalesce_add_data_same [of cfg junk key dat now st2 q st3] by (auto split: if_splits)
  moreover have "same_sockets st3 st'"
    using assms coalesce_flush_same [of cfg key st3] unfolding e st2 option.case st3 prod.case by (auto split: option.splits if_splits)
  moreover have "same_sockets st st1" by (simp add: st1_def)
  ultimately show ?thesis using same_sockets_trans by blast
qed

lemma coalesce_send_same:
  fixes st st' :: "('w, 's, 'z) wstate_scheme"
  assumes "coalesce_send cfg mem junk now dat key st = Some (err, st')"
  shows "same_sockets st st'"
proof -
  obtain b st1 where g: "get_coalesce_by_dest cfg mem key st = (b, st1)" by fastforce
  have "same_sockets st st1" using g by (auto simp: get_coalesce_by_dest_def split: if_splits option.splits)
  moreover obtain q st2 where e: "(if b then coalesce_enqueue cfg junk now dat key st1 else Some (False, st1)) = Some (q, st2)"
    using assms by (auto simp: coalesce_send_def g split: if_splits option.splits)
  then have "same_sockets st1 st2" using coalesce_enqueue_same [of cfg junk now dat key st1 q st2] by (cases b) auto
  moreover have "same_sockets st2 st'"
    using assms e by (auto simp: coalesce_send_def g Let_def same_sockets_iff udp_sendto_same split: if_splits prod.splits)
  ultimately show ?thesis using same_sockets_trans by blast
qed

lemma keeps_sys: "sys_result r st = (v, st') \<Longrightarrow> api_ok st \<Longrightarrow> keeps st st'"
  using keeps_sys_result [of st r st] by simp

lemma send_packet_same:
  fixes st :: "('w, 's, 'z) wstate_scheme"
  shows "send_packet env packet addr st = (r, st') \<Longrightarrow> same_sockets st st'"
  by (auto simp: send_packet_def Let_def same_sockets_iff udp_sendto_same split: prod.splits if_splits)

lemma send_bcast_same:
  fixes st :: "('w, 's, 'z) wstate_scheme"
  shows "send_bcast env packet ips ok err st = (ok', err', st') \<Longrightarrow> same_sockets st st'"
proof (induction env packet ips ok err st rule: send_bcast.induct)
  case (2 env packet ip ips ok err st)
  obtain r st1 where s: "send_packet env packet \<lparr>sin_family = AF_INET, sin_port = htons (mc_udp_port (e_config env)),
      sin_addr = ip_bcast ip\<rparr> st = (r, st1)" by fastforce
  have "same_sockets st1 st'"
    using "2.IH" [OF s [symmetric]] "2.prems" s by (auto split: if_splits)
  then show ?case using same_sockets_trans send_packet_same [OF s] by blast
qed simp

lemma send_pcap_same:
  fixes st :: "('w, 's, 'z) wstate_scheme"
  shows "send_pcap env sys ty sn sd ss dn dd ds dat st = Some (err, st') \<Longrightarrow> same_sockets st st'"
  by (auto simp: send_pcap_def pcap_sendpacket_def Let_def same_sockets_iff split: option.splits if_splits)

lemma send_dosbox_same:
  fixes st :: "('w, 's, 'z) wstate_scheme"
  assumes "send_dosbox env sys ty sn sd ss dn dd ds dat st = Some (err, st')"
  shows "same_sockets st st'"
  using assms
  by (auto simp: send_dosbox_def Let_def split: option.splits if_splits dest!: coalesce_send_same deliver_packet_same)
    (auto simp: same_sockets_iff intro: same_sockets_trans)

lemma send_ip_same:
  fixes st :: "('w, 's, 'z) wstate_scheme"
  assumes "send_ip env sys ty sn sd ss dn dd ds dat st = Some (err, st')"
  shows "same_sockets st st'"
proof -
  define fin where "fin = (\<lambda>(d :: bytes) (send_ok, send_error, st :: ('w, 's, 'z) wstate_scheme).
      if send_ok then map_option (\<lambda>st. (0 :: u32, count_send (length d) st))
                        (deliver_packet env ty sn sd ss dn dd ds dat st)
      else Some (send_error, st))"
  have fin: "same_sockets st1 st2" if "fin d (ok, e, st1) = Some (err, st2)" for d :: bytes and ok e st1 st2
    using that deliver_packet_same [of env ty sn sd ss dn dd ds dat st1]
    by (auto simp: fin_def same_sockets_iff split: if_splits)
  show ?thesis
  proof (cases "tx_malloc sys \<and> dat \<noteq> None")
    case False
    with assms show ?thesis by (auto simp: send_ip_def split: if_splits)
  next
    case True
    then obtain d where d: "dat = Some d" "tx_malloc sys" by auto
    let ?packet = "instance_packet ty sn sd ss dn dd ds d"
    show ?thesis
    proof (cases "addr_cache_get (e_now env) (g_hosts st) dn dd ds")
      case (Some a)
      obtain addr al where a: "a = (addr, al)" by fastforce
      obtain r st1 where s: "send_packet env ?packet (sockaddr_in_of addr) st = (r, st1)" by fastforce
      have "fin d (if r \<noteq> 0 then (True, 0, st1) else (False, n_errno st1, st1)) = Some (err, st')"
        using assms Some by (cases "r \<noteq> 0") (auto simp: send_ip_def d a s fin_def Let_def)
      then have "same_sockets st1 st'" using fin by (auto split: if_splits)
      then show ?thesis using send_packet_same [OF s] same_sockets_trans by blast
    next
      case None
      obtain iface c where i: "ipx_interface_by_addr (e_sys env) (e_now env) (e_now' env) sn sd (g_ifaces st) = Some (iface, c)"
        using assms None by (auto simp: send_ip_def d split: option.splits)
      let ?st = "st\<lparr>g_ifaces := c\<rparr>"
      show ?thesis
      proof (cases "iface = None \<or> if_ips (the iface) = []")
        case True
        with assms None i show ?thesis by (auto simp: send_ip_def d Let_def same_sockets_iff split: option.splits)
      next
        case False
        then obtain ifc where ifc: "iface = Some ifc" "if_ips ifc \<noteq> []" by auto
        obtain ok e st1 where s: "send_bcast env ?packet (if_ips ifc) False 0 ?st = (ok, e, st1)" using prod_cases3 by blast
        have "fin d (ok, e, st1) = Some (err, st')"
          using assms None i ifc by (cases ok) (auto simp: send_ip_def d s fin_def Let_def)
        then have "same_sockets st1 st'" by (rule fin)
        moreover have "same_sockets st st1" using send_bcast_same [OF s] by (simp add: same_sockets_iff)
        ultimately show ?thesis using same_sockets_trans by blast
      qed
    qed
  qed
qed

lemma ipx_send_packet_same:
  fixes st :: "('w, 's, 'z) wstate_scheme"
  shows "ipx_send_packet env sys ty sn sd ss dn dd ds dat st = Some (err, st') \<Longrightarrow> same_sockets st st'"
  by (auto simp: ipx_send_packet_def split: if_splits dest: send_pcap_same send_dosbox_same send_ip_same)

lemma send_bound_keeps:
  assumes ok: "api_ok st" and b: "send_bound env sys ticks sock buf len addr addrlen st = Some (ret, delay, st')"
  shows "keeps (unlock_sockets st) st'"
proof -
  obtain m where m: "max_ipx_payload env st = Some m" using b by (auto simp: send_bound_def split: option.splits)
  show ?thesis
  proof (cases "len > m")
    case True
    with b ok show ?thesis by (auto simp: send_bound_def m)
  next
    case False
    let ?ty = "if flag_set (sk_flags sock) IPX_EXT_ADDR \<and> addrlen \<ge> 15 then sa_ptype addr else sk_s_ptype sock"
      and ?sn = "addr32_in (sa_netnum (sk_addr sock))" and ?sd = "addr48_in (sa_nodenum (sk_addr sock))"
    let ?dn = "if addr32_in (sa_netnum addr) = ZERO_NET then ?sn else addr32_in (sa_netnum addr)"
    let ?send = "ipx_send_packet env sys ?ty ?sn ?sd (sa_socket (sk_addr sock)) ?dn (addr48_in (sa_nodenum addr))
      (sa_socket addr) (if len < 0 then None else Some (take (nat len) buf)) st"
    obtain err st1 where s: "?send = Some (err, st1)"
      using b False by (cases "?send") (auto simp: send_bound_def m Let_def)
    have st': "\<exists>pr br. st' = unlock_sockets (st1\<lparr>w_packet_rate := pr, w_byte_rate := br\<rparr>) \<or>
        st' = set_error err (unlock_sockets (st1\<lparr>w_packet_rate := pr, w_byte_rate := br\<rparr>))"
      using b False unfolding send_bound_def m option.case Let_def s prod.case
      by (auto split: option.splits if_splits) blast+
    have "keeps st st1" by (rule same_sockets_keeps [OF ok ipx_send_packet_same [OF s]])
    then have "keeps (unlock_sockets st) (unlock_sockets (st1\<lparr>w_packet_rate := pr, w_byte_rate := br\<rparr>))" for pr br
      by (simp add: keeps_def api_ok_def)
    with st' show ?thesis by auto
  qed
qed

lemma implicit_bind_keeps: "api_ok st \<Longrightarrow> implicit_bind env sys fd net st = Some (ret, st') \<Longrightarrow> keeps st st'"
  by (simp add: implicit_bind_def bind_keeps)

lemma sendto_keeps:
  assumes ok: "api_ok st" and s: "sendto env sys bsys ticks id fd buf len addr addrlen r st = Some (ret, delay, st')"
  shows "keeps st st'"
proof (cases "hash_find (g_sockets st) fd")
  case None
  with ok s show ?thesis
    by (auto simp: sendto_def get_socket_wait_for_ready_def get_socket_cases split: prod.splits dest: keeps_sys)
next
  case (Some sock)
  let ?st = "lock_sockets st"
  note d = sendto_def get_socket_wait_for_ready_def get_socket_cases
  have g: "get_socket_wait_for_ready id fd st = (Some sock, ?st)"
    using Some by (simp add: get_socket_wait_for_ready_def get_socket_cases)
  consider "is_spx sock \<or> addr = None \<or> addrlen < of_nat SOCKADDR_IPX_SIZE \<or> \<not> flag_set (sk_flags sock) IPX_SEND"
    | a where "\<not> is_spx sock" "addr = Some a" "\<not> addrlen < of_nat SOCKADDR_IPX_SIZE" "flag_set (sk_flags sock) IPX_SEND"
    by (cases addr) auto
  then show ?thesis
  proof cases
    case 1
    with s ok show ?thesis by (auto simp: sendto_def g split: option.splits prod.splits if_splits dest: keeps_sys)
  next
    case 2
    show ?thesis
    proof (cases "is_bound sock")
      case True
      with 2 s have "send_bound env sys ticks sock buf len a addrlen ?st = Some (ret, delay, st')"
        by (simp add: sendto_def g)
      from send_bound_keeps [OF _ this] ok show ?thesis by simp
    next
      case False
      obtain v st1 where b: "implicit_bind env bsys fd (sa_netnum a) ?st = Some (v, st1)"
        using 2 s False by (auto simp: sendto_def g split: option.splits)
      have k: "keeps ?st st1" using implicit_bind_keeps [OF _ b] ok by simp
      show ?thesis
      proof (cases "v = -1")
        case True
        with 2 s False b k show ?thesis by (auto simp: sendto_def g intro: keeps_unlock)
      next
        case v: False
        then obtain sock' where "send_bound env sys ticks sock' buf len a addrlen st1 = Some (ret, delay, st')"
          using 2 s False b by (auto simp: sendto_def g split: option.splits)
        from send_bound_keeps [OF _ this] k have "keeps (unlock_sockets st1) st'" by (simp add: keeps_def)
        with k show ?thesis by (simp add: keeps_def)
      qed
    qed
  qed
qed

lemma send_keeps:
  assumes ok: "api_ok st" and s: "send env sys bsys ticks id fd buf len r st = Some (ret, delay, st')"
  shows "keeps st st'"
proof (cases "hash_find (g_sockets st) fd")
  case None
  with ok s show ?thesis by (auto simp: send_def get_socket_cases split: prod.splits dest: keeps_sys)
next
  case (Some sock)
  with ok s show ?thesis
    by (auto simp: send_def get_socket_cases Let_def split: prod.splits if_splits dest: keeps_sys sendto_keeps [OF ok])
qed

lemma connect_dgram_keeps:
  assumes ok: "api_ok st" and a: "length (sa_netnum addr) = 4" "length (sa_nodenum addr) = 6"
    and c: "connect_dgram env bsys fd sock addr addrlen (lock_sockets st) = Some (ret, st')"
  shows "keeps st st'"
proof -
  let ?st = "lock_sockets st"
  have u: "keeps st (unlock_sockets (update_socket fd (clear_flags IPX_CONNECTED) ?st))"
    by (rule keeps_locked_update [OF ok harmless_clear_connected])
  have co: "keeps st (unlock_sockets (update_socket fd (\<lambda>s. set_flags IPX_CONNECTED (s\<lparr>sk_remote_addr := addr\<rparr>)) st1))"
    if "keeps ?st st1" "sa_family addr = AF_IPX" for st1
  proof -
    have nf: "\<not> flag_set IPX_CONNECTED IPX_IS_SPX" "\<not> flag_set IPX_CONNECTED IPX_BOUND"
      by (simp_all add: flag_set_def ipx_flags)
    have ok1: "api_ok st1" using that(1) by (simp add: keeps_def)
    have "api_ok (update_socket fd (\<lambda>s. set_flags IPX_CONNECTED (s\<lparr>sk_remote_addr := addr\<rparr>)) st1)"
      by (rule api_ok_update [OF ok1])
        (use api_ok_sock [OF ok1] nf a that(2) in \<open>auto simp: sock_ok_def set_flags_def flag_simps addr_ok_def\<close>)
    with that(1) show ?thesis by (simp add: keeps_def)
  qed
  show ?thesis
  proof (cases "(addrlen \<ge> 2 \<and> sa_family addr = AF_UNSPEC) \<or> addrlen < of_nat SOCKADDR_IPX_SIZE \<or>
      sa_family addr \<noteq> AF_IPX \<or> sa_nodenum addr = replicate 6 0")
    case True
    with c u ok show ?thesis
      by (auto simp: connect_dgram_def ok_unlock_def fail_unlock_def split: if_splits)
  next
    case False
    then obtain v st1 where b: "(if is_bound sock then Some (0, ?st) else implicit_bind env bsys fd (sa_netnum addr) ?st) = Some (v, st1)"
        and r: "(if v = -1 then (-1, unlock_sockets st1) else ok_unlock (update_socket fd
                (\<lambda>s. set_flags IPX_CONNECTED (s\<lparr>sk_remote_addr := addr\<rparr>)) st1)) = (ret, st')"
      using c by (auto simp: connect_dgram_def split: option.splits if_splits)
    have "keeps ?st st1"
      using b implicit_bind_keeps [of ?st env bsys fd "sa_netnum addr" v st1] ok by (auto split: if_splits)
    with co [OF this] r False show ?thesis
      by (auto simp: ok_unlock_def intro: keeps_unlock split: if_splits)
  qed
qed

subsection \<open>Receiving\<close>

lemma keeps_pop:
  assumes ok: "api_ok st" and s: "hash_find (g_sockets st) fd = Some s" "\<not> is_spx s"
    and q: "w_queues st (sk_recv_queue s) = Some q" "0 < rq_n_ready q"
  shows "api_ok (set_queue (sk_recv_queue s) (Some (recv_queue_pop q)) st)"
proof (rule api_ok_set_queue [OF ok])
  have qok: "queue_ok q" using api_ok_queue [OF ok s] q(1) by simp
  then have "length (rq_content q) = rq_n_ready q" by (simp add: queue_ok_def rq_content_def rq_slots_def rq_inv_def)
  then obtain d ds where "rq_content q = d # ds" using q(2) by (cases "rq_content q") auto
  with rq.pop [of q d ds] qok have "queue_ok (recv_queue_pop q)" by (simp add: queue_ok_def)
  then show "\<exists>q'. Some (recv_queue_pop q) = Some q' \<and> queue_ok q'" by blast
qed

lemma recv_wait_keeps:
  assumes ok: "api_ok st" and s: "hash_find (g_sockets st) fd = Some sock" "\<not> is_spx sock"
    and wb: "well_behaved fd (rx 0)" and w: "recv_wait rx 0 fd st = Some (b, st')"
  shows "api_ok st' \<and> w_lock st' = (if b then w_lock st else w_lock st - 1) \<and> wstate.more st' = wstate.more st \<and>
    (b \<longrightarrow> (\<exists>s q. hash_find (g_sockets st') fd = Some s \<and> \<not> is_spx s \<and>
              w_queues st' (sk_recv_queue s) = Some q \<and> 0 < rq_n_ready q))"
proof -
  obtain q where q: "w_queues st (sk_recv_queue sock) = Some q" using api_ok_queue [OF ok s] by blast
  consider "0 < rq_n_ready q" | "rq_n_ready q = 0" "recv_queue_claim q \<noteq> None"
    | "rq_n_ready q = 0" "recv_queue_claim q = None" by blast
  then show ?thesis
  proof cases
    case 1
    with recv_wait_ready [OF s(1) q, of rx 0] w ok s q show ?thesis by auto
  next
    case 2
    with recv_wait_pump [where rx = rx and i = 0, OF ok s wb q] w show ?thesis by simp
  next
    case 3
    with recv_wait_spins [OF s(1) q, of rx 0] w show ?thesis by simp
  qed
qed

lemma recv_packet_keeps:
  assumes ok: "api_ok st" and s: "hash_find (g_sockets st) fd = Some sock" "\<not> is_spx sock"
    and wb: "well_behaved fd (rx 0)"
    and r: "recv_packet env rx fd sock bufsize peek addr st = Some (rval, out, ad, st')"
  shows "keeps (unlock_sockets st) st'"
proof (cases "is_bound sock")
  case False
  with ok r show ?thesis by (auto simp: recv_packet_def)
next
  case b: True
  obtain res st1 where w: "recv_wait rx 0 fd st = Some (res, st1)"
    using r b by (auto simp: recv_packet_def split: option.splits)
  note k = recv_wait_keeps [OF ok s wb w]
  show ?thesis
  proof (cases res)
    case False
    with b r w k show ?thesis by (auto simp: recv_packet_def keeps_def)
  next
    case True
    then obtain s1 q where s1: "hash_find (g_sockets st1) fd = Some s1" "\<not> is_spx s1"
        "w_queues st1 (sk_recv_queue s1) = Some q" "0 < rq_n_ready q" and st1: "api_ok st1" "w_lock st1 = w_lock st" "wstate.more st1 = wstate.more st"
      using k by auto
    let ?addr = "case addr of None \<Rightarrow> Some ([], st1)
        | Some addrlen \<Rightarrow> recv_address env (rq_data q ! recv_queue_front q) s1 addrlen st1"
    obtain a st2 where a: "?addr = Some (a, st2)"
      using b r w True s1 by (cases ?addr) (auto simp: recv_packet_def Let_def)
    have "same_sockets st1 st2"
      using a by (auto simp: recv_address_def Let_def split: option.splits if_splits prod.splits)
    then have st2: "api_ok st2" "w_lock st2 = w_lock st" "g_sockets st2 = g_sockets st1" "w_queues st2 = w_queues st1"
      "wstate.more st2 = wstate.more st" using st1 same_sockets_ok [of st1 st2] by (simp_all add: same_sockets_def)
    have "st' = unlock_sockets (if peek then st2 else set_queue (sk_recv_queue s1) (Some (recv_queue_pop q)) st2)"
      using b r w True s1 a by (auto simp: recv_packet_def Let_def split: if_splits)
    moreover have "api_ok (set_queue (sk_recv_queue s1) (Some (recv_queue_pop q)) st2)"
      by (rule keeps_pop [OF st2(1), of fd]) (use s1 st2 in simp_all)
    ultimately show ?thesis using st2 by (simp add: keeps_def)
  qed
qed

lemma sys_recv_keeps: "sys_recv r st = (v, out, ad, st') \<Longrightarrow> api_ok st \<Longrightarrow> keeps st st'"
  by (auto simp: sys_recv_def split: sum.splits prod.splits)

lemma recvfrom_keeps:
  assumes ok: "api_ok st" and wb: "well_behaved fd (rx 0)"
    and r: "recvfrom env rx fd len peek addr addrlen r st = Some ((rval, out, ad, st'), al)"
  shows "keeps st st'"
proof (cases "hash_find (g_sockets st) fd")
  case None
  with r ok show ?thesis by (auto simp: recvfrom_def get_socket_cases dest: sys_recv_keeps)
next
  case (Some sock)
  show ?thesis
  proof (cases "is_spx sock")
    case True
    with r ok Some show ?thesis by (auto simp: recvfrom_def get_socket_cases dest: sys_recv_keeps)
  next
    case False
    have k: "keeps st st1" if "recv_packet env rx fd sock len peek a (lock_sockets st) = Some (v, o', d, st1)" for a v o' d st1
      using recv_packet_keeps [OF _ _ False wb that] ok Some by simp
    show ?thesis
      using r ok Some False
      by (auto simp: recvfrom_def get_socket_cases Let_def split: if_splits option.splits dest!: k)
  qed
qed

lemma recv_keeps:
  assumes "api_ok st" and "well_behaved fd (rx 0)" and "recv env rx fd len peek r st = Some (rval, out, ad, st')"
  shows "keeps st st'"
proof -
  have "recvfrom env rx fd len peek False None r st = Some ((rval, out, ad, st'), None)"
    using assms(3) recvfrom_no_address [of env rx fd len peek None r st] by simp
  from recvfrom_keeps [OF assms(1,2) this] show ?thesis .
qed

lemma WSARecvEx_keeps:
  assumes ok: "api_ok st" and wb: "well_behaved fd (rx 0)"
    and r: "WSARecvEx env rx fd len flags r r_flags st = Some ((rval, out, ad, st'), fl)"
  shows "keeps st st'"
proof (cases "hash_find (g_sockets st) fd")
  case None
  with r ok show ?thesis by (auto simp: WSARecvEx_def get_socket_cases dest: sys_recv_keeps)
next
  case (Some sock)
  show ?thesis
  proof (cases "is_spx sock")
    case True
    with r ok Some show ?thesis by (auto simp: WSARecvEx_def get_socket_cases dest: sys_recv_keeps)
  next
    case False
    have k: "keeps st st1" if "recv_packet env rx fd sock len False None (lock_sockets st) = Some (v, o', d, st1)" for v o' d st1
      using recv_packet_keeps [OF _ _ False wb that] ok Some by simp
    show ?thesis
      using r ok Some False by (auto simp: WSARecvEx_def get_socket_cases split: if_splits option.splits dest: k)
  qed
qed

text \<open>The loop that empties the underlying socket.\<close>

lemma recv_pump_keeps:
  assumes ok: "api_ok st" and s: "hash_find (g_sockets st) fd = Some sock" "\<not> is_spx sock"
    and wb: "well_behaved fd ev" and p: "recv_pump ev av fd sock st = Some (r, st')"
  shows "api_ok st' \<and> w_lock st' = (if r < 0 then w_lock st - 1 else w_lock st) \<and> wstate.more st' = wstate.more st \<and>
    (\<not> r < 0 \<longrightarrow> (\<exists>s. hash_find (g_sockets st') fd = Some s \<and> \<not> is_spx s))"
proof (cases "(\<exists>err. av = Some (Inl err)) \<or> av = Some (Inr 0)")
  case True
  with p ok s show ?thesis by (auto simp: recv_pump_def)
next
  case False
  obtain q where q: "w_queues st (sk_recv_queue sock) = Some q" using api_ok_queue [OF ok s] by blast
  show ?thesis
  proof (cases "recv_queue_claim q")
    case None
    with p ok s q False show ?thesis by (auto simp: recv_pump_def Let_def split: option.splits sum.splits)
  next
    case (Some c)
    obtain slot q1 where c: "c = (slot, q1)" by fastforce
    have "pump_result fd st (recv_pump ev av fd sock st)"
      by (rule recv_pump_ok [OF ok s wb q Some [unfolded c]]) (use False in auto)
    then show ?thesis unfolding pump_result_def p by auto
  qed
qed

lemma pump_all_keeps:
  assumes "pump_all rx av i fd st = Some (b, st')"
    and "\<And>i. well_behaved fd (rx i)" and "api_ok st" and "hash_find (g_sockets st) fd = Some sock" "\<not> is_spx sock"
  shows "api_ok st' \<and> w_lock st' = (if b then w_lock st else w_lock st - 1) \<and> wstate.more st' = wstate.more st"
proof -
  have "(\<forall>i. well_behaved fd (rx i)) \<longrightarrow> api_ok st \<longrightarrow> (\<exists>s. hash_find (g_sockets st) fd = Some s \<and> \<not> is_spx s) \<longrightarrow>
      api_ok (snd y) \<and> w_lock (snd y) = (if fst y then w_lock st else w_lock st - 1) \<and> wstate.more (snd y) = wstate.more st"
    if "pump_all rx av i fd st = Some y" for rx av i fd st y
    using that
  proof (rule pump_all.raw_induct
      [where P = "\<lambda>rx av i fd st y. (\<forall>i. well_behaved fd (rx i)) \<longrightarrow> api_ok st \<longrightarrow>
        (\<exists>s. hash_find (g_sockets st) fd = Some s \<and> \<not> is_spx s) \<longrightarrow>
        api_ok (snd y) \<and> w_lock (snd y) = (if fst y then w_lock st else w_lock st - 1) \<and> wstate.more (snd y) = wstate.more st", rotated])
    fix f rx av i fd st y
    assume IH: "\<And>rx av i fd st y. f rx av i fd st = Some y \<Longrightarrow> (\<forall>i. well_behaved fd (rx i)) \<longrightarrow> api_ok st \<longrightarrow>
        (\<exists>s. hash_find (g_sockets st) fd = Some s \<and> \<not> is_spx s) \<longrightarrow>
        api_ok (snd y) \<and> w_lock (snd y) = (if fst y then w_lock st else w_lock st - 1) \<and> wstate.more (snd y) = wstate.more st"
      and f: "(case hash_find (g_sockets st) fd of
        None \<Rightarrow> None
      | Some sock \<Rightarrow>
          (case recv_pump (rx i) (Some (av i)) fd sock st of
             None \<Rightarrow> None
           | Some (r, st') \<Rightarrow>
               if r < 0 then Some (False, st') else if r = 0 then Some (True, st') else f rx av (Suc i) fd st')) = Some y"
    show "(\<forall>i. well_behaved fd (rx i)) \<longrightarrow> api_ok st \<longrightarrow>
        (\<exists>s. hash_find (g_sockets st) fd = Some s \<and> \<not> is_spx s) \<longrightarrow>
        api_ok (snd y) \<and> w_lock (snd y) = (if fst y then w_lock st else w_lock st - 1) \<and> wstate.more (snd y) = wstate.more st"
    proof (intro impI, elim exE conjE)
      fix s assume wb: "\<forall>i. well_behaved fd (rx i)" and ok: "api_ok st"
        and s: "hash_find (g_sockets st) fd = Some s" "\<not> is_spx s"
      obtain r st1 where p: "recv_pump (rx i) (Some (av i)) fd s st = Some (r, st1)"
        using f s by (auto split: option.splits)
      note k = recv_pump_keeps [OF ok s wb [rule_format] p]
      have y: "(if r < 0 then Some (False, st1) else if r = 0 then Some (True, st1) else f rx av (Suc i) fd st1) = Some y"
        using f s p by simp
      show "api_ok (snd y) \<and> w_lock (snd y) = (if fst y then w_lock st else w_lock st - 1) \<and> wstate.more (snd y) = wstate.more st"
      proof (cases "r \<le> 0")
        case True
        with y k show ?thesis by (auto split: if_splits)
      next
        case False
        with y have "f rx av (Suc i) fd st1 = Some y" by simp
        from IH [OF this] wb k False show ?thesis by auto
      qed
    qed
  qed
  from this [OF assms(1)] assms(2-5) show ?thesis by auto
qed

lemma ioctlsocket_keeps:
  assumes ok: "api_ok st" and wb: "\<And>i. well_behaved fd (rx i)"
    and r: "ioctlsocket rx av fd cmd argp r st = Some (v, arg, st')"
  shows "keeps st st'"
proof (cases "\<exists>sock. hash_find (g_sockets st) fd = Some sock \<and> cmd = FIONREAD \<and> \<not> is_spx sock")
  case False
  with r ok show ?thesis
    by (auto simp: ioctlsocket_def get_socket_cases Let_def split: option.splits sum.splits prod.splits)
next
  case True
  then obtain sock where s: "hash_find (g_sockets st) fd = Some sock" "cmd = FIONREAD" "\<not> is_spx sock" by blast
  obtain b st1 where p: "pump_all rx av 0 fd (lock_sockets st) = Some (b, st1)"
    using r s by (auto simp: ioctlsocket_def get_socket_cases Let_def split: option.splits)
  have "api_ok st1 \<and> w_lock st1 = (if b then w_lock st + 1 else w_lock st) \<and> wstate.more st1 = wstate.more st"
    using pump_all_keeps [OF p wb] ok s by simp
  with r s p show ?thesis
    by (cases b) (auto simp: ioctlsocket_def get_socket_cases Let_def keeps_def split: option.splits)
qed

end
