(* ===== verification/ApiSpx.thy ===== *)
theory ApiSpx
  imports ApiIo
begin

text \<open>
  Connecting and accepting SPX sockets keep the table of sockets well-formed and give the lock back,
  except where they do not.
\<close>

definition quiet_lookup :: "('w, 's, 'z) wstate_scheme lookup_event \<Rightarrow> bool" where
  "quiet_lookup ev \<longleftrightarrow> (\<forall>st. api_ok st \<longrightarrow> keeps st (lk_others ev st))"

lemma send_lookups_same:
  fixes st :: "('w, 's, 'z) wstate_scheme"
  shows "send_lookups env lfd packet addrs sent st = (sent', st') \<Longrightarrow> same_sockets st st'"
proof (induction env lfd packet addrs sent st rule: send_lookups.induct)
  case (2 env lfd packet a as sent st)
  obtain err st1 where s: "udp_sendto (e_send_err env) lfd
      \<lparr>sin_family = AF_INET, sin_port = htons (mc_udp_port (e_config env)), sin_addr = a\<rparr> packet st = (err, st1)" by fastforce
  have "same_sockets st st1" using udp_sendto_same [OF s, of st] by simp
  moreover have "same_sockets st1 st'" using "2.IH" [OF s [symmetric]] "2.prems" s by simp
  ultimately show ?case using same_sockets_trans by blast
qed simp

text \<open>An address that \<open>_complete_bind\<close> can make the socket's, or a socket that has one.\<close>

definition addressed :: "ipx_socket \<Rightarrow> bool" where
  "addressed s \<longleftrightarrow> is_bound s \<or> (length (sa_netnum (sk_addr s)) = 4 \<and> length (sa_nodenum (sk_addr s)) = 6)"

lemma lookup_reply_keeps:
  assumes ok: "api_ok st" and s: "hash_find (g_sockets st) fd = Some sock"
    and r: "lookup_reply env fd sock from st = Some (accepted, st')"
  shows "keeps st st' \<and> (accepted \<longrightarrow> (\<exists>s. hash_find (g_sockets st') fd = Some s \<and> addressed s))"
proof (cases "is_bound sock")
  case True
  with r ok s show ?thesis by (auto simp: lookup_reply_def addressed_def)
next
  case False
  have u: "api_ok (update_socket fd (\<lambda>s. s\<lparr>sk_addr := (sk_addr s)\<lparr>sa_netnum := net, sa_nodenum := node\<rparr>\<rparr>) (st\<lparr>g_ifaces := c\<rparr>))"
    for net node c
    by (rule api_ok_update) (use api_ok_sock [OF ok s] False s ok in \<open>auto simp: sock_ok_def\<close>)
  from r False obtain iface c where "ipx_interface_by_subnet (e_sys env) (e_now env) (e_now' env) from (g_ifaces st) = Some (iface, c)"
    by (auto simp: lookup_reply_def split: option.splits)
  with r False u ok s show ?thesis
    by (cases iface) (auto simp: lookup_reply_def keeps_def addressed_def)
qed

definition lookup_ok :: "nat \<Rightarrow> ('w, 's, 'z) wstate_scheme \<Rightarrow> lookup_result \<Rightarrow> ('w, 's, 'z) wstate_scheme \<Rightarrow> bool" where
  "lookup_ok fd st res st' \<longleftrightarrow>
     api_ok st' \<and> w_lock st' = (if res = LkFailed then w_lock st - 1 else w_lock st) \<and>
     wstate.more st' = wstate.more st \<and>
     (\<forall>a. res = LkFound a \<longrightarrow> (\<exists>s. hash_find (g_sockets st') fd = Some s \<and> addressed s))"

lemma lookup_ok_keeps: "keeps st st1 \<Longrightarrow> lookup_ok fd st1 res st' \<longleftrightarrow> lookup_ok fd st res st'"
  by (simp add: lookup_ok_def keeps_def)

lemma lookup_turn_keeps:
  assumes t: "lookup_turn env ev ptr fd req st = Some (r, st')" and q: "quiet_lookup ev" and ok: "api_ok st"
  shows "case r of None \<Rightarrow> keeps st st' | Some res \<Rightarrow> lookup_ok fd st res st'"
proof -
  define st1 where "st1 = lk_others ev (unlock_sockets st)"
  have k1: "api_ok st1" "w_lock st1 = w_lock st - 1" "wstate.more st1 = wstate.more st" using q ok by (auto simp: quiet_lookup_def st1_def keeps_def)
  show ?thesis
  proof (cases "\<exists>sock v. lk_select ev = Inr v \<and> hash_find (g_sockets st1) fd = Some sock \<and> sk_ptr sock = ptr")
    case False
    with t k1 show ?thesis
      by (auto simp: lookup_turn_def Let_def lookup_ok_def get_socket_cases st1_def [symmetric]
          split: sum.splits option.splits if_splits)
  next
    case True
    then obtain sock v where s: "lk_select ev = Inr v" "hash_find (g_sockets st1) fd = Some sock" "sk_ptr sock = ptr" by blast
    let ?st = "lock_sockets st1"
    have k: "keeps st ?st" using k1 by (simp add: keeps_def)
    have l: "keeps st st2 \<and> (acc \<longrightarrow> (\<exists>s. hash_find (g_sockets st2) fd = Some s \<and> addressed s))"
      if "lookup_reply env fd sock a ?st = Some (acc, st2)" for a acc st2
      using lookup_reply_keeps [OF _ _ that] k1 s keeps_trans [OF k] by simp
    have "(case lk_recv ev of
             Inl err \<Rightarrow> Some (None, set_error err ?st)
           | Inr (reply, from) \<Rightarrow>
               if \<not> reply_matches req reply then Some (None, ?st)
               else
                 case lookup_reply env fd sock (sin_addr from) ?st of
                   None \<Rightarrow> None
                 | Some (accepted, st) \<Rightarrow>
                     Some (if accepted then Some (LkFound (from\<lparr>sin_port := le_word (slice reply 12 2)\<rparr>)) else None, st)) =
        Some (r, st')"
      using t s by (simp add: lookup_turn_def get_socket_cases st1_def [symmetric] Let_def)
    with k l show ?thesis
      by (auto simp: lookup_ok_def keeps_def split: sum.splits if_splits option.splits prod.splits)
  qed
qed

lemma lookup_wait_keeps:
  assumes "lookup_wait env ev ptr fd req until i st = Some (res, i', st')"
    and "\<And>i. quiet_lookup (ev i)" and "api_ok st"
  shows "lookup_ok fd st res st'"
proof -
  have "(\<forall>i. quiet_lookup (ev i)) \<longrightarrow> api_ok st \<longrightarrow> lookup_ok fd st (fst y) (snd (snd y))"
    if "lookup_wait env ev ptr fd req until i st = Some y" for env ev ptr fd req until i st y
    using that
  proof (rule lookup_wait.raw_induct
      [where P = "\<lambda>env ev ptr fd req until i st y. (\<forall>i. quiet_lookup (ev i)) \<longrightarrow> api_ok st \<longrightarrow>
         lookup_ok fd st (fst y) (snd (snd y))", rotated])
    fix f env ev ptr fd req until i st y
    assume IH: "\<And>env ev ptr fd req until i st y. f env ev ptr fd req until i st = Some y \<Longrightarrow>
        (\<forall>i. quiet_lookup (ev i)) \<longrightarrow> api_ok st \<longrightarrow> lookup_ok fd st (fst y) (snd (snd y))"
      and f: "(if \<not> lk_now (ev i) < until then Some (LkTimeout, Suc i, st)
      else case lookup_turn env (ev i) ptr fd req st of
             None \<Rightarrow> None
           | Some (res, st') \<Rightarrow>
               (case res of Some r \<Rightarrow> Some (r, Suc i, st') | None \<Rightarrow> f env ev ptr fd req until (Suc i) st')) = Some y"
    show "(\<forall>i. quiet_lookup (ev i)) \<longrightarrow> api_ok st \<longrightarrow> lookup_ok fd st (fst y) (snd (snd y))"
    proof (intro impI)
      assume q: "\<forall>i. quiet_lookup (ev i)" and ok: "api_ok st"
      show "lookup_ok fd st (fst y) (snd (snd y))"
      proof (cases "lk_now (ev i) < until")
        case False
        with f ok show ?thesis by (auto simp: lookup_ok_def)
      next
        case True
        then obtain r st1 where t: "lookup_turn env (ev i) ptr fd req st = Some (r, st1)"
          using f by (auto split: option.splits)
        note k = lookup_turn_keeps [OF t q [rule_format] ok]
        show ?thesis
        proof (cases r)
          case None
          with f True t have "f env ev ptr fd req until (Suc i) st1 = Some y" by simp
          from IH [OF this] q k None show ?thesis by (simp add: lookup_ok_keeps [of st st1] keeps_def)
        next
          case (Some res)
          with f True t k show ?thesis by auto
        qed
      qed
    qed
  qed
  from this [OF assms(1)] assms(2,3) show ?thesis by simp
qed

lemma lookup_tries_keeps:
  assumes "lookup_tries env ev ticks lfd addrs ptr fd req i n st = Some (res, st')"
    and q: "\<And>i. quiet_lookup (ev i)" and "api_ok st"
  shows "lookup_ok fd st res st'"
  using assms(1,3)
proof (induction n arbitrary: i st)
  case 0
  then show ?case by (auto simp: lookup_ok_def)
next
  case (Suc n)
  obtain sent st1 where s: "send_lookups env lfd (spxlookup_packet req) addrs False st = (sent, st1)" by fastforce
  have k: "keeps st st1" by (rule same_sockets_keeps [OF Suc.prems(2) send_lookups_same [OF s]])
  then have ok: "api_ok st1" by (simp add: keeps_def)
  show ?case
  proof (cases sent)
    case False
    with Suc.prems(1) s k show ?thesis by (auto simp: lookup_ok_def keeps_def)
  next
    case True
    then obtain r j st2 where w: "lookup_wait env ev ptr fd req
          (ticks (IPX_CONNECT_TRIES - Suc n) + IPX_CONNECT_TIMEOUT div of_nat IPX_CONNECT_TRIES * 1000) i st1 = Some (r, j, st2)"
      using Suc.prems(1) s by (simp split: option.splits) (metis prod_cases3)
    have l: "lookup_ok fd st1 r st2" by (rule lookup_wait_keeps [OF w q ok])
    show ?thesis
    proof (cases "r = LkTimeout")
      case True
      then have "lookup_tries env ev ticks lfd addrs ptr fd req j n st2 = Some (res, st')" "api_ok st2" "keeps st st2"
        using Suc.prems(1) s w \<open>sent\<close> l k by (simp_all add: lookup_ok_def keeps_def)
      with Suc.IH [of j st2] show ?thesis by (simp add: lookup_ok_keeps)
    next
      case False
      then have "res = r" "st' = st2" using Suc.prems(1) s w \<open>sent\<close> by (cases r; simp)+
      with l k show ?thesis by (simp add: lookup_ok_keeps)
    qed
  qed
qed

text \<open>\<open>SOCKADDR_IPX\<close> values the application passes have fields of these sizes.\<close>

lemma connected_update:
  assumes ok: "api_ok st" and a: "addr_ok ipxaddr"
  shows "api_ok (update_socket fd (\<lambda>s. set_flags IPX_CONNECTED ((set_flags IPX_CONNECT_OK s)\<lparr>sk_remote_addr := ipxaddr\<rparr>)) st)"
proof (rule api_ok_update [OF ok])
  fix s assume "hash_find (g_sockets st) fd = Some s"
  note s = api_ok_sock [OF ok this]
  let ?f = "set_flags IPX_CONNECTED ((set_flags IPX_CONNECT_OK s)\<lparr>sk_remote_addr := ipxaddr\<rparr>)"
  have "\<not> flag_set IPX_CONNECTED IPX_IS_SPX" "\<not> flag_set IPX_CONNECTED IPX_BOUND"
    "\<not> flag_set IPX_CONNECT_OK IPX_IS_SPX" "\<not> flag_set IPX_CONNECT_OK IPX_BOUND" by (simp_all add: flag_set_def ipx_flags)
  then have "is_spx ?f = is_spx s" "is_bound ?f = is_bound s" by (simp_all add: set_flags_def flag_simps)
  moreover have "sk_recv_queue ?f = sk_recv_queue s" "sk_sock_mut ?f = sk_sock_mut s" "sk_addr ?f = sk_addr s"
    "sk_remote_addr ?f = ipxaddr" by (simp_all add: set_flags_def)
  ultimately show "sock_ok (w_queues st) (w_mutexes st) ?f \<and> is_spx ?f = is_spx s \<and> sk_recv_queue ?f = sk_recv_queue s \<and>
      (is_bound ?f \<longrightarrow> is_bound s \<and> sk_sock_mut ?f = sk_sock_mut s)"
    using s a by (simp add: sock_ok_def)
qed

lemma connected_addressed:
  "addressed s \<Longrightarrow> addressed (set_flags IPX_CONNECTED ((set_flags IPX_CONNECT_OK s)\<lparr>sk_remote_addr := a\<rparr>))"
  by (auto simp: addressed_def set_flags_def flag_simps)

text \<open>The structure is written back after \<open>_complete_bind\<close>.\<close>

lemma complete_bind_update:
  assumes ok: "api_ok st" and s: "hash_find (g_sockets st) fd = Some sock" and nb: "\<not> is_bound sock"
    and a: "length (sa_netnum (sk_addr sock)) = 4" "length (sa_nodenum (sk_addr sock)) = 6"
    and c: "complete_bind create_ok (sock\<lparr>sk_addr := (sk_addr sock)\<lparr>sa_family := AF_IPX\<rparr>, sk_port := port\<rparr>) st = (b, sock', st')"
  shows "keeps st (update_socket fd (\<lambda>_. sock') st')"
proof -
  have h: "handles_ok (w_mutexes st) (w_next_handle st)" using ok by (simp add: api_ok_def table_ok_def)
  note cases = complete_bind_cases [OF h c]
  have con: "is_connected sock \<Longrightarrow> addr_ok (sk_remote_addr sock)" using api_ok_sock [OF ok s] by (simp add: sock_ok_def)
  show ?thesis
  proof (cases b)
    case True
    with cases obtain N n where N: "w_next_handle st \<le> N"
      "sock' = bound_to (sock\<lparr>sk_addr := (sk_addr sock)\<lparr>sa_family := AF_IPX\<rparr>, sk_port := port\<rparr>) n N"
      "st' = st\<lparr>w_mutexes := (N, n) # w_mutexes st, w_next_handle := N + 1\<rparr>" by auto
    have "api_ok (update_socket fd (\<lambda>_. sock') st')"
      by (rule api_ok_bound [OF ok s, where n = n and N = N and s' = sock']) (use N a con in \<open>simp_all add: addr_ok_def\<close>)
    then show ?thesis by (simp add: keeps_def N(3))
  next
    case False
    let ?sock = "sock\<lparr>sk_addr := (sk_addr sock)\<lparr>sa_family := AF_IPX\<rparr>, sk_port := port\<rparr>"
    from False cases obtain N where N: "w_next_handle st \<le> N" "st' = st\<lparr>w_next_handle := N\<rparr>"
      and "sock' = ?sock \<or> sock' = ?sock\<lparr>sk_sock_mut := 0\<rparr>" by auto
    then have s': "is_bound sock' = is_bound sock" "is_spx sock' = is_spx sock" "sk_recv_queue sock' = sk_recv_queue sock"
        "is_connected sock' = is_connected sock" "sk_remote_addr sock' = sk_remote_addr sock"
      by auto
    have "api_ok (update_socket fd (\<lambda>_. sock') st')"
      by (rule api_ok_unbound [OF ok s, where s' = sock']) (use N nb s' in simp_all)
    then show ?thesis by (simp add: keeps_def N(2))
  qed
qed

lemma connected_spx_keeps:
  assumes ok: "api_ok st" and a: "addr_ok ipxaddr"
    and s: "hash_find (g_sockets st) fd = Some s" "addressed s"
    and c: "connected_spx sys fd ipxaddr st = Some (ret, out, st')"
  shows "keeps (unlock_sockets st) st'"
proof -
  let ?f = "\<lambda>s. set_flags IPX_CONNECTED ((set_flags IPX_CONNECT_OK s)\<lparr>sk_remote_addr := ipxaddr\<rparr>)"
  let ?st = "update_socket fd ?f st" and ?s = "?f s"
  have ok1: "api_ok ?st" by (rule connected_update [OF ok a])
  have s1: "hash_find (g_sockets ?st) fd = Some ?s" using s(1) by simp
  have ad: "addressed ?s" by (rule connected_addressed [OF s(2)])
  have fin: "keeps (unlock_sockets st) st'"
    if "(case send_all (sx_send sys) 0 (spxinit (sk_addr sock)) 0 of
              None \<Rightarrow> None
            | Some (Inl err, out) \<Rightarrow> Some (-1, out, unlock_sockets (set_error err st2))
            | Some (Inr _, out) \<Rightarrow> Some (0, out, unlock_sockets st2)) = Some (ret, out, st')" "keeps ?st st2" for sock st2
    using that by (auto simp: keeps_def split: option.splits prod.splits sum.splits)
  show ?thesis
  proof (cases "is_bound ?s")
    case True
    with c s(1) fin [of ?st ?s] ok1 show ?thesis by (simp add: connected_spx_def Let_def)
  next
    case False
    then have l: "length (sa_netnum (sk_addr ?s)) = 4" "length (sa_nodenum (sk_addr ?s)) = 6"
      using ad by (auto simp: addressed_def)
    show ?thesis
    proof (cases "sx_getsockname sys")
      case (Inl err)
      have "api_ok (update_socket fd (\<lambda>_. ?s\<lparr>sk_addr := (sk_addr ?s)\<lparr>sa_family := AF_IPX\<rparr>\<rparr>) ?st)"
        by (rule api_ok_unbound [OF ok1 s1]) (use False in simp_all)
      with c s(1) False Inl show ?thesis by (auto simp: connected_spx_def Let_def keeps_def)
    next
      case (Inr port)
      obtain b sock' st2 where cb: "complete_bind (sx_create_ok sys)
          (?s\<lparr>sk_addr := (sk_addr ?s)\<lparr>sa_family := AF_IPX\<rparr>, sk_port := port\<rparr>) ?st = (b, sock', st2)"
        using prod_cases3 by blast
      note k = complete_bind_update [OF ok1 s1 False l cb]
      let ?st2 = "update_socket fd (\<lambda>_. sock') st2"
      have k': "w_lock st2 = w_lock st" "api_ok ?st2" "wstate.more st2 = wstate.more st" using k by (simp_all add: keeps_def)
      have "(if \<not> b then Some (-1, [], unlock_sockets ?st2)
             else case send_all (sx_send sys) 0 (spxinit (sk_addr sock')) 0 of
              None \<Rightarrow> None
            | Some (Inl err, out) \<Rightarrow> Some (-1, out, unlock_sockets (set_error err ?st2))
            | Some (Inr _, out) \<Rightarrow> Some (0, out, unlock_sockets ?st2)) = Some (ret, out, st')"
        using c s(1) False Inr cb by (simp add: connected_spx_def Let_def)
      with fin [of ?st2 sock'] k k' show ?thesis by (cases b) (auto simp: keeps_def)
    qed
  qed
qed

text \<open>What the system promises of \<open>connect\<close>: the other threads keep the table.\<close>

definition spx_ok :: "('w, 's, 'z) spx_sys \<Rightarrow> bool" where
  "spx_ok sys \<longleftrightarrow> (\<forall>i. quiet_lookup (sx_events sys i))"

lemma connect_spx_keeps:
  assumes ok: "api_ok st" and sys: "spx_ok sys"
    and a: "length (sa_netnum ipxaddr) = 4" "length (sa_nodenum ipxaddr) = 6"
    and c: "connect_spx env sys fd sock ipxaddr st = Some (ret, out, st')"
  shows "keeps (unlock_sockets st) st'"
proof -
  have failed: "keeps (unlock_sockets st) st'"
    if "fail_unlock err st1 = (ret, st')" "keeps st st1"
    for err st1
    using that by (auto simp: fail_unlock_def keeps_def)
  show ?thesis
  proof (cases "sa_family ipxaddr = AF_IPX")
    case False
    with c have "fail_unlock WSAEAFNOSUPPORT st = (ret, st')" by (simp add: connect_spx_def Let_def split: prod.splits)
    with failed ok show ?thesis by simp
  next
    case True
    with a have ad: "addr_ok ipxaddr" by (simp add: addr_ok_def)
    obtain addrs st1 where l: "lookup_addresses env sock st = Some (addrs, st1)"
      using c True by (auto simp: connect_spx_def Let_def split: option.splits)
    have k1: "keeps st st1" using l ok by (auto simp: lookup_addresses_def keeps_def split: if_splits)
    show ?thesis
    proof (cases "\<exists>lfd v. addrs \<noteq> [] \<and> sx_malloc sys \<and> sx_socket sys = Inr lfd \<and> sx_bind sys = Inr v")
      case False
      then have "\<exists>err. fail_unlock err st1 = (ret, st')"
        using c True l by (auto simp: connect_spx_def Let_def split: if_splits sum.splits prod.splits)
      with failed [OF _ k1] show ?thesis by blast
    next
      case sysok: True
      then obtain lfd v where s: "addrs \<noteq> []" "sx_malloc sys" "sx_socket sys = Inr lfd" "sx_bind sys = Inr v" by blast
      obtain res st2 where t: "lookup_tries env (sx_events sys) (sx_ticks sys) lfd addrs (sk_ptr sock) fd
            (spxlookup_req ipxaddr) 0 IPX_CONNECT_TRIES st1 = Some (res, st2)"
        using c True l s by (simp add: connect_spx_def Let_def split: option.splits) (metis surj_pair)
      have lo: "lookup_ok fd st1 res st2"
        by (rule lookup_tries_keeps [OF t]) (use sys k1 in \<open>simp_all add: spx_ok_def keeps_def\<close>)
      show ?thesis
      proof (cases res)
        case LkFailed
        with c True l s t lo k1 show ?thesis by (auto simp: connect_spx_def Let_def lookup_ok_def keeps_def)
      next
        case LkTimeout
        with lo k1 have "keeps st st2" by (simp add: lookup_ok_def keeps_def)
        with failed [of WSAENETUNREACH st2] c True l s t LkTimeout show ?thesis
          by (auto simp: connect_spx_def Let_def split: prod.splits)
      next
        case (LkFound x)
        with lo k1 obtain so where k2: "keeps st st2" and so: "hash_find (g_sockets st2) fd = Some so" "addressed so"
          by (auto simp: lookup_ok_def keeps_def)
        have "connected_spx sys fd ipxaddr st2 = Some (ret, out, st') \<or>
            (\<exists>err. fail_unlock err st2 = (ret, st'))"
          using c True l s t LkFound by (auto simp: connect_spx_def Let_def split: sum.splits if_splits prod.splits)
        then show ?thesis
        proof
          assume "connected_spx sys fd ipxaddr st2 = Some (ret, out, st')"
          from connected_spx_keeps [OF _ ad so this] k2 show ?thesis by (simp add: keeps_def)
        qed (use failed [OF _ k2] in blast)
      qed
    qed
  qed
qed

lemma connect_keeps:
  assumes ok: "api_ok st" and sys: "spx_ok sys" and a: "length (sa_netnum addr) = 4" "length (sa_nodenum addr) = 6"
    and c: "connect env sys bsys fd addr addrlen r st = Some (ret, out, st')"
  shows "keeps st st'"
proof (cases "hash_find (g_sockets st) fd")
  case None
  then have "sys_result r st = (ret, st')" using c by (auto simp: connect_def get_socket_cases split: prod.splits)
  with ok keeps_sys_result [of st r st] show ?thesis by simp
next
  case (Some sock)
  show ?thesis
  proof (cases "is_spx sock")
    case False
    with c Some obtain ret' where "connect_dgram env bsys fd sock addr addrlen (lock_sockets st) = Some (ret', st')"
      by (auto simp: connect_def get_socket_cases)
    from connect_dgram_keeps [OF ok a this] show ?thesis .
  next
    case True
    show ?thesis
    proof (cases "addrlen < of_nat SOCKADDR_IPX_SIZE \<or> sa_family addr \<noteq> AF_IPX")
      case False
      then have "connect_spx env sys fd sock addr (lock_sockets st) = Some (ret, out, st')"
        using c Some True by (simp add: connect_def get_socket_cases)
      from connect_spx_keeps [OF _ sys a this] ok show ?thesis by simp
    qed (use c Some True ok in \<open>auto simp: connect_def get_socket_cases fail_unlock_def split: if_splits\<close>)
  qed
qed

subsection \<open>Accepting\<close>

lemma recv_all_length:
  assumes "recv_all rx n want got = Some (Inr u, out)"
  shows "want \<le> length out"
proof -
  have "(\<forall>u. fst y = Inr u \<longrightarrow> want \<le> length (snd y))" if "recv_all rx n want got = Some y" for rx n want got y
    using that
  proof (rule recv_all.raw_induct [where P = "\<lambda>rx n want got y. \<forall>u. fst y = Inr u \<longrightarrow> want \<le> length (snd y)", rotated])
    fix f rx n want got y
    assume IH: "\<And>rx n want got y. f rx n want got = Some y \<Longrightarrow> \<forall>u. fst y = Inr u \<longrightarrow> want \<le> length (snd y)"
      and f: "(if \<not> length got < want then Some (Inr (), got)
              else case rx n of Inl err \<Rightarrow> Some (Inl err, got)
                   | Inr d \<Rightarrow> if d = [] then Some (Inl 0, got) else f rx (Suc n) want (got @ d)) = Some y"
    show "\<forall>u. fst y = Inr u \<longrightarrow> want \<le> length (snd y)"
    proof (cases "length got < want \<and> (\<exists>d. rx n = Inr d \<and> d \<noteq> [])")
      case True
      then obtain d where "rx n = Inr d" "d \<noteq> []" by blast
      with f True have "f rx (Suc n) want (got @ d) = Some y" by simp
      from IH [OF this] show ?thesis .
    next
      case False
      then show ?thesis using f by (auto split: if_splits sum.splits)
    qed
  qed
  from this [OF assms] show ?thesis by simp
qed

text \<open>
  What is asked of \<open>accept\<close> to keep the table: memory for the socket, with nothing in the field of the
  receive queue (the code leaves it as the allocator returned it), a descriptor that is not in use,
  and that the system accepts a connection only on a socket that has been bound.
\<close>

definition accept_ok :: "accept_sys \<Rightarrow> nat \<Rightarrow> ('w, 's, 'z) wstate_scheme \<Rightarrow> bool" where
  "accept_ok sys fd st \<longleftrightarrow>
     ac_ptr sys \<noteq> 0 \<and> sk_recv_queue (ac_junk sys) = 0 \<and>
     (\<forall>nfd. ac_accept sys = Inr nfd \<longrightarrow>
        hash_find (g_sockets st) nfd = None \<and> (\<forall>s. hash_find (g_sockets st) fd = Some s \<longrightarrow> is_bound s))"

lemma accepted_flags:
  fixes f :: u32
  shows "flag_set (IPX_IS_SPX OR IPX_BOUND OR IPX_CONNECTED OR (f AND IPX_IS_SPXII)) IPX_IS_SPX"
    "flag_set (IPX_IS_SPX OR IPX_BOUND OR IPX_CONNECTED OR (f AND IPX_IS_SPXII)) IPX_BOUND"
    "flag_set (IPX_IS_SPX OR IPX_BOUND OR IPX_CONNECTED OR (f AND IPX_IS_SPXII)) IPX_CONNECTED"
  by (auto simp: flag_set_def bit.conj_disj_distrib2 or_eq_0_iff ipx_flags)

lemma accept_keeps:
  assumes ok: "api_ok st" and sys: "accept_ok sys fd st"
    and a: "accept sys fd addr addrlen r st = Some (ret, out, st')"
  shows "keeps st st'"
proof (cases "hash_find (g_sockets st) fd")
  case None
  then have "sys_result r st = (ret, st')" using a by (auto simp: accept_def get_socket_cases split: prod.splits)
  with ok keeps_sys_result [of st r st] show ?thesis by simp
next
  case (Some sock)
  let ?st = "lock_sockets st"
  have failed: "keeps st st'"
    if "(case fail_unlock err st1 of (r, st) \<Rightarrow> Some (r, [], st)) = Some (ret, out, st')" "keeps ?st st1" for err st1
    using that by (auto simp: fail_unlock_def keeps_def)
  show ?thesis
  proof (cases "\<exists>nfd init mut st1. is_spx sock \<and> ac_accept sys = Inr nfd \<and>
      recv_all (ac_recv sys) 0 SPXINIT_SIZE [] = Some (Inr (), init) \<and>
      DuplicateHandle (ac_duplicate sys) (sk_sock_mut sock) ?st = (Some mut, st1) \<and>
      ret = int nfd \<and> st' = unlock_sockets (st1\<lparr>g_sockets := hash_add (g_sockets st1) nfd
        ((ac_junk sys)\<lparr>sk_ptr := ac_ptr sys,
           sk_flags := IPX_IS_SPX OR IPX_BOUND OR IPX_CONNECTED OR (sk_flags sock AND IPX_IS_SPXII),
           sk_addr := sk_addr sock, sk_sock_mut := mut, sk_remote_addr := spxinit_addr init\<rparr>)\<rparr>)")
    case False
    have "\<exists>err. (case fail_unlock err ?st of (r, st) \<Rightarrow> Some (r, [], st)) = Some (ret, out, st')"
      using a Some sys False
      by (fastforce simp: accept_def get_socket_cases accept_ok_def DuplicateHandle_def Let_def
          split: if_splits sum.splits option.splits)
    with failed [of _ ?st] ok show ?thesis by auto
  next
    case True
    then obtain nfd init mut st1 where spx: "is_spx sock" and acc: "ac_accept sys = Inr nfd"
      and init: "recv_all (ac_recv sys) 0 SPXINIT_SIZE [] = Some (Inr (), init)"
      and dup: "DuplicateHandle (ac_duplicate sys) (sk_sock_mut sock) ?st = (Some mut, st1)"
      and st': "st' = unlock_sockets (st1\<lparr>g_sockets := hash_add (g_sockets st1) nfd
        ((ac_junk sys)\<lparr>sk_ptr := ac_ptr sys,
           sk_flags := IPX_IS_SPX OR IPX_BOUND OR IPX_CONNECTED OR (sk_flags sock AND IPX_IS_SPXII),
           sk_addr := sk_addr sock, sk_sock_mut := mut, sk_remote_addr := spxinit_addr init\<rparr>)\<rparr>)" (is "_ = unlock_sockets (_\<lparr>g_sockets := hash_add _ _ ?s\<rparr>)")
      by blast
    have bound: "is_bound sock" and new: "hash_find (g_sockets st) nfd = None"
      using sys acc Some by (auto simp: accept_ok_def)
    from api_ok_sock [OF ok Some] bound have m: "map_of (w_mutexes st) (sk_sock_mut sock) = Some (ntohs (sa_socket (sk_addr sock)))"
      "addr_ok (sk_addr sock)" by (auto simp: sock_ok_def)
    have st1: "st1 = ?st\<lparr>w_mutexes := (w_next_handle st, ntohs (sa_socket (sk_addr sock))) # w_mutexes st,
        w_next_handle := w_next_handle st + 1\<rparr>" and mut: "mut = w_next_handle st"
      using dup m by (auto simp: DuplicateHandle_def split: if_splits)
    have t: "table_ok (hash_find (g_sockets st)) (w_queues st) (w_mutexes st) (w_next_handle st)"
      using ok by (simp add: api_ok_def)
    have ok1: "api_ok st1" using table_mutex [OF t] ok by (simp add: api_ok_def st1)
    have f: "is_spx ?s" "is_bound ?s" using accepted_flags [of "sk_flags sock"] by simp_all
    have "addr_ok (spxinit_addr init)" using recv_all_length [OF init] by (simp add: addr_ok_def spxinit_addr_def SPXINIT_SIZE_def)
    then have s: "sock_ok (w_queues st1) (w_mutexes st1) ?s"
      using f m(2) sys by (simp add: sock_ok_def mut st1 accept_ok_def)
    have "api_ok (st1\<lparr>g_sockets := hash_add (g_sockets st1) nfd ?s\<rparr>)"
    proof (rule api_ok_add [OF ok1 _ s])
      fix fd' s' assume s': "hash_find (g_sockets st1) fd' = Some s'" "is_bound s'"
      with table_sock [OF t, of fd' s'] have "map_of (w_mutexes st) (sk_sock_mut s') \<noteq> None" by (simp add: st1 sock_ok_def)
      moreover have "map_of (w_mutexes st) (w_next_handle st) = None" using t handles_fresh by (simp add: table_ok_def)
      ultimately show "sk_sock_mut s' \<noteq> sk_sock_mut ?s" by (auto simp: mut)
    qed (use new f in \<open>simp_all add: st1\<close>)
    then show ?thesis unfolding st' by (simp add: keeps_def st1)
  qed
qed

end
