(* ===== verification/Api.thy ===== *)
theory Api
  imports ApiSpx
begin

text \<open>
  The process: any number of threads call the functions of the API, and the router thread delivers
  packets. A call is a step; what happens between the release and the return of the lock inside a
  call that waits is part of that call's events, which keep the table for the same reason.
\<close>

text \<open>What other threads do while a call waits for the network to be ready keeps the table as well.\<close>

definition quiet :: "(('w, 's, 'z) wstate_scheme \<Rightarrow> ('w, 's, 'z) wstate_scheme) \<Rightarrow> bool" where
  "quiet others \<longleftrightarrow> (\<forall>st. api_ok st \<longrightarrow> keeps st (others st))"

definition waited ::
  "(('w, 's, 'z) wstate_scheme \<Rightarrow> ('w, 's, 'z) wstate_scheme) \<Rightarrow> nat \<Rightarrow> ('w, 's, 'z) wstate_scheme
     \<Rightarrow> ('w, 's, 'z) wstate_scheme" where
  "waited others fd st = (if hash_find (g_sockets st) fd = None then st else others st)"

lemma waited_keeps: "quiet others \<Longrightarrow> api_ok st \<Longrightarrow> keeps st (waited others fd st)"
  by (simp add: waited_def quiet_def)

lemma wait_for_ready_waited:
  "get_socket_wait_for_ready others fd st = get_socket_wait_for_ready id fd (waited others fd st)"
  by (auto simp: get_socket_wait_for_ready_def get_socket_cases waited_def split: option.splits)

lemma wait_waited:
  "bind env sys others fd addr addrlen st = bind env sys id fd addr addrlen (waited others fd st)"
  "getsockopt env others fd level optname optval optlen ar st =
     getsockopt env id fd level optname optval optlen ar (waited others fd st)"
  "sendto env ssys bsys ticks others fd buf len to addrlen r st =
     sendto env ssys bsys ticks id fd buf len to addrlen r (waited others fd st)"
  unfolding bind_def getsockopt_def sendto_def by (subst wait_for_ready_waited, rule refl)+

lemma wait_keeps:
  assumes q: "quiet others" and ok: "api_ok st"
  shows "bind env sys others fd addr addrlen st = Some (ret, st') \<Longrightarrow> keeps st st'"
    "getsockopt env others fd level optname optval optlen ar st = Some (ret, val, al, st') \<Longrightarrow> keeps st st'"
    "sendto env ssys bsys ticks others fd buf len to addrlen r st = Some (ret, delay, st') \<Longrightarrow> keeps st st'"
proof -
  have k: "keeps st (waited others fd st)" by (rule waited_keeps [OF q ok])
  then have ok': "api_ok (waited others fd st)" by (simp add: keeps_def)
  show "keeps st st'" if b: "bind env sys others fd addr addrlen st = Some (ret, st')"
    by (rule keeps_trans [OF k bind_keeps [OF ok' trans [OF wait_waited(1) [symmetric] b]]])
  show "keeps st st'" if g: "getsockopt env others fd level optname optval optlen ar st = Some (ret, val, al, st')"
    by (rule keeps_trans [OF k getsockopt_keeps [OF ok' trans [OF wait_waited(2) [symmetric] g]]])
  show "keeps st st'" if s: "sendto env ssys bsys ticks others fd buf len to addrlen r st = Some (ret, delay, st')"
    by (rule keeps_trans [OF k sendto_keeps [OF ok' trans [OF wait_waited(3) [symmetric] s]]])
qed

lemma send_wait_keeps:
  assumes q: "quiet others" and ok: "api_ok st" and s: "send env sys bsys ticks others fd buf len r st = Some (ret, delay, st')"
  shows "keeps st st'"
proof -
  have "(\<exists>to al. sendto env sys bsys ticks others fd buf len to al r st = Some (ret, delay, st')) \<or>
      send env sys bsys ticks id fd buf len r st = Some (ret, delay, st')"
    using s by (auto simp: send_def get_socket_cases Let_def split: option.splits if_splits)
  then show ?thesis
  proof (elim disjE exE)
    show "keeps st st'" if "sendto env sys bsys ticks others fd buf len to al r st = Some (ret, delay, st')" for to al
      by (rule wait_keeps(3) [OF q ok that])
  qed (rule send_keeps [OF ok])
qed

inductive api_step :: "('w, 's, 'z) wstate_scheme \<Rightarrow> ('w, 's, 'z) wstate_scheme \<Rightarrow> bool" where
  socket_step:
    "socket af type protocol sys st = (ret, st') \<Longrightarrow> socket_fresh sys st \<Longrightarrow> api_step st st'"
| close_step:
    "closesocket fd r st = Some (ret, st') \<Longrightarrow> api_step st st'"
| bind_step:
    "bind env bsys others fd addr addrlen st = Some (ret, st') \<Longrightarrow> quiet others \<Longrightarrow> api_step st st'"
| getsockname_step:
    "getsockname fd addrlen ar st = (ret, name, al, st') \<Longrightarrow> api_step st st'"
| getpeername_step:
    "getpeername fd addrlen ar st = (ret, name, al, st') \<Longrightarrow> api_step st st'"
| getsockopt_step:
    "getsockopt env others fd level optname optval optlen ar st = Some (ret, val, al, st') \<Longrightarrow> quiet others \<Longrightarrow> api_step st st'"
| setsockopt_step:
    "setsockopt fd level optname optval r st = (ret, st') \<Longrightarrow> api_step st st'"
| shutdown_step:
    "shutdown fd cmd r st = (ret, st') \<Longrightarrow> api_step st st'"
| async_step:
    "WSAAsyncSelect fd lEvent r st = (posted, ret, st') \<Longrightarrow> api_step st st'"
| listen_step:
    "listen fd r st = (ret, st') \<Longrightarrow> api_step st st'"
| sendto_step:
    "sendto env ssys bsys ticks others fd buf len to addrlen r st = Some (ret, delay, st') \<Longrightarrow> quiet others \<Longrightarrow> api_step st st'"
| send_step:
    "send env ssys bsys ticks others fd buf len r st = Some (ret, delay, st') \<Longrightarrow> quiet others \<Longrightarrow> api_step st st'"
| recvfrom_step:
    "recvfrom env rx fd len peek want al rr st = Some ((ret, out, ad, st'), al') \<Longrightarrow> well_behaved fd (rx 0) \<Longrightarrow>
     api_step st st'"
| recv_step:
    "recv env rx fd len peek rr st = Some (ret, out, ad, st') \<Longrightarrow> well_behaved fd (rx 0) \<Longrightarrow> api_step st st'"
| recvex_step:
    "WSARecvEx env rx fd len flags rr r_flags st = Some ((ret, out, ad, st'), fl) \<Longrightarrow> well_behaved fd (rx 0) \<Longrightarrow>
     api_step st st'"
| ioctl_step:
    "ioctlsocket rx av fd cmd argp ir st = Some (ret, arg, st') \<Longrightarrow> (\<And>i. well_behaved fd (rx i)) \<Longrightarrow> api_step st st'"
| connect_step:
    "connect env csys bsys fd addr addrlen r st = Some (ret, out, st') \<Longrightarrow> spx_ok csys \<Longrightarrow>
     length (sa_netnum addr) = 4 \<Longrightarrow> length (sa_nodenum addr) = 6 \<Longrightarrow> api_step st st'"
| accept_step:
    "accept asys fd want al r st = Some (ret, out, st') \<Longrightarrow> accept_ok asys fd st \<Longrightarrow> api_step st st'"
| deliver_step:
    "deliver_packet env ty sn sd ss dn dd ds dat st = Some st' \<Longrightarrow> api_step st st'"
| flush_step:
    "coalesce_flush cfg key st = Some st' \<Longrightarrow> api_step st st'"
| other_step: \<comment> \<open>the rest of the router thread, the clock and the caches: nothing that concerns sockets\<close>
    "same_sockets st st' \<Longrightarrow> api_step st st'"

lemma api_step_keeps:
  assumes "api_step st st'" and "api_ok st"
  shows "keeps st st'"
  using assms(1)
proof cases
  case (socket_step af type protocol sys ret)
  with socket_keeps [OF assms(2), of sys af type protocol] show ?thesis by simp
next
  case (getsockname_step fd addrlen ar ret name al)
  with getsockname_keeps [OF assms(2), of fd addrlen ar] show ?thesis by simp
next
  case (getpeername_step fd addrlen ar ret name al)
  with getpeername_keeps [OF assms(2), of fd addrlen ar] show ?thesis by simp
next
  case (setsockopt_step fd level optname optval r ret)
  with setsockopt_keeps [OF assms(2), of fd level optname optval r] show ?thesis by simp
next
  case (shutdown_step fd cmd r ret)
  with shutdown_keeps [OF assms(2), of fd cmd r] show ?thesis by simp
next
  case (async_step fd lEvent r posted ret)
  with WSAAsyncSelect_keeps [OF assms(2), of fd lEvent r] show ?thesis by simp
next
  case (listen_step fd r ret)
  with listen_keeps [OF assms(2), of fd r] show ?thesis by simp
qed (blast intro: assms(2) closesocket_keeps wait_keeps send_wait_keeps recvfrom_keeps recv_keeps
      WSARecvEx_keeps ioctlsocket_keeps connect_keeps accept_keeps same_sockets_keeps deliver_packet_same coalesce_flush_same)+

text \<open>The state \<open>DllMain\<close> leaves: no socket, no handle, nobody has the lock.\<close>

definition api_start :: "('w, 's, 'z) wstate_scheme \<Rightarrow> bool" where
  "api_start st \<longleftrightarrow> g_sockets st = [] \<and> w_mutexes st = [] \<and> 0 < w_next_handle st \<and> w_lock st = 0"

inductive api_reach :: "('w, 's, 'z) wstate_scheme \<Rightarrow> bool" where
  start: "api_start st \<Longrightarrow> api_reach st"
| step: "api_reach st \<Longrightarrow> api_step st st' \<Longrightarrow> api_reach st'"

lemma api_reach_ok: "api_reach st \<Longrightarrow> api_ok st \<and> w_lock st = 0"
proof (induction rule: api_reach.induct)
  case (start st)
  then show ?case by (simp add: api_start_def api_ok_def table_ok_def handles_ok_def hash_find_def)
next
  case (step st st')
  with api_step_keeps [OF step(2)] show ?case by (simp add: keeps_def)
qed


definition sample_start :: "(unit, nat) wstate" where
  "sample_start = (sample_w ENCAP_TYPE_IPXWRAPPER)\<lparr>g_sockets := [], w_queues := Map.empty, w_mutexes := []\<rparr>"

definition sample_socket_sys :: socket_sys where
  "sample_socket_sys =
     \<lparr>ss_ptr = 100, ss_junk = sample_socket, ss_queue = 2, ss_ready = replicate 32 0,
      ss_data = replicate 32 (replicate MAX_PKT_SIZE 0), ss_cs_error = 0, ss_socket = Inr 9\<rparr>"


end
