(* ===== verification/DirectPlay.thy ===== *)
theory DirectPlay
  imports Receive Send "HOL-Library.Monad_Syntax"
begin

text \<open>
  The DirectPlay service provider (directplay.c). DirectPlay calls the provider's functions; a worker
  thread receives from the provider's two IPX sockets and hands the messages to DirectPlay. The
  sockets are those of the API, so the provider's state extends the state of the process. \<open>None\<close> is
  an abort, an access outside a buffer, or a call that does not return.
\<close>

subsection \<open>State\<close>

text \<open>
  \<open>struct sp_data\<close>, the critical section that guards it (how often it is held), the addresses
  DirectPlay keeps for the players on behalf of the provider, and the messages handed to DirectPlay.
\<close>

record sp_data =
  sp_sock :: int
  sp_ns_sock :: int
  sp_ns_addr :: sockaddr_ipx
  sp_ns_id :: u32
  sp_running :: bool
  sp_worker_thread :: bool
  sp_event :: bool

record ('w, 's) dpstate = "('w, 's) wstate" +
  d_sp :: sp_data
  d_lock :: int
  d_players :: "u32 \<Rightarrow> bytes option"
  d_messages :: "(bytes \<times> sockaddr_ipx) list"

definition DISCOVERY_SOCKET :: u16 where "DISCOVERY_SOCKET = 42367"
definition API_HEADER_SIZE :: nat where "API_HEADER_SIZE = 20"

definition DP_OK :: u32 where "DP_OK = 0"
definition DPERR_GENERIC :: u32 where "DPERR_GENERIC = 0x80004005"
definition DPERR_INVALIDPARAMS :: u32 where "DPERR_INVALIDPARAMS = 0x80070057"
definition DPERR_UNAVAILABLE :: u32 where "DPERR_UNAVAILABLE = 0x887700FA"

text \<open>
  What the system and DirectPlay answer: whether the data of the provider can be had and a thread
  created, what the calls of Winsock underneath return, and the errors of the player data.
\<close>

record ('w, 's) dp_sys =
  dp_get_data :: bool
  dp_thread :: bool
  dp_socket :: socket_sys
  dp_bind :: bind_sys
  dp_select :: "u32 + unit"
  dp_close :: "u32 + int"
  dp_setopt :: "u32 + int"
  dp_name :: "int \<times> bytes option \<times> u32"
  dp_tx :: send_sys
  dp_ticks :: "u32 \<times> u32"
  dp_sendto :: "u32 + int"
  dp_others :: "('w, 's) dpstate \<Rightarrow> ('w, 's) dpstate"
  dp_player_err :: "u32 \<Rightarrow> u32"
  dp_set_player_err :: u32

definition get_sp_data :: "('w, 's) dp_sys \<Rightarrow> ('w, 's) dpstate \<Rightarrow> ('w, 's) dpstate option" where
  "get_sp_data sys st = (if dp_get_data sys then Some (st\<lparr>d_lock := d_lock st + 1\<rparr>) else None)"

definition release_sp_data :: "('w, 's) dpstate \<Rightarrow> ('w, 's) dpstate" where
  "release_sp_data st = st\<lparr>d_lock := d_lock st - 1\<rparr>"

definition set_sp :: "(sp_data \<Rightarrow> sp_data) \<Rightarrow> ('w, 's) dpstate \<Rightarrow> ('w, 's) dpstate" where
  "set_sp f st = st\<lparr>d_sp := f (d_sp st)\<rparr>"

text \<open>The descriptor a \<open>SOCKET\<close> names; -1 is \<open>INVALID_SOCKET\<close>.\<close>

definition handle_of :: "int \<Rightarrow> nat" where
  "handle_of s = (if s = -1 then 0xFFFFFFFF else nat s)"

subsection \<open>The worker\<close>

datatype dp_which = MainSock | DiscSock

definition sock_of :: "dp_which \<Rightarrow> sp_data \<Rightarrow> int" where
  "sock_of w sp = (case w of MainSock \<Rightarrow> sp_sock sp | DiscSock \<Rightarrow> sp_ns_sock sp)"

definition set_sock :: "dp_which \<Rightarrow> int \<Rightarrow> sp_data \<Rightarrow> sp_data" where
  "set_sock w v sp = (case w of MainSock \<Rightarrow> sp\<lparr>sp_sock := v\<rparr> | DiscSock \<Rightarrow> sp\<lparr>sp_ns_sock := v\<rparr>)"

text \<open>
  \<open>rx\<close> and \<open>r\<close> are what the receive underneath gets, as for \<open>recvfrom\<close>. The address \<open>recvfrom\<close> writes
  is the one passed on.
\<close>

definition dp_recv_packet ::
  "('w, 's) genv \<Rightarrow> ('w, 's) dp_sys \<Rightarrow> (nat \<Rightarrow> ('w, 's) dpstate rx_event) \<Rightarrow> u32 + (int \<times> bytes \<times> bytes)
     \<Rightarrow> dp_which \<Rightarrow> ('w, 's) dpstate \<Rightarrow> ('w, 's) dpstate option" where
  "dp_recv_packet env sys rx r w st =
     do {
       st \<leftarrow> get_sp_data sys st;
       if sock_of w (d_sp st) = -1 then Some (release_sp_data st)
       else do {
         ((size, buf, addr, st), addrlen) \<leftarrow>
           recvfrom env rx (handle_of (sock_of w (d_sp st))) (int MAX_DATA_SIZE) False True (Some (of_nat SOCKADDR_IPX_SIZE)) r st;
         if size = -1 then
           (if n_errno st = WSAEWOULDBLOCK \<or> n_errno st = WSAECONNRESET then Some (release_sp_data st)
            else do {
              (_, st) \<leftarrow> closesocket (handle_of (sock_of w (d_sp st))) (dp_close sys) st;
              Some (release_sp_data (set_sp (set_sock w (-1)) st))
            })
         else Some ((release_sp_data st)\<lparr>d_messages := d_messages st @ [(buf, sockaddr_ipx_of addr)]\<rparr>)
       }
     }"

text \<open>
  One turn of \<open>worker_main\<close> once the event has been set. The first result is whether the thread goes
  on; when it ends, it does so without having released the lock.
\<close>

definition worker_turn ::
  "('w, 's) genv \<Rightarrow> ('w, 's) dp_sys \<Rightarrow> (dp_which \<Rightarrow> nat \<Rightarrow> ('w, 's) dpstate rx_event)
     \<Rightarrow> (dp_which \<Rightarrow> u32 + (int \<times> bytes \<times> bytes)) \<Rightarrow> ('w, 's) dpstate \<Rightarrow> (bool \<times> ('w, 's) dpstate) option" where
  "worker_turn env sys rx r st =
     do {
       st \<leftarrow> get_sp_data sys st;
       let st = set_sp (\<lambda>sp. sp\<lparr>sp_event := False\<rparr>) st;
       if \<not> sp_running (d_sp st) then Some (False, st)
       else do {
         st \<leftarrow> dp_recv_packet env sys (rx MainSock) (r MainSock) MainSock (release_sp_data st);
         st \<leftarrow> dp_recv_packet env sys (rx DiscSock) (r DiscSock) DiscSock st;
         Some (True, st)
       }
     }"

definition init_worker :: "('w, 's) dp_sys \<Rightarrow> ('w, 's) dpstate \<Rightarrow> bool \<times> ('w, 's) dpstate" where
  "init_worker sys st =
     (if sp_worker_thread (d_sp st) then (True, st)
      else if \<not> dp_thread sys then (False, st)
      else (True, set_sp (\<lambda>sp. sp\<lparr>sp_worker_thread := True\<rparr>) st))"

subsection \<open>The sockets\<close>

definition true_opt :: bytes where "true_opt = le_bytes 4 (1 :: u32)"

text \<open>A failure after the creation of the socket closes it again.\<close>

definition give_up_socket ::
  "('w, 's) dp_sys \<Rightarrow> int \<Rightarrow> ('w, 's) dpstate \<Rightarrow> (bool \<times> ('w, 's) dpstate) option" where
  "give_up_socket sys sock st = map_option (\<lambda>(_, st). (False, st)) (closesocket (handle_of sock) (dp_close sys) st)"

definition init_main_socket ::
  "('w, 's) genv \<Rightarrow> ('w, 's) dp_sys \<Rightarrow> ('w, 's) dpstate \<Rightarrow> (bool \<times> ('w, 's) dpstate) option" where
  "init_main_socket env sys st =
     (if sp_sock (d_sp st) \<noteq> -1 then Some (True, st)
      else
        let (sock, st) = socket (uint AF_IPX) SOCK_DGRAM NSPROTO_IPX (dp_socket sys) st in
        if sock = -1 then Some (False, st)
        else do {
          (b, st) \<leftarrow> Bind.bind env (dp_bind sys) (dp_others sys) (handle_of sock)
             \<lparr>sa_family = AF_IPX, sa_netnum = replicate 4 0, sa_nodenum = replicate 6 0, sa_socket = 0\<rparr>
             (of_nat SOCKADDR_IPX_SIZE) st;
          if b = -1 then give_up_socket sys sock st
          else
            let (_, st) = setsockopt (handle_of sock) SOL_SOCKET SO_BROADCAST true_opt (dp_setopt sys) st in
            case dp_select sys of
              Inl err \<Rightarrow> give_up_socket sys sock (set_error err st)
            | Inr _ \<Rightarrow> Some (True, set_sp (\<lambda>sp. sp\<lparr>sp_sock := sock\<rparr>) st)
        })"

text \<open>The address \<open>getsockname\<close> writes; the structure it is written to was not initialised.\<close>

definition sp_getsockname ::
  "('w, 's) dp_sys \<Rightarrow> ('w, 's) dpstate \<Rightarrow> sockaddr_ipx option \<times> ('w, 's) dpstate" where
  "sp_getsockname sys st =
     (case getsockname (handle_of (sp_sock (d_sp st))) (of_nat SOCKADDR_IPX_SIZE) (dp_name sys) st of
        (ret, out, al, st) \<Rightarrow>
          (if ret = -1 then None else Some (sockaddr_ipx_of (case out of None \<Rightarrow> [] | Some b \<Rightarrow> b)), st))"

definition init_disc_socket ::
  "('w, 's) genv \<Rightarrow> ('w, 's) dp_sys \<Rightarrow> ('w, 's) dpstate \<Rightarrow> (bool \<times> ('w, 's) dpstate) option" where
  "init_disc_socket env sys st =
     (if sp_ns_sock (d_sp st) \<noteq> -1 then Some (True, st)
      else
        let (sock, st) = socket (uint AF_IPX) SOCK_DGRAM NSPROTO_IPX (dp_socket sys) st in
        if sock = -1 then Some (False, st)
        else
          let (_, st) = setsockopt (handle_of sock) SOL_SOCKET SO_REUSEADDR true_opt (dp_setopt sys) st;
              (_, st) = setsockopt (handle_of sock) SOL_SOCKET SO_BROADCAST true_opt (dp_setopt sys) st
          in case sp_getsockname sys st of
               (None, st) \<Rightarrow> give_up_socket sys sock st
             | (Some addr, st) \<Rightarrow>
                 do {
                   (b, st) \<leftarrow> Bind.bind env (dp_bind sys) (dp_others sys) (handle_of sock)
                      (addr\<lparr>sa_socket := htons DISCOVERY_SOCKET\<rparr>) (of_nat SOCKADDR_IPX_SIZE) st;
                   if b = -1 then give_up_socket sys sock st
                   else
                     case dp_select sys of
                       Inl err \<Rightarrow> give_up_socket sys sock (set_error err st)
                     | Inr _ \<Rightarrow> Some (True, set_sp (\<lambda>sp. sp\<lparr>sp_ns_sock := sock\<rparr>) st)
                 })"

subsection \<open>The functions DirectPlay calls\<close>

text \<open>What follows the space for a header in a message; a size below that of the header wraps around.\<close>

definition dp_send ::
  "('w, 's) genv \<Rightarrow> ('w, 's) dp_sys \<Rightarrow> bytes \<Rightarrow> u32 \<Rightarrow> sockaddr_ipx \<Rightarrow> ('w, 's) dpstate
     \<Rightarrow> (int \<times> ('w, 's) dpstate) option" where
  "dp_send env sys lpMessage dwMessageSize to_addr st =
     map_option (\<lambda>(r, _, st). (r, st))
       (sendto env (dp_tx sys) (dp_bind sys) (dp_ticks sys) (dp_others sys) (handle_of (sp_sock (d_sp st)))
          (drop API_HEADER_SIZE lpMessage) (sint (dwMessageSize - of_nat API_HEADER_SIZE))
          (Some (sockaddr_ipx.extend to_addr \<lparr>sa_ptype = 0, sa_flags = 0\<rparr>)) (of_nat SOCKADDR_IPX_SIZE)
          (dp_sendto sys) st)"

definition IPX_EnumSessions ::
  "('w, 's) genv \<Rightarrow> ('w, 's) dp_sys \<Rightarrow> bytes \<Rightarrow> u32 \<Rightarrow> ('w, 's) dpstate \<Rightarrow> (u32 \<times> ('w, 's) dpstate) option" where
  "IPX_EnumSessions env sys lpMessage dwMessageSize st =
     do {
       st \<leftarrow> get_sp_data sys st;
       let (worker, st) = init_worker sys st;
       (ok, st) \<leftarrow> (if worker then init_main_socket env sys st else Some (False, st));
       if \<not> ok then Some (DPERR_GENERIC, release_sp_data st)
       else
         case sp_getsockname sys st of
           (None, st) \<Rightarrow> Some (DPERR_GENERIC, release_sp_data st)
         | (Some my_addr, st) \<Rightarrow>
             do {
               (r, st) \<leftarrow> dp_send env sys lpMessage dwMessageSize
                  (my_addr\<lparr>sa_nodenum := replicate 6 0xFF, sa_socket := htons DISCOVERY_SOCKET\<rparr>) st;
               Some (if r = -1 then DPERR_GENERIC else DP_OK, release_sp_data st)
             }
     }"

text \<open>The data of a player: an error of DirectPlay, or what it has stored.\<close>

definition GetSPPlayerData :: "('w, 's) dp_sys \<Rightarrow> u32 \<Rightarrow> ('w, 's) dpstate \<Rightarrow> u32 + bytes option" where
  "GetSPPlayerData sys p st = (if dp_player_err sys p \<noteq> DP_OK then Inl (dp_player_err sys p) else Inr (d_players st p))"

text \<open>The address of a player, or of the name server for the player 0.\<close>

definition send_address ::
  "('w, 's) dp_sys \<Rightarrow> u32 \<Rightarrow> ('w, 's) dpstate \<Rightarrow> ((u32 + sockaddr_ipx) \<times> ('w, 's) dpstate) option" where
  "send_address sys idPlayerTo st =
     (if idPlayerTo \<noteq> 0 then
        Some (case GetSPPlayerData sys idPlayerTo st of
                Inl err \<Rightarrow> Inl err
              | Inr None \<Rightarrow> Inl DPERR_GENERIC
              | Inr (Some addr) \<Rightarrow>
                  if length addr = SOCKADDR_IPX_SIZE then Inr (sockaddr_ipx_of addr) else Inl DPERR_GENERIC,
              st)
      else do {
        st \<leftarrow> get_sp_data sys st;
        let to_addr = sp_ns_addr (d_sp st);
        Some (if sa_family to_addr = 0 then Inl DPERR_GENERIC else Inr to_addr, release_sp_data st)
      })"

definition IPX_Send ::
  "('w, 's) genv \<Rightarrow> ('w, 's) dp_sys \<Rightarrow> u32 \<Rightarrow> bytes \<Rightarrow> u32 \<Rightarrow> ('w, 's) dpstate \<Rightarrow> (u32 \<times> ('w, 's) dpstate) option" where
  "IPX_Send env sys idPlayerTo lpMessage dwMessageSize st =
     do {
       (to_addr, st) \<leftarrow> send_address sys idPlayerTo st;
       case to_addr of
         Inl err \<Rightarrow> Some (err, st)
       | Inr to_addr \<Rightarrow>
           do {
             st \<leftarrow> get_sp_data sys st;
             (r, st) \<leftarrow> dp_send env sys lpMessage dwMessageSize to_addr st;
             Some (if r = -1 then DPERR_GENERIC else DP_OK, release_sp_data st)
           }
     }"

text \<open>
  \<open>lpSPMessageHeader\<close> is the address passed to \<open>HandleMessage\<close> with the message that is answered,
  if the reply is to one. Without it the function returns with the lock held.
\<close>

definition update_name_server :: "('w, 's) dp_sys \<Rightarrow> u32 \<Rightarrow> ('w, 's) dpstate \<Rightarrow> ('w, 's) dpstate" where
  "update_name_server sys idNameServer st =
     (if sp_ns_id (d_sp st) \<noteq> idNameServer then
        (case GetSPPlayerData sys idNameServer st of
           Inr (Some addr) \<Rightarrow>
             if length addr = SOCKADDR_IPX_SIZE
             then set_sp (\<lambda>sp. sp\<lparr>sp_ns_addr := sockaddr_ipx_of addr, sp_ns_id := idNameServer\<rparr>) st
             else st
         | _ \<Rightarrow> st)
      else st)"

definition IPX_Reply ::
  "('w, 's) genv \<Rightarrow> ('w, 's) dp_sys \<Rightarrow> u32 \<Rightarrow> sockaddr_ipx option \<Rightarrow> bytes \<Rightarrow> u32 \<Rightarrow> ('w, 's) dpstate
     \<Rightarrow> (u32 \<times> ('w, 's) dpstate) option" where
  "IPX_Reply env sys idNameServer lpSPMessageHeader lpMessage dwMessageSize st =
     do {
       st \<leftarrow> get_sp_data sys st;
       let st = update_name_server sys idNameServer st;
       case lpSPMessageHeader of
         None \<Rightarrow> Some (DPERR_GENERIC, st)
       | Some to_addr \<Rightarrow>
           do {
             (r, st) \<leftarrow> dp_send env sys lpMessage dwMessageSize to_addr st;
             Some (if r = -1 then DPERR_GENERIC else DP_OK, release_sp_data st)
           }
     }"

definition CREATEPLAYER_NS :: u32 where "CREATEPLAYER_NS = 2"
definition CREATEPLAYER_SELF :: u32 where "CREATEPLAYER_SELF = 8"

text \<open>The shared data of a local player is the address of the main socket.\<close>

definition set_player_address ::
  "('w, 's) dp_sys \<Rightarrow> u32 \<Rightarrow> ('w, 's) dpstate \<Rightarrow> (u32 \<times> ('w, 's) dpstate) option" where
  "set_player_address sys idPlayer st =
     do {
       st \<leftarrow> get_sp_data sys st;
       case sp_getsockname sys st of
         (None, st) \<Rightarrow> Some (DPERR_GENERIC, release_sp_data st)
       | (Some my_addr, st) \<Rightarrow>
           let st = release_sp_data st in
           if dp_set_player_err sys \<noteq> DP_OK then Some (dp_set_player_err sys, st)
           else Some (DP_OK, st\<lparr>d_players := (d_players st)(idPlayer \<mapsto> sockaddr_ipx_bytes my_addr)\<rparr>)
     }"

text \<open>A remote player is only checked, with warnings to the log.\<close>

definition IPX_CreatePlayer ::
  "('w, 's) genv \<Rightarrow> ('w, 's) dp_sys \<Rightarrow> u32 \<Rightarrow> u32 \<Rightarrow> ('w, 's) dpstate \<Rightarrow> (u32 \<times> ('w, 's) dpstate) option" where
  "IPX_CreatePlayer env sys idPlayer dwFlags st =
     (if flag_set dwFlags CREATEPLAYER_SELF then
        do {
          st \<leftarrow>
            (if flag_set dwFlags CREATEPLAYER_NS then
               do {
                 st \<leftarrow> get_sp_data sys st;
                 (_, st) \<leftarrow> init_disc_socket env sys st;
                 Some (release_sp_data st)
               }
             else Some st);
          set_player_address sys idPlayer st
        }
      else
        case GetSPPlayerData sys idPlayer st of
          Inl err \<Rightarrow> Some (err, st)
        | Inr _ \<Rightarrow> Some (DP_OK, st))"

text \<open>\<open>DPCAPS\<close>, as the caller passes it.\<close>

record dpcaps =
  dc_dwSize :: u32
  dc_dwFlags :: u32
  dc_dwMaxBufferSize :: u32
  dc_dwMaxQueueSize :: u32
  dc_dwMaxPlayers :: u32
  dc_dwHundredBaud :: u32
  dc_dwLatency :: u32
  dc_dwMaxLocalPlayers :: u32
  dc_dwHeaderLength :: u32
  dc_dwTimeout :: u32

definition DPCAPS_SIZE :: u32 where "DPCAPS_SIZE = 40"
definition DPCAPS_ASYNCSUPPORTED :: u32 where "DPCAPS_ASYNCSUPPORTED = 0x10000"

definition IPX_GetCaps :: "dpcaps \<Rightarrow> u32 \<times> dpcaps" where
  "IPX_GetCaps caps =
     (if dc_dwSize caps < DPCAPS_SIZE then (DPERR_INVALIDPARAMS, caps)
      else
        (DP_OK,
         caps\<lparr>dc_dwFlags := DPCAPS_ASYNCSUPPORTED, dc_dwMaxBufferSize := 1024, dc_dwMaxQueueSize := 0,
              dc_dwMaxPlayers := 65536, dc_dwHundredBaud := 0, dc_dwLatency := 50, dc_dwMaxLocalPlayers := 65536,
              dc_dwHeaderLength := of_nat API_HEADER_SIZE, dc_dwTimeout := 500\<rparr>))"

definition IPX_Open ::
  "('w, 's) genv \<Rightarrow> ('w, 's) dp_sys \<Rightarrow> bool \<Rightarrow> sockaddr_ipx option \<Rightarrow> ('w, 's) dpstate
     \<Rightarrow> (u32 \<times> ('w, 's) dpstate) option" where
  "IPX_Open env sys bCreate lpSPMessageHeader st =
     do {
       st \<leftarrow> get_sp_data sys st;
       let (worker, st) = init_worker sys st;
       (ok, st) \<leftarrow> (if worker then init_main_socket env sys st else Some (False, st));
       if \<not> ok then Some (DPERR_GENERIC, release_sp_data st)
       else
         let st = (if bCreate then st
                   else case lpSPMessageHeader of
                          None \<Rightarrow> st
                        | Some addr \<Rightarrow> set_sp (\<lambda>sp. sp\<lparr>sp_ns_addr := addr, sp_ns_id := 0\<rparr>) st)
         in Some (DP_OK, release_sp_data st)
     }"

text \<open>
  The main socket is closed where it is already closed: the test is the wrong way round. Closing -1
  fails and changes nothing.
\<close>

definition close_sockets :: "('w, 's) dp_sys \<Rightarrow> ('w, 's) dpstate \<Rightarrow> ('w, 's) dpstate option" where
  "close_sockets sys st =
     do {
       st \<leftarrow>
         (if sp_ns_sock (d_sp st) \<noteq> -1 then
            map_option (\<lambda>(_, st). set_sp (\<lambda>sp. sp\<lparr>sp_ns_sock := -1\<rparr>) st)
              (closesocket (handle_of (sp_ns_sock (d_sp st))) (dp_close sys) st)
          else Some st);
       if sp_sock (d_sp st) = -1 then
         map_option (\<lambda>(_, st). set_sp (\<lambda>sp. sp\<lparr>sp_sock := -1\<rparr>) st)
           (closesocket (handle_of (sp_sock (d_sp st))) (Inl WSAENOTSOCK) st)
       else Some st
     }"

definition IPX_CloseEx :: "('w, 's) dp_sys \<Rightarrow> ('w, 's) dpstate \<Rightarrow> (u32 \<times> ('w, 's) dpstate) option" where
  "IPX_CloseEx sys st =
     do {
       st \<leftarrow> get_sp_data sys st;
       st \<leftarrow> close_sockets sys st;
       Some (DP_OK, release_sp_data st)
     }"

text \<open>\<open>worker\<close> is what the worker does until it ends or is killed.\<close>

definition IPX_ShutdownEx ::
  "('w, 's) dp_sys \<Rightarrow> (('w, 's) dpstate \<Rightarrow> ('w, 's) dpstate) \<Rightarrow> ('w, 's) dpstate \<Rightarrow> (u32 \<times> ('w, 's) dpstate) option" where
  "IPX_ShutdownEx sys worker st =
     do {
       st \<leftarrow> get_sp_data sys st;
       let st = release_sp_data (set_sp (\<lambda>sp. sp\<lparr>sp_running := False, sp_event := True\<rparr>) st);
       let st = (if sp_worker_thread (d_sp st) then set_sp (\<lambda>sp. sp\<lparr>sp_worker_thread := False\<rparr>) (worker st) else st);
       st \<leftarrow> close_sockets sys st;
       Some (DP_OK, st)
     }"

text \<open>
  The provider's data as \<open>SPInit\<close> leaves it; the fields that are not assigned are those of \<open>junk\<close>.
  A request for another provider goes to the system's library.
\<close>

record sp_init_sys =
  si_cs :: bool
  si_event :: bool
  si_set_data :: u32

definition SPInit ::
  "bool \<Rightarrow> sp_init_sys \<Rightarrow> sp_data \<Rightarrow> u32 \<Rightarrow> ('w, 's) dpstate \<Rightarrow> u32 \<times> ('w, 's) dpstate" where
  "SPInit is_ipx sys junk r st =
     (if \<not> is_ipx then (r, st)
      else if \<not> si_cs sys \<or> \<not> si_event sys then (DPERR_UNAVAILABLE, st)
      else if si_set_data sys \<noteq> DP_OK then (DPERR_UNAVAILABLE, st)
      else
        (DP_OK,
         st\<lparr>d_sp := junk\<lparr>sp_sock := -1, sp_ns_sock := -1, sp_ns_addr := (sp_ns_addr junk)\<lparr>sa_family := 0\<rparr>,
                           sp_running := True, sp_worker_thread := False, sp_event := False\<rparr>,
            d_lock := 0\<rparr>))"

end
