(* ===== verification/Provider.thy ===== *)
theory Provider
  imports Api Relay DirectPlay
begin

text \<open>
  The DirectPlay provider on top of the API: what its functions keep, where its messages go, and what
  they do not give back.
\<close>

text \<open>The functions of the API leave the provider's part of the state alone.\<close>

lemma more_dp:
  fixes st st' :: "('w, 's) dpstate"
  assumes "wstate.more st' = wstate.more st"
  shows "d_sp st' = d_sp st" "d_lock st' = d_lock st" "d_players st' = d_players st" "d_messages st' = d_messages st"
  using assms by (cases st; cases st'; simp)+

lemma keeps_dp:
  fixes st st' :: "('w, 's) dpstate"
  assumes "keeps st st'"
  shows "api_ok st'" "w_lock st' = w_lock st" "d_sp st' = d_sp st" "d_lock st' = d_lock st"
    "d_players st' = d_players st" "d_messages st' = d_messages st"
  using assms more_dp [of st' st] by (simp_all add: keeps_def)

lemma dp_update_simps [simp]:
  fixes st :: "('w, 's) dpstate"
  shows "api_ok (st\<lparr>d_lock := n\<rparr>) = api_ok st" "api_ok (st\<lparr>d_sp := sp\<rparr>) = api_ok st"
    "api_ok (st\<lparr>d_players := pl\<rparr>) = api_ok st" "api_ok (st\<lparr>d_messages := ms\<rparr>) = api_ok st"
    "socket_fresh so (st\<lparr>d_lock := n\<rparr>) = socket_fresh so st" "socket_fresh so (st\<lparr>d_sp := sp\<rparr>) = socket_fresh so st"
  by (simp_all add: api_ok_def socket_fresh_def)

lemma release_simps [simp]:
  "d_lock (release_sp_data st) = d_lock st - 1" "d_sp (release_sp_data st) = d_sp st" "w_lock (release_sp_data st) = w_lock st"
  "api_ok (release_sp_data st) = api_ok st" "d_players (release_sp_data st) = d_players st"
  "d_messages (release_sp_data st) = d_messages st" "g_sockets (release_sp_data st) = g_sockets st"
  "socket_fresh so (release_sp_data st) = socket_fresh so st"
  by (simp_all add: release_sp_data_def)

lemma set_sp_simps [simp]:
  "d_lock (set_sp f st) = d_lock st" "d_sp (set_sp f st) = f (d_sp st)" "w_lock (set_sp f st) = w_lock st"
  "api_ok (set_sp f st) = api_ok st" "d_players (set_sp f st) = d_players st" "d_messages (set_sp f st) = d_messages st"
  "g_sockets (set_sp f st) = g_sockets st" "socket_fresh so (set_sp f st) = socket_fresh so st"
  by (simp_all add: set_sp_def)

subsection \<open>What the functions keep\<close>

text \<open>
  The sockets are well-formed and their lock is free, the provider's lock is held \<open>h\<close> times, and there is
  a worker for the main socket.
\<close>

definition dp_inv :: "int \<Rightarrow> ('w, 's) dpstate \<Rightarrow> bool" where
  "dp_inv h st \<longleftrightarrow> api_ok st \<and> w_lock st = 0 \<and> d_lock st = h \<and> (sp_sock (d_sp st) \<noteq> -1 \<longrightarrow> sp_worker_thread (d_sp st))"

definition calm :: "('w, 's) dp_sys \<Rightarrow> ('w, 's) dpstate \<Rightarrow> bool" where
  "calm sys st \<longleftrightarrow> quiet (dp_others sys) \<and> socket_fresh (dp_socket sys) st"

lemma dp_inv_keeps: "dp_inv h st \<Longrightarrow> keeps st st' \<Longrightarrow> dp_inv h st'"
  by (simp add: dp_inv_def keeps_dp)

lemma dp_inv_ok: "dp_inv h st \<Longrightarrow> api_ok st"
  by (simp add: dp_inv_def)

lemma get_sp_data_inv: "get_sp_data sys st = Some st' \<Longrightarrow> dp_inv h st \<Longrightarrow> dp_inv (h + 1) st'"
  by (auto simp: get_sp_data_def dp_inv_def split: if_splits)

lemma get_sp_data_calm: "get_sp_data sys st = Some st' \<Longrightarrow> calm sys' st' = calm sys' st"
  by (auto simp: get_sp_data_def calm_def split: if_splits)

lemma release_inv: "dp_inv (h + 1) st \<Longrightarrow> dp_inv h (release_sp_data st)"
  by (simp add: dp_inv_def)

lemma init_worker_inv: "init_worker sys st = (ok, st') \<Longrightarrow> dp_inv h st \<Longrightarrow> dp_inv h st' \<and> (ok \<longrightarrow> sp_worker_thread (d_sp st'))"
  by (auto simp: init_worker_def dp_inv_def split: if_splits)

lemma init_worker_calm: "init_worker sys st = (ok, st') \<Longrightarrow> calm sys' st' = calm sys' st"
  by (auto simp: init_worker_def calm_def split: if_splits)

lemma give_up_inv: "give_up_socket sys sock st = Some (ok, st') \<Longrightarrow> dp_inv h st \<Longrightarrow> dp_inv h st'"
  by (auto simp: give_up_socket_def intro: dp_inv_keeps closesocket_keeps dp_inv_ok)

lemma dp_inv_error: "dp_inv h st \<Longrightarrow> dp_inv h (set_error err st)"
  by (rule dp_inv_keeps) (auto simp: dp_inv_def)

lemma socket_inv:
  "socket af ty pr (dp_socket sys) st = (fd, st') \<Longrightarrow> calm sys st \<Longrightarrow> dp_inv h st \<Longrightarrow> dp_inv h st' \<and> quiet (dp_others sys)"
  using socket_keeps [of st "dp_socket sys" af ty pr] dp_inv_keeps [of h st st'] by (simp add: calm_def dp_inv_ok)

lemma setsockopt_inv: "setsockopt fd l n v r st = (k, st') \<Longrightarrow> dp_inv h st \<Longrightarrow> dp_inv h st'"
  using setsockopt_keeps [of st fd l n v r] dp_inv_keeps [of h st st'] by (simp add: dp_inv_ok)

lemma getsockname_inv: "sp_getsockname sys st = (a, st') \<Longrightarrow> dp_inv h st \<Longrightarrow> dp_inv h st'"
  using getsockname_keeps [of st "handle_of (sp_sock (d_sp st))" "of_nat SOCKADDR_IPX_SIZE" "dp_name sys"] dp_inv_keeps [of h st st']
  by (auto simp: sp_getsockname_def dp_inv_ok split: prod.splits)

lemma init_main_socket_inv:
  assumes i: "init_main_socket env sys st = Some (ok, st')" and c: "calm sys st" and inv: "dp_inv h st"
    and w: "sp_worker_thread (d_sp st)"
  shows "dp_inv h st'"
proof (cases "sp_sock (d_sp st) = -1")
  case False
  with i inv show ?thesis by (simp add: init_main_socket_def)
next
  case True
  obtain fd st1 where s: "socket (uint AF_IPX) SOCK_DGRAM NSPROTO_IPX (dp_socket sys) st = (fd, st1)" by fastforce
  note i1 = socket_inv [OF s c inv]
  have w1: "sp_worker_thread (d_sp st1)"
    using keeps_dp [of st st1] socket_keeps [of st "dp_socket sys" "uint AF_IPX" SOCK_DGRAM NSPROTO_IPX] s c inv w
    by (simp add: calm_def dp_inv_def)
  show ?thesis
  proof (cases "fd = -1")
    case fd: True
    with i True s i1 show ?thesis by (simp add: init_main_socket_def)
  next
    case fd: False
    then obtain b st2 where b: "Bind.bind env (dp_bind sys) (dp_others sys) (handle_of fd)
             \<lparr>sa_family = AF_IPX, sa_netnum = replicate 4 0, sa_nodenum = replicate 6 0, sa_socket = 0\<rparr>
             (of_nat SOCKADDR_IPX_SIZE) st1 = Some (b, st2)"
      using i True s by (auto simp: init_main_socket_def Option.bind_eq_Some_conv)
    have k2: "keeps st1 st2" by (rule wait_keeps(1) [OF _ dp_inv_ok b]) (use i1 in auto)
    obtain k st3 where o: "setsockopt (handle_of fd) SOL_SOCKET SO_BROADCAST true_opt (dp_setopt sys) st2 = (k, st3)" by fastforce
    have k3: "keeps st2 st3"
      using setsockopt_keeps [of st2 "handle_of fd" SOL_SOCKET SO_BROADCAST true_opt "dp_setopt sys"] o k2 by (simp add: keeps_def)
    have i3: "dp_inv h st2" "dp_inv h st3" "sp_worker_thread (d_sp st3)"
      using dp_inv_keeps [OF dp_inv_keeps [OF _ k2] k3] dp_inv_keeps [OF _ k2] i1 keeps_dp(3) [OF keeps_trans [OF k2 k3]] w1
      by auto
    consider "give_up_socket sys fd st2 = Some (ok, st')" | err where "give_up_socket sys fd (set_error err st3) = Some (ok, st')"
      | "st' = set_sp (\<lambda>sp. sp\<lparr>sp_sock := fd\<rparr>) st3"
      using i True s fd b o by (auto simp: init_main_socket_def split: if_splits sum.splits)
    then show ?thesis
    proof cases
      case 1 from give_up_inv [OF this i3(1)] show ?thesis .
    next
      case 2 from give_up_inv [OF this dp_inv_error [OF i3(2)]] show ?thesis .
    next
      case 3 with i3 show ?thesis by (simp add: dp_inv_def)
    qed
  qed
qed

lemma init_disc_socket_inv:
  assumes i: "init_disc_socket env sys st = Some (ok, st')" and c: "calm sys st" and inv: "dp_inv h st"
  shows "dp_inv h st'"
proof (cases "sp_ns_sock (d_sp st) = -1")
  case False
  with i inv show ?thesis by (simp add: init_disc_socket_def)
next
  case True
  obtain fd st1 where s: "socket (uint AF_IPX) SOCK_DGRAM NSPROTO_IPX (dp_socket sys) st = (fd, st1)" by fastforce
  note i1 = socket_inv [OF s c inv]
  obtain k2 st2 where o2: "setsockopt (handle_of fd) SOL_SOCKET SO_REUSEADDR true_opt (dp_setopt sys) st1 = (k2, st2)" by fastforce
  obtain k3 st3 where o3: "setsockopt (handle_of fd) SOL_SOCKET SO_BROADCAST true_opt (dp_setopt sys) st2 = (k3, st3)" by fastforce
  obtain a st4 where n: "sp_getsockname sys st3 = (a, st4)" by fastforce
  have i4: "dp_inv h st4" "quiet (dp_others sys)"
    using getsockname_inv [OF n setsockopt_inv [OF o3 setsockopt_inv [OF o2]]] i1 by auto
  have "fd = -1 \<and> st' = st1 \<or> give_up_socket sys fd st4 = Some (ok, st') \<or>
      (\<exists>addr b st5. Bind.bind env (dp_bind sys) (dp_others sys) (handle_of fd) addr (of_nat SOCKADDR_IPX_SIZE) st4 = Some (b, st5) \<and>
         (give_up_socket sys fd st5 = Some (ok, st') \<or> (\<exists>err. give_up_socket sys fd (set_error err st5) = Some (ok, st')) \<or>
          st' = set_sp (\<lambda>sp. sp\<lparr>sp_ns_sock := fd\<rparr>) st5))"
    using i True s o2 o3 n
    by (auto simp: init_disc_socket_def Option.bind_eq_Some_conv split: if_splits sum.splits option.splits)
  then show ?thesis
  proof (elim disjE exE conjE)
    show "dp_inv h st'" if "give_up_socket sys fd st4 = Some (ok, st')" by (rule give_up_inv [OF that i4(1)])
    fix addr b st5
    assume b: "Bind.bind env (dp_bind sys) (dp_others sys) (handle_of fd) addr (of_nat SOCKADDR_IPX_SIZE) st4 = Some (b, st5)"
    have i5: "dp_inv h st5" by (rule dp_inv_keeps [OF i4(1) wait_keeps(1) [OF i4(2) dp_inv_ok [OF i4(1)] b]])
    show "dp_inv h st'" if "give_up_socket sys fd st5 = Some (ok, st')" by (rule give_up_inv [OF that i5])
    show "dp_inv h st'" if "give_up_socket sys fd (set_error err st5) = Some (ok, st')" for err
      by (rule give_up_inv [OF that dp_inv_error [OF i5]])
    show "dp_inv h st'" if "st' = set_sp (\<lambda>sp. sp\<lparr>sp_ns_sock := fd\<rparr>) st5" using that i5 by (simp add: dp_inv_def)
  qed (use i1 in simp)
qed

lemma dp_send_inv:
  assumes "dp_send env sys msg sz to st = Some (r, st')" and "quiet (dp_others sys)" and "dp_inv h st"
  shows "dp_inv h st'"
proof -
  obtain delay where "sendto env (dp_tx sys) (dp_bind sys) (dp_ticks sys) (dp_others sys) (handle_of (sp_sock (d_sp st)))
      (drop API_HEADER_SIZE msg) (sint (sz - of_nat API_HEADER_SIZE))
      (Some (sockaddr_ipx.extend to \<lparr>sa_ptype = 0, sa_flags = 0\<rparr>)) (of_nat SOCKADDR_IPX_SIZE) (dp_sendto sys) st = Some (r, delay, st')"
    using assms(1) by (auto simp: dp_send_def)
  from dp_inv_keeps [OF assms(3) wait_keeps(3) [OF assms(2) dp_inv_ok [OF assms(3)] this]] show ?thesis .
qed

lemma close_sockets_inv:
  assumes "close_sockets sys st = Some st'" and "dp_inv h st"
  shows "dp_inv h st'"
proof -
  have cl: "dp_inv h (set_sp f st2)" if "closesocket fd r st1 = Some (v, st2)" "dp_inv h st1" and "f = (\<lambda>sp. sp\<lparr>sp_ns_sock := -1\<rparr>) \<or> f = (\<lambda>sp. sp\<lparr>sp_sock := -1\<rparr>)"
    for fd r v f and st1 st2 :: "('a, 'b) dpstate"
    using dp_inv_keeps [OF that(2) closesocket_keeps [OF dp_inv_ok [OF that(2)] that(1)]] that(3) by (auto simp: dp_inv_def)
  from assms show ?thesis
    by (auto simp: close_sockets_def Option.bind_eq_Some_conv intro: cl split: if_splits)
qed

lemma dp_recv_packet_inv:
  assumes r: "dp_recv_packet env sys rx r w st = Some st'" and inv: "dp_inv h st"
    and wb: "well_behaved (handle_of (sock_of w (d_sp st))) (rx 0)"
  shows "dp_inv h st'"
proof -
  obtain st1 where s1: "get_sp_data sys st = Some st1" using r by (auto simp: dp_recv_packet_def Option.bind_eq_Some_conv)
  note i1 = get_sp_data_inv [OF s1 inv]
  have sp: "d_sp st1 = d_sp st" using s1 by (auto simp: get_sp_data_def split: if_splits)
  show ?thesis
  proof (cases "sock_of w (d_sp st1) = -1")
    case True
    with r s1 release_inv [OF i1] show ?thesis by (simp add: dp_recv_packet_def)
  next
    case False
    then obtain n buf addr st2 al where rf: "recvfrom env rx (handle_of (sock_of w (d_sp st1))) (int MAX_DATA_SIZE) False True
        (Some (of_nat SOCKADDR_IPX_SIZE)) r st1 = Some ((n, buf, addr, st2), al)"
      using r s1 by (auto simp: dp_recv_packet_def Option.bind_eq_Some_conv)
    have i2: "dp_inv (h + 1) st2"
      by (rule dp_inv_keeps [OF i1 recvfrom_keeps [OF dp_inv_ok [OF i1] _ rf]]) (use wb sp in simp)
    have "st' = release_sp_data st2 \<or> st' = (release_sp_data st2)\<lparr>d_messages := d_messages st2 @ [(buf, sockaddr_ipx_of addr)]\<rparr> \<or>
        (\<exists>v st3. closesocket (handle_of (sock_of w (d_sp st2))) (dp_close sys) st2 = Some (v, st3) \<and>
           st' = release_sp_data (set_sp (set_sock w (-1)) st3))"
      using r s1 False rf
      by (auto simp: dp_recv_packet_def Option.bind_eq_Some_conv release_sp_data_def split: if_splits)
    then show ?thesis
    proof (elim disjE exE conjE)
      fix v st3 assume c: "closesocket (handle_of (sock_of w (d_sp st2))) (dp_close sys) st2 = Some (v, st3)"
        and st': "st' = release_sp_data (set_sp (set_sock w (-1)) st3)"
      have "dp_inv (h + 1) st3" by (rule dp_inv_keeps [OF i2 closesocket_keeps [OF dp_inv_ok [OF i2] c]])
      then show ?thesis by (simp add: st' dp_inv_def set_sock_def split: dp_which.splits)
    qed (use release_inv [OF i2] in \<open>simp_all add: dp_inv_def\<close>)
  qed
qed

text \<open>Each function, called with the lock free, leaves it free.\<close>

lemma start_inv:
  assumes "get_sp_data sys st = Some st1" and "init_worker sys st1 = (worker, st2)"
    and "(if worker then init_main_socket env sys st2 else Some (False, st2)) = Some (ok, st3)"
    and c: "calm sys st" and inv: "dp_inv 0 st"
  shows "dp_inv 1 st3"
proof -
  have i2: "dp_inv 1 st2" "worker \<longrightarrow> sp_worker_thread (d_sp st2)"
    using init_worker_inv [OF assms(2) get_sp_data_inv [OF assms(1) inv]] by simp_all
  have "calm sys st2" using c init_worker_calm [OF assms(2)] get_sp_data_calm [OF assms(1)] by simp
  with i2 init_main_socket_inv [of env sys st2 ok st3 1] assms(3) show ?thesis by (cases worker) auto
qed

lemma release_inv1: "dp_inv 1 st \<Longrightarrow> dp_inv 0 (release_sp_data st)"
  using release_inv [of 0] by simp

lemma IPX_Open_inv:
  assumes o: "IPX_Open env sys create header st = Some (r, st')" and c: "calm sys st" and inv: "dp_inv 0 st"
  shows "dp_inv 0 st'"
proof -
  obtain st1 worker st2 ok st3 where s: "get_sp_data sys st = Some st1" "init_worker sys st1 = (worker, st2)"
      "(if worker then init_main_socket env sys st2 else Some (False, st2)) = Some (ok, st3)"
    and st': "st' = release_sp_data st3 \<or> (\<exists>a. st' = release_sp_data (set_sp (\<lambda>sp. sp\<lparr>sp_ns_addr := a, sp_ns_id := 0\<rparr>) st3))"
    using o by (fastforce simp: IPX_Open_def Option.bind_eq_Some_conv split: if_splits option.splits prod.splits)
  from start_inv [OF s c inv] have "dp_inv 1 st3" .
  then have "dp_inv 0 (release_sp_data st3)" "\<And>a. dp_inv 0 (release_sp_data (set_sp (\<lambda>sp. sp\<lparr>sp_ns_addr := a, sp_ns_id := 0\<rparr>) st3))"
    by (simp_all add: dp_inv_def)
  with st' show ?thesis by auto
qed

lemma IPX_EnumSessions_inv:
  assumes e: "IPX_EnumSessions env sys msg sz st = Some (r, st')" and c: "calm sys st" and inv: "dp_inv 0 st"
  shows "dp_inv 0 st'"
proof -
  obtain st1 where s1: "get_sp_data sys st = Some st1" using e by (auto simp: IPX_EnumSessions_def Option.bind_eq_Some_conv)
  obtain worker st2 where s2: "init_worker sys st1 = (worker, st2)" by fastforce
  obtain ok st3 where s3: "(if worker then init_main_socket env sys st2 else Some (False, st2)) = Some (ok, st3)"
    using e s1 s2 by (auto simp: IPX_EnumSessions_def Option.bind_eq_Some_conv)
  note s = s1 s2 s3
  obtain a st4 where n: "sp_getsockname sys st3 = (a, st4)" by fastforce
  have st': "st' = release_sp_data st3 \<or> st' = release_sp_data st4 \<or>
      (\<exists>to v st5. dp_send env sys msg sz to st4 = Some (v, st5) \<and> st' = release_sp_data st5)"
    using e s n
    by (cases a) (auto simp: IPX_EnumSessions_def Option.bind_eq_Some_conv simp del: if_split_asm split: if_splits)
  have i: "dp_inv 1 st3" by (rule start_inv [OF s c inv])
  have i4: "dp_inv 1 st4" by (rule getsockname_inv [OF n i])
  from st' show ?thesis
  proof (elim disjE exE conjE)
    fix to v st5 assume "dp_send env sys msg sz to st4 = Some (v, st5)" "st' = release_sp_data st5"
    with dp_send_inv [of env sys msg sz to st4 v st5 1] i4 c release_inv1 show ?thesis by (simp add: calm_def)
  qed (use i i4 release_inv1 in simp_all)
qed

lemma dp_send_release:
  assumes "dp_send env sys msg sz to st1 = Some (v, st2)" and "calm sys st" and "dp_inv 1 st1"
  shows "dp_inv 0 (release_sp_data st2)"
  by (rule release_inv1 [OF dp_send_inv [OF assms(1) _ assms(3)]]) (use assms(2) in \<open>simp add: calm_def\<close>)

lemma get_sp_data_inv1: "get_sp_data sys st = Some st' \<Longrightarrow> dp_inv 0 st \<Longrightarrow> dp_inv 1 st'"
  using get_sp_data_inv [of sys st st' 0] by simp

lemma send_address_inv:
  assumes "send_address sys p st = Some (a, st')" and "dp_inv 0 st"
  shows "dp_inv 0 st'"
  using assms get_sp_data_inv1 [of sys st] release_inv1
  by (auto simp: send_address_def Option.bind_eq_Some_conv Let_def split: if_splits)

lemma IPX_Send_inv:
  assumes e: "IPX_Send env sys p msg sz st = Some (r, st')" and c: "calm sys st" and inv: "dp_inv 0 st"
  shows "dp_inv 0 st'"
proof -
  obtain a st1 where s: "send_address sys p st = Some (a, st1)" using e by (auto simp: IPX_Send_def Option.bind_eq_Some_conv)
  note i1 = send_address_inv [OF s inv]
  show ?thesis
  proof (cases a)
    case (Inl err)
    with e s i1 show ?thesis by (simp add: IPX_Send_def)
  next
    case (Inr to)
    then obtain st2 v st3 where g: "get_sp_data sys st1 = Some st2" and d: "dp_send env sys msg sz to st2 = Some (v, st3)"
      and st': "st' = release_sp_data st3" using e s by (auto simp: IPX_Send_def Option.bind_eq_Some_conv)
    show ?thesis unfolding st' by (rule dp_send_release [OF d c get_sp_data_inv1 [OF g i1]])
  qed
qed

lemma update_name_server_inv: "dp_inv h st \<Longrightarrow> dp_inv h (update_name_server sys ns st)"
  by (simp add: update_name_server_def dp_inv_def split: sum.splits option.splits)

lemma IPX_Reply_inv:
  assumes e: "IPX_Reply env sys ns (Some header) msg sz st = Some (r, st')" and c: "calm sys st" and inv: "dp_inv 0 st"
  shows "dp_inv 0 st'"
proof -
  obtain st1 v st2 where s: "get_sp_data sys st = Some st1"
      "dp_send env sys msg sz header (update_name_server sys ns st1) = Some (v, st2)" and st': "st' = release_sp_data st2"
    using e by (auto simp: IPX_Reply_def Option.bind_eq_Some_conv Let_def)
  show ?thesis unfolding st'
    by (rule dp_send_release [OF s(2) c update_name_server_inv [OF get_sp_data_inv1 [OF s(1) inv]]])
qed

lemma set_player_address_inv:
  assumes e: "set_player_address sys p st = Some (r, st')" and inv: "dp_inv 0 st"
  shows "dp_inv 0 st'"
proof -
  obtain st1 where g: "get_sp_data sys st = Some st1" using e by (auto simp: set_player_address_def Option.bind_eq_Some_conv)
  obtain a st2 where n: "sp_getsockname sys st1 = (a, st2)" by fastforce
  have "dp_inv 0 (release_sp_data st2)" by (rule release_inv1 [OF getsockname_inv [OF n get_sp_data_inv1 [OF g inv]]])
  with e g n show ?thesis
    by (cases a) (auto simp: set_player_address_def Let_def dp_inv_def split: if_splits)
qed

lemma IPX_CreatePlayer_inv:
  assumes e: "IPX_CreatePlayer env sys p flags st = Some (r, st')" and c: "calm sys st" and inv: "dp_inv 0 st"
  shows "dp_inv 0 st'"
proof (cases "flag_set flags CREATEPLAYER_SELF")
  case False
  with e inv show ?thesis by (auto simp: IPX_CreatePlayer_def split: sum.splits)
next
  case self: True
  show ?thesis
  proof (cases "flag_set flags CREATEPLAYER_NS")
    case False
    with e self set_player_address_inv [OF _ inv] show ?thesis by (simp add: IPX_CreatePlayer_def)
  next
    case True
    obtain st1 b st2 where s: "get_sp_data sys st = Some st1" "init_disc_socket env sys st1 = Some (b, st2)"
      and p: "set_player_address sys p (release_sp_data st2) = Some (r, st')"
      using e self True by (auto simp: IPX_CreatePlayer_def Option.bind_eq_Some_conv)
    have "dp_inv 1 st2"
      by (rule init_disc_socket_inv [OF s(2)]) (use get_sp_data_inv1 [OF s(1) inv] c get_sp_data_calm [OF s(1)] in simp_all)
    from set_player_address_inv [OF p release_inv1 [OF this]] show ?thesis .
  qed
qed

lemma IPX_CloseEx_inv:
  assumes e: "IPX_CloseEx sys st = Some (r, st')" and inv: "dp_inv 0 st"
  shows "dp_inv 0 st'"
proof -
  obtain st1 st2 where s: "get_sp_data sys st = Some st1" "close_sockets sys st1 = Some st2" "st' = release_sp_data st2"
    using e by (auto simp: IPX_CloseEx_def Option.bind_eq_Some_conv)
  from release_inv1 [OF close_sockets_inv [OF s(2)]] get_sp_data_inv [OF s(1) inv] s(3) show ?thesis by simp
qed

lemma worker_turn_inv:
  assumes e: "worker_turn env sys rx r st = Some (True, st')" and inv: "dp_inv 0 st"
    and wb: "\<And>w fd i. well_behaved fd (rx w i)"
  shows "dp_inv 0 st'"
proof -
  obtain st1 st2 where s: "get_sp_data sys st = Some st1"
      "dp_recv_packet env sys (rx MainSock) (r MainSock) MainSock
         (release_sp_data (set_sp (\<lambda>sp. sp\<lparr>sp_event := False\<rparr>) st1)) = Some st2"
      "dp_recv_packet env sys (rx DiscSock) (r DiscSock) DiscSock st2 = Some st'"
    using e by (auto simp: worker_turn_def Option.bind_eq_Some_conv Let_def split: if_splits)
  have "dp_inv 0 (release_sp_data (set_sp (\<lambda>sp. sp\<lparr>sp_event := False\<rparr>) st1))"
    using get_sp_data_inv [OF s(1) inv] by (simp add: dp_inv_def)
  from dp_recv_packet_inv [OF s(3) dp_recv_packet_inv [OF s(2) this]] wb show ?thesis by blast
qed

subsection \<open>The provider and the program that uses it\<close>

text \<open>
  DirectPlay calls the functions, the worker takes its turns, and the program calls the API. A reply
  is to a message that came with its sender's address.
\<close>

inductive dp_step :: "('w, 's) dpstate \<Rightarrow> ('w, 's) dpstate \<Rightarrow> bool" where
  enum: "IPX_EnumSessions env sys msg sz st = Some (r, st') \<Longrightarrow> calm sys st \<Longrightarrow> dp_step st st'"
| send: "IPX_Send env sys p msg sz st = Some (r, st') \<Longrightarrow> calm sys st \<Longrightarrow> dp_step st st'"
| reply: "IPX_Reply env sys ns (Some header) msg sz st = Some (r, st') \<Longrightarrow> calm sys st \<Longrightarrow> dp_step st st'"
| create: "IPX_CreatePlayer env sys p flags st = Some (r, st') \<Longrightarrow> calm sys st \<Longrightarrow> dp_step st st'"
| opened: "IPX_Open env sys new header st = Some (r, st') \<Longrightarrow> calm sys st \<Longrightarrow> dp_step st st'"
| closed: "IPX_CloseEx sys st = Some (r, st') \<Longrightarrow> dp_step st st'"
| worker: "worker_turn env sys rx rr st = Some (True, st') \<Longrightarrow> (\<And>w fd i. well_behaved fd (rx w i)) \<Longrightarrow> dp_step st st'"
| program: "api_step st st' \<Longrightarrow> dp_step st st'"

inductive dp_reach :: "('w, 's) dpstate \<Rightarrow> bool" where
  init: "api_reach st \<Longrightarrow> SPInit True isys junk k st = (DP_OK, st') \<Longrightarrow> dp_reach st'"
| step: "dp_reach st \<Longrightarrow> dp_step st st' \<Longrightarrow> dp_reach st'"

lemma dp_step_inv: "dp_step st st' \<Longrightarrow> dp_inv 0 st \<Longrightarrow> dp_inv 0 st'"
proof (induction rule: dp_step.induct)
  case (program st st')
  then show ?case using dp_inv_keeps [OF _ api_step_keeps] dp_inv_ok by blast
qed (blast intro: IPX_EnumSessions_inv IPX_Send_inv IPX_Reply_inv IPX_CreatePlayer_inv IPX_Open_inv IPX_CloseEx_inv worker_turn_inv)+

lemma SPInit_inv:
  assumes "SPInit True isys junk k st = (DP_OK, st')" and "api_ok st" "w_lock st = 0"
  shows "dp_inv 0 st'"
  using assms by (auto simp: SPInit_def dp_inv_def DP_OK_def DPERR_UNAVAILABLE_def api_ok_def split: if_splits)

lemma dp_reach_inv: "dp_reach st \<Longrightarrow> dp_inv 0 st"
  by (induction rule: dp_reach.induct) (use SPInit_inv api_reach_ok dp_step_inv in blast)+


subsection \<open>Messages\<close>

lemma sockaddr_ipx_roundtrip: "addr_ok a \<Longrightarrow> sockaddr_ipx_of (sockaddr_ipx_bytes a) = a \<and> length (sockaddr_ipx_bytes a) = SOCKADDR_IPX_SIZE"
  by (cases a) (simp add: sockaddr_ipx_of_def sockaddr_ipx_bytes_def addr_ok_def SOCKADDR_IPX_SIZE_def slice_def
      le_word_le_bytes take_bit_word_eq_self)

text \<open>The address of the main socket, once that is bound.\<close>

lemma sp_getsockname_bound:
  assumes "api_ok st" and "hash_find (g_sockets st) (handle_of (sp_sock (d_sp st))) = Some s" and "is_bound s"
  shows "sp_getsockname sys st = (Some (sk_addr s), st)"
proof -
  have "addr_ok (sk_addr s)" using api_ok_sock [OF assms(1,2)] assms(3) by (simp add: sock_ok_def)
  with assms sockaddr_ipx_roundtrip show ?thesis
    by (simp add: sp_getsockname_def getsockname_def get_socket_cases SOCKADDR_IPX_SIZE_def)
qed

text \<open>
  C36. A message for a local player goes where the player is: once \<open>IPX_CreatePlayer\<close> has published the
  address of the provider's bound main socket for the player, \<open>IPX_Send\<close> to the player is \<open>sendto\<close>
  with precisely that address and the part of the message behind the header, and its result tells
  whether \<open>sendto\<close> succeeded.
\<close>

theorem player_message_addressed:
  assumes ok: "api_ok st" and s: "hash_find (g_sockets st) (handle_of (sp_sock (d_sp st))) = Some s" "is_bound s"
    and c: "IPX_CreatePlayer env sys p CREATEPLAYER_SELF st = Some (DP_OK, st1)"
    and p: "p \<noteq> 0" "dp_player_err sys' p = DP_OK" "dp_get_data sys'"
  shows "IPX_Send env' sys' p msg sz st1 =
    map_option (\<lambda>(v, _, st'). (if v = -1 then DPERR_GENERIC else DP_OK, release_sp_data st'))
      (sendto env' (dp_tx sys') (dp_bind sys') (dp_ticks sys') (dp_others sys') (handle_of (sp_sock (d_sp st)))
         (drop API_HEADER_SIZE msg) (sint (sz - of_nat API_HEADER_SIZE))
         (Some (sockaddr_ipx.extend (sk_addr s) \<lparr>sa_ptype = 0, sa_flags = 0\<rparr>)) (of_nat SOCKADDR_IPX_SIZE)
         (dp_sendto sys') (st1\<lparr>d_lock := d_lock st1 + 1\<rparr>))"
proof -
  have fl: "flag_set CREATEPLAYER_SELF CREATEPLAYER_SELF" "\<not> flag_set CREATEPLAYER_SELF CREATEPLAYER_NS"
    by (simp_all add: flag_set_def CREATEPLAYER_SELF_def CREATEPLAYER_NS_def)
  from c have c': "set_player_address sys p st = Some (DP_OK, st1)" by (simp add: IPX_CreatePlayer_def fl)
  then obtain st0 where g: "get_sp_data sys st = Some st0" by (auto simp: set_player_address_def Option.bind_eq_Some_conv)
  then have st0: "st0 = st\<lparr>d_lock := d_lock st + 1\<rparr>" by (auto simp: get_sp_data_def split: if_splits)
  have n: "sp_getsockname sys st0 = (Some (sk_addr s), st0)"
    by (rule sp_getsockname_bound) (use ok s in \<open>simp_all add: st0\<close>)
  have st1: "st1 = (release_sp_data st0)\<lparr>d_players := (d_players st)(p \<mapsto> sockaddr_ipx_bytes (sk_addr s))\<rparr>"
    using c' g n by (auto simp: set_player_address_def Let_def DP_OK_def st0 split: if_splits)
  have "addr_ok (sk_addr s)" using api_ok_sock [OF ok s(1)] s(2) by (simp add: sock_ok_def)
  with sockaddr_ipx_roundtrip have "send_address sys' p st1 = Some (Inr (sk_addr s), st1)"
    using p(1,2) by (simp add: send_address_def GetSPPlayerData_def st1)
  moreover have "d_sp st1 = d_sp st" by (simp add: st1 st0)
  ultimately show ?thesis
    using p(3)
    by (cases "sendto env' (dp_tx sys') (dp_bind sys') (dp_ticks sys') (dp_others sys') (handle_of (sp_sock (d_sp st)))
         (drop API_HEADER_SIZE msg) (sint (sz - of_nat API_HEADER_SIZE))
         (Some (sockaddr_ipx.extend (sk_addr s) \<lparr>sa_ptype = 0, sa_flags = 0\<rparr>)) (of_nat SOCKADDR_IPX_SIZE)
         (dp_sendto sys') (st1\<lparr>d_lock := d_lock st1 + 1\<rparr>)")
      (auto simp: IPX_Send_def get_sp_data_def dp_send_def)
qed

text \<open>
  C35. A packet the router delivers to the provider's main socket reaches DirectPlay: the worker's
  receive hands exactly the payload, with the address of the sender, to \<open>HandleMessage\<close>.
\<close>

theorem provider_receives:
  fixes st :: "('w, 's) dpstate"
  assumes ok: "api_ok st" and open_sock: "sp_sock (d_sp st) \<noteq> -1" "dp_get_data sys"
    and sock: "(handle_of (sp_sock (d_sp st)), sock) \<in> set (g_sockets st)"
    and dlv: "deliver_to (mc_w95_bug (e_config env)) ty sn sd ss dn dd ds sock" "e_pkt_mem env (handle_of (sp_sock (d_sp st)))"
    and ext: "\<not> flag_set (sk_flags sock) IPX_EXT_ADDR"
    and q: "w_queues st (sk_recv_queue sock) = Some q" "rq_n_ready q = 0" "rq_locked q = {}"
    and dat: "length dat \<le> MAX_DATA_SIZE"
  shows "\<exists>g pkt st'. deliver_packet env ty sn sd ss dn dd ds (Some dat) st = Some g \<and>
    (e_private_socket env, loopback_addr (sk_port sock), pkt) \<in> set (drop (length (datagrams st)) (datagrams g)) \<and>
    dp_recv_packet env sys (\<lambda>_. \<lparr>rx_others = id, rx_recv = Inr pkt\<rparr>) r MainSock g = Some st' \<and> d_lock st' = d_lock st \<and>
    d_messages st' = d_messages st @
      [(dat, \<lparr>sa_family = AF_IPX, sa_netnum = addr32_out sn, sa_nodenum = addr48_out sd, sa_socket = ss\<rparr>)]"
proof -
  let ?fd = "handle_of (sp_sock (d_sp st))"
  obtain g where g: "deliver_packet env ty sn sd ss dn dd ds (Some dat) st = Some g" "same_sockets st g"
      "(e_private_socket env, loopback_addr (sk_port sock), relay_packet ty sn sd ss dn dd ds dat)
         \<in> set (drop (length (datagrams st)) (datagrams g))"
    using deliver_sends [where env = env, OF sock dlv] by blast
  let ?g = "g\<lparr>d_lock := d_lock g + 1\<rparr>"
  have d: "d_sp g = d_sp st" "d_lock g = d_lock st" "d_messages g = d_messages st"
    using more_dp [of g st] g(2) by (simp_all add: same_sockets_def)
  have g': "api_ok ?g" "hash_find (g_sockets ?g) ?fd = Some sock" "w_queues ?g (sk_recv_queue sock) = Some q"
    using ok sock q(1) g(2) same_sockets_ok [OF g(2)] by (auto simp: same_sockets_def api_ok_def hash_find_def)
  obtain st1 where r: "recvfrom env (\<lambda>_. \<lparr>rx_others = id, rx_recv = Inr (relay_packet ty sn sd ss dn dd ds dat)\<rparr>)
      ?fd (int MAX_DATA_SIZE) False True (Some (of_nat SOCKADDR_IPX_SIZE)) r ?g =
      Some ((int (length dat), dat, sockaddr_ipx_bytes \<lparr>sa_family = AF_IPX, sa_netnum = addr32_out sn,
               sa_nodenum = addr48_out sd, sa_socket = ss\<rparr>, st1), Some (of_nat SOCKADDR_IPX_SIZE))"
    "wstate.more st1 = wstate.more ?g"
    using recvfrom_relayed [OF g'(1,2) _ _ ext g'(3) q(2,3) dat, of "int MAX_DATA_SIZE" "of_nat SOCKADDR_IPX_SIZE" env ty sn sd ss dn dd ds r]
      deliver_to_bound [OF dlv(1)] dat by auto
  have "d_lock st1 = d_lock st + 1" "d_sp st1 = d_sp st" "d_messages st1 = d_messages st"
    using more_dp [OF r(2)] d by simp_all
  moreover have "addr_ok \<lparr>sa_family = AF_IPX, sa_netnum = addr32_out sn, sa_nodenum = addr48_out sd, sa_socket = ss\<rparr>"
    by (simp add: addr_ok_def)
  ultimately show ?thesis
    using g(1,3) r(1) open_sock d sockaddr_ipx_roundtrip
    by (intro exI [of _ g] exI [of _ "relay_packet ty sn sd ss dn dd ds dat"]
        exI [of _ "(release_sp_data st1)\<lparr>d_messages := d_messages st1 @
          [(dat, \<lparr>sa_family = AF_IPX, sa_netnum = addr32_out sn, sa_nodenum = addr48_out sd, sa_socket = ss\<rparr>)]\<rparr>"])
      (simp add: dp_recv_packet_def get_sp_data_def sock_of_def)
qed

subsection \<open>What is not given back\<close>

lemma closesocket_find:
  assumes "closesocket fd r st = Some (v, st')" and "fd' \<noteq> fd"
  shows "hash_find (g_sockets st') fd' = hash_find (g_sockets st) fd'"
proof -
  obtain v1 st1 where r: "sys_result r st = (v1, st1)" by fastforce
  then have "g_sockets st1 = g_sockets st" by (auto simp: sys_result_def split: sum.splits)
  with assms r show ?thesis
    by (auto simp: closesocket_def get_socket_cases release_queue_at_def CloseHandle_def uthash.find_del Let_def
        split: option.splits if_splits)
qed

lemma close_sockets_main:
  assumes c: "close_sockets sys st = Some st'" and s: "sp_sock (d_sp st) \<noteq> -1"
    and d: "handle_of (sp_sock (d_sp st)) \<noteq> handle_of (sp_ns_sock (d_sp st))" and ok: "api_ok st"
  shows "sp_sock (d_sp st') = sp_sock (d_sp st) \<and> sp_ns_sock (d_sp st') = -1 \<and>
    hash_find (g_sockets st') (handle_of (sp_sock (d_sp st))) = hash_find (g_sockets st) (handle_of (sp_sock (d_sp st)))"
proof (cases "sp_ns_sock (d_sp st) = -1")
  case True
  with c s show ?thesis by (auto simp: close_sockets_def)
next
  case False
  then obtain v st1 where cl: "closesocket (handle_of (sp_ns_sock (d_sp st))) (dp_close sys) st = Some (v, st1)"
    using c by (auto simp: close_sockets_def Option.bind_eq_Some_conv split: if_splits)
  have "d_sp st1 = d_sp st" by (rule keeps_dp(3) [OF closesocket_keeps [OF ok cl]])
  with c s False cl closesocket_find [OF cl d] show ?thesis by (auto simp: close_sockets_def)
qed

text \<open>
  Closing a session or shutting the provider down closes the discovery socket but never the main
  one: the socket stays in the table, with its number reserved and its queue allocated.
\<close>

theorem main_socket_never_closed:
  assumes "api_ok st" and s: "sp_sock (d_sp st) \<noteq> -1"
    and d: "handle_of (sp_sock (d_sp st)) \<noteq> handle_of (sp_ns_sock (d_sp st))"
    and c: "IPX_CloseEx sys st = Some (v, st') \<or> IPX_ShutdownEx sys id st = Some (v, st')"
  shows "sp_sock (d_sp st') = sp_sock (d_sp st) \<and> sp_ns_sock (d_sp st') = -1 \<and>
    hash_find (g_sockets st') (handle_of (sp_sock (d_sp st))) = hash_find (g_sockets st) (handle_of (sp_sock (d_sp st)))"
proof -
  obtain st1 st2 where c1: "close_sockets sys st1 = Some st2" "d_sp st' = d_sp st2" "g_sockets st' = g_sockets st2"
    and "api_ok st1" "g_sockets st1 = g_sockets st" "sp_sock (d_sp st1) = sp_sock (d_sp st)"
      "sp_ns_sock (d_sp st1) = sp_ns_sock (d_sp st)"
    using c
  proof
    assume "IPX_CloseEx sys st = Some (v, st')"
    then show ?thesis
      using that [of "st\<lparr>d_lock := d_lock st + 1\<rparr>"] assms(1)
      by (auto simp: IPX_CloseEx_def Option.bind_eq_Some_conv get_sp_data_def split: if_splits)
  next
    assume "IPX_ShutdownEx sys id st = Some (v, st')"
    then show ?thesis
      using that assms(1)
      by (auto simp: IPX_ShutdownEx_def Option.bind_eq_Some_conv get_sp_data_def Let_def split: if_splits)
  qed
  with close_sockets_main [OF c1(1)] s d show ?thesis by simp
qed

text \<open>
  Two paths end with the lock of the provider held for ever: a reply without the address of a
  sender, and the end of the worker, which leaves its loop between taking the lock and releasing it.
\<close>

theorem provider_lock_kept:
  assumes "dp_get_data sys" and "\<not> sp_running (d_sp st')"
  shows "(\<exists>st1. IPX_Reply env sys ns None msg sz st = Some (DPERR_GENERIC, st1) \<and> d_lock st1 = d_lock st + 1) \<and>
    (\<exists>st1. worker_turn env sys rx r st' = Some (False, st1) \<and> d_lock st1 = d_lock st' + 1)"
proof -
  have "d_lock (update_name_server sys ns (st\<lparr>d_lock := d_lock st + 1\<rparr>)) = d_lock st + 1"
    by (simp add: update_name_server_def split: sum.splits option.splits)
  with assms show ?thesis by (simp add: IPX_Reply_def worker_turn_def get_sp_data_def Let_def)
qed

subsection \<open>An example\<close>

text \<open>A provider whose main socket is descriptor 8.\<close>

definition sample_sp :: "int \<Rightarrow> sp_data" where
  "sample_sp fd =
     \<lparr>sp_sock = fd, sp_ns_sock = -1, sp_ns_addr = sk_addr sample_socket, sp_ns_id = 0, sp_running = True,
      sp_worker_thread = True, sp_event = False\<rparr>"

definition sample_dp :: "(unit, nat) wstate \<Rightarrow> int \<Rightarrow> (unit, nat) dpstate" where
  "sample_dp w fd = wstate.extend w \<lparr>d_sp = sample_sp fd, d_lock = 0, d_players = (\<lambda>_. None), d_messages = []\<rparr>"

definition sample_dp_sys :: "(unit, nat) dp_sys" where
  "sample_dp_sys =
     \<lparr>dp_get_data = True, dp_thread = True, dp_socket = sample_socket_sys\<lparr>ss_socket := Inl WSAENETDOWN\<rparr>,
      dp_bind = sample_bsys, dp_select = Inr (), dp_close = Inr 0, dp_setopt = Inr 0, dp_name = (-1, None, 0),
      dp_tx = \<lparr>tx_malloc = True, tx_cd_mem = True, tx_junk = 0, tx_uticks = 0\<rparr>, dp_ticks = (0, 0), dp_sendto = Inr 0,
      dp_others = id, dp_player_err = (\<lambda>_. DP_OK), dp_set_player_err = DP_OK\<rparr>"

lemma sample_dp_sel [simp]:
  "d_sp (sample_dp w fd) = sample_sp fd" "d_lock (sample_dp w fd) = 0" "d_players (sample_dp w fd) = (\<lambda>_. None)"
  "d_messages (sample_dp w fd) = []" "g_sockets (sample_dp w fd) = g_sockets w" "w_queues (sample_dp w fd) = w_queues w"
  "w_lock (sample_dp w fd) = w_lock w" "w_mutexes (sample_dp w fd) = w_mutexes w" "w_next_handle (sample_dp w fd) = w_next_handle w"
  by (cases w; simp add: sample_dp_def wstate.extend_def)+

lemma sample_dp_ok: "api_ok (sample_dp w fd) = api_ok w"
  by (simp add: api_ok_def)

lemma sample_dp_find: "hash_find (g_sockets (sample_dp (sample_w e) fd)) 8 = Some sample_socket"
  by (simp add: hash_find_def)

lemma sample_sp_sel [simp]:
  "sp_sock (sample_sp fd) = fd" "sp_ns_sock (sample_sp fd) = -1" "sp_running (sample_sp fd)" "sp_worker_thread (sample_sp fd)"
  by (simp_all add: sample_sp_def)

lemma sample_SPInit:
  "\<exists>st. SPInit True \<lparr>si_cs = True, si_event = True, si_set_data = DP_OK\<rparr> (sample_sp 3) 0 s = (DP_OK, st) \<and>
     sp_ns_sock (d_sp st) = -1 \<and> sp_sock (d_sp st) = -1 \<and> g_sockets st = g_sockets s"
  by (simp add: SPInit_def)

lemma close_empty:
  assumes "dp_get_data sys" and "sp_ns_sock (d_sp st) = -1" and "sp_sock (d_sp st) = -1" and "g_sockets st = []"
  shows "\<exists>st'. IPX_CloseEx sys st = Some (DP_OK, st')"
  using assms by (simp add: IPX_CloseEx_def get_sp_data_def close_sockets_def closesocket_def get_socket_cases hash_find_def
      sys_result_def Let_def)


lemma sample_create:
  "\<exists>st1. IPX_CreatePlayer sample_genv sample_dp_sys 4 CREATEPLAYER_SELF (sample_dp (sample_w e) 8) = Some (DP_OK, st1)"
proof -
  let ?st = "(sample_dp (sample_w e) 8)\<lparr>d_lock := 1\<rparr>"
  have "sp_getsockname sample_dp_sys ?st = (Some (sk_addr sample_socket), ?st)"
    by (rule sp_getsockname_bound)
      (use sample_w_ok sample_socket_sel sample_dp_find in \<open>simp_all add: handle_of_def sample_dp_ok\<close>)
  then show ?thesis
    by (simp add: IPX_CreatePlayer_def set_player_address_def get_sp_data_def sample_dp_sys_def
        CREATEPLAYER_SELF_def CREATEPLAYER_NS_def flag_set_def Let_def)
qed

theorem player_message_addressed_witness:
  "\<exists>st1. IPX_CreatePlayer sample_genv sample_dp_sys 4 CREATEPLAYER_SELF (sample_dp (sample_w ENCAP_TYPE_IPXWRAPPER) 8) = Some (DP_OK, st1) \<and>
    IPX_Send sample_genv sample_dp_sys 4 (replicate 20 0 @ [7, 8]) 22 st1 =
    map_option (\<lambda>(v, _, st'). (if v = -1 then DPERR_GENERIC else DP_OK, release_sp_data st'))
      (sendto sample_genv (dp_tx sample_dp_sys) (dp_bind sample_dp_sys) (dp_ticks sample_dp_sys) (dp_others sample_dp_sys) 8
         [7, 8] 2 (Some (sockaddr_ipx.extend (sk_addr sample_socket) \<lparr>sa_ptype = 0, sa_flags = 0\<rparr>))
         (of_nat SOCKADDR_IPX_SIZE) (dp_sendto sample_dp_sys) (st1\<lparr>d_lock := d_lock st1 + 1\<rparr>))"
proof -
  obtain st1 where c: "IPX_CreatePlayer sample_genv sample_dp_sys 4 CREATEPLAYER_SELF (sample_dp (sample_w ENCAP_TYPE_IPXWRAPPER) 8) =
      Some (DP_OK, st1)" using sample_create by blast
  have sz: "sint ((22 :: u32) - of_nat API_HEADER_SIZE) = 2" by (simp add: API_HEADER_SIZE_def)
  have "IPX_Send sample_genv sample_dp_sys 4 (replicate 20 0 @ [7, 8]) 22 st1 =
    map_option (\<lambda>(v, _, st'). (if v = -1 then DPERR_GENERIC else DP_OK, release_sp_data st'))
      (sendto sample_genv (dp_tx sample_dp_sys) (dp_bind sample_dp_sys) (dp_ticks sample_dp_sys) (dp_others sample_dp_sys)
         (handle_of (sp_sock (d_sp (sample_dp (sample_w ENCAP_TYPE_IPXWRAPPER) 8))))
         (drop API_HEADER_SIZE (replicate 20 0 @ [7, 8])) (sint ((22 :: u32) - of_nat API_HEADER_SIZE))
         (Some (sockaddr_ipx.extend (sk_addr sample_socket) \<lparr>sa_ptype = 0, sa_flags = 0\<rparr>))
         (of_nat SOCKADDR_IPX_SIZE) (dp_sendto sample_dp_sys) (st1\<lparr>d_lock := d_lock st1 + 1\<rparr>))"
    by (rule player_message_addressed [OF _ _ _ c])
      (use sample_w_ok sample_socket_sel sample_dp_find in \<open>simp_all add: handle_of_def sample_dp_ok sample_dp_sys_def\<close>)
  with c show ?thesis unfolding sz by (simp add: handle_of_def API_HEADER_SIZE_def)
qed

theorem provider_receives_witness:
  "\<exists>g pkt st'. deliver_packet sample_genv 4 9 0x050000000002 (htons 0x4000) (addr32_in [0, 0, 0, 1])
      (addr48_in [2, 0, 0, 0, 0, 7]) (htons 0x5000) (Some [1, 2, 3]) (sample_dp (sample_w ENCAP_TYPE_IPXWRAPPER) 8) = Some g \<and>
    dp_recv_packet sample_genv sample_dp_sys (\<lambda>_. \<lparr>rx_others = id, rx_recv = Inr pkt\<rparr>) (Inl 0) MainSock g = Some st' \<and>
    d_messages st' = [([1, 2, 3], \<lparr>sa_family = AF_IPX, sa_netnum = addr32_out 9, sa_nodenum = addr48_out 0x050000000002,
       sa_socket = htons 0x4000\<rparr>)]"
  using provider_receives [where st = "sample_dp (sample_w ENCAP_TYPE_IPXWRAPPER) 8" and sys = sample_dp_sys and sock = sample_socket
      and env = sample_genv and ty = "4" and sn = "9" and sd = "0x050000000002" and ss = "htons 0x4000"
      and dn = "addr32_in [0, 0, 0, 1]" and dd = "addr48_in [2, 0, 0, 0, 0, 7]" and ds = "htons 0x5000"
      and q = sample_rq and dat = "[1, 2, 3]" and r = "Inl 0"]
    sample_w_ok sample_deliver_to sample_rq_ok sample_socket_sel
  by (auto simp: sample_genv_def sample_dp_sys_def handle_of_def sample_dp_ok MAX_DATA_SIZE_def)

theorem main_socket_never_closed_witness:
  "\<exists>st'. IPX_CloseEx sample_dp_sys (sample_dp (sample_w ENCAP_TYPE_IPXWRAPPER) 8) = Some (DP_OK, st') \<and>
     sp_sock (d_sp st') = 8 \<and> hash_find (g_sockets st') 8 = Some sample_socket"
proof -
  let ?st = "sample_dp (sample_w ENCAP_TYPE_IPXWRAPPER) 8"
  obtain st' where c: "IPX_CloseEx sample_dp_sys ?st = Some (DP_OK, st')"
    by (simp add: IPX_CloseEx_def get_sp_data_def sample_dp_sys_def close_sockets_def)
  from main_socket_never_closed [of ?st sample_dp_sys DP_OK st'] c sample_w_ok sample_dp_find show ?thesis
    by (simp add: handle_of_def sample_dp_ok)
qed

theorem provider_lock_kept_witness:
  "\<exists>st1 st2. IPX_Reply sample_genv sample_dp_sys 0 None [] 20 (sample_dp (sample_w ENCAP_TYPE_IPXWRAPPER) 8) = Some (DPERR_GENERIC, st1) \<and>
     d_lock st1 = 1 \<and>
     worker_turn sample_genv sample_dp_sys (\<lambda>_ _. \<lparr>rx_others = id, rx_recv = Inl 0\<rparr>) (\<lambda>_. Inl 0)
       ((sample_dp (sample_w ENCAP_TYPE_IPXWRAPPER) 8)\<lparr>d_sp := (sample_sp 8)\<lparr>sp_running := False\<rparr>\<rparr>) = Some (False, st2) \<and> d_lock st2 = 1"
proof -
  let ?st = "sample_dp (sample_w ENCAP_TYPE_IPXWRAPPER) 8"
  have "dp_get_data sample_dp_sys" by (simp add: sample_dp_sys_def)
  from provider_lock_kept [OF this, of "?st\<lparr>d_sp := (sample_sp 8)\<lparr>sp_running := False\<rparr>\<rparr>" sample_genv 0 "[]" 20 ?st
      "\<lambda>_ _. \<lparr>rx_others = id, rx_recv = Inl 0\<rparr>" "\<lambda>_. Inl 0"]
  show ?thesis by auto
qed

end
