(* ===== verification/Protocols.thy ===== *)
theory Protocols
  imports SocketTable "HOL-Library.Monad_Syntax" "HOL-Library.Multiset"
begin

text \<open>
  \<open>EnumProtocols\<close> (winsock.c): the protocols of the system without its IPX ones, and the wrapper's
  own IPX, SPX and SPX II entries. The caller's buffer holds the structures at its start and names
  behind them. The structures are a list here, their part of the bytes is not tracked; a name is at
  an offset in the buffer, at an offset in the block the function allocates, or elsewhere. \<open>None\<close> is
  an access outside the buffer.
\<close>

definition ERROR_INSUFFICIENT_BUFFER :: u32 where "ERROR_INSUFFICIENT_BUFFER = 122"

definition XP_CONNECTIONLESS :: u32 where "XP_CONNECTIONLESS = 0x1"
definition XP_GUARANTEED_DELIVERY :: u32 where "XP_GUARANTEED_DELIVERY = 0x2"
definition XP_GUARANTEED_ORDER :: u32 where "XP_GUARANTEED_ORDER = 0x4"
definition XP_MESSAGE_ORIENTED :: u32 where "XP_MESSAGE_ORIENTED = 0x8"
definition XP_PSEUDO_STREAM :: u32 where "XP_PSEUDO_STREAM = 0x10"
definition XP_SUPPORTS_BROADCAST :: u32 where "XP_SUPPORTS_BROADCAST = 0x80"
definition XP_SUPPORTS_MULTICAST :: u32 where "XP_SUPPORTS_MULTICAST = 0x100"
definition XP_FRAGMENTATION :: u32 where "XP_FRAGMENTATION = 0x1000"

datatype name_ptr = BufPtr nat | NamePtr nat | OtherPtr nat

record protocol_info =
  pi_service_flags :: u32
  pi_family :: int
  pi_max_sockaddr :: int
  pi_min_sockaddr :: int
  pi_socket_type :: int
  pi_protocol :: int
  pi_message_size :: u32
  pi_lpProtocol :: name_ptr

definition PROTOCOL_INFO_SIZE :: nat where "PROTOCOL_INFO_SIZE = 32"

text \<open>
  What \<open>r_EnumProtocols\<close> does: its result and error, the size it reports, the structures and the
  buffer it leaves; and whether memory can be had.
\<close>

record enum_sys =
  es_rval :: int
  es_error :: u32
  es_bufsize :: u32
  es_protocols :: "protocol_info list"
  es_buf :: bytes
  es_malloc :: bool

text \<open>A string with its terminator, of bytes or of 16-bit characters; \<open>None\<close> when there is none.\<close>

fun cstring :: "bool \<Rightarrow> bytes \<Rightarrow> bytes option" where
  "cstring False (a # s) = (if a = 0 then Some [a] else map_option ((#) a) (cstring False s))"
| "cstring True (a # b # s) =
     (if a = 0 \<and> b = 0 then Some [a, b] else map_option (\<lambda>t. a # b # t) (cstring True s))"
| "cstring _ _ = None"

definition strsize :: "bool \<Rightarrow> bytes \<Rightarrow> nat option" where
  "strsize unicode s = map_option length (cstring unicode s)"

definition wide :: "bool \<Rightarrow> string \<Rightarrow> bytes" where
  "wide unicode s =
     concat (map (\<lambda>c. if unicode then [of_nat (of_char c), 0] else [of_nat (of_char c)]) (s @ [CHR 0x00]))"

definition put_bytes :: "nat \<Rightarrow> bytes \<Rightarrow> bytes \<Rightarrow> bytes option" where
  "put_bytes off s buf =
     (if off + length s \<le> length buf then Some (take off buf @ s @ drop (off + length s) buf) else None)"

subsection \<open>The steps\<close>

definition wanted :: "int list option \<Rightarrow> int \<Rightarrow> bool" where
  "wanted protocols p = (case protocols of None \<Rightarrow> True | Some ps \<Rightarrow> p \<in> set ps)"

definition entry_size :: "bool \<Rightarrow> string \<Rightarrow> u32" where
  "entry_size unicode name = of_nat (PROTOCOL_INFO_SIZE + (length name + 1) * (if unicode then 2 else 1))"

function remove_ipx :: "nat \<Rightarrow> protocol_info list \<Rightarrow> protocol_info list" where
  "remove_ipx i pinfo =
     (if i < length pinfo then
        if pi_family (pinfo ! i) = uint AF_IPX then remove_ipx i (butlast (pinfo[i := last pinfo]))
        else remove_ipx (i + 1) pinfo
      else pinfo)"
  by auto
termination
  by (relation "measure (\<lambda>(i, pinfo). length pinfo - i)") auto

declare remove_ipx.simps [simp del]

text \<open>Names in the buffer move to the allocated block.\<close>

fun move_names :: "bool \<Rightarrow> nat \<Rightarrow> bytes \<Rightarrow> protocol_info list \<Rightarrow> bytes \<Rightarrow> (protocol_info list \<times> bytes) option" where
  "move_names unicode bufsize buf [] name_buf = Some ([], name_buf)"
| "move_names unicode bufsize buf (p # ps) name_buf =
     (case pi_lpProtocol p of
        BufPtr off \<Rightarrow>
          if off < bufsize then
            case cstring unicode (drop off buf) of
              None \<Rightarrow> None
            | Some s \<Rightarrow>
                map_option (\<lambda>(ps, nb). (p\<lparr>pi_lpProtocol := NamePtr (length name_buf)\<rparr> # ps, nb))
                  (move_names unicode bufsize buf ps (name_buf @ s))
          else map_option (\<lambda>(ps, nb). (p # ps, nb)) (move_names unicode bufsize buf ps name_buf)
      | _ \<Rightarrow> map_option (\<lambda>(ps, nb). (p # ps, nb)) (move_names unicode bufsize buf ps name_buf))"

text \<open>One of the wrapper's entries, with its name: \<open>PUSH_NAME\<close>.\<close>

definition add_entry ::
  "bool \<Rightarrow> bool \<Rightarrow> protocol_info \<Rightarrow> string \<Rightarrow> protocol_info list \<times> nat \<times> bytes \<Rightarrow> (protocol_info list \<times> nat \<times> bytes) option" where
  "add_entry unicode want p name st =
     (case st of (pinfo, name_base, buf) \<Rightarrow>
      if \<not> want then Some st
      else if PROTOCOL_INFO_SIZE * (length pinfo + 1) > length buf then None
      else map_option (\<lambda>buf. (pinfo @ [p\<lparr>pi_lpProtocol := BufPtr name_base\<rparr>], name_base + length (wide unicode name), buf))
             (put_bytes name_base (wide unicode name) buf))"

text \<open>The names that were moved out go behind the new ones.\<close>

fun replace_names :: "bool \<Rightarrow> bytes \<Rightarrow> protocol_info list \<Rightarrow> nat \<Rightarrow> bytes \<Rightarrow> (protocol_info list \<times> bytes) option" where
  "replace_names unicode name_buf [] name_base buf = Some ([], buf)"
| "replace_names unicode name_buf (p # ps) name_base buf =
     (case pi_lpProtocol p of
        NamePtr off \<Rightarrow>
          if off < length name_buf then
            case cstring unicode (drop off name_buf) of
              None \<Rightarrow> None
            | Some s \<Rightarrow>
                (case put_bytes name_base s buf of
                   None \<Rightarrow> None
                 | Some buf \<Rightarrow>
                     map_option (\<lambda>(ps, buf). (p\<lparr>pi_lpProtocol := BufPtr name_base\<rparr> # ps, buf))
                       (replace_names unicode name_buf ps (name_base + length s) buf))
          else map_option (\<lambda>(ps, buf). (p # ps, buf)) (replace_names unicode name_buf ps name_base buf)
      | _ \<Rightarrow> map_option (\<lambda>(ps, buf). (p # ps, buf)) (replace_names unicode name_buf ps name_base buf))"

definition ipx_info :: protocol_info where
  "ipx_info =
     \<lparr>pi_service_flags = XP_CONNECTIONLESS OR XP_MESSAGE_ORIENTED OR XP_SUPPORTS_BROADCAST OR XP_SUPPORTS_MULTICAST OR
        XP_FRAGMENTATION,
      pi_family = uint AF_IPX, pi_max_sockaddr = 16, pi_min_sockaddr = 14, pi_socket_type = SOCK_DGRAM,
      pi_protocol = NSPROTO_IPX, pi_message_size = 576, pi_lpProtocol = OtherPtr 0\<rparr>"

definition spx_info :: "int \<Rightarrow> protocol_info" where
  "spx_info protocol =
     \<lparr>pi_service_flags = XP_GUARANTEED_DELIVERY OR XP_GUARANTEED_ORDER OR XP_PSEUDO_STREAM OR XP_FRAGMENTATION,
      pi_family = uint AF_IPX, pi_max_sockaddr = 16, pi_min_sockaddr = 14, pi_socket_type = SOCK_STREAM,
      pi_protocol = protocol, pi_message_size = 0xFFFFFFFF, pi_lpProtocol = OtherPtr 0\<rparr>"

subsection \<open>The function\<close>

text \<open>
  The result, the size reported to the caller, the last error, and the protocols and the buffer when
  they were filled in.
\<close>

definition append_protocols ::
  "int list option \<Rightarrow> bool \<Rightarrow> bytes \<Rightarrow> bytes \<Rightarrow> protocol_info list \<Rightarrow> (protocol_info list \<times> bytes) option" where
  "append_protocols protocols unicode buf name_buf pinfo =
     (let name_base = PROTOCOL_INFO_SIZE *
            (length pinfo + length (filter (wanted protocols) [NSPROTO_IPX, NSPROTO_SPX, NSPROTO_SPXII]))
      in do {
           st \<leftarrow> add_entry unicode (wanted protocols NSPROTO_IPX) ipx_info ''IPX'' (pinfo, name_base, buf);
           st \<leftarrow> add_entry unicode (wanted protocols NSPROTO_SPX) (spx_info NSPROTO_SPX) ''SPX'' st;
           (pinfo, name_base, buf) \<leftarrow> add_entry unicode (wanted protocols NSPROTO_SPXII) (spx_info NSPROTO_SPXII) ''SPX II'' st;
           replace_names unicode name_buf pinfo name_base buf
         })"

definition do_EnumProtocols ::
  "int list option \<Rightarrow> u32 \<Rightarrow> enum_sys \<Rightarrow> bool \<Rightarrow> (int \<times> u32 \<times> u32 \<times> (protocol_info list \<times> bytes) option) option" where
  "do_EnumProtocols protocols bufsize sys unicode =
     (if es_rval sys = -1 \<and> es_error sys \<noteq> ERROR_INSUFFICIENT_BUFFER then Some (-1, es_bufsize sys, es_error sys, None)
      else
        let size = es_bufsize sys
              + (if wanted protocols NSPROTO_IPX then entry_size unicode ''IPX'' else 0)
              + (if wanted protocols NSPROTO_SPX then entry_size unicode ''SPX'' else 0)
              + (if wanted protocols NSPROTO_SPXII then entry_size unicode ''SPX II'' else 0)
        in if size > bufsize then Some (-1, size, ERROR_INSUFFICIENT_BUFFER, None)
           else if es_rval sys = -1 then Some (-1, size, es_error sys, None)
           else do {
             (pinfo, name_buf) \<leftarrow> move_names unicode (unat bufsize) (es_buf sys) (remove_ipx 0 (es_protocols sys)) [];
             if \<not> es_malloc sys then Some (-1, size, ERROR_OUTOFMEMORY, None)
             else do {
               (pinfo, buf) \<leftarrow> append_protocols protocols unicode (es_buf sys) name_buf pinfo;
               Some (int (length pinfo), size, es_error sys, Some (pinfo, buf))
             }
           })"

definition EnumProtocolsA where "EnumProtocolsA protocols bufsize sys = do_EnumProtocols protocols bufsize sys False"
definition EnumProtocolsW where "EnumProtocolsW protocols bufsize sys = do_EnumProtocols protocols bufsize sys True"
definition WSHEnumProtocols where "WSHEnumProtocols protocols bufsize sys = do_EnumProtocols protocols bufsize sys False"

subsection \<open>Names\<close>

lemma cstring_prefix: "cstring u s = Some t \<Longrightarrow> cstring u (t @ r) = Some t \<and> (\<exists>r'. s = t @ r')"
  by (induction u s arbitrary: t rule: cstring.induct) (auto split: if_splits)

lemma cstring_nonempty: "cstring u s = Some t \<Longrightarrow> t \<noteq> []"
  by (induction u s arbitrary: t rule: cstring.induct) (auto split: if_splits)

lemma cstring_wide:
  assumes "CHR 0x00 \<notin> set s"
  shows "cstring u (wide u s) = Some (wide u s)"
proof -
  have z: "of_nat (of_char c) \<noteq> (0 :: u8)" if "c \<noteq> CHR 0x00" for c
  proof
    assume "of_nat (of_char c) = (0 :: u8)"
    then have "(of_char c :: nat) = of_char (CHR 0x00)" by (simp add: word_of_nat_eq_0_iff) (metis dvd_imp_mod_0 of_char_mod_256)
    then show False using that by (simp only: of_char_eq_iff)
  qed
  show ?thesis using assms by (cases u; induction s) (auto simp: wide_def z)
qed

lemma put_bytes_Some:
  assumes "put_bytes off s buf = Some buf'"
  shows "length buf' = length buf" and "take off buf' = take off buf" and "drop off buf' = s @ drop (off + length s) buf"
  using assms by (auto simp: put_bytes_def min_def split: if_splits)

text \<open>A name below \<open>n\<close> is not changed by what changes nothing below \<open>n\<close>.\<close>

lemma cstring_kept:
  assumes c: "cstring u (drop off buf) = Some s" and n: "off + length s \<le> n" and eq: "take n buf' = take n buf"
  shows "cstring u (drop off buf') = Some s"
proof -
  obtain r where r: "drop off buf = s @ r" using cstring_prefix [OF c] by blast
  have "drop off (take n buf') = drop off (take n buf)" by (simp add: eq)
  also have "\<dots> = s @ take (n - off - length s) r" using n by (simp add: drop_take r)
  finally have "drop off buf' = s @ take (n - off - length s) r @ drop (n - off) (drop off buf')"
    by (metis append_take_drop_id drop_take append_assoc)
  then show ?thesis using cstring_prefix [OF c] by metis
qed

text \<open>What a caller sees of a protocol: its fields, and the text its name points to.\<close>

definition shown :: "bool \<Rightarrow> bytes \<Rightarrow> bytes \<Rightarrow> protocol_info \<Rightarrow> protocol_info \<times> (bytes option + nat)" where
  "shown unicode buf name_buf p =
     (p\<lparr>pi_lpProtocol := OtherPtr 0\<rparr>,
      case pi_lpProtocol p of
        BufPtr off \<Rightarrow> Inl (cstring unicode (drop off buf))
      | NamePtr off \<Rightarrow> Inl (cstring unicode (drop off name_buf))
      | OtherPtr a \<Rightarrow> Inr a)"

text \<open>The bytes the name of a protocol takes in the buffer, and which names are sound.\<close>

definition name_size :: "bool \<Rightarrow> bytes \<Rightarrow> protocol_info \<Rightarrow> nat" where
  "name_size unicode buf p =
     (case pi_lpProtocol p of BufPtr off \<Rightarrow> (case cstring unicode (drop off buf) of None \<Rightarrow> 0 | Some s \<Rightarrow> length s) | _ \<Rightarrow> 0)"

definition os_name :: "bool \<Rightarrow> bytes \<Rightarrow> protocol_info \<Rightarrow> bool" where
  "os_name unicode buf p =
     (case pi_lpProtocol p of BufPtr off \<Rightarrow> off < length buf \<and> cstring unicode (drop off buf) \<noteq> None
      | NamePtr off \<Rightarrow> False | OtherPtr a \<Rightarrow> True)"

definition moved_name :: "bool \<Rightarrow> bytes \<Rightarrow> protocol_info \<Rightarrow> bool" where
  "moved_name unicode name_buf p =
     (case pi_lpProtocol p of BufPtr off \<Rightarrow> False
      | NamePtr off \<Rightarrow> off < length name_buf \<and> cstring unicode (drop off name_buf) \<noteq> None | OtherPtr a \<Rightarrow> True)"

lemma move_names_shown:
  assumes "list_all (os_name u buf) ps" and "bufsize = length buf"
  shows "\<exists>ps' r. move_names u bufsize buf ps nb = Some (ps', nb @ r) \<and> length r = sum_list (map (name_size u buf) ps) \<and>
    map (shown u buf' (nb @ r)) ps' = map (shown u buf []) ps \<and> list_all (moved_name u (nb @ r)) ps' \<and> length ps' = length ps"
  using assms(1)
proof (induction ps arbitrary: nb)
  case (Cons p ps)
  show ?case
  proof (cases "pi_lpProtocol p")
    case (BufPtr off)
    then obtain s where s: "cstring u (drop off buf) = Some s" "off < bufsize"
      using Cons.prems assms(2) by (auto simp: os_name_def)
    obtain ps' r where IH: "move_names u bufsize buf ps (nb @ s) = Some (ps', (nb @ s) @ r)"
        "length r = sum_list (map (name_size u buf) ps)" "map (shown u buf' ((nb @ s) @ r)) ps' = map (shown u buf []) ps"
        "list_all (moved_name u ((nb @ s) @ r)) ps'" "length ps' = length ps"
      using Cons.IH [of "nb @ s"] Cons.prems by auto
    have c: "cstring u (s @ r) = Some s" using cstring_prefix [OF s(1)] by blast
    have "s \<noteq> []" using cstring_nonempty [OF s(1)] .
    moreover have "shown u buf' (nb @ s @ r) (p\<lparr>pi_lpProtocol := NamePtr (length nb)\<rparr>) = shown u buf [] p"
      "name_size u buf p = length s"
      using BufPtr s c by (simp_all add: shown_def name_size_def)
    moreover have "moved_name u (nb @ s @ r) (p\<lparr>pi_lpProtocol := NamePtr (length nb)\<rparr>)"
      using \<open>s \<noteq> []\<close> c by (simp add: moved_name_def)
    ultimately show ?thesis
      using BufPtr s IH by (intro exI [of _ "p\<lparr>pi_lpProtocol := NamePtr (length nb)\<rparr> # ps'"] exI [of _ "s @ r"]) simp
  next
    case (OtherPtr a)
    obtain ps' r where IH: "move_names u bufsize buf ps nb = Some (ps', nb @ r)"
        "length r = sum_list (map (name_size u buf) ps)" "map (shown u buf' (nb @ r)) ps' = map (shown u buf []) ps"
        "list_all (moved_name u (nb @ r)) ps'" "length ps' = length ps"
      using Cons.IH [of nb] Cons.prems by auto
    moreover have "shown u buf' (nb @ r) p = shown u buf [] p" "name_size u buf p = 0" "moved_name u (nb @ r) p"
      using OtherPtr by (simp_all add: shown_def moved_name_def name_size_def)
    ultimately show ?thesis using OtherPtr by (intro exI [of _ "p # ps'"] exI [of _ r]) simp
  qed (use Cons.prems in \<open>simp add: os_name_def\<close>)
qed simp

text \<open>Names that have their final place lie between the structures and the next free byte.\<close>

definition placed :: "bool \<Rightarrow> bytes \<Rightarrow> nat \<Rightarrow> nat \<Rightarrow> protocol_info \<Rightarrow> bool" where
  "placed unicode buf lo hi p =
     (case pi_lpProtocol p of BufPtr off \<Rightarrow> lo \<le> off \<and> (\<exists>s. cstring unicode (drop off buf) = Some s \<and> off + length s \<le> hi)
      | NamePtr off \<Rightarrow> False | OtherPtr a \<Rightarrow> True)"

lemma placed_kept:
  assumes "placed u buf lo hi p" and "take hi buf' = take hi buf" and "hi \<le> hi'"
  shows "placed u buf' lo hi' p" and "shown u buf' nb p = shown u buf nb p"
  using assms cstring_kept [OF _ _ assms(2)] by (fastforce simp: placed_def shown_def split: name_ptr.splits)+

definition moved_size :: "bool \<Rightarrow> bytes \<Rightarrow> protocol_info \<Rightarrow> nat" where
  "moved_size unicode name_buf p =
     (case pi_lpProtocol p of NamePtr off \<Rightarrow> (case cstring unicode (drop off name_buf) of None \<Rightarrow> 0 | Some s \<Rightarrow> length s) | _ \<Rightarrow> 0)"

lemma take_le_eq: "take n a = take n b \<Longrightarrow> m \<le> n \<Longrightarrow> take m a = take m b"
  by (metis min.absorb1 take_take)

lemma replace_names_shown:
  assumes "list_all (\<lambda>p. placed u buf lo base p \<or> moved_name u nb p) ps" and "lo \<le> base"
    and "base + sum_list (map (moved_size u nb) ps) \<le> length buf"
  shows "\<exists>ps' buf'. replace_names u nb ps base buf = Some (ps', buf') \<and> length buf' = length buf \<and> length ps' = length ps \<and>
    take base buf' = take base buf \<and> map (shown u buf' []) ps' = map (shown u buf nb) ps \<and>
    list_all (placed u buf' lo (length buf)) ps'"
  using assms
proof (induction ps arbitrary: base buf)
  case (Cons p ps)
  show ?case
  proof (cases "pi_lpProtocol p")
    case (NamePtr off)
    then obtain s where s: "cstring u (drop off nb) = Some s" "off < length nb"
      using Cons.prems(1) by (auto simp: moved_name_def placed_def)
    have ms: "moved_size u nb p = length s" using NamePtr s by (simp add: moved_size_def)
    then obtain buf1 where b1: "put_bytes base s buf = Some buf1" using Cons.prems(3) by (simp add: put_bytes_def)
    note b1' = put_bytes_Some [OF b1]
    have "list_all (\<lambda>p. placed u buf1 lo (base + length s) p \<or> moved_name u nb p) ps"
      using Cons.prems(1) placed_kept(1) [OF _ b1'(2)] by (fastforce simp: list_all_iff)
    moreover have "lo \<le> base + length s" "base + length s + sum_list (map (moved_size u nb) ps) \<le> length buf1"
      using Cons.prems(2,3) ms b1'(1) by simp_all
    ultimately obtain ps' buf' where IH: "replace_names u nb ps (base + length s) buf1 = Some (ps', buf')"
        "length buf' = length buf1" "length ps' = length ps" "take (base + length s) buf' = take (base + length s) buf1"
        "map (shown u buf' []) ps' = map (shown u buf1 nb) ps" "list_all (placed u buf' lo (length buf1)) ps'"
      using Cons.IH [of buf1 "base + length s"] by blast
    have "cstring u (drop base buf1) = Some s" using cstring_prefix [OF s(1)] by (simp add: b1'(3))
    from cstring_kept [OF this _ IH(4)] have c: "cstring u (drop base buf') = Some s" by simp
    have same: "take base buf' = take base buf" "map (shown u buf1 nb) ps = map (shown u buf nb) ps"
      using take_le_eq [OF IH(4), of base] b1'(2) Cons.prems(1) placed_kept(2) [OF _ b1'(2) order_refl]
      by (force simp: list_all_iff shown_def moved_name_def split: name_ptr.splits)+
    have "base + length s \<le> length buf" using Cons.prems(3) ms by simp
    then have "placed u buf' lo (length buf) (p\<lparr>pi_lpProtocol := BufPtr base\<rparr>)"
      using c Cons.prems(2) by (simp add: placed_def)
    moreover have "shown u buf' [] (p\<lparr>pi_lpProtocol := BufPtr base\<rparr>) = shown u buf nb p"
      using NamePtr s c by (simp add: shown_def)
    ultimately show ?thesis
      using NamePtr s b1 IH b1'(1) same(1,2)
      by (intro exI [of _ "p\<lparr>pi_lpProtocol := BufPtr base\<rparr> # ps'"] exI [of _ buf']) simp
  next
    case (BufPtr off)
    then have pl: "placed u buf lo base p" using Cons.prems(1) by (simp add: moved_name_def)
    obtain ps' buf' where IH: "replace_names u nb ps base buf = Some (ps', buf')" "length buf' = length buf" "length ps' = length ps"
        "take base buf' = take base buf" "map (shown u buf' []) ps' = map (shown u buf nb) ps"
        "list_all (placed u buf' lo (length buf)) ps'"
      using Cons.IH [of buf base] Cons.prems by auto
    have "placed u buf' lo (length buf) p" using placed_kept(1) [OF pl IH(4)] Cons.prems(3) by simp
    moreover have "shown u buf' [] p = shown u buf nb p"
      using placed_kept(2) [OF pl IH(4) order_refl, where nb = "[]"] BufPtr by (simp add: shown_def)
    ultimately show ?thesis using BufPtr IH by simp
  next
    case (OtherPtr a)
    obtain ps' buf' where IH: "replace_names u nb ps base buf = Some (ps', buf')" "length buf' = length buf" "length ps' = length ps"
        "take base buf' = take base buf" "map (shown u buf' []) ps' = map (shown u buf nb) ps"
        "list_all (placed u buf' lo (length buf)) ps'"
      using Cons.IH [of buf base] Cons.prems by auto
    moreover have "placed u buf' lo (length buf) p" "shown u buf' [] p = shown u buf nb p"
      using OtherPtr by (simp_all add: shown_def placed_def)
    ultimately show ?thesis using OtherPtr by simp
  qed
qed simp

text \<open>The size of a name is that of the text shown.\<close>

definition shown_size :: "protocol_info \<times> (bytes option + nat) \<Rightarrow> nat" where
  "shown_size x = (case snd x of Inl (Some s) \<Rightarrow> length s | _ \<Rightarrow> 0)"

lemma moved_size_shown: "moved_name u nb p \<Longrightarrow> moved_size u nb p = shown_size (shown u buf nb p)"
  by (auto simp: moved_name_def moved_size_def shown_size_def shown_def split: name_ptr.splits)

lemma name_size_shown: "name_size u buf p = shown_size (shown u buf [] p)" if "os_name u buf p"
  using that by (auto simp: os_name_def name_size_def shown_size_def shown_def split: name_ptr.splits)

lemma sizes_shown:
  assumes "list_all (moved_name u nb) ps'" "list_all (os_name u buf) ps" "map (shown u buf nb) ps' = map (shown u buf []) ps"
  shows "sum_list (map (moved_size u nb) ps') = sum_list (map (name_size u buf) ps)"
proof -
  have "map (moved_size u nb) ps' = map shown_size (map (shown u buf nb) ps')"
    using assms(1) moved_size_shown by (simp add: list_all_iff)
  also have "\<dots> = map (name_size u buf) ps"
    unfolding assms(3) using assms(2) name_size_shown by (simp add: list_all_iff)
  finally show ?thesis by simp
qed

subsection \<open>The wrapper's own entries\<close>

definition own_entry :: "bool \<Rightarrow> bool \<Rightarrow> protocol_info \<Rightarrow> string \<Rightarrow> (protocol_info \<times> (bytes option + nat)) list" where
  "own_entry unicode want p name = (if want then [(p, Inl (Some (wide unicode name)))] else [])"

definition own_protocols :: "int list option \<Rightarrow> bool \<Rightarrow> (protocol_info \<times> (bytes option + nat)) list" where
  "own_protocols protocols unicode =
     own_entry unicode (wanted protocols NSPROTO_IPX) ipx_info ''IPX'' @
     own_entry unicode (wanted protocols NSPROTO_SPX) (spx_info NSPROTO_SPX) ''SPX'' @
     own_entry unicode (wanted protocols NSPROTO_SPXII) (spx_info NSPROTO_SPXII) ''SPX II''"

definition sound_entry :: "bool \<Rightarrow> bytes \<Rightarrow> nat \<Rightarrow> nat \<Rightarrow> bytes \<Rightarrow> protocol_info \<Rightarrow> bool" where
  "sound_entry u buf lo hi nb p \<longleftrightarrow> placed u buf lo hi p \<or> moved_name u nb p"

lemma sound_entry_kept:
  assumes "sound_entry u buf lo hi nb p" and "take hi buf' = take hi buf" and "hi \<le> hi'"
  shows "sound_entry u buf' lo hi' nb p" and "shown u buf' nb p = shown u buf nb p"
  using assms placed_kept(1) [of u buf lo hi p buf' hi'] placed_kept(2) [of u buf lo hi p buf' hi' nb]
  by (auto simp: sound_entry_def moved_name_def shown_def split: name_ptr.splits)

lemma add_entry_shown:
  assumes ps: "list_all (sound_entry u buf lo base nb) ps" and lo: "lo \<le> base" "PROTOCOL_INFO_SIZE * (length ps + (if want then 1 else 0)) \<le> lo"
    and fits: "base + sum_list (map shown_size (own_entry u want p name)) \<le> length buf"
    and p: "pi_lpProtocol p = OtherPtr 0" "CHR 0x00 \<notin> set name"
  shows "\<exists>ps' base' buf'. add_entry u want p name (ps, base, buf) = Some (ps', base', buf') \<and>
    base' = base + sum_list (map shown_size (own_entry u want p name)) \<and> length buf' = length buf \<and>
    map (shown u buf' nb) ps' = map (shown u buf nb) ps @ own_entry u want p name \<and>
    list_all (sound_entry u buf' lo base' nb) ps' \<and>
    sum_list (map (moved_size u nb) ps') = sum_list (map (moved_size u nb) ps)"
proof (cases want)
  case False
  with ps show ?thesis by (simp add: add_entry_def own_entry_def)
next
  case True
  let ?s = "wide u name"
  have sz: "shown_size (p, Inl (Some ?s)) = length ?s" by (simp add: shown_size_def)
  obtain buf1 where b1: "put_bytes base ?s buf = Some buf1" using fits True by (simp add: put_bytes_def own_entry_def sz)
  note b1' = put_bytes_Some [OF b1]
  let ?p = "p\<lparr>pi_lpProtocol := BufPtr base\<rparr>"
  have "cstring u (drop base buf1) = Some ?s" using cstring_prefix [OF cstring_wide [OF p(2)]] by (simp add: b1'(3))
  then have new: "sound_entry u buf1 lo (base + length ?s) nb ?p" "shown u buf1 nb ?p = (p, Inl (Some ?s))"
    using lo(1) p(1) by (simp_all add: sound_entry_def placed_def shown_def)
  have "list_all (sound_entry u buf1 lo (base + length ?s) nb) ps" "map (shown u buf1 nb) ps = map (shown u buf nb) ps"
    using ps sound_entry_kept(1) [OF _ b1'(2)] sound_entry_kept(2) [OF _ b1'(2) order_refl] by (auto simp: list_all_iff)
  moreover have "moved_size u nb ?p = 0" by (simp add: moved_size_def)
  moreover have "\<not> PROTOCOL_INFO_SIZE * (length ps + 1) > length buf" using lo fits True by simp
  ultimately show ?thesis
    using True b1 b1'(1) new by (simp add: add_entry_def own_entry_def sz)
qed

lemma append_protocols_shown:
  assumes ps: "list_all (moved_name u nb) ps"
    and fits: "PROTOCOL_INFO_SIZE * (length ps + length (own_protocols protocols u)) +
      sum_list (map shown_size (own_protocols protocols u)) + sum_list (map (moved_size u nb) ps) \<le> length buf"
  shows "\<exists>ps' buf'. append_protocols protocols u buf nb ps = Some (ps', buf') \<and> length buf' = length buf \<and>
    map (shown u buf' []) ps' = map (shown u buf nb) ps @ own_protocols protocols u \<and>
    list_all (placed u buf' (PROTOCOL_INFO_SIZE * length ps') (length buf)) ps'"
proof -
  let ?lo = "PROTOCOL_INFO_SIZE * (length ps + length (own_protocols protocols u))"
  let ?o1 = "own_entry u (wanted protocols NSPROTO_IPX) ipx_info ''IPX''"
  let ?o2 = "own_entry u (wanted protocols NSPROTO_SPX) (spx_info NSPROTO_SPX) ''SPX''"
  let ?o3 = "own_entry u (wanted protocols NSPROTO_SPXII) (spx_info NSPROTO_SPXII) ''SPX II''"
  have own: "own_protocols protocols u = ?o1 @ ?o2 @ ?o3" by (simp add: own_protocols_def)
  have len: "length (own_entry u w q n) = (if w then 1 else 0)" for w q n by (simp add: own_entry_def)
  have n: "length (filter (wanted protocols) [NSPROTO_IPX, NSPROTO_SPX, NSPROTO_SPXII]) = length (own_protocols protocols u)"
    by (simp add: own len)
  obtain ps1 b1 buf1 where s1: "add_entry u (wanted protocols NSPROTO_IPX) ipx_info ''IPX'' (ps, ?lo, buf) = Some (ps1, b1, buf1)"
      "b1 = ?lo + sum_list (map shown_size ?o1)" "length buf1 = length buf"
      "map (shown u buf1 nb) ps1 = map (shown u buf nb) ps @ ?o1" "list_all (sound_entry u buf1 ?lo b1 nb) ps1"
      "sum_list (map (moved_size u nb) ps1) = sum_list (map (moved_size u nb) ps)"
    using add_entry_shown [of u buf ?lo ?lo nb ps "wanted protocols NSPROTO_IPX" ipx_info "''IPX''"] ps fits
    by (auto simp: own len sound_entry_def list_all_iff ipx_info_def)
  have l1: "length ps1 = length ps + length ?o1" using arg_cong [OF s1(4), of length] by simp
  obtain ps2 b2 buf2 where s2: "add_entry u (wanted protocols NSPROTO_SPX) (spx_info NSPROTO_SPX) ''SPX'' (ps1, b1, buf1) = Some (ps2, b2, buf2)"
      "b2 = b1 + sum_list (map shown_size ?o2)" "length buf2 = length buf1"
      "map (shown u buf2 nb) ps2 = map (shown u buf1 nb) ps1 @ ?o2" "list_all (sound_entry u buf2 ?lo b2 nb) ps2"
      "sum_list (map (moved_size u nb) ps2) = sum_list (map (moved_size u nb) ps1)"
    using add_entry_shown [OF s1(5), of "wanted protocols NSPROTO_SPX" "spx_info NSPROTO_SPX" "''SPX''"] fits s1(2,3) l1
    by (auto simp: own len spx_info_def)
  have l2: "length ps2 = length ps1 + length ?o2" using arg_cong [OF s2(4), of length] by simp
  obtain ps3 b3 buf3 where s3: "add_entry u (wanted protocols NSPROTO_SPXII) (spx_info NSPROTO_SPXII) ''SPX II'' (ps2, b2, buf2) = Some (ps3, b3, buf3)"
      "b3 = b2 + sum_list (map shown_size ?o3)" "length buf3 = length buf2"
      "map (shown u buf3 nb) ps3 = map (shown u buf2 nb) ps2 @ ?o3" "list_all (sound_entry u buf3 ?lo b3 nb) ps3"
      "sum_list (map (moved_size u nb) ps3) = sum_list (map (moved_size u nb) ps2)"
    using add_entry_shown [OF s2(5), of "wanted protocols NSPROTO_SPXII" "spx_info NSPROTO_SPXII" "''SPX II''"] fits s1(2,3) s2(2,3) l1 l2
    by (auto simp: own len spx_info_def)
  have l3: "length ps3 = length ps + length (own_protocols protocols u)"
    using arg_cong [OF s3(4), of length] l1 l2 by (simp add: own)
  obtain ps' buf' where r: "replace_names u nb ps3 b3 buf3 = Some (ps', buf')" "length buf' = length buf3" "length ps' = length ps3"
      "map (shown u buf' []) ps' = map (shown u buf3 nb) ps3" "list_all (placed u buf' ?lo (length buf3)) ps'"
    using replace_names_shown [of u buf3 ?lo b3 nb ps3] s3(5) fits s1(2,3,6) s2(2,3,6) s3(2,3,6)
    by (auto simp: own sound_entry_def [abs_def])
  have "append_protocols protocols u buf nb ps = Some (ps', buf')"
    using s1(1) s2(1) s3(1) r(1) by (simp add: append_protocols_def n Let_def del: filter.simps)
  then show ?thesis using s1(3,4) s2(3,4) s3(3,4) r(2-5) l3 by (simp add: own)
qed

subsection \<open>The protocols a caller gets\<close>

definition not_ipx :: "protocol_info \<Rightarrow> bool" where
  "not_ipx p \<longleftrightarrow> pi_family p \<noteq> uint AF_IPX"

lemma mset_remove_ipx:
  assumes "list_all not_ipx (take i ps)"
  shows "mset (remove_ipx i ps) = filter_mset not_ipx (mset ps)"
  using assms
proof (induction i ps rule: remove_ipx.induct)
  case (1 i ps)
  show ?case
  proof (cases "i < length ps")
    case False
    with 1(3) show ?thesis
      by (subst remove_ipx.simps) (simp add: list_all_iff flip: mset_filter)
  next
    case True
    have d: "ps = take i ps @ ps ! i # drop (Suc i) ps" using id_take_nth_drop [OF True] .
    show ?thesis
    proof (cases "not_ipx (ps ! i)")
      case True
      with 1(2) 1(3) \<open>i < length ps\<close> show ?thesis
        by (subst remove_ipx.simps) (simp add: not_ipx_def [abs_def] take_Suc_conv_app_nth)
    next
      case False
      define qs where "qs = butlast (ps[i := last ps])"
      have q: "mset qs + {#ps ! i#} = mset ps" "take i qs = take i ps"
      proof -
        obtain xs y where y: "ps = xs @ [y]" using True by (cases ps rule: rev_cases) auto
        show "mset qs + {#ps ! i#} = mset ps"
          using True by (cases "i = length xs") (auto simp: qs_def y list_update_append nth_append mset_update)
        show "take i qs = take i ps"
          using True by (auto simp: qs_def y list_update_append butlast_append)
      qed
      have "mset (remove_ipx i qs) = filter_mset not_ipx (mset qs)"
        using 1(1) 1(3) True False q(2) by (simp add: qs_def not_ipx_def [abs_def])
      moreover have "remove_ipx i ps = remove_ipx i qs"
        using True False by (subst remove_ipx.simps) (simp add: qs_def not_ipx_def)
      ultimately show ?thesis using False by (simp flip: q(1))
    qed
  qed
qed

lemma own_protocols_bounds:
  "length (own_protocols protocols u) \<le> 3 \<and>
   unat (if wanted protocols NSPROTO_IPX then entry_size u ''IPX'' else 0) +
   unat (if wanted protocols NSPROTO_SPX then entry_size u ''SPX'' else 0) +
   unat (if wanted protocols NSPROTO_SPXII then entry_size u ''SPX II'' else 0) =
     PROTOCOL_INFO_SIZE * length (own_protocols protocols u) + sum_list (map shown_size (own_protocols protocols u)) \<and>
   PROTOCOL_INFO_SIZE * length (own_protocols protocols u) + sum_list (map shown_size (own_protocols protocols u)) \<le> 200"
  by (cases u) (simp_all add: own_protocols_def own_entry_def entry_size_def PROTOCOL_INFO_SIZE_def shown_size_def wide_def)

lemma sum_list_sub:
  fixes f :: "'a \<Rightarrow> nat"
  assumes "mset xs = filter_mset P (mset ys)"
  shows "sum_list (map f xs) \<le> sum_list (map f ys)"
proof -
  have "mset ys = mset xs + filter_mset (\<lambda>y. \<not> P y) (mset ys)" using multiset_partition [of "mset ys" P] assms by simp
  then have "mset (map f ys) = mset (map f xs) + image_mset f (filter_mset (\<lambda>y. \<not> P y) (mset ys))"
    by (metis image_mset_union mset_map)
  then show ?thesis by (metis sum_mset_sum_list sum_mset.union le_add1)
qed

lemma unat_add4:
  fixes a b c d :: u32
  assumes "unat a + (unat b + unat c + unat d) < 2 ^ 32"
  shows "unat (a + b + c + d) = unat a + (unat b + unat c + unat d)"
  using assms by (simp add: unat_word_ariths add.assoc)

lemma enum_protocols_filled:
  assumes os: "es_rval sys = int (length (es_protocols sys))" "es_malloc sys" "length (es_buf sys) = unat bufsize"
    and names: "list_all (os_name u (es_buf sys)) (es_protocols sys)"
    and size: "PROTOCOL_INFO_SIZE * length (es_protocols sys) + sum_list (map (name_size u (es_buf sys)) (es_protocols sys)) \<le>
      unat (es_bufsize sys)"
    and fits: "unat (es_bufsize sys) + PROTOCOL_INFO_SIZE * length (own_protocols protocols u) +
      sum_list (map shown_size (own_protocols protocols u)) \<le> unat bufsize"
  shows "\<exists>ps buf nb. move_names u (unat bufsize) (es_buf sys) (remove_ipx 0 (es_protocols sys)) [] = Some nb \<and>
      append_protocols protocols u (es_buf sys) (snd nb) (fst nb) = Some (ps, buf) \<and> length buf = unat bufsize \<and>
      list_all (placed u buf (PROTOCOL_INFO_SIZE * length ps) (unat bufsize)) ps \<and>
      mset (map (shown u buf []) ps) =
        image_mset (shown u (es_buf sys) []) (filter_mset not_ipx (mset (es_protocols sys))) + mset (own_protocols protocols u)"
proof -
  let ?ps = "remove_ipx 0 (es_protocols sys)"
  have m: "mset ?ps = filter_mset not_ipx (mset (es_protocols sys))" by (rule mset_remove_ipx) simp
  then have "set ?ps \<subseteq> set (es_protocols sys)" by (metis filter_is_subset mset_filter set_mset_mset)
  with names have names': "list_all (os_name u (es_buf sys)) ?ps" by (auto simp: list_all_iff)
  obtain ps1 nb where mv: "move_names u (unat bufsize) (es_buf sys) ?ps [] = Some (ps1, nb)"
      "map (shown u (es_buf sys) nb) ps1 = map (shown u (es_buf sys) []) ?ps" "list_all (moved_name u nb) ps1" "length ps1 = length ?ps"
    using move_names_shown [OF names' os(3) [symmetric], of "[]" "es_buf sys"] by auto
  have "sum_list (map (moved_size u nb) ps1) \<le> sum_list (map (name_size u (es_buf sys)) (es_protocols sys))"
    using sizes_shown [OF mv(3) names' mv(2)] sum_list_sub [OF m] by simp
  moreover have "length ps1 \<le> length (es_protocols sys)"
    using mv(4) m by (metis mset_filter length_filter_le size_mset)
  then have "PROTOCOL_INFO_SIZE * length ps1 \<le> PROTOCOL_INFO_SIZE * length (es_protocols sys)" by (rule mult_le_mono2)
  ultimately have "PROTOCOL_INFO_SIZE * (length ps1 + length (own_protocols protocols u)) +
      sum_list (map shown_size (own_protocols protocols u)) + sum_list (map (moved_size u nb) ps1) \<le> length (es_buf sys)"
    using size fits unfolding os(3) add_mult_distrib2 by linarith
  from append_protocols_shown [OF mv(3) this] obtain ps buf where
    a: "append_protocols protocols u (es_buf sys) nb ps1 = Some (ps, buf)" "length buf = unat bufsize"
      "map (shown u buf []) ps = map (shown u (es_buf sys) nb) ps1 @ own_protocols protocols u"
      "list_all (placed u buf (PROTOCOL_INFO_SIZE * length ps) (unat bufsize)) ps"
    using os(3) by auto
  have "mset (map (shown u buf []) ps) = image_mset (shown u (es_buf sys) []) (mset ?ps) + mset (own_protocols protocols u)"
    unfolding a(3) mv(2) by simp
  with mv(1) a(1,2,4) m show ?thesis by (intro exI [of _ ps] exI [of _ buf] exI [of _ "(ps1, nb)"]) simp
qed

text \<open>
  C27. \<open>EnumProtocols\<close> never writes outside the caller's buffer. When the system's own list is sound
  (its names are inside the buffer or elsewhere, and it reports the space it used), the function either
  fails for want of space, or returns precisely the system's protocols other than IPX and the wrapper's
  own entries that were asked for, each with its name: every name in the buffer lies behind the
  structures, none points into the block that is freed, and all texts are intact.
\<close>

theorem enum_protocols_list:
  assumes os: "es_rval sys = int (length (es_protocols sys))" "es_malloc sys" "length (es_buf sys) = unat bufsize"
    and names: "list_all (os_name u (es_buf sys)) (es_protocols sys)"
    and size: "PROTOCOL_INFO_SIZE * length (es_protocols sys) + sum_list (map (name_size u (es_buf sys)) (es_protocols sys)) \<le>
      unat (es_bufsize sys)" "unat (es_bufsize sys) + 200 < 2 ^ 32"
  shows "\<exists>v s out. do_EnumProtocols protocols bufsize sys u = Some (v, s, out) \<and>
    (if s > bufsize then v = -1 \<and> out = (ERROR_INSUFFICIENT_BUFFER, None)
     else \<exists>ps buf. out = (es_error sys, Some (ps, buf)) \<and> v = int (length ps) \<and> length buf = unat bufsize \<and>
       list_all (placed u buf (PROTOCOL_INFO_SIZE * length ps) (unat bufsize)) ps \<and>
       mset (map (shown u buf []) ps) =
         image_mset (shown u (es_buf sys) []) (filter_mset not_ipx (mset (es_protocols sys))) + mset (own_protocols protocols u))"
proof -
  let ?e1 = "if wanted protocols NSPROTO_IPX then entry_size u ''IPX'' else 0"
  let ?e2 = "if wanted protocols NSPROTO_SPX then entry_size u ''SPX'' else 0"
  let ?e3 = "if wanted protocols NSPROTO_SPXII then entry_size u ''SPX II'' else 0"
  let ?own = "PROTOCOL_INFO_SIZE * length (own_protocols protocols u) + sum_list (map shown_size (own_protocols protocols u))"
  let ?size = "es_bufsize sys + ?e1 + ?e2 + ?e3"
  have e: "unat ?e1 + unat ?e2 + unat ?e3 = ?own" "?own \<le> 200" using own_protocols_bounds [of protocols u] by blast+
  have sz: "unat ?size = unat (es_bufsize sys) + ?own"
    using unat_add4 [of "es_bufsize sys" ?e1 ?e2 ?e3] e size(2) by linarith
  have r: "es_rval sys \<noteq> -1" using os(1) by simp
  show ?thesis
  proof (cases "?size > bufsize")
    case True
    with r show ?thesis by (simp add: do_EnumProtocols_def Let_def)
  next
    case False
    then have "unat (es_bufsize sys) + PROTOCOL_INFO_SIZE * length (own_protocols protocols u) +
        sum_list (map shown_size (own_protocols protocols u)) \<le> unat bufsize"
      using sz by (simp add: word_less_nat_alt)
    from enum_protocols_filled [OF os names size(1) this] obtain ps buf nb where
      f: "move_names u (unat bufsize) (es_buf sys) (remove_ipx 0 (es_protocols sys)) [] = Some nb"
        "append_protocols protocols u (es_buf sys) (snd nb) (fst nb) = Some (ps, buf)" "length buf = unat bufsize"
        "list_all (placed u buf (PROTOCOL_INFO_SIZE * length ps) (unat bufsize)) ps"
        "mset (map (shown u buf []) ps) =
           image_mset (shown u (es_buf sys) []) (filter_mset not_ipx (mset (es_protocols sys))) + mset (own_protocols protocols u)"
      by blast
    have "do_EnumProtocols protocols bufsize sys u = Some (int (length ps), ?size, es_error sys, Some (ps, buf))"
      using r False f(1,2) os(2) by (simp add: do_EnumProtocols_def Let_def split_def)
    with False f(3-5) show ?thesis by simp
  qed
qed

text \<open>A list of a TCP and an IPX protocol of the system, with their names in the buffer.\<close>

definition sample_enum :: enum_sys where
  "sample_enum =
     \<lparr>es_rval = 2, es_error = 0, es_bufsize = 72,
      es_protocols =
        [\<lparr>pi_service_flags = 0, pi_family = 6, pi_max_sockaddr = 14, pi_min_sockaddr = 14, pi_socket_type = 2, pi_protocol = 1000,
          pi_message_size = 0, pi_lpProtocol = BufPtr 68\<rparr>,
         \<lparr>pi_service_flags = 0, pi_family = 2, pi_max_sockaddr = 16, pi_min_sockaddr = 16, pi_socket_type = 1, pi_protocol = 6,
          pi_message_size = 0, pi_lpProtocol = BufPtr 64\<rparr>],
      es_buf = replicate 64 0 @ wide False ''TCP'' @ wide False ''IPX'' @ replicate 28 0, es_malloc = True\<rparr>"

theorem enum_protocols_list_witness:
  "\<exists>v s out. do_EnumProtocols (Some [1256]) 100 sample_enum False = Some (v, s, out) \<and>
    (if s > 100 then v = -1 \<and> out = (ERROR_INSUFFICIENT_BUFFER, None)
     else \<exists>ps buf. out = (es_error sample_enum, Some (ps, buf)) \<and> v = int (length ps) \<and> length buf = unat (100 :: u32) \<and>
       list_all (placed False buf (PROTOCOL_INFO_SIZE * length ps) (unat (100 :: u32))) ps \<and>
       mset (map (shown False buf []) ps) =
         image_mset (shown False (es_buf sample_enum) []) (filter_mset not_ipx (mset (es_protocols sample_enum))) +
         mset (own_protocols (Some [1256]) False))"
  by (rule enum_protocols_list)
    (simp_all add: sample_enum_def wide_def os_name_def name_size_def PROTOCOL_INFO_SIZE_def)

end
