(* ===== verification/Modules.thy ===== *)
theory Modules
  imports Config "HOL-Library.Multiset"
begin

text \<open>
  Libraries, paths and clocks: the parts of common.c that load the system's libraries and find the
  files beside the program, and the clocks of ipxwrapper.c. \<open>None\<close> is an abort or a crash. A handle
  of 0 is \<open>NULL\<close>; the loader of the system is a parameter, the libraries it has open for the process
  are part of the state.
\<close>

subsection \<open>Libraries\<close>

definition BACKSLASH :: char where "BACKSLASH = CHR 0x5C"

definition dll_names :: "string list" where
  "dll_names =
     [''ipxwrapper.dll'', ''wsock32.dll'', ''mswsock.dll'', ''dpwsockx.dll'', ''ws2_32.dll'', ''wpcap.dll'', ''ipxconfig.exe'']"

definition DLL_PATH_SIZE :: nat where "DLL_PATH_SIZE = 512"

text \<open>The handles the program keeps, what the loader has open, and every name that was loaded.\<close>

record dll_state =
  dll_handles :: "nat list"
  dll_open :: "nat list"
  dll_loaded :: "string list"

record loader =
  ld_system_directory :: string
  ld_load :: "string \<Rightarrow> nat"
  ld_symbol :: "nat \<Rightarrow> string \<Rightarrow> nat"

definition dll_path :: "loader \<Rightarrow> nat \<Rightarrow> string option" where
  "dll_path ld dllnum =
     (let name = dll_names ! dllnum in
      if dllnum \<noteq> 0 \<and> dllnum \<noteq> 5 then
        (if length (ld_system_directory ld) + length name + 2 > DLL_PATH_SIZE then None
         else Some (ld_system_directory ld @ [BACKSLASH] @ name))
      else Some name)"

definition load_dll :: "loader \<Rightarrow> nat \<Rightarrow> dll_state \<Rightarrow> dll_state option" where
  "load_dll ld dllnum st =
     (if dllnum \<ge> length dll_names then None
      else case dll_path ld dllnum of
        None \<Rightarrow> None
      | Some dll \<Rightarrow>
          if ld_load ld dll = 0 then None
          else Some (st\<lparr>dll_handles := (dll_handles st)[dllnum := ld_load ld dll],
                        dll_open := dll_open st @ [ld_load ld dll], dll_loaded := dll_loaded st @ [dll]\<rparr>))"

definition unload_dll :: "nat \<Rightarrow> dll_state \<Rightarrow> dll_state" where
  "unload_dll i st =
     (if dll_handles st ! i \<noteq> 0 then
        st\<lparr>dll_handles := (dll_handles st)[i := 0], dll_open := remove1 (dll_handles st ! i) (dll_open st)\<rparr>
      else st)"

definition unload_dlls :: "dll_state \<Rightarrow> dll_state" where
  "unload_dlls st = fold unload_dll [0..<length dll_names] st"

definition find_sym :: "loader \<Rightarrow> nat \<Rightarrow> string \<Rightarrow> dll_state \<Rightarrow> (nat \<times> dll_state) option" where
  "find_sym ld dllnum symbol st =
     (if dllnum \<ge> length dll_names then None
      else case (if dll_handles st ! dllnum = 0 then load_dll ld dllnum st else Some st) of
        None \<Rightarrow> None
      | Some st \<Rightarrow>
          let ptr = ld_symbol ld (dll_handles st ! dllnum) symbol
          in if ptr = 0 then None else Some (ptr, st))"

definition dll_start :: dll_state where
  "dll_start = \<lparr>dll_handles = replicate 7 0, dll_open = [], dll_loaded = []\<rparr>"

subsection \<open>Paths\<close>

text \<open>
  \<open>full\<close> is the path of the module. \<open>GetModuleFileNameW\<close> returns the size of the buffer when the path
  does not fit, and its length otherwise. The results: the path, or \<open>NULL\<close>.
\<close>

partial_function (option) module_path_loop ::
  "(u32 \<Rightarrow> bool) \<Rightarrow> string \<Rightarrow> u32 \<Rightarrow> string option option" where
  "module_path_loop malloc_ok full sz =
     (if \<not> malloc_ok (2 * (sz * 2)) then Some None
      else if unat (sz * 2) \<le> length full then module_path_loop malloc_ok full (sz * 2)
      else Some (Some full))"

definition get_module_path :: "(u32 \<Rightarrow> bool) \<Rightarrow> string \<Rightarrow> string option option" where
  "get_module_path malloc_ok full = module_path_loop malloc_ok full 256"

definition base_len :: "string \<Rightarrow> nat" where
  "base_len path = length path - length (takeWhile (\<lambda>c. c \<noteq> BACKSLASH) (rev path))"

definition get_module_relative_path :: "(u32 \<Rightarrow> bool) \<Rightarrow> string \<Rightarrow> string \<Rightarrow> string option option" where
  "get_module_relative_path malloc_ok full relative_path =
     (case get_module_path malloc_ok full of
        None \<Rightarrow> None
      | Some None \<Rightarrow> Some None
      | Some (Some module_path) \<Rightarrow>
          let n = base_len module_path
          in if \<not> malloc_ok (of_nat ((n + length relative_path + 1) * 2)) then Some None
             else Some (Some (take n module_path @ relative_path)))"

subsection \<open>Clocks\<close>

text \<open>\<open>t64\<close> is what \<open>GetTickCount64\<close> returns where the system has it, \<open>qpc\<close> the performance counter.\<close>

definition get_ticks :: "u64 option \<Rightarrow> u32 \<Rightarrow> u64" where
  "get_ticks t64 t32 = (case t64 of Some t \<Rightarrow> t | None \<Rightarrow> ucast t32)"

definition get_uticks :: "u64 \<Rightarrow> u64 option \<Rightarrow> u64 option \<Rightarrow> u32 \<Rightarrow> u64 option" where
  "get_uticks freq qpc t64 t32 =
     (case qpc of
        None \<Rightarrow> Some (get_ticks t64 t32 * 1000)
      | Some tick \<Rightarrow>
          if freq = 0 then Some (get_ticks t64 t32 * 1000)
          else if freq div 1000000 = 0 then None
          else Some (tick div (freq div 1000000)))"

subsection \<open>Libraries are loaded once\<close>

inductive dll_reach :: "loader \<Rightarrow> dll_state \<Rightarrow> bool" for ld where
  start: "dll_reach ld dll_start"
| sym: "dll_reach ld st \<Longrightarrow> find_sym ld n s st = Some (p, st') \<Longrightarrow> dll_reach ld st'"
| unload: "dll_reach ld st \<Longrightarrow> dll_reach ld (unload_dlls st)"

definition dll_inv :: "loader \<Rightarrow> dll_state \<Rightarrow> bool" where
  "dll_inv ld st \<longleftrightarrow>
     length (dll_handles st) = length dll_names \<and> mset (dll_open st) = filter_mset (\<lambda>h. h \<noteq> 0) (mset (dll_handles st)) \<and>
     (\<forall>path \<in> set (dll_loaded st). length path < DLL_PATH_SIZE \<and>
        (path \<in> {dll_names ! 0, dll_names ! 5} \<or>
         (\<exists>n < length dll_names. n \<noteq> 0 \<and> n \<noteq> 5 \<and> path = ld_system_directory ld @ [BACKSLASH] @ dll_names ! n)))"

lemma mset_update_zero:
  "i < length hs \<Longrightarrow> hs ! i = 0 \<Longrightarrow> h \<noteq> 0 \<Longrightarrow>
     filter_mset (\<lambda>h. h \<noteq> 0) (mset (hs[i := h])) = add_mset h (filter_mset (\<lambda>h. h \<noteq> (0 :: nat)) (mset hs))"
  by (simp add: mset_update)

lemma dll_path_sound:
  assumes "dll_path ld n = Some path" and "n < length dll_names"
  shows "length path < DLL_PATH_SIZE \<and>
    (path \<in> {dll_names ! 0, dll_names ! 5} \<or>
     (\<exists>n < length dll_names. n \<noteq> 0 \<and> n \<noteq> 5 \<and> path = ld_system_directory ld @ [BACKSLASH] @ dll_names ! n))"
proof (cases "n = 0 \<or> n = 5")
  case True
  with assms show ?thesis by (auto simp: dll_path_def dll_names_def DLL_PATH_SIZE_def)
next
  case False
  with assms show ?thesis by (auto simp: dll_path_def DLL_PATH_SIZE_def Let_def split: if_splits)
qed

lemma load_dll_inv:
  assumes "load_dll ld n st = Some st'" and inv: "dll_inv ld st" and z: "dll_handles st ! n = 0"
  shows "dll_inv ld st'"
proof -
  obtain path where n: "n < length dll_names" and p: "dll_path ld n = Some path" "ld_load ld path \<noteq> 0"
    and st': "st' = st\<lparr>dll_handles := (dll_handles st)[n := ld_load ld path],
                       dll_open := dll_open st @ [ld_load ld path], dll_loaded := dll_loaded st @ [path]\<rparr>"
    using assms(1) by (auto simp: load_dll_def split: if_splits option.splits)
  show ?thesis
    using inv mset_update_zero [of n "dll_handles st" "ld_load ld path"] n z p(2) dll_path_sound [OF p(1) n]
    by (auto simp: dll_inv_def st')
qed

lemma find_sym_inv:
  assumes "find_sym ld n s st = Some (p, st')" and "dll_inv ld st"
  shows "dll_inv ld st'"
  using assms load_dll_inv by (fastforce simp: find_sym_def Let_def split: if_splits option.splits)

lemma unload_dll_inv:
  assumes inv: "dll_inv ld st" and i: "i < length dll_names"
  shows "dll_inv ld (unload_dll i st)"
proof (cases "dll_handles st ! i = 0")
  case True
  with inv show ?thesis by (simp add: unload_dll_def)
next
  case False
  have l: "i < length (dll_handles st)" using inv i by (simp add: dll_inv_def)
  have "filter_mset (\<lambda>h. h \<noteq> 0) (mset ((dll_handles st)[i := 0])) =
      filter_mset (\<lambda>h. h \<noteq> 0) (mset (dll_handles st)) - {#dll_handles st ! i#}"
    using l False by (simp add: mset_update)
  with inv False show ?thesis by (simp add: unload_dll_def dll_inv_def)
qed

lemma unload_dlls_inv:
  assumes "dll_inv ld st"
  shows "dll_inv ld (unload_dlls st)" and "set (dll_handles (unload_dlls st)) \<subseteq> {0}"
proof -
  have "dll_inv ld (fold unload_dll [0..<n] st) \<and> (\<forall>i < n. dll_handles (fold unload_dll [0..<n] st) ! i = 0)"
    if "n \<le> length dll_names" for n
    using that
  proof (induction n)
    case (Suc n)
    let ?s = "fold unload_dll [0..<n] st"
    have s: "dll_inv ld ?s" "\<forall>i < n. dll_handles ?s ! i = 0" using Suc by simp_all
    have "dll_inv ld (unload_dll n ?s)" using unload_dll_inv [OF s(1)] Suc.prems by simp
    moreover have "dll_handles (unload_dll n ?s) ! i = 0" if "i < Suc n" for i
      using s Suc.prems that by (auto simp: unload_dll_def dll_inv_def nth_list_update less_Suc_eq)
    ultimately show ?case by simp
  qed (use assms in simp)
  from this [of "length dll_names"] show "dll_inv ld (unload_dlls st)" "set (dll_handles (unload_dlls st)) \<subseteq> {0}"
    by (auto simp: unload_dlls_def dll_inv_def in_set_conv_nth)
qed

lemma dll_reach_inv: "dll_reach ld st \<Longrightarrow> dll_inv ld st"
proof (induction rule: dll_reach.induct)
  case start
  show ?case by (simp add: dll_inv_def dll_start_def dll_names_def)
qed (blast intro: find_sym_inv unload_dlls_inv(1))+

lemma dlls_unloaded:
  assumes "dll_reach ld st"
  shows "dll_open (unload_dlls st) = []"
proof -
  have inv: "dll_inv ld st" using dll_reach_inv [OF assms] .
  have "mset (dll_open (unload_dlls st)) = filter_mset (\<lambda>h. h \<noteq> 0) (mset (dll_handles (unload_dlls st)))"
    using unload_dlls_inv(1) [OF inv] by (simp add: dll_inv_def)
  also have "\<dots> = {#}" using unload_dlls_inv(2) [OF inv] by auto
  finally show ?thesis by simp
qed

text \<open>
  After any look-ups of symbols, the libraries the loader has open are those in the table of
  handles, each once; unloading closes all of them; and every library was loaded under its full path
  in the system's directory, except the wrapper and WinPcap, and the path fitted its buffer.
\<close>

theorem libraries_loaded_once:
  assumes "dll_reach ld st"
  shows "mset (dll_open st) = filter_mset (\<lambda>h. h \<noteq> 0) (mset (dll_handles st)) \<and> dll_open (unload_dlls st) = [] \<and>
    (\<forall>path \<in> set (dll_loaded st). length path < DLL_PATH_SIZE \<and>
       (path \<in> {dll_names ! 0, dll_names ! 5} \<or>
        (\<exists>n < length dll_names. n \<noteq> 0 \<and> n \<noteq> 5 \<and> path = ld_system_directory ld @ [BACKSLASH] @ dll_names ! n)))"
  using dll_reach_inv [OF assms] dlls_unloaded [OF assms] by (simp add: dll_inv_def)

definition sample_loader :: loader where
  "sample_loader = \<lparr>ld_system_directory = ''C:'', ld_load = (\<lambda>_. 7), ld_symbol = (\<lambda>_ _. 9)\<rparr>"

theorem libraries_loaded_once_witness:
  "\<exists>st. find_sym sample_loader 4 ''socket'' dll_start = Some (9, st) \<and> dll_open st = [7] \<and> dll_open (unload_dlls st) = []"
proof -
  have f: "find_sym sample_loader 4 ''socket'' dll_start =
      Some (9, \<lparr>dll_handles = [0, 0, 0, 0, 7, 0, 0], dll_open = [7], dll_loaded = [''C:'' @ [BACKSLASH] @ ''ws2_32.dll'']\<rparr>)"
    by (simp add: find_sym_def sample_loader_def dll_start_def load_dll_def dll_path_def dll_names_def DLL_PATH_SIZE_def
        numeral_eq_Suc)
  from libraries_loaded_once [OF dll_reach.sym [OF dll_reach.start f]] f show ?thesis by simp
qed

subsection \<open>Files beside the program\<close>

lemma module_path_loop_full:
  "module_path_loop malloc_ok full sz = Some (Some p) \<Longrightarrow> p = full"
  by (rule module_path_loop.raw_induct [where P = "\<lambda>_ full _ r. \<forall>p. r = Some p \<longrightarrow> p = full", rotated, THEN spec, THEN mp])
    (auto split: if_splits)

lemma module_path_loop_returns:
  assumes "\<And>n. malloc_ok n" and "length full < 2 ^ 30" and "sz = 2 ^ k" "8 \<le> k" "k < 30"
  shows "module_path_loop malloc_ok full sz = Some (Some full)"
  using assms(3-5)
proof (induction "30 - k" arbitrary: k sz)
  case (Suc n)
  have u: "unat (sz * 2) = 2 ^ (k + 1)"
  proof -
    have "sz * 2 = 2 ^ (k + 1)" using Suc.prems(1) by simp
    moreover have "unat (2 ^ (k + 1) :: u32) = 2 ^ (k + 1)" 
    proof -
      have "(2 :: nat) ^ (k + 1) < 2 ^ 32" by (rule power_strict_increasing) (use Suc.prems in auto)
      then have "unat (of_nat (2 ^ (k + 1)) :: u32) = 2 ^ (k + 1)" by (subst unat_of_nat) simp
      then show ?thesis by simp
    qed
    ultimately show ?thesis by simp
  qed
  show ?case
  proof (cases "2 ^ (k + 1) \<le> length full")
    case False
    with u assms(1) show ?thesis by (simp add: module_path_loop.simps)
  next
    case True
    have "k + 1 < 30"
    proof (rule ccontr)
      assume "\<not> k + 1 < 30"
      then have "(2 :: nat) ^ 30 \<le> 2 ^ (k + 1)" by (intro power_increasing) auto
      with True assms(2) show False by simp
    qed
    then have "module_path_loop malloc_ok full (sz * 2) = Some (Some full)"
      using Suc.hyps(1) [of "k + 1" "sz * 2"] Suc.hyps(2) Suc.prems by simp
    with u True assms(1) show ?thesis by (subst module_path_loop.simps) simp
  qed
qed simp

lemma base_len_split: "BACKSLASH \<notin> set name \<Longrightarrow> base_len (dir @ [BACKSLASH] @ name) = length dir + 1"
proof -
  assume "BACKSLASH \<notin> set name"
  then have "takeWhile (\<lambda>c. c \<noteq> BACKSLASH) (rev name @ BACKSLASH # rev dir) = rev name"
    by (subst takeWhile_append2) auto
  then show ?thesis by (simp add: base_len_def)
qed

text \<open>
  A file is looked for beside the program: whatever the length of the path of the program's module, the
  buffer grows until the path fits, and the name takes the place of the module's own behind the last
  backslash.
\<close>

lemma module_relative_path:
  assumes "\<And>n. malloc_ok n" and "length (dir @ [BACKSLASH] @ name) < 2 ^ 30" and "BACKSLASH \<notin> set name"
  shows "get_module_relative_path malloc_ok (dir @ [BACKSLASH] @ name) rel = Some (Some (dir @ [BACKSLASH] @ rel))"
proof -
  have "get_module_path malloc_ok (dir @ [BACKSLASH] @ name) = Some (Some (dir @ [BACKSLASH] @ name))"
    unfolding get_module_path_def
    by (rule module_path_loop_returns [OF assms(1,2), of _ 8]) simp_all
  then show ?thesis using base_len_split [OF assms(3), of dir] assms(1) by (simp add: get_module_relative_path_def Let_def)
qed

subsection \<open>Clocks\<close>

lemma uticks_exact:
  assumes t: "get_uticks freq (Some tick) t64 t32 = Some us" and f: "freq \<noteq> 0"
  shows "unat tick * 1000000 div unat freq \<le> unat us \<and> unat us \<le> 2 * (unat tick * 1000000 div unat freq) + 1 \<and>
    (1000000 dvd unat freq \<longrightarrow> unat us = unat tick * 1000000 div unat freq) \<and>
    (\<forall>tick' us'. tick \<le> tick' \<and> get_uticks freq (Some tick') t64 t32 = Some us' \<longrightarrow> us \<le> us')"
proof -
  let ?q = "unat freq div 1000000"
  have q: "unat (freq div 1000000) = ?q" by (simp add: unat_div)
  have nz: "freq div 1000000 \<noteq> 0" and us: "us = tick div (freq div 1000000)"
    using t f by (auto simp: get_uticks_def split: if_splits)
  then have u: "unat us = unat tick div ?q" by (simp add: unat_div q)
  have q0: "0 < ?q" using nz q by (metis gr0I unsigned_eq_0_iff)
  have le: "?q * 1000000 \<le> unat freq" by simp
  have lt: "unat freq < 2 * ?q * 1000000" using q0 by linarith
  have "unat tick * 1000000 div unat freq \<le> unat tick * 1000000 div (?q * 1000000)"
    by (rule div_le_mono2) (use q0 le in auto)
  then have a: "unat tick * 1000000 div unat freq \<le> unat us" by (simp add: u div_mult_mult2)
  have "unat us \<le> 2 * (unat tick * 1000000 div unat freq) + 1"
  proof -
    let ?m = "unat tick * 1000000 div unat freq"
    have "unat us * ?q \<le> unat tick" by (simp add: u)
    moreover have "unat tick * 1000000 < (?m + 1) * unat freq"
      using f by (metis add.commute dividend_less_times_div mult.commute mult_Suc_right plus_1_eq_Suc gr0I unsigned_eq_0_iff)
    ultimately have "unat us * ?q * 1000000 < (?m + 1) * (2 * ?q * 1000000)"
      using lt by (meson le_less_trans less_le_trans mult_le_mono1 mult_le_mono2 less_imp_le)
    then have "unat us * (?q * 1000000) < (2 * (?m + 1)) * (?q * 1000000)" by (simp add: algebra_simps)
    then have "unat us < 2 * (?m + 1)" by (simp only: mult_less_cancel2)
    moreover have "x < 2 * (m + 1) \<Longrightarrow> x \<le> 2 * m + 1" for x m :: nat by simp
    ultimately show ?thesis by blast
  qed
  moreover have "unat us = unat tick * 1000000 div unat freq" if "1000000 dvd unat freq"
    using that by (metis u div_mult_mult2 dvd_div_mult_self zero_neq_numeral)
  moreover have "us \<le> us'" if "tick \<le> tick'" "get_uticks freq (Some tick') t64 t32 = Some us'" for tick' us'
  proof -
    have "us' = tick' div (freq div 1000000)" using that(2) f nz by (simp add: get_uticks_def)
    with that(1) us show ?thesis by (simp add: word_le_nat_alt unat_div div_le_mono)
  qed
  ultimately show ?thesis using a by blast
qed

lemma uticks_crash: "freq \<noteq> 0 \<Longrightarrow> get_uticks freq (Some tick) t64 t32 = None \<longleftrightarrow> unat freq < 1000000"
proof -
  have "freq div 1000000 = 0 \<longleftrightarrow> unat (freq div 1000000) = 0" by (simp only: unsigned_eq_0_iff)
  also have "\<dots> \<longleftrightarrow> unat freq < 1000000" by (simp add: unat_div div_eq_0_iff)
  finally show "freq \<noteq> 0 \<Longrightarrow> ?thesis" by (simp add: get_uticks_def)
qed

text \<open>
  The clock in microseconds divides by the frequency of the counter in MHz, cut off: it is exact
  for whole numbers of MHz, never slow, and fast by at most a factor of two; it never goes back while
  the counter does not; and with a counter below 1 MHz it divides by zero.
\<close>

theorem uticks_accuracy:
  assumes "freq \<noteq> 0"
  shows "(get_uticks freq (Some tick) t64 t32 = None \<longleftrightarrow> unat freq < 1000000) \<and>
    (\<forall>us. get_uticks freq (Some tick) t64 t32 = Some us \<longrightarrow>
       unat tick * 1000000 div unat freq \<le> unat us \<and> unat us \<le> 2 * (unat tick * 1000000 div unat freq) + 1 \<and>
       (1000000 dvd unat freq \<longrightarrow> unat us = unat tick * 1000000 div unat freq) \<and>
       (\<forall>tick' us'. tick \<le> tick' \<and> get_uticks freq (Some tick') t64 t32 = Some us' \<longrightarrow> us \<le> us'))"
  using uticks_crash [OF assms] uticks_exact [OF _ assms] by blast

theorem uticks_accuracy_witness:
  "get_uticks 3579545 (Some 7159090) None 0 = Some 2386363 \<and> get_uticks 900000 (Some 1) None 0 = None \<and>
   unat (7159090 :: u64) * 1000000 div unat (3579545 :: u64) \<le> unat (2386363 :: u64)"
proof -
  have "get_uticks 3579545 (Some 7159090) None 0 = Some 2386363" by (simp add: get_uticks_def)
  with uticks_accuracy [of 3579545 7159090 None 0] uticks_accuracy [of 900000 1 None 0] show ?thesis by simp
qed

end
