(* ===== verification/Lifecycle.thy ===== *)
theory Lifecycle
  imports Api Modules "HOL-Library.Monad_Syntax"
begin

text \<open>
  Start and end of the library: \<open>router_init\<close> and \<open>router_cleanup\<close> (router.c) with the sockets, events
  and threads they get from the system, and \<open>DllMain\<close> (ipxwrapper.c), which brings up every part and
  takes it down again. The library's own UDP sockets are not in the table of IPX sockets, so the wrapped
  \<open>socket\<close>, \<open>setsockopt\<close>, \<open>bind\<close> and \<open>closesocket\<close> pass straight on to the system. \<open>None\<close> is an abort.
\<close>

subsection \<open>State\<close>

text \<open>A socket of the system: its options, buffer sizes, address, and whether it signals the event.\<close>

record os_socket =
  os_broadcast :: bool
  os_reuseaddr :: bool
  os_rcvbuf :: int
  os_sndbuf :: int
  os_addr :: sockaddr_in
  os_signals :: bool

text \<open>
  The open sockets, events and threads of the system, and the globals of router.c and ipxwrapper.c.
  A handle of 0 is \<open>NULL\<close> or \<open>WSA_INVALID_EVENT\<close>.
\<close>

record ('w, 's) process = "('w, 's) wstate" +
  p_os_sockets :: "(int \<times> os_socket) list"
  p_events :: "nat list"
  p_threads :: "nat list"
  router_running :: bool
  router_event :: nat
  router_thread :: nat
  shared_socket :: int
  private_socket :: int
  private_port :: u16
  dosbox_ready_event :: nat
  perf_counter_freq :: u64
  p_config :: main_config
  p_system_root :: "string option"
  p_sockets_cs :: bool
  p_wsa :: int
  prof_thread_exit :: nat
  prof_thread_handle :: nat
  p_log_open :: bool
  p_dlls :: dll_state
  p_kernel32 :: nat

subsection \<open>The router's sockets\<close>

definition HTONL_INADDR_ANY :: u32 where "HTONL_INADDR_ANY = 0"

text \<open>
  What the system answers; the calls for the shared socket are told from those for the private one by
  a flag. \<open>bind\<close> yields the local port in network order, \<open>None\<close> when it fails.
\<close>

record router_sys =
  ry_event :: nat
  ry_ready_event :: nat
  ry_socket :: "bool \<Rightarrow> int"
  ry_opt :: "bool \<Rightarrow> int \<Rightarrow> bool"
  ry_bind :: "bool \<Rightarrow> sockaddr_in \<Rightarrow> u16 option"
  ry_select :: "bool \<Rightarrow> bool"
  ry_default_buf :: int
  ry_name :: bool
  ry_thread :: nat

definition SO_SNDBUF :: int where "SO_SNDBUF = 0x1001"
definition SO_RCVBUF :: int where "SO_RCVBUF = 0x1002"

definition new_os_socket :: "router_sys \<Rightarrow> os_socket" where
  "new_os_socket sys =
     \<lparr>os_broadcast = False, os_reuseaddr = False, os_rcvbuf = ry_default_buf sys, os_sndbuf = ry_default_buf sys,
      os_addr = \<lparr>sin_family = 0, sin_port = 0, sin_addr = 0\<rparr>, os_signals = False\<rparr>"

text \<open>The results of \<open>setsockopt\<close> are not looked at.\<close>

definition init_socket ::
  "router_sys \<Rightarrow> bool \<Rightarrow> u16 \<Rightarrow> bool \<Rightarrow> bool \<Rightarrow> ('w, 's) process \<Rightarrow> (int \<times> ('w, 's) process) option" where
  "init_socket sys shared port broadcast reuseaddr st =
     (let sock = ry_socket sys shared in
      if sock = -1 then None
      else
        let addr = \<lparr>sin_family = AF_INET, sin_port = htons port, sin_addr = HTONL_INADDR_ANY\<rparr>;
            s = (new_os_socket sys)
              \<lparr>os_broadcast := broadcast \<and> ry_opt sys shared SO_BROADCAST, os_reuseaddr := reuseaddr \<and> ry_opt sys shared SO_REUSEADDR,
               os_rcvbuf := if ry_opt sys shared SO_RCVBUF then 524288 else ry_default_buf sys,
               os_sndbuf := if ry_opt sys shared SO_SNDBUF then 524288 else ry_default_buf sys\<rparr>
        in case ry_bind sys shared addr of
             None \<Rightarrow> None
           | Some p \<Rightarrow>
               if \<not> ry_select sys shared then None
               else Some (sock, st\<lparr>p_os_sockets :=
                      p_os_sockets st @ [(sock, s\<lparr>os_addr := addr\<lparr>sin_port := p\<rparr>, os_signals := True\<rparr>)]\<rparr>))"

text \<open>The socket of WinPcap mode, which only passes packets on to local sockets.\<close>

definition init_loopback_socket :: "router_sys \<Rightarrow> ('w, 's) process \<Rightarrow> (int \<times> ('w, 's) process) option" where
  "init_loopback_socket sys st =
     (let sock = ry_socket sys False in
      if sock = -1 then None
      else
        let addr = \<lparr>sin_family = AF_INET, sin_port = htons 0, sin_addr = INADDR_LOOPBACK\<rparr>
        in case ry_bind sys False addr of
             None \<Rightarrow> None
           | Some p \<Rightarrow> Some (sock, st\<lparr>p_os_sockets := p_os_sockets st @ [(sock, (new_os_socket sys)\<lparr>os_addr := addr\<lparr>sin_port := p\<rparr>\<rparr>)]\<rparr>))"

definition open_sockets :: "router_sys \<Rightarrow> ('w, 's) process \<Rightarrow> ('w, 's) process option" where
  "open_sockets sys st =
     (if ipx_encap_type (g_ifaces st) = ENCAP_TYPE_PCAP then
        map_option (\<lambda>(sock, st). st\<lparr>private_socket := sock\<rparr>) (init_loopback_socket sys st)
      else if ipx_encap_type (g_ifaces st) = ENCAP_TYPE_DOSBOX then
        (if ry_ready_event sys = 0 then None
         else
           let st = st\<lparr>dosbox_ready_event := ry_ready_event sys, p_events := p_events st @ [ry_ready_event sys]\<rparr>
           in map_option (\<lambda>(sock, st). st\<lparr>private_socket := sock, g_next_connection_attempt_at := 0, g_ready_event := False\<rparr>)
                (init_socket sys False 0 False False st))
      else
        do {
          (sock, st) \<leftarrow> init_socket sys True (mc_udp_port (p_config st)) True True st;
          let st = st\<lparr>shared_socket := sock\<rparr>;
          (sock, st) \<leftarrow> init_socket sys False 0 True False st;
          Some (st\<lparr>private_socket := sock\<rparr>)
        })"

definition router_init :: "router_sys \<Rightarrow> ('w, 's) process \<Rightarrow> ('w, 's) process option" where
  "router_init sys st =
     (if ry_event sys = 0 then None
      else do {
        let st = st\<lparr>router_event := ry_event sys, p_events := p_events st @ [ry_event sys]\<rparr>;
        st \<leftarrow> open_sockets sys st;
        let st = (case map_of (p_os_sockets st) (private_socket st) of
                    Some s \<Rightarrow> if ry_name sys then st\<lparr>private_port := sin_port (os_addr s)\<rparr> else st
                  | None \<Rightarrow> st);
        let st = st\<lparr>router_running := True\<rparr>;
        if ry_thread sys = 0 then None
        else Some (st\<lparr>router_thread := ry_thread sys, p_threads := p_threads st @ [ry_thread sys]\<rparr>)
      })"

definition close_os_socket :: "int \<Rightarrow> ('w, 's) process \<Rightarrow> ('w, 's) process" where
  "close_os_socket sock st = st\<lparr>p_os_sockets := filter (\<lambda>s. fst s \<noteq> sock) (p_os_sockets st)\<rparr>"

text \<open>\<open>others\<close> is what the router thread does until it ends or, after three seconds, is killed.\<close>

definition router_cleanup ::
  "coalesce_cfg \<Rightarrow> (('w, 's) process \<Rightarrow> ('w, 's) process) \<Rightarrow> ('w, 's) process \<Rightarrow> ('w, 's) process option" where
  "router_cleanup cfg others st =
     do {
       let st = others (st\<lparr>router_running := False\<rparr>);
       let st = st\<lparr>p_threads := remove1 (router_thread st) (p_threads st), router_thread := 0\<rparr>;
       st \<leftarrow> coalesce_cleanup cfg st;
       let st = (if private_socket st \<noteq> -1 then (close_os_socket (private_socket st) st)\<lparr>private_socket := -1\<rparr> else st);
       let st = (if shared_socket st \<noteq> -1 then (close_os_socket (shared_socket st) st)\<lparr>shared_socket := -1\<rparr> else st);
       Some (if router_event st \<noteq> 0 then st\<lparr>p_events := remove1 (router_event st) (p_events st), router_event := 0\<rparr> else st)
     }"

text \<open>Waiting is for the event of the DOSBox connection, where there is one.\<close>

definition wait_for_ready :: "(('w, 's) process \<Rightarrow> ('w, 's) process) \<Rightarrow> ('w, 's) process \<Rightarrow> ('w, 's) process" where
  "wait_for_ready others st = (if dosbox_ready_event st \<noteq> 0 then others st else st)"

subsection \<open>The library\<close>

text \<open>
  What the system answers to \<open>DllMain\<close>: the counter's frequency, the path of the program and the files,
  the outcomes of allocations, the system's directory, whether the three critical sections can be
  created, the clock, the result of \<open>WSAStartup\<close>, and the event and thread of the profiler.
\<close>

record dll_main_sys =
  dm_freq :: "u64 option"
  dm_exe :: string
  dm_file :: "string \<Rightarrow> string option"
  dm_malloc :: "u32 \<Rightarrow> bool"
  dm_strdup :: "nat \<Rightarrow> bool"
  dm_reg_malloc :: bool
  dm_reg_strdup :: bool
  dm_windows :: string
  dm_cs :: "nat \<Rightarrow> bool"
  dm_now :: int
  dm_now' :: int
  dm_wsa :: u32
  dm_router :: router_sys
  dm_prof_event :: nat
  dm_prof_thread :: nat

definition start_profiler :: "dll_main_sys \<Rightarrow> ('w, 's) process \<Rightarrow> ('w, 's) process" where
  "start_profiler sys st =
     (if \<not> mc_profile (p_config st) \<or> dm_prof_event sys = 0 then st
      else
        let st = st\<lparr>prof_thread_exit := dm_prof_event sys, p_events := p_events st @ [dm_prof_event sys]\<rparr>
        in if dm_prof_thread sys = 0 then st
           else st\<lparr>prof_thread_handle := dm_prof_thread sys, p_threads := p_threads st @ [dm_prof_thread sys]\<rparr>)"

definition load_process_config ::
  "('w, 's) sysenv \<Rightarrow> dll_main_sys \<Rightarrow> ('w, 's) process \<Rightarrow> ('w, 's) process option" where
  "load_process_config env sys st =
     do {
       ini_path \<leftarrow> get_module_relative_path (dm_malloc sys) (dm_exe sys) ''ipxwrapper.ini'';
       ini_path \<leftarrow> ini_path;
       (config, reg) \<leftarrow> get_main_config (env_reg env) (dm_file sys ini_path) (dm_strdup sys) (dm_reg_malloc sys) (dm_reg_strdup sys)
                          False (st_reg (g_ifaces st));
       Some (st\<lparr>p_config := config,
                 g_ifaces := (g_ifaces st)\<lparr>st_reg := reg, ipx_encap_type := mc_encap_type config\<rparr>\<rparr>)
     }"

definition process_attach ::
  "('w, 's) sysenv \<Rightarrow> dll_main_sys \<Rightarrow> ('w, 's) process \<Rightarrow> (bool \<times> ('w, 's) process) option" where
  "process_attach env sys st =
     do {
       let st = (case dm_freq sys of Some f \<Rightarrow> st\<lparr>perf_counter_freq := f\<rparr> | None \<Rightarrow> st);
       let st = st\<lparr>p_log_open := True\<rparr>;
       st \<leftarrow> load_process_config env sys st;
       let st = (if p_system_root st = None then st\<lparr>p_system_root := Some (dm_windows sys)\<rparr> else st);
       st \<leftarrow> (if dm_cs sys 0 then Some (st\<lparr>g_hosts := []\<rparr>) else None);
       ifaces \<leftarrow> ipx_interfaces_init env (dm_cs sys 1) (dm_now sys) (dm_now' sys) (g_ifaces st);
       let st = st\<lparr>g_ifaces := ifaces\<rparr>;
       st \<leftarrow> (if dm_cs sys 2 then Some (st\<lparr>p_sockets_cs := True\<rparr>) else None);
       if dm_wsa sys \<noteq> 0 then Some (False, st)
       else do {
         st \<leftarrow> router_init (dm_router sys) (st\<lparr>p_wsa := p_wsa st + 1\<rparr>);
         Some (True, start_profiler sys st)
       }
     }"

text \<open>The wait for the thread, which the code does without a limit, is taken to end.\<close>

definition stop_profiler :: "('w, 's) process \<Rightarrow> ('w, 's) process" where
  "stop_profiler st =
     (if prof_thread_exit st = 0 then st
      else
        let st = (if prof_thread_handle st \<noteq> 0 then
                    st\<lparr>p_threads := remove1 (prof_thread_handle st) (p_threads st), prof_thread_handle := 0\<rparr>
                  else st)
        in st\<lparr>p_events := remove1 (prof_thread_exit st) (p_events st), prof_thread_exit := 0\<rparr>)"

definition process_detach ::
  "coalesce_cfg \<Rightarrow> (('w, 's) process \<Rightarrow> ('w, 's) process) \<Rightarrow> ('w, 's) process \<Rightarrow> (bool \<times> ('w, 's) process) option" where
  "process_detach cfg others st =
     do {
       st \<leftarrow> router_cleanup cfg others (stop_profiler st);
       let st = st\<lparr>p_wsa := p_wsa st - 1, p_sockets_cs := False\<rparr>;
       let st = st\<lparr>g_ifaces := snd (ipx_interfaces_cleanup (g_ifaces st))\<rparr>;
       let st = st\<lparr>g_hosts := addr_cache_cleanup (g_hosts st)\<rparr>;
       let st = st\<lparr>p_dlls := unload_dlls (p_dlls st)\<rparr>;
       Some (True, st\<lparr>p_log_open := False, p_kernel32 := 0\<rparr>)
     }"

datatype dll_reason = DLL_PROCESS_ATTACH | DLL_PROCESS_DETACH | DLL_THREAD_ATTACH | DLL_THREAD_DETACH

text \<open>\<open>terminating\<close> is a non-null \<open>lpvReserved\<close>: the process ends, and nothing may be touched.\<close>

definition DllMain ::
  "('w, 's) sysenv \<Rightarrow> dll_main_sys \<Rightarrow> coalesce_cfg \<Rightarrow> (('w, 's) process \<Rightarrow> ('w, 's) process) \<Rightarrow> dll_reason \<Rightarrow> bool
     \<Rightarrow> ('w, 's) process \<Rightarrow> (bool \<times> ('w, 's) process) option" where
  "DllMain env sys cfg others reason terminating st =
     (case reason of
        DLL_PROCESS_ATTACH \<Rightarrow> process_attach env sys st
      | DLL_PROCESS_DETACH \<Rightarrow> if terminating then Some (True, st) else process_detach cfg others st
      | _ \<Rightarrow> Some (True, st))"

subsection \<open>The sockets of the router\<close>

lemma init_socket_Some:
  assumes "init_socket sys shared port b r st = Some (sock, st')"
  shows "\<exists>p. ry_bind sys shared \<lparr>sin_family = AF_INET, sin_port = htons port, sin_addr = HTONL_INADDR_ANY\<rparr> = Some p \<and>
    sock = ry_socket sys shared \<and> sock \<noteq> -1 \<and>
    st' = st\<lparr>p_os_sockets := p_os_sockets st @ [(sock,
      \<lparr>os_broadcast = b \<and> ry_opt sys shared SO_BROADCAST, os_reuseaddr = r \<and> ry_opt sys shared SO_REUSEADDR,
       os_rcvbuf = if ry_opt sys shared SO_RCVBUF then 524288 else ry_default_buf sys,
       os_sndbuf = if ry_opt sys shared SO_SNDBUF then 524288 else ry_default_buf sys,
       os_addr = \<lparr>sin_family = AF_INET, sin_port = p, sin_addr = HTONL_INADDR_ANY\<rparr>, os_signals = True\<rparr>)]\<rparr>"
  using assms by (auto simp: init_socket_def Let_def new_os_socket_def split: if_splits option.splits)

text \<open>The sockets an encapsulation needs: where they are bound, and which options they have.\<close>

definition socket_at :: "u32 \<Rightarrow> u16 \<Rightarrow> bool \<Rightarrow> bool \<Rightarrow> bool \<Rightarrow> os_socket \<Rightarrow> bool" where
  "socket_at ip port broadcast reuseaddr signals s \<longleftrightarrow>
     os_addr s = \<lparr>sin_family = AF_INET, sin_port = port, sin_addr = ip\<rparr> \<and> os_broadcast s = broadcast \<and>
     os_reuseaddr s = reuseaddr \<and> os_signals s = signals"

definition router_sockets :: "router_sys \<Rightarrow> u32 \<Rightarrow> u16 \<Rightarrow> int \<Rightarrow> int \<Rightarrow> (int \<times> os_socket) list \<Rightarrow> bool" where
  "router_sockets sys encap udp_port shared private socks \<longleftrightarrow>
     (if encap = ENCAP_TYPE_PCAP then
        \<exists>p s. ry_bind sys False \<lparr>sin_family = AF_INET, sin_port = htons 0, sin_addr = INADDR_LOOPBACK\<rparr> = Some p \<and>
          socks = [(private, s)] \<and> socket_at INADDR_LOOPBACK p False False False s
      else if encap = ENCAP_TYPE_DOSBOX then
        \<exists>p s. ry_bind sys False \<lparr>sin_family = AF_INET, sin_port = htons 0, sin_addr = HTONL_INADDR_ANY\<rparr> = Some p \<and>
          socks = [(private, s)] \<and> socket_at HTONL_INADDR_ANY p False False True s
      else
        \<exists>p p' s s'. ry_bind sys True \<lparr>sin_family = AF_INET, sin_port = htons udp_port, sin_addr = HTONL_INADDR_ANY\<rparr> = Some p \<and>
          ry_bind sys False \<lparr>sin_family = AF_INET, sin_port = htons 0, sin_addr = HTONL_INADDR_ANY\<rparr> = Some p' \<and>
          socks = [(shared, s), (private, s')] \<and>
          socket_at HTONL_INADDR_ANY p (ry_opt sys True SO_BROADCAST) (ry_opt sys True SO_REUSEADDR) True s \<and>
          socket_at HTONL_INADDR_ANY p' (ry_opt sys False SO_BROADCAST) False True s')"

lemma open_sockets_Some:
  assumes "open_sockets sys st = Some st'" and "p_os_sockets st = []"
  shows "router_sockets sys (ipx_encap_type (g_ifaces st)) (mc_udp_port (p_config st)) (shared_socket st') (private_socket st')
      (p_os_sockets st') \<and>
    private_socket st' = ry_socket sys False \<and> (\<forall>s \<in> set (p_os_sockets st'). fst s \<noteq> -1) \<and>
    shared_socket st' = (if ipx_encap_type (g_ifaces st) \<in> {ENCAP_TYPE_PCAP, ENCAP_TYPE_DOSBOX} then shared_socket st
                         else ry_socket sys True) \<and>
    p_events st' = p_events st @ (if ipx_encap_type (g_ifaces st) = ENCAP_TYPE_DOSBOX then [ry_ready_event sys] else []) \<and>
    dosbox_ready_event st' = (if ipx_encap_type (g_ifaces st) = ENCAP_TYPE_DOSBOX then ry_ready_event sys else dosbox_ready_event st) \<and>
    g_ifaces st' = g_ifaces st \<and> p_threads st' = p_threads st \<and> router_event st' = router_event st \<and>
    prof_thread_exit st' = prof_thread_exit st \<and> prof_thread_handle st' = prof_thread_handle st \<and> p_wsa st' = p_wsa st \<and>
    p_config st' = p_config st \<and> p_dlls st' = p_dlls st \<and> g_hosts st' = g_hosts st"
proof (cases "ipx_encap_type (g_ifaces st) = ENCAP_TYPE_PCAP \<or> ipx_encap_type (g_ifaces st) = ENCAP_TYPE_DOSBOX")
  case True
  with assms show ?thesis
    by (auto simp: open_sockets_def router_sockets_def socket_at_def init_loopback_socket_def Let_def new_os_socket_def
        config_codes split: if_splits option.splits dest!: init_socket_Some)
next
  case False
  then obtain sock st1 sock2 st2 where i: "init_socket sys True (mc_udp_port (p_config st)) True True st = Some (sock, st1)"
      "init_socket sys False 0 True False (st1\<lparr>shared_socket := sock\<rparr>) = Some (sock2, st2)" "st' = st2\<lparr>private_socket := sock2\<rparr>"
    using assms(1) by (auto simp: open_sockets_def Option.bind_eq_Some_conv)
  with False assms(2) init_socket_Some [OF i(1)] init_socket_Some [OF i(2)] show ?thesis
    by (auto simp: router_sockets_def socket_at_def)
qed

lemma router_init_Some:
  assumes "router_init sys st = Some st'"
  shows "\<exists>st1. open_sockets sys (st\<lparr>router_event := ry_event sys, p_events := p_events st @ [ry_event sys]\<rparr>) = Some st1 \<and>
    ry_event sys \<noteq> 0 \<and> ry_thread sys \<noteq> 0 \<and>
    st' = st1\<lparr>private_port := (case map_of (p_os_sockets st1) (private_socket st1) of
        Some s \<Rightarrow> if ry_name sys then sin_port (os_addr s) else private_port st1 | None \<Rightarrow> private_port st1),
      router_running := True, router_thread := ry_thread sys, p_threads := p_threads st1 @ [ry_thread sys]\<rparr>"
  using assms by (auto simp: router_init_def Option.bind_eq_Some_conv Let_def split: if_splits option.splits)

text \<open>
  C30. The router starts with exactly the sockets its encapsulation needs. Over IP: the shared one on
  the configured UDP port of every address, which others may share and which may broadcast, and the
  private one on a port of its own; for DOSBox only the private one, without broadcasts; with WinPcap
  only a private one that nothing but this host can reach. The private port it tells the others is
  that of the private socket.
\<close>

theorem router_init_sockets:
  assumes i: "router_init sys st = Some st'" and "p_os_sockets st = []" and d: "ry_socket sys True \<noteq> ry_socket sys False"
  shows "router_sockets sys (ipx_encap_type (g_ifaces st)) (mc_udp_port (p_config st)) (shared_socket st') (private_socket st')
      (p_os_sockets st') \<and>
    (ry_name sys \<longrightarrow> (\<exists>s. map_of (p_os_sockets st') (private_socket st') = Some s \<and> private_port st' = sin_port (os_addr s))) \<and>
    router_running st' \<and> router_thread st' \<in> set (p_threads st')"
proof -
  obtain st1 where o: "open_sockets sys (st\<lparr>router_event := ry_event sys, p_events := p_events st @ [ry_event sys]\<rparr>) = Some st1"
    and st': "st' = st1\<lparr>private_port := (case map_of (p_os_sockets st1) (private_socket st1) of
        Some s \<Rightarrow> if ry_name sys then sin_port (os_addr s) else private_port st1 | None \<Rightarrow> private_port st1),
      router_running := True, router_thread := ry_thread sys, p_threads := p_threads st1 @ [ry_thread sys]\<rparr>"
    using router_init_Some [OF i] by blast
  note s = open_sockets_Some [OF o, simplified, OF assms(2)]
  then have "\<exists>s. map_of (p_os_sockets st1) (private_socket st1) = Some s"
    using d by (auto simp: router_sockets_def split: if_splits)
  with s show ?thesis by (auto simp: st')
qed

subsection \<open>Loading and unloading\<close>

text \<open>What a process holds of the system, and a process that has not loaded the library yet.\<close>

definition resources where
  "resources st =
     (p_os_sockets st, p_events st, p_threads st, router_event st, router_thread st, shared_socket st, private_socket st,
      prof_thread_exit st, prof_thread_handle st, p_wsa st)"

definition unloaded :: "('w, 's) process \<Rightarrow> bool" where
  "unloaded st \<longleftrightarrow> resources st = ([], [], [], 0, 0, -1, -1, 0, 0, 0)"

lemma coalesce_flush_more: "coalesce_flush cfg key st = Some st' \<Longrightarrow> coalesce_state.more st' = coalesce_state.more st"
  by (auto simp: coalesce_flush_def co_update_def udp_sendto_def count_send_udp_def Let_def split: option.splits if_splits)

lemma coalesce_flush_all_more: "coalesce_flush_all cfg st = Some st' \<Longrightarrow> coalesce_state.more st' = coalesce_state.more st"
proof (induction "length (co_pending st)" arbitrary: st rule: less_induct)
  case less
  show ?case
  proof (cases "co_pending st")
    case Nil
    with less.prems show ?thesis by (simp add: coalesce_flush_all.simps [of cfg st])
  next
    case (Cons key ps)
    with less.prems obtain st1 where f: "coalesce_flush cfg key st = Some st1" "coalesce_flush_all cfg st1 = Some st'"
      by (auto simp: coalesce_flush_all.simps [of cfg st] split: option.splits)
    from less.hyps [OF _ f(2)] coalesce_flush_pending [OF f(1)] coalesce_flush_more [OF f(1)] Cons show ?thesis by simp
  qed
qed

lemma coalesce_cleanup_more:
  assumes "coalesce_cleanup cfg st = Some st'"
  shows "coalesce_state.more st' = coalesce_state.more st"
proof -
  obtain st1 where f: "coalesce_flush_all cfg st = Some st1" "st' = fold (\<lambda>key st. co_delete st key) (co_keys st1) st1"
    using assms by (auto simp: coalesce_cleanup_def split: option.splits)
  have "coalesce_state.more (fold (\<lambda>key st. co_delete st key) ks st1) = coalesce_state.more st1" for ks
    by (induction ks rule: rev_induct) (simp_all add: co_delete_def)
  with f coalesce_flush_all_more show ?thesis by metis
qed

lemma process_more_eq:
  fixes st st' :: "('w, 's) process"
  assumes "coalesce_state.more st' = coalesce_state.more st"
  shows "resources st' = resources st" "g_ifaces st' = g_ifaces st" "g_hosts st' = g_hosts st" "p_dlls st' = p_dlls st"
    "dosbox_ready_event st' = dosbox_ready_event st"
  using assms by (cases st; cases st'; simp add: resources_def)+

text \<open>What the library holds while it is loaded.\<close>

lemma attach_resources:
  assumes a: "process_attach env sys st = Some (True, st')" and u: "unloaded st"
    and d: "ry_socket (dm_router sys) True \<noteq> ry_socket (dm_router sys) False"
  shows "\<exists>prof pt. p_events st' = [ry_event (dm_router sys)] @
      (if ipx_encap_type (g_ifaces st') = ENCAP_TYPE_DOSBOX then [dosbox_ready_event st'] else []) @
      (if prof then [dm_prof_event sys] else []) \<and>
    p_threads st' = ry_thread (dm_router sys) # (if pt then [dm_prof_thread sys] else []) \<and>
    router_event st' = ry_event (dm_router sys) \<and> router_thread st' = ry_thread (dm_router sys) \<and>
    prof_thread_exit st' = (if prof then dm_prof_event sys else 0) \<and> (prof \<longrightarrow> dm_prof_event sys \<noteq> 0) \<and>
    prof_thread_handle st' = (if pt then dm_prof_thread sys else 0) \<and> (pt \<longrightarrow> prof \<and> dm_prof_thread sys \<noteq> 0) \<and>
    p_wsa st' = 1 \<and> router_event st' \<noteq> 0 \<and>
    (\<forall>s \<in> set (p_os_sockets st'). fst s \<noteq> -1 \<and> fst s \<in> {private_socket st', shared_socket st'})"
proof -
  obtain st1 st2 where r: "router_init (dm_router sys) st1 = Some st2" and st': "st' = start_profiler sys st2"
    and st1: "p_os_sockets st1 = []" "p_events st1 = []" "p_threads st1 = []" "p_wsa st1 = 1" "shared_socket st1 = -1"
      "prof_thread_exit st1 = 0" "prof_thread_handle st1 = 0"
    using a u
    by (auto simp: process_attach_def load_process_config_def Option.bind_eq_Some_conv unloaded_def resources_def Let_def
        split: if_splits option.splits)
  obtain st3 where o: "open_sockets (dm_router sys)
      (st1\<lparr>router_event := ry_event (dm_router sys), p_events := p_events st1 @ [ry_event (dm_router sys)]\<rparr>) = Some st3"
    and e: "ry_event (dm_router sys) \<noteq> 0"
    and st2: "st2 = st3\<lparr>private_port := private_port st2, router_running := True, router_thread := ry_thread (dm_router sys),
      p_threads := p_threads st3 @ [ry_thread (dm_router sys)]\<rparr>"
    using router_init_Some [OF r] by force
  note s = open_sockets_Some [OF o, simplified, OF st1(1)]
  have res2: "p_events st2 = [ry_event (dm_router sys)] @
      (if ipx_encap_type (g_ifaces st2) = ENCAP_TYPE_DOSBOX then [dosbox_ready_event st2] else [])"
    "p_threads st2 = [ry_thread (dm_router sys)]" "router_event st2 = ry_event (dm_router sys)"
    "router_thread st2 = ry_thread (dm_router sys)" "p_wsa st2 = 1" "prof_thread_exit st2 = 0" "prof_thread_handle st2 = 0"
    using s st1 by (subst st2; auto)+
  have "\<forall>x \<in> set (p_os_sockets st3). fst x \<noteq> -1 \<and> fst x \<in> {private_socket st3, shared_socket st3}"
    using s by (auto simp: router_sockets_def split: if_splits)
  then have socks: "\<forall>x \<in> set (p_os_sockets st2). fst x \<noteq> -1 \<and> fst x \<in> {private_socket st2, shared_socket st2}"
    by (subst (1 2 3) st2) simp
  show ?thesis
    using res2 socks e
    by (intro exI [of _ "prof_thread_exit st' \<noteq> 0"] exI [of _ "prof_thread_handle st' \<noteq> 0"])
      (auto simp: st' start_profiler_def Let_def)
qed

lemma stop_profiler_resources:
  "resources (stop_profiler st) =
     (p_os_sockets st, if prof_thread_exit st = 0 then p_events st else remove1 (prof_thread_exit st) (p_events st),
      if prof_thread_exit st = 0 \<or> prof_thread_handle st = 0 then p_threads st else remove1 (prof_thread_handle st) (p_threads st),
      router_event st, router_thread st, shared_socket st, private_socket st, 0,
      if prof_thread_exit st = 0 then prof_thread_handle st else 0, p_wsa st)"
  by (simp add: stop_profiler_def resources_def Let_def)

lemma stop_profiler_keeps [simp]:
  "g_ifaces (stop_profiler st) = g_ifaces st" "p_dlls (stop_profiler st) = p_dlls st"
  "dosbox_ready_event (stop_profiler st) = dosbox_ready_event st"
  by (simp_all add: stop_profiler_def Let_def)

lemma router_cleanup_resources:
  assumes c: "coalesce_cleanup cfg ((others (st\<lparr>router_running := False\<rparr>))\<lparr>p_threads := remove1 (router_thread st) (p_threads st),
      router_thread := 0\<rparr>) = Some st1"
    and keep: "resources (others (st\<lparr>router_running := False\<rparr>)) = resources st" and ev: "router_event st \<noteq> 0"
    and socks: "\<forall>s \<in> set (p_os_sockets st). fst s \<noteq> -1 \<and> fst s \<in> {private_socket st, shared_socket st}"
  shows "\<exists>st'. router_cleanup cfg others st = Some st' \<and>
    resources st' = ([], remove1 (router_event st) (p_events st), remove1 (router_thread st) (p_threads st), 0, 0, -1, -1,
      prof_thread_exit st, prof_thread_handle st, p_wsa st) \<and>
    n_sent st' = n_sent st1 \<and> co_pending st' = co_pending st1 \<and> co_table st' = co_table st1 \<and> p_dlls st' = p_dlls st1"
proof -
  let ?s = "(others (st\<lparr>router_running := False\<rparr>))\<lparr>p_threads := remove1 (router_thread st) (p_threads st), router_thread := 0\<rparr>"
  note k = process_more_eq(1) [OF coalesce_cleanup_more [OF c]]
  have r: "p_os_sockets st1 = p_os_sockets st" "p_events st1 = p_events st" "p_threads st1 = remove1 (router_thread st) (p_threads st)"
    "router_event st1 = router_event st" "router_thread st1 = 0" "shared_socket st1 = shared_socket st"
    "private_socket st1 = private_socket st" "prof_thread_exit st1 = prof_thread_exit st" "prof_thread_handle st1 = prof_thread_handle st"
    "p_wsa st1 = p_wsa st"
    using k keep by (simp_all add: resources_def)
  have t: "router_thread (others (st\<lparr>router_running := False\<rparr>)) = router_thread st"
    "p_threads (others (st\<lparr>router_running := False\<rparr>)) = p_threads st"
    using keep by (simp_all add: resources_def)
  have e: "filter (\<lambda>s. fst s \<noteq> a) (filter (\<lambda>s. fst s \<noteq> b) l) = filter (\<lambda>s. fst s \<noteq> a \<and> fst s \<noteq> b) l" for a b and l :: "(int \<times> os_socket) list"
    by (auto intro: filter_cong)
  have n: "\<forall>a b. (a, b) \<notin> set l \<Longrightarrow> l = []" for l :: "(int \<times> os_socket) list" by (cases l) auto
  have "router_cleanup cfg others st =
      Some (let st = (if private_socket st1 \<noteq> -1 then (close_os_socket (private_socket st1) st1)\<lparr>private_socket := -1\<rparr> else st1);
                st = (if shared_socket st \<noteq> -1 then (close_os_socket (shared_socket st) st)\<lparr>shared_socket := -1\<rparr> else st)
            in if router_event st \<noteq> 0 then st\<lparr>p_events := remove1 (router_event st) (p_events st), router_event := 0\<rparr> else st)"
    using c t by (simp add: router_cleanup_def Let_def)
  then show ?thesis
    using socks r ev by (auto simp: close_os_socket_def resources_def Let_def filter_empty_conv intro: n)
qed



subsection \<open>The configuration file\<close>

lemma load_config_beside:
  assumes "\<And>n. dm_malloc sys n" and "dm_exe sys = dir @ [BACKSLASH] @ name" "BACKSLASH \<notin> set name" "length (dm_exe sys) < 2 ^ 30"
    and "dm_file sys (dir @ [BACKSLASH] @ ''ipxwrapper.ini'') = Some file"
  shows "load_process_config env sys st = Some (st\<lparr>p_config := process_ini (dm_strdup sys) (ini_directives file) default_config,
    g_ifaces := (g_ifaces st)\<lparr>ipx_encap_type := mc_encap_type (process_ini (dm_strdup sys) (ini_directives file) default_config)\<rparr>\<rparr>)"
proof -
  have "get_module_relative_path (dm_malloc sys) (dm_exe sys) ''ipxwrapper.ini'' = Some (Some (dir @ [BACKSLASH] @ ''ipxwrapper.ini''))"
    unfolding assms(2) by (rule module_relative_path) (use assms(1-4) in simp_all)
  with assms(5) show ?thesis by (simp add: load_process_config_def get_main_config_def load_ini_directives)
qed

text \<open>
  C28. The library takes its settings from the file beside the program: when the file
  \<open>ipxwrapper.ini\<close> in the directory of the executable writes out directives, the process runs with
  precisely the settings these directives make of the defaults, and with the encapsulation they choose.
\<close>

theorem ini_file_configures:
  assumes "\<And>n. dm_malloc sys n" and "dm_exe sys = dir @ [BACKSLASH] @ name" "BACKSLASH \<notin> set name" "length (dm_exe sys) < 2 ^ 30"
    and "dm_file sys (dir @ [BACKSLASH] @ ''ipxwrapper.ini'') = Some (ini_print ds)" and "list_all ini_printable ds"
  shows "load_process_config env sys st = Some (st\<lparr>p_config := process_ini (dm_strdup sys) ds default_config,
    g_ifaces := (g_ifaces st)\<lparr>ipx_encap_type := mc_encap_type (process_ini (dm_strdup sys) ds default_config)\<rparr>\<rparr>)"
  using load_config_beside [OF assms(1-5)] ini_directives_print [OF assms(6)] by simp

subsection \<open>An example\<close>

text \<open>A program that connects to a DOSBox server.\<close>

definition sample_directives :: "directive list" where
  "sample_directives = [([], ''dosbox server address'', ''ipx.example'')]"

lemma sample_directives_printable: "list_all ini_printable sample_directives"
  by (simp add: sample_directives_def ini_printable_def ini_text_def ini_trimmed_def is_space_def NUL_def NEWLINE_def
      MAX_SECTION_def INI_MAX_LINE_def)

definition sample_rsys :: router_sys where
  "sample_rsys =
     \<lparr>ry_event = 11, ry_ready_event = 12, ry_socket = (\<lambda>shared. if shared then 3 else 5), ry_opt = (\<lambda>_ _. True),
      ry_bind = (\<lambda>_ a. Some (if sin_port a = 0 then htons 6000 else sin_port a)), ry_select = (\<lambda>_. True), ry_default_buf = 8192,
      ry_name = True, ry_thread = 21\<rparr>"

definition sample_dm :: dll_main_sys where
  "sample_dm =
     \<lparr>dm_freq = Some 10000000, dm_exe = ''C:'' @ [BACKSLASH] @ ''game.exe'', dm_file = (\<lambda>_. Some (ini_print sample_directives)),
      dm_malloc = (\<lambda>_. True), dm_strdup = (\<lambda>_. True), dm_reg_malloc = True, dm_reg_strdup = True, dm_windows = ''C:'',
      dm_cs = (\<lambda>_. True), dm_now = 105, dm_now' = 105, dm_wsa = 0, dm_router = sample_rsys, dm_prof_event = 13, dm_prof_thread = 22\<rparr>"

definition sample_process :: "(unit, nat) process" where
  "sample_process = wstate.extend (sample_w ENCAP_TYPE_IPXWRAPPER)
     \<lparr>p_os_sockets = [], p_events = [], p_threads = [], router_running = False, router_event = 0, router_thread = 0,
      shared_socket = -1, private_socket = -1, private_port = 0, dosbox_ready_event = 0, perf_counter_freq = 0,
      p_config = default_config, p_system_root = None, p_sockets_cs = False, p_wsa = 0, prof_thread_exit = 0,
      prof_thread_handle = 0, p_log_open = False, p_dlls = dll_start, p_kernel32 = 0\<rparr>"

lemma sample_process_sel [simp]:
  "p_os_sockets sample_process = []" "p_events sample_process = []" "p_threads sample_process = []" "router_event sample_process = 0"
  "router_thread sample_process = 0" "shared_socket sample_process = -1" "private_socket sample_process = -1" "p_wsa sample_process = 0"
  "prof_thread_exit sample_process = 0" "prof_thread_handle sample_process = 0" "p_dlls sample_process = dll_start"
  "co_table sample_process = co_table (sample_w ENCAP_TYPE_IPXWRAPPER)"
  "co_pending sample_process = co_pending (sample_w ENCAP_TYPE_IPXWRAPPER)"
  "ipx_encap_type (g_ifaces sample_process) = ENCAP_TYPE_IPXWRAPPER" "p_config sample_process = default_config"
  by (simp_all add: sample_process_def wstate.extend_def sample_w_def gstate.extend_def sample_g_def coalesce_state.extend_def)

theorem router_init_sockets_witness:
  "\<exists>st'. router_init sample_rsys sample_process = Some st' \<and>
     router_sockets sample_rsys ENCAP_TYPE_IPXWRAPPER DEFAULT_PORT (shared_socket st') (private_socket st') (p_os_sockets st') \<and>
     private_port st' = htons 6000"
proof -
  obtain st' where i: "router_init sample_rsys sample_process = Some st'" "private_port st' = htons 6000"
    by (simp add: router_init_def open_sockets_def init_socket_def sample_rsys_def Let_def config_codes default_config_def htons_def
        DEFAULT_PORT_def)
  from router_init_sockets [OF i(1)] i show ?thesis by (simp add: sample_rsys_def default_config_def)
qed

theorem ini_file_configures_witness:
  "\<exists>st'. load_process_config sample_env sample_dm sample_process = Some st' \<and>
     mc_dosbox_server_addr (p_config st') = Some ''ipx.example'' \<and> ipx_encap_type (g_ifaces st') = ENCAP_TYPE_DOSBOX"
  using ini_file_configures [of sample_dm "''C:''" "''game.exe''" sample_directives sample_env sample_process] sample_directives_printable
  by (simp add: sample_dm_def BACKSLASH_def) (simp add: sample_directives_def process_ini_def process_ini_directive_def)

lemma co_rep_empty: "co_table st = [] \<Longrightarrow> co_pending st = [] \<Longrightarrow> co_rep cfg (\<lambda>_. []) st"
  by (simp add: co_rep_def co_find_def co_keys_def hash_find_def)

lemma sample_router_init:
  assumes "ipx_encap_type (g_ifaces st) = ENCAP_TYPE_DOSBOX"
  shows "\<exists>st'. router_init sample_rsys st = Some st' \<and> dosbox_ready_event st' = 12 \<and> g_ifaces st' = g_ifaces st \<and>
    p_dlls st' = p_dlls st \<and> co_table st' = co_table st \<and> co_pending st' = co_pending st \<and> p_config st' = p_config st"
proof -
  have "ENCAP_TYPE_DOSBOX \<noteq> ENCAP_TYPE_PCAP" by (simp add: config_codes)
  with assms show ?thesis
    by (simp add: router_init_def open_sockets_def init_socket_def sample_rsys_def Let_def split: option.splits)
qed

lemma sample_config_loaded:
  "load_process_config sample_env sample_dm st =
     Some (st\<lparr>p_config := default_config\<lparr>mc_dosbox_server_addr := Some ''ipx.example'', mc_encap_type := ENCAP_TYPE_DOSBOX\<rparr>,
              g_ifaces := (g_ifaces st)\<lparr>ipx_encap_type := ENCAP_TYPE_DOSBOX\<rparr>\<rparr>)"
proof -
  let ?c = "default_config\<lparr>mc_dosbox_server_addr := Some ''ipx.example'', mc_encap_type := ENCAP_TYPE_DOSBOX\<rparr>"
  have c: "process_ini (dm_strdup sample_dm) (ini_directives (ini_print sample_directives)) default_config = ?c"
    by (subst ini_directives_print [OF sample_directives_printable])
      (simp add: sample_directives_def process_ini_def process_ini_directive_def sample_dm_def)
  show ?thesis
    using load_config_beside [of sample_dm "''C:''" "''game.exe''" "ini_print sample_directives" sample_env st]
    unfolding c by (simp add: sample_dm_def BACKSLASH_def)
qed

lemma sample_attach:
  "\<exists>st1. process_attach sample_env sample_dm sample_process = Some (True, st1) \<and> dosbox_ready_event st1 = 12 \<and>
     ipx_encap_type (g_ifaces st1) = ENCAP_TYPE_DOSBOX \<and> p_dlls st1 = dll_start \<and> co_table st1 = [] \<and> co_pending st1 = []"
proof -
  let ?c = "default_config\<lparr>mc_dosbox_server_addr := Some ''ipx.example'', mc_encap_type := ENCAP_TYPE_DOSBOX\<rparr>"
  let ?r = "if p_system_root sample_process = None then Some ''C:'' else p_system_root sample_process"
  let ?i = "(g_ifaces sample_process)\<lparr>ipx_encap_type := ENCAP_TYPE_DOSBOX, interface_cache := [], interface_cache_ctime := 0\<rparr>"
  let ?st = "sample_process\<lparr>perf_counter_freq := 10000000, p_log_open := True, p_config := ?c, p_system_root := ?r, g_hosts := [],
    g_ifaces := ?i, p_sockets_cs := True, p_wsa := 1\<rparr>"
  obtain st' where r: "router_init sample_rsys ?st = Some st'" "dosbox_ready_event st' = 12" "g_ifaces st' = ?i"
      "p_dlls st' = dll_start" "co_table st' = co_table sample_process" "co_pending st' = co_pending sample_process" "p_config st' = ?c"
    using sample_router_init [of ?st] by auto
  have e: "co_table (sample_w ENCAP_TYPE_IPXWRAPPER) = []" "co_pending (sample_w ENCAP_TYPE_IPXWRAPPER) = []"
    by (simp_all add: sample_w_def gstate.extend_def sample_g_def coalesce_state.extend_def co_init_def netstate.extend_def)
  have s: "dm_freq sample_dm = Some 10000000" "dm_cs sample_dm i" "dm_wsa sample_dm = 0" "dm_router sample_dm = sample_rsys"
    "dm_windows sample_dm = ''C:''" for i by (simp_all add: sample_dm_def)
  have nd: "ENCAP_TYPE_DOSBOX \<noteq> ENCAP_TYPE_PCAP" "ENCAP_TYPE_DOSBOX \<noteq> ENCAP_TYPE_IPXWRAPPER" by (simp_all add: config_codes)
  have sysroot: "p_system_root sample_process = None" by (simp add: sample_process_def wstate.extend_def)
  have "process_attach sample_env sample_dm sample_process = Some (True, start_profiler sample_dm st')"
    using r(1) by (simp add: process_attach_def s sample_config_loaded Let_def ipx_interfaces_init_def nd sysroot)
  moreover have "start_profiler sample_dm st' = st'" using r(7) by (simp add: start_profiler_def default_config_def)
  ultimately show ?thesis using r e by simp
qed


end
