(* ===== verification/Linked.thy ===== *)
theory Linked
  imports Main
begin

text \<open>
  Doubly linked lists in memory, for the macros of uthash.h and utlist.h. Addresses are natural
  numbers, \<open>None\<close> is \<open>NULL\<close>. A stretch of such a list is described by the addresses in order, the
  pointer that precedes its first element and the one that follows its last.
\<close>

type_synonym ref = "nat option"

definition first_of :: "nat list \<Rightarrow> ref \<Rightarrow> ref" where
  "first_of xs q = (if xs = [] then q else Some (hd xs))"

definition last_of :: "ref \<Rightarrow> nat list \<Rightarrow> ref" where
  "last_of p xs = (if xs = [] then p else Some (last xs))"

primrec dseg :: "(nat \<Rightarrow> ref) \<Rightarrow> (nat \<Rightarrow> ref) \<Rightarrow> ref \<Rightarrow> nat list \<Rightarrow> ref \<Rightarrow> bool" where
  "dseg nx pv p [] q \<longleftrightarrow> True"
| "dseg nx pv p (x # xs) q \<longleftrightarrow> pv x = p \<and> nx x = first_of xs q \<and> dseg nx pv (Some x) xs q"

lemma first_of_simps [simp]: "first_of [] q = q" "first_of (x # xs) q = Some x"
  by (simp_all add: first_of_def)

lemma last_of_simps [simp]: "last_of p [] = p" "last_of p (xs @ [x]) = Some x" "last_of p (x # xs) = last_of (Some x) xs"
  by (simp_all add: last_of_def)

lemma first_of_append [simp]: "first_of (xs @ ys) q = first_of xs (first_of ys q)"
  by (simp add: first_of_def)

lemma last_of_append [simp]: "last_of p (xs @ ys) = last_of (last_of p xs) ys"
  by (simp add: last_of_def)

lemma dseg_append [simp]:
  "dseg nx pv p (xs @ ys) q \<longleftrightarrow> dseg nx pv p xs (first_of ys q) \<and> dseg nx pv (last_of p xs) ys q"
  by (induction xs arbitrary: p) auto

text \<open>What is not part of the list may change.\<close>

lemma dseg_cong:
  "(\<And>x. x \<in> set xs \<Longrightarrow> nx' x = nx x) \<Longrightarrow> (\<And>x. x \<in> set xs \<Longrightarrow> pv' x = pv x) \<Longrightarrow>
     dseg nx' pv' p xs q = dseg nx pv p xs q"
  by (induction xs arbitrary: p) auto

lemma dseg_next:
  assumes "dseg nx pv p (xs @ [x]) q" and "x \<notin> set xs"
  shows "dseg (nx(x := q')) pv p (xs @ [x]) q'"
proof -
  have "dseg (nx(x := q')) pv p xs (Some x) = dseg nx pv p xs (Some x)"
    by (rule dseg_cong) (use assms(2) in auto)
  with assms(1) show ?thesis by simp
qed

lemma dseg_prev:
  assumes "dseg nx pv p (x # xs) q" and "x \<notin> set xs"
  shows "dseg nx (pv(x := p')) p' (x # xs) q"
proof -
  have "dseg nx (pv(x := p')) (Some x) xs q = dseg nx pv (Some x) xs q"
    by (rule dseg_cong) (use assms(2) in auto)
  with assms(1) show ?thesis by simp
qed

text \<open>The three changes of pointers: linking at the end, linking at the front, and unlinking.\<close>

lemma dseg_snoc:
  assumes "dseg nx pv p xs q" and "distinct (xs @ [e])"
    and "\<And>x. x \<in> set xs \<Longrightarrow> nx' x = (if Some x = last_of None xs then Some e else nx x)" and "nx' e = q'"
    and "\<And>x. x \<in> set xs \<Longrightarrow> pv' x = pv x" and "pv' e = last_of p xs"
  shows "dseg nx' pv' p (xs @ [e]) q'"
proof (cases xs rule: rev_cases)
  case Nil
  with assms show ?thesis by simp
next
  case (snoc ys y)
  have "dseg nx' pv' p ys (Some y) = dseg nx pv p ys (Some y)"
    by (rule dseg_cong) (use assms(2,3,5) snoc in auto)
  with assms snoc show ?thesis by simp
qed

lemma dseg_Cons:
  assumes "dseg nx pv None xs q" and "distinct (e # xs)"
    and "\<And>x. x \<in> set xs \<Longrightarrow> pv' x = (if Some x = first_of xs None then Some e else pv x)" and "pv' e = None"
    and "\<And>x. x \<in> set xs \<Longrightarrow> nx' x = nx x" and "nx' e = first_of xs q"
  shows "dseg nx' pv' None (e # xs) q"
proof (cases xs)
  case Nil
  with assms show ?thesis by simp
next
  case (Cons y ys)
  have "dseg nx' pv' (Some y) ys q = dseg nx pv (Some y) ys q"
    by (rule dseg_cong) (use assms(2,3,5) Cons in auto)
  with assms Cons show ?thesis by simp
qed

lemma dseg_unlink:
  assumes d: "dseg nx pv p (xs @ x # ys) q" and dis: "distinct (xs @ x # ys)"
    and nx: "\<And>y. y \<in> set (xs @ ys) \<Longrightarrow> nx' y = (if Some y = last_of None xs then nx x else nx y)"
    and pv: "\<And>y. y \<in> set (xs @ ys) \<Longrightarrow> pv' y = (if Some y = first_of ys None then pv x else pv y)"
  shows "dseg nx' pv' p (xs @ ys) q"
proof -
  have nxx: "nx x = first_of ys q" and pvx: "pv x = last_of p xs" using d by simp_all
  have "dseg nx' pv' p xs (first_of ys q)"
  proof (cases xs rule: rev_cases)
    case (snoc zs z)
    have "dseg nx' pv' p zs (Some z) = dseg nx pv p zs (Some z)"
    proof (rule dseg_cong)
      fix a assume a: "a \<in> set zs"
      show "nx' a = nx a" using nx [of a] a dis snoc by auto
      show "pv' a = pv a" using pv [of a] a dis snoc by (cases ys) auto
    qed
    moreover have "nx' z = first_of ys q" using nx [of z] snoc nxx by simp
    moreover have "pv' z = pv z" using pv [of z] dis snoc by (cases ys) auto
    ultimately show ?thesis using d snoc by simp
  qed simp
  moreover have "dseg nx' pv' (last_of p xs) ys q"
  proof (cases ys)
    case (Cons z zs)
    have "dseg nx' pv' (Some z) zs q = dseg nx pv (Some z) zs q"
    proof (rule dseg_cong)
      fix a assume a: "a \<in> set zs"
      show "nx' a = nx a" using nx [of a] a dis Cons by (cases xs rule: rev_cases) auto
      show "pv' a = pv a" using pv [of a] a dis Cons by auto
    qed
    moreover have "pv' z = last_of p xs" using pv [of z] Cons pvx by simp
    moreover have "nx' z = nx z" using nx [of z] dis Cons by (cases xs rule: rev_cases) auto
    ultimately show ?thesis using d Cons by simp
  qed simp
  ultimately show ?thesis by simp
qed

end
