(* ===== verification/Uthash.thy ===== *)
theory Uthash
  imports HashTable Linked "HOL-Library.Monad_Syntax"
begin

text \<open>
  The hash tables of uthash.h, which hold the sockets, the addresses of other hosts and the packets
  that wait to be coalesced: the macros the program uses over memory, with the bucket chains, the
  list in the order of insertion, the expansion of the table and Jenkins' hash function, and that they
  are the operations of \<open>HashTable\<close>. An element and its handle have the same address; there is one
  table at a time, reached through the head. \<open>None\<close> is an access through \<open>NULL\<close>, out of an array
  or a division by zero. An allocation succeeds: when it fails the macros end the process.
\<close>

record UT_hash_bucket =
  hh_head :: ref
  bkt_count :: u32
  expand_mult :: u32

record UT_hash_table =
  buckets :: "UT_hash_bucket list"
  num_buckets :: u32
  log2_num_buckets :: u32
  num_items :: u32
  tail :: nat
  ideal_chain_maxlen :: u32
  nonideal_items :: u32
  ineff_expands :: u32
  noexpand :: u32

text \<open>The handles in memory: the fields of the handle at each address.\<close>

record UT_hash_handles =
  h_prev :: "nat \<Rightarrow> ref"
  h_next :: "nat \<Rightarrow> ref"
  hh_prev :: "nat \<Rightarrow> ref"
  hh_next :: "nat \<Rightarrow> ref"
  h_key :: "nat \<Rightarrow> bytes"
  h_hashv :: "nat \<Rightarrow> u32"

record uthash =
  u_head :: ref
  u_tbl :: "UT_hash_table option"
  u_hh :: UT_hash_handles

definition HASH_INITIAL_NUM_BUCKETS :: nat where
  "HASH_INITIAL_NUM_BUCKETS = 32"

definition HASH_INITIAL_NUM_BUCKETS_LOG2 :: nat where
  "HASH_INITIAL_NUM_BUCKETS_LOG2 = 5"

definition HASH_BKT_CAPACITY_THRESH :: u32 where
  "HASH_BKT_CAPACITY_THRESH = 10"

subsection \<open>Jenkins' hash function\<close>

definition HASH_JEN_MIX :: "u32 \<times> u32 \<times> u32 \<Rightarrow> u32 \<times> u32 \<times> u32" where
  "HASH_JEN_MIX = (\<lambda>(a, b, c).
     let a = (a - b - c) XOR (drop_bit 13 c); b = (b - c - a) XOR (push_bit 8 a);
         c = (c - a - b) XOR (drop_bit 13 b); a = (a - b - c) XOR (drop_bit 12 c);
         b = (b - c - a) XOR (push_bit 16 a); c = (c - a - b) XOR (drop_bit 5 b);
         a = (a - b - c) XOR (drop_bit 3 c); b = (b - c - a) XOR (push_bit 10 a);
         c = (c - a - b) XOR (drop_bit 15 b)
     in (a, b, c))"

text \<open>The bytes of a key are \<open>char\<close>s, which are signed; each is shifted to its place in the word.\<close>

definition jen_byte :: "bytes \<Rightarrow> nat \<Rightarrow> nat \<Rightarrow> u32" where
  "jen_byte key n sh = (if n < length key then push_bit sh (scast (key ! n)) else 0)"

definition jen_word :: "bytes \<Rightarrow> nat \<Rightarrow> u32" where
  "jen_word key n = jen_byte key n 0 + jen_byte key (n + 1) 8 + jen_byte key (n + 2) 16 + jen_byte key (n + 3) 24"

text \<open>
  While twelve bytes are left they are added to the three words and mixed; the remaining ones are added
  by a \<open>switch\<close> that falls through, the length taking the lowest byte of the third word.
\<close>

function HASH_JEN_loop :: "bytes \<Rightarrow> u32 \<Rightarrow> u32 \<times> u32 \<times> u32 \<Rightarrow> u32" where
  "HASH_JEN_loop key keylen (i, j, hashv) =
     (if length key \<ge> 12
      then HASH_JEN_loop (drop 12 key) keylen (HASH_JEN_MIX (i + jen_word key 0, j + jen_word key 4, hashv + jen_word key 8))
      else
        let hashv = hashv + keylen;
            hashv = hashv + jen_byte key 10 24 + jen_byte key 9 16 + jen_byte key 8 8;
            j = j + jen_byte key 7 24 + jen_byte key 6 16 + jen_byte key 5 8 + jen_byte key 4 0;
            i = i + jen_byte key 3 24 + jen_byte key 2 16 + jen_byte key 1 8 + jen_byte key 0 0
        in snd (snd (HASH_JEN_MIX (i, j, hashv))))"
  by pat_completeness auto
termination by (relation "measure (\<lambda>(key, _, _). length key)") auto

definition HASH_JEN :: "bytes \<Rightarrow> u32" where
  "HASH_JEN key = HASH_JEN_loop key (of_nat (length key)) (0x9e3779b9, 0x9e3779b9, 0xfeedbeef)"

definition HASH_TO_BKT :: "u32 \<Rightarrow> u32 \<Rightarrow> u32" where
  "HASH_TO_BKT hashv num_bkts = hashv AND (num_bkts - 1)"

subsection \<open>Buckets\<close>

text \<open>The element goes to the front of a chain that begins at \<open>r\<close>.\<close>

definition link_front :: "nat \<Rightarrow> ref \<Rightarrow> UT_hash_handles \<Rightarrow> UT_hash_handles" where
  "link_front e r hh =
     (let hh = hh\<lparr>hh_next := (hh_next hh)(e := r), hh_prev := (hh_prev hh)(e := None)\<rparr>
      in case r of Some h \<Rightarrow> hh\<lparr>hh_prev := (hh_prev hh)(h := Some e)\<rparr> | None \<Rightarrow> hh)"

definition expand_one ::
  "nat \<Rightarrow> UT_hash_handles \<times> UT_hash_table \<times> UT_hash_bucket list \<Rightarrow> (UT_hash_handles \<times> UT_hash_table \<times> UT_hash_bucket list) option" where
  "expand_one e = (\<lambda>(hh, t, new_buckets).
     let b = unat (HASH_TO_BKT (h_hashv hh e) (num_buckets t * 2)) in
     if b \<ge> length new_buckets then None
     else
       let k = new_buckets ! b; k = k\<lparr>bkt_count := bkt_count k + 1\<rparr> in
       do {
         (t, k) \<leftarrow>
           (if bkt_count k > ideal_chain_maxlen t then
              if ideal_chain_maxlen t = 0 then None
              else Some (t\<lparr>nonideal_items := nonideal_items t + 1\<rparr>, k\<lparr>expand_mult := bkt_count k div ideal_chain_maxlen t\<rparr>)
            else Some (t, k));
         Some (link_front e (hh_head k) hh, t, new_buckets[b := k\<lparr>hh_head := Some e\<rparr>])
       })"

partial_function (option) expand_chain ::
  "ref \<Rightarrow> UT_hash_handles \<times> UT_hash_table \<times> UT_hash_bucket list \<Rightarrow> (UT_hash_handles \<times> UT_hash_table \<times> UT_hash_bucket list) option" where
  "expand_chain thh s =
     (case thh of
        None \<Rightarrow> Some s
      | Some e \<Rightarrow> let nxt = hh_next (fst s) e in do { s \<leftarrow> expand_one e s; expand_chain nxt s })"

primrec expand_loop ::
  "nat list \<Rightarrow> UT_hash_handles \<times> UT_hash_table \<times> UT_hash_bucket list \<Rightarrow> (UT_hash_handles \<times> UT_hash_table \<times> UT_hash_bucket list) option" where
  "expand_loop [] s = Some s"
| "expand_loop (i # is) s =
     (let t = fst (snd s) in
      if i \<ge> length (buckets t) then None
      else do { s \<leftarrow> expand_chain (hh_head (buckets t ! i)) s; expand_loop is s })"

definition empty_bucket :: UT_hash_bucket where
  "empty_bucket = \<lparr>hh_head = None, bkt_count = 0, expand_mult = 0\<rparr>"

definition HASH_EXPAND_BUCKETS :: "UT_hash_handles \<times> UT_hash_table \<Rightarrow> (UT_hash_handles \<times> UT_hash_table) option" where
  "HASH_EXPAND_BUCKETS = (\<lambda>(hh, t).
     let new_buckets = replicate (unat (2 * num_buckets t)) empty_bucket;
         t = t\<lparr>ideal_chain_maxlen := drop_bit (unat (log2_num_buckets t + 1)) (num_items t)
                 + (if num_items t AND (num_buckets t * 2 - 1) \<noteq> 0 then 1 else 0),
               nonideal_items := 0\<rparr>
     in do {
       (hh, t, new_buckets) \<leftarrow> expand_loop [0..<unat (num_buckets t)] (hh, t, new_buckets);
       let t = t\<lparr>num_buckets := num_buckets t * 2, log2_num_buckets := log2_num_buckets t + 1, buckets := new_buckets,
                 ineff_expands := (if nonideal_items t > drop_bit 1 (num_items t) then ineff_expands t + 1 else 0)\<rparr>;
       Some (hh, if ineff_expands t > 1 then t\<lparr>noexpand := 1\<rparr> else t)
     })"

definition HASH_ADD_TO_BKT :: "nat \<Rightarrow> nat \<Rightarrow> UT_hash_handles \<times> UT_hash_table \<Rightarrow> (UT_hash_handles \<times> UT_hash_table) option" where
  "HASH_ADD_TO_BKT b addhh = (\<lambda>(hh, t).
     if b \<ge> length (buckets t) then None
     else
       let k = buckets t ! b;
           k = k\<lparr>bkt_count := bkt_count k + 1\<rparr>;
           hh = link_front addhh (hh_head k) hh;
           k = k\<lparr>hh_head := Some addhh\<rparr>;
           t = t\<lparr>buckets := (buckets t)[b := k]\<rparr>
       in if bkt_count k \<ge> (expand_mult k + 1) * HASH_BKT_CAPACITY_THRESH \<and> noexpand t \<noteq> 1
          then HASH_EXPAND_BUCKETS (hh, t) else Some (hh, t))"

definition HASH_DEL_IN_BKT :: "nat \<Rightarrow> nat \<Rightarrow> UT_hash_handles \<times> UT_hash_table \<Rightarrow> (UT_hash_handles \<times> UT_hash_table) option" where
  "HASH_DEL_IN_BKT b e = (\<lambda>(hh, t).
     if b \<ge> length (buckets t) then None
     else
       let k = buckets t ! b;
           k = k\<lparr>bkt_count := bkt_count k - 1\<rparr>;
           k = (if hh_head k = Some e then k\<lparr>hh_head := hh_next hh e\<rparr> else k);
           hh = (case hh_prev hh e of Some p \<Rightarrow> hh\<lparr>hh_next := (hh_next hh)(p := hh_next hh e)\<rparr> | None \<Rightarrow> hh);
           hh = (case hh_next hh e of Some n \<Rightarrow> hh\<lparr>hh_prev := (hh_prev hh)(n := hh_prev hh e)\<rparr> | None \<Rightarrow> hh)
       in Some (hh, t\<lparr>buckets := (buckets t)[b := k]\<rparr>))"

partial_function (option) HASH_FIND_IN_BKT :: "UT_hash_handles \<Rightarrow> bytes \<Rightarrow> ref \<Rightarrow> ref option" where
  "HASH_FIND_IN_BKT hh key out =
     (case out of
        None \<Rightarrow> Some None
      | Some e \<Rightarrow>
          if length (h_key hh e) = length key \<and> h_key hh e = key then Some (Some e)
          else HASH_FIND_IN_BKT hh key (hh_next hh e))"

subsection \<open>The table\<close>

text \<open>The table is reached through the first element.\<close>

definition head_tbl :: "uthash \<Rightarrow> UT_hash_table option" where
  "head_tbl u = (case u_head u of Some _ \<Rightarrow> u_tbl u | None \<Rightarrow> None)"

definition HASH_FIND :: "bytes \<Rightarrow> uthash \<Rightarrow> ref option" where
  "HASH_FIND key u =
     (case u_head u of
        None \<Rightarrow> Some None
      | Some _ \<Rightarrow>
          do {
            t \<leftarrow> u_tbl u;
            let b = unat (HASH_TO_BKT (HASH_JEN key) (num_buckets t));
            if b \<ge> length (buckets t) then None else HASH_FIND_IN_BKT (u_hh u) key (hh_head (buckets t ! b))
          })"

definition HASH_MAKE_TABLE :: "nat \<Rightarrow> UT_hash_table" where
  "HASH_MAKE_TABLE e =
     \<lparr>buckets = replicate HASH_INITIAL_NUM_BUCKETS empty_bucket, num_buckets = of_nat HASH_INITIAL_NUM_BUCKETS,
      log2_num_buckets = of_nat HASH_INITIAL_NUM_BUCKETS_LOG2, num_items = 0, tail = e, ideal_chain_maxlen = 0,
      nonideal_items = 0, ineff_expands = 0, noexpand = 0\<rparr>"

definition HASH_ADD :: "bytes \<Rightarrow> nat \<Rightarrow> uthash \<Rightarrow> uthash option" where
  "HASH_ADD key e u =
     (let hh = u_hh u;
          hh = hh\<lparr>h_next := (h_next hh)(e := None), h_key := (h_key hh)(e := key)\<rparr>
      in do {
        (hd, hh, t) \<leftarrow>
          (case u_head u of
             None \<Rightarrow> Some (e, hh\<lparr>h_prev := (h_prev hh)(e := None)\<rparr>, HASH_MAKE_TABLE e)
           | Some h \<Rightarrow>
               do {
                 t \<leftarrow> u_tbl u;
                 Some (h, hh\<lparr>h_next := (h_next hh)(tail t := Some e), h_prev := (h_prev hh)(e := Some (tail t))\<rparr>,
                       t\<lparr>tail := e\<rparr>)
               });
        let t = t\<lparr>num_items := num_items t + 1\<rparr>;
        let hashv = HASH_JEN key;
        let hh = hh\<lparr>h_hashv := (h_hashv hh)(e := hashv)\<rparr>;
        (hh, t) \<leftarrow> HASH_ADD_TO_BKT (unat (HASH_TO_BKT hashv (num_buckets t))) e (hh, t);
        Some \<lparr>u_head = Some hd, u_tbl = Some t, u_hh = hh\<rparr>
      })"

definition HASH_DELETE :: "nat \<Rightarrow> uthash \<Rightarrow> uthash option" where
  "HASH_DELETE e u =
     do {
       t \<leftarrow> head_tbl u;
       let hh = u_hh u;
       if h_prev hh e = None \<and> h_next hh e = None then Some (u\<lparr>u_head := None, u_tbl := None\<rparr>)
       else do {
         t \<leftarrow> (if e = tail t then do { p \<leftarrow> h_prev hh e; Some (t\<lparr>tail := p\<rparr>) } else Some t);
         let (hd, hh) = (case h_prev hh e of
                           Some p \<Rightarrow> (u_head u, hh\<lparr>h_next := (h_next hh)(p := h_next hh e)\<rparr>)
                         | None \<Rightarrow> (h_next hh e, hh));
         let hh = (case h_next hh e of Some n \<Rightarrow> hh\<lparr>h_prev := (h_prev hh)(n := h_prev hh e)\<rparr> | None \<Rightarrow> hh);
         (hh, t) \<leftarrow> HASH_DEL_IN_BKT (unat (HASH_TO_BKT (h_hashv hh e) (num_buckets t))) e (hh, t);
         Some \<lparr>u_head = hd, u_tbl = Some (t\<lparr>num_items := num_items t - 1\<rparr>), u_hh = hh\<rparr>
       }
     }"

text \<open>
  The loop over the elements reads the next one before its body runs, so the body may delete the one it
  is given. The state of the body contains the table.
\<close>

partial_function (option) hash_iter ::
  "('s \<Rightarrow> uthash) \<Rightarrow> (nat \<Rightarrow> 's \<Rightarrow> 's option) \<Rightarrow> ref \<Rightarrow> ref \<Rightarrow> 's \<Rightarrow> 's option" where
  "hash_iter tab body el tmp s =
     (case el of
        None \<Rightarrow> Some s
      | Some e \<Rightarrow>
          do {
            s \<leftarrow> body e s;
            hash_iter tab body tmp (case tmp of Some n \<Rightarrow> h_next (u_hh (tab s)) n | None \<Rightarrow> None) s
          })"

definition HASH_ITER :: "('s \<Rightarrow> uthash) \<Rightarrow> (nat \<Rightarrow> 's \<Rightarrow> 's option) \<Rightarrow> 's \<Rightarrow> 's option" where
  "HASH_ITER tab body s =
     hash_iter tab body (u_head (tab s)) (case u_head (tab s) of Some h \<Rightarrow> h_next (u_hh (tab s)) h | None \<Rightarrow> None) s"

subsection \<open>Chains\<close>

text \<open>
  A bucket holds the chain of its elements; the buckets of a table of \<open>n\<close> buckets hold a set of
  elements, each in the bucket of its hash value.
\<close>

definition chain :: "UT_hash_handles \<Rightarrow> UT_hash_bucket \<Rightarrow> nat list \<Rightarrow> bool" where
  "chain hh k c \<longleftrightarrow>
     hh_head k = first_of c None \<and> dseg (hh_next hh) (hh_prev hh) None c None \<and> distinct c \<and> bkt_count k = of_nat (length c)"

definition bkt_of :: "UT_hash_handles \<Rightarrow> u32 \<Rightarrow> nat \<Rightarrow> nat" where
  "bkt_of hh n e = unat (HASH_TO_BKT (h_hashv hh e) n)"

definition chains :: "UT_hash_handles \<Rightarrow> UT_hash_bucket list \<Rightarrow> u32 \<Rightarrow> nat set \<Rightarrow> bool" where
  "chains hh bks n S \<longleftrightarrow>
     length bks = unat n \<and> (\<forall>i<length bks. \<exists>c. chain hh (bks ! i) c \<and> set c = {e \<in> S. bkt_of hh n e = i})"

lemma HASH_TO_BKT_less: "n \<noteq> 0 \<Longrightarrow> unat (HASH_TO_BKT h n) < unat n"
proof -
  assume n: "n \<noteq> 0"
  have "HASH_TO_BKT h n \<le> n - 1" by (simp add: HASH_TO_BKT_def word_and_le1)
  also have "n - 1 < n" using n by (simp add: measure_unat word_less_nat_alt)
  finally show ?thesis by (simp add: word_less_nat_alt)
qed

lemma chainsD:
  assumes "chains hh bks n S" and "i < length bks"
  obtains c where "chain hh (bks ! i) c" and "set c = {e \<in> S. bkt_of hh n e = i}"
  using assms by (auto simp: chains_def)

lemma chain_cong:
  assumes "\<And>x. x \<in> set c \<Longrightarrow> hh_next hh' x = hh_next hh x" and "\<And>x. x \<in> set c \<Longrightarrow> hh_prev hh' x = hh_prev hh x"
  shows "chain hh' k c = chain hh k c"
  using dseg_cong [of c "hh_next hh'" "hh_next hh" "hh_prev hh'" "hh_prev hh", OF assms] by (simp add: chain_def)

lemma link_front_fields [simp]:
  "h_prev (link_front e r hh) = h_prev hh" "h_next (link_front e r hh) = h_next hh"
  "h_key (link_front e r hh) = h_key hh" "h_hashv (link_front e r hh) = h_hashv hh"
  by (simp_all add: link_front_def Let_def split: option.split)

lemma link_front_hh:
  "hh_next (link_front e r hh) x = (if x = e then r else hh_next hh x)"
  "r \<noteq> Some e \<Longrightarrow> hh_prev (link_front e r hh) x = (if x = e then None else if r = Some x then Some e else hh_prev hh x)"
  by (auto simp: link_front_def Let_def split: option.split)

lemma chain_head: "chain hh k c \<Longrightarrow> hh_head k = Some x \<Longrightarrow> x \<in> set c"
  by (auto simp: chain_def first_of_def split: if_splits)

lemma chain_link_front:
  assumes "chain hh k c" and "e \<notin> set c" and "hh_head k' = Some e" and "bkt_count k' = bkt_count k + 1"
  shows "chain (link_front e (hh_head k) hh) k' (e # c)"
proof -
  have c: "hh_head k = first_of c None" "dseg (hh_next hh) (hh_prev hh) None c None" "distinct c" "bkt_count k = of_nat (length c)"
    using assms(1) by (simp_all add: chain_def)
  have r: "first_of c None \<noteq> Some e" using assms(2) by (auto simp: first_of_def)
  let ?hh = "link_front e (first_of c None) hh"
  have "dseg (hh_next ?hh) (hh_prev ?hh) None (e # c) None"
  proof (rule dseg_Cons [OF c(2)])
    show "distinct (e # c)" using c(3) assms(2) by simp
    show "hh_next ?hh e = first_of c None" "hh_prev ?hh e = None" using r by (simp_all add: link_front_hh)
    fix x assume "x \<in> set c"
    then have "x \<noteq> e" using assms(2) by auto
    with r show "hh_next ?hh x = hh_next hh x"
      and "hh_prev ?hh x = (if Some x = first_of c None then Some e else hh_prev hh x)"
      by (auto simp: link_front_hh(1) link_front_hh(2) [OF r])
  qed
  with c assms show ?thesis unfolding chain_def c(1) by simp
qed

lemma chains_link_front:
  assumes ch: "chains hh bks n S" and e: "e \<notin> S" and b: "b = bkt_of hh n e" "b < length bks"
    and k: "hh_head k = Some e" "bkt_count k = bkt_count (bks ! b) + 1"
  shows "chains (link_front e (hh_head (bks ! b)) hh) (bks[b := k]) n (insert e S)"
proof -
  let ?hh = "link_front e (hh_head (bks ! b)) hh"
  obtain c where c: "chain hh (bks ! b) c" "set c = {x \<in> S. bkt_of hh n x = b}" using chainsD [OF ch b(2)] .
  have "e \<notin> set c" using c(2) e by simp
  then have r: "hh_head (bks ! b) \<noteq> Some e" "\<And>x. hh_head (bks ! b) = Some x \<Longrightarrow> x \<in> set c"
    using chain_head [OF c(1)] by auto
  have bk: "bkt_of ?hh n x = bkt_of hh n x" for x by (simp add: bkt_of_def)
  have "\<exists>c. chain ?hh (bks[b := k] ! i) c \<and> set c = {x \<in> insert e S. bkt_of ?hh n x = i}" if i: "i < length bks" for i
  proof (cases "i = b")
    case True
    have "chain ?hh k (e # c)" by (rule chain_link_front [OF c(1) \<open>e \<notin> set c\<close> k])
    moreover have "set (e # c) = {x \<in> insert e S. bkt_of ?hh n x = b}" unfolding bk using c(2) b(1) by auto
    ultimately show ?thesis using True b(2) by auto
  next
    case False
    obtain d where d: "chain hh (bks ! i) d" "set d = {x \<in> S. bkt_of hh n x = i}" using chainsD [OF ch i] .
    have "chain ?hh (bks ! i) d" using d(1)
    proof (subst chain_cong)
      fix x assume "x \<in> set d"
      then have "x \<noteq> e" "x \<notin> set c" using d(2) e c(2) False by auto
      then show "hh_next ?hh x = hh_next hh x" "hh_prev ?hh x = hh_prev hh x" using r by (auto simp: link_front_hh)
    qed
    moreover have "set d = {x \<in> insert e S. bkt_of ?hh n x = i}" unfolding bk using d(2) b(1) False by auto
    ultimately show ?thesis using False by auto
  qed
  with ch show ?thesis by (simp add: chains_def)
qed

lemma chains_unlink:
  assumes ch: "chains hh bks n S" and e: "e \<in> S" and b: "b = bkt_of hh n e" "b < length bks"
  shows "\<exists>hh' k. HASH_DEL_IN_BKT b e (hh, t\<lparr>buckets := bks\<rparr>) = Some (hh', t\<lparr>buckets := bks[b := k]\<rparr>) \<and>
    chains hh' (bks[b := k]) n (S - {e}) \<and> h_prev hh' = h_prev hh \<and> h_next hh' = h_next hh \<and> h_key hh' = h_key hh \<and>
    h_hashv hh' = h_hashv hh"
proof -
  let ?hh1 = "case hh_prev hh e of Some p \<Rightarrow> hh\<lparr>hh_next := (hh_next hh)(p := hh_next hh e)\<rparr> | None \<Rightarrow> hh"
  let ?hh = "case hh_next ?hh1 e of Some m \<Rightarrow> ?hh1\<lparr>hh_prev := (hh_prev ?hh1)(m := hh_prev ?hh1 e)\<rparr> | None \<Rightarrow> ?hh1"
  let ?k = "(bks ! b)\<lparr>bkt_count := bkt_count (bks ! b) - 1\<rparr>"
  let ?k = "if hh_head ?k = Some e then ?k\<lparr>hh_head := hh_next hh e\<rparr> else ?k"
  obtain c where c: "chain hh (bks ! b) c" "set c = {x \<in> S. bkt_of hh n x = b}" using chainsD [OF ch b(2)] .
  have "e \<in> set c" using c(2) e b(1) by simp
  then obtain xs ys where s: "c = xs @ e # ys" by (meson split_list)
  have dis: "distinct (xs @ e # ys)" and d: "dseg (hh_next hh) (hh_prev hh) None (xs @ e # ys) None"
    and h: "hh_head (bks ! b) = first_of (xs @ e # ys) None" "bkt_count (bks ! b) = of_nat (length c)"
    using c(1) s by (simp_all add: chain_def)
  have pv: "hh_prev hh e = last_of None xs" and nx: "hh_next hh e = first_of ys None" using d by simp_all
  have ne: "last_of None xs \<noteq> Some e" "first_of ys None \<noteq> Some e"
    using dis by (auto simp: last_of_def first_of_def split: if_splits)
  obtain hh' where hh': "hh' = ?hh"
    and nx': "\<And>x. hh_next hh' x = (if Some x = last_of None xs then first_of ys None else hh_next hh x)"
    and pv': "\<And>x. hh_prev hh' x = (if Some x = first_of ys None then last_of None xs else hh_prev hh x)"
    and rest: "h_prev hh' = h_prev hh" "h_next hh' = h_next hh" "h_key hh' = h_key hh" "h_hashv hh' = h_hashv hh"
    by (rule that [OF refl]) (use pv nx ne in \<open>auto split: option.splits\<close>)
  have bk: "bkt_of hh' n x = bkt_of hh n x" for x by (simp add: bkt_of_def rest)
  obtain k where k: "k = ?k" by simp
  have ck: "chain hh' k (xs @ ys)"
    unfolding chain_def k
  proof (intro conjI)
    show "hh_head ?k = first_of (xs @ ys) None" using h(1) nx ne dis by (cases xs) auto
    show "dseg (hh_next hh') (hh_prev hh') None (xs @ ys) None"
      by (rule dseg_unlink [OF d dis]) (simp_all add: nx' pv' nx pv)
    show "distinct (xs @ ys)" using dis by simp
    show "bkt_count ?k = of_nat (length (xs @ ys))" using h(2) s by simp
  qed
  have "\<exists>c. chain hh' (bks[b := k] ! i) c \<and> set c = {x \<in> S - {e}. bkt_of hh' n x = i}" if i: "i < length bks" for i
  proof (cases "i = b")
    case True
    have "set (xs @ ys) = set c - {e}" using s dis by auto
    then have "set (xs @ ys) = {x \<in> S - {e}. bkt_of hh' n x = b}" unfolding bk c(2) by blast
    with ck True b(2) show ?thesis by auto
  next
    case False
    obtain d where d: "chain hh (bks ! i) d" "set d = {x \<in> S. bkt_of hh n x = i}" using chainsD [OF ch i] .
    have dj: "set d \<inter> set c = {}" using c(2) d(2) False by auto
    have "chain hh' (bks ! i) d" using d(1)
    proof (subst chain_cong)
      fix x assume "x \<in> set d"
      then have "x \<notin> set xs" "x \<notin> set ys" using dj s by auto
      then have "Some x \<noteq> last_of None xs" "Some x \<noteq> first_of ys None" by (auto simp: last_of_def first_of_def)
      then show "hh_next hh' x = hh_next hh x" "hh_prev hh' x = hh_prev hh x" by (simp_all add: nx' pv')
    qed
    moreover have "set d = {x \<in> S - {e}. bkt_of hh' n x = i}" unfolding bk using d(2) b(1) False by auto
    ultimately show ?thesis using False by auto
  qed
  then have "chains hh' (bks[b := k]) n (S - {e})" using ch by (simp add: chains_def)
  moreover have "HASH_DEL_IN_BKT b e (hh, t\<lparr>buckets := bks\<rparr>) = Some (hh', t\<lparr>buckets := bks[b := k]\<rparr>)"
    using b(2) by (simp add: HASH_DEL_IN_BKT_def Let_def hh' k)
  ultimately show ?thesis using rest by blast
qed

lemma HASH_FIND_IN_BKT_dseg:
  "dseg (hh_next hh) pv p c None \<Longrightarrow> HASH_FIND_IN_BKT hh key (first_of c None) = Some (find (\<lambda>e. h_key hh e = key) c)"
proof (induction c arbitrary: p)
  case Nil
  then show ?case by (simp add: HASH_FIND_IN_BKT.simps)
next
  case (Cons x c)
  from Cons.IH [of "Some x"] Cons.prems show ?case by (simp add: HASH_FIND_IN_BKT.simps [of hh key "Some x"])
qed

lemma find_unique:
  assumes "\<And>x. x \<in> set xs \<Longrightarrow> P x \<longleftrightarrow> x = e" and "e \<in> set xs"
  shows "find P xs = Some e"
  using assms by (induction xs) auto

lemma map_of_find: "map_of (map (\<lambda>e. (f e, e)) es) k = find (\<lambda>e. f e = k) es"
  by (induction es) auto

subsection \<open>Expansion\<close>

text \<open>What the expansion leaves alone.\<close>

definition same_order :: "UT_hash_handles \<Rightarrow> UT_hash_handles \<Rightarrow> bool" where
  "same_order hh hh' \<longleftrightarrow> h_prev hh' = h_prev hh \<and> h_next hh' = h_next hh \<and> h_key hh' = h_key hh \<and> h_hashv hh' = h_hashv hh"

lemma expand_one_chains:
  assumes ch: "chains hh nbs (num_buckets t * 2) P" and e: "e \<notin> P"
    and n: "num_buckets t * 2 \<noteq> 0" and ideal: "ideal_chain_maxlen t \<noteq> 0"
  shows "\<exists>hh' w nbs'. expand_one e (hh, t, nbs) = Some (hh', t\<lparr>nonideal_items := w\<rparr>, nbs') \<and>
    chains hh' nbs' (num_buckets t * 2) (insert e P) \<and> same_order hh hh' \<and> (\<forall>x. x \<notin> insert e P \<longrightarrow> hh_next hh' x = hh_next hh x)"
proof -
  let ?b = "unat (HASH_TO_BKT (h_hashv hh e) (num_buckets t * 2))"
  have b: "?b = bkt_of hh (num_buckets t * 2) e" "?b < length nbs"
    using ch HASH_TO_BKT_less [OF n] by (simp_all add: bkt_of_def chains_def)
  let ?hh = "link_front e (hh_head (nbs ! ?b)) hh"
  have ch': "chains ?hh (nbs[?b := k]) (num_buckets t * 2) (insert e P)"
    if "hh_head k = Some e" "bkt_count k = bkt_count (nbs ! ?b) + 1" for k
    by (rule chains_link_front [OF ch e b that])
  have same: "same_order hh ?hh" by (simp add: same_order_def)
  have nx: "\<forall>x. x \<notin> insert e P \<longrightarrow> hh_next ?hh x = hh_next hh x" by (simp add: link_front_hh)
  let ?k = "(nbs ! ?b)\<lparr>bkt_count := bkt_count (nbs ! ?b) + 1\<rparr>"
  show ?thesis
  proof (cases "bkt_count ?k > ideal_chain_maxlen t")
    case True
    let ?k1 = "?k\<lparr>expand_mult := bkt_count ?k div ideal_chain_maxlen t, hh_head := Some e\<rparr>"
    have "expand_one e (hh, t, nbs) = Some (?hh, t\<lparr>nonideal_items := nonideal_items t + 1\<rparr>, nbs[?b := ?k1])"
      using True b(2) ideal by (simp add: expand_one_def Let_def)
    with ch' [of ?k1] same nx show ?thesis by auto
  next
    case False
    let ?k1 = "?k\<lparr>hh_head := Some e\<rparr>"
    have "expand_one e (hh, t, nbs) = Some (?hh, t\<lparr>nonideal_items := nonideal_items t\<rparr>, nbs[?b := ?k1])"
      using False b(2) by (simp add: expand_one_def Let_def)
    moreover have "chains ?hh (nbs[?b := ?k1]) (num_buckets t * 2) (insert e P)" by (rule ch') simp_all
    ultimately show ?thesis using same nx by blast
  qed
qed

lemma same_order_trans: "same_order hh hh' \<Longrightarrow> same_order hh' hh'' \<Longrightarrow> same_order hh hh''"
  by (simp add: same_order_def)

primrec nseg :: "(nat \<Rightarrow> ref) \<Rightarrow> nat list \<Rightarrow> bool" where
  "nseg nx [] \<longleftrightarrow> True"
| "nseg nx (x # xs) \<longleftrightarrow> nx x = first_of xs None \<and> nseg nx xs"

lemma nseg_dseg: "dseg nx pv p xs None \<Longrightarrow> nseg nx xs"
  by (induction xs arbitrary: p) auto

lemma nseg_cong: "(\<And>x. x \<in> set xs \<Longrightarrow> nx' x = nx x) \<Longrightarrow> nseg nx' xs = nseg nx xs"
  by (induction xs) auto

lemma expand_chain_chains:
  assumes "chains hh nbs (num_buckets t * 2) P" and "nseg (hh_next hh) c" and "distinct c" and "set c \<inter> P = {}"
    and n: "num_buckets t * 2 \<noteq> 0" and "ideal_chain_maxlen t \<noteq> 0"
  shows "\<exists>hh' w nbs'. expand_chain (first_of c None) (hh, t, nbs) = Some (hh', t\<lparr>nonideal_items := w\<rparr>, nbs') \<and>
    chains hh' nbs' (num_buckets t * 2) (P \<union> set c) \<and> same_order hh hh' \<and> (\<forall>x. x \<notin> P \<union> set c \<longrightarrow> hh_next hh' x = hh_next hh x)"
  using assms
proof (induction c arbitrary: hh t nbs P)
  case Nil
  have "expand_chain (first_of [] None) (hh, t, nbs) = Some (hh, t\<lparr>nonideal_items := nonideal_items t\<rparr>, nbs)"
    by (simp add: expand_chain.simps)
  with Nil.prems(1) show ?case by (fastforce simp: same_order_def)
next
  case (Cons e c)
  obtain hh1 w1 nbs1 where one: "expand_one e (hh, t, nbs) = Some (hh1, t\<lparr>nonideal_items := w1\<rparr>, nbs1)"
      "chains hh1 nbs1 (num_buckets t * 2) (insert e P)" "same_order hh hh1"
      "\<forall>x. x \<notin> insert e P \<longrightarrow> hh_next hh1 x = hh_next hh x"
    using expand_one_chains [of hh nbs t P e] Cons.prems by auto
  have "nseg (hh_next hh1) c = nseg (hh_next hh) c" by (rule nseg_cong) (use Cons.prems(3,4) one(4) in auto)
  then have "nseg (hh_next hh1) c" using Cons.prems(2) by simp
  then obtain hh2 w2 nbs2 where rest:
      "expand_chain (first_of c None) (hh1, t\<lparr>nonideal_items := w1\<rparr>, nbs1) = Some (hh2, t\<lparr>nonideal_items := w2\<rparr>, nbs2)"
      "chains hh2 nbs2 (num_buckets t * 2) (insert e P \<union> set c)" "same_order hh1 hh2"
      "\<forall>x. x \<notin> insert e P \<union> set c \<longrightarrow> hh_next hh2 x = hh_next hh1 x"
    using Cons.IH [of hh1 nbs1 "t\<lparr>nonideal_items := w1\<rparr>" "insert e P"] Cons.prems(3-6) one(2) by auto
  have "expand_chain (first_of (e # c) None) (hh, t, nbs) = Some (hh2, t\<lparr>nonideal_items := w2\<rparr>, nbs2)"
    using one(1) rest(1) Cons.prems(2) by (simp add: expand_chain.simps [of "Some e"])
  with rest(2,4) one(4) same_order_trans [OF one(3) rest(3)] show ?case by auto
qed

lemma expand_loop_chains:
  assumes "chains hh nbs (num_buckets t * 2) {e \<in> S. bkt_of hh n e < i}" and "i \<le> length (buckets t)"
    and "\<And>j. i \<le> j \<Longrightarrow> j < length (buckets t) \<Longrightarrow>
      \<exists>c. hh_head (buckets t ! j) = first_of c None \<and> nseg (hh_next hh) c \<and> distinct c \<and> set c = {e \<in> S. bkt_of hh n e = j}"
    and n: "num_buckets t * 2 \<noteq> 0" and "ideal_chain_maxlen t \<noteq> 0"
  shows "\<exists>hh' w nbs'. expand_loop [i..<length (buckets t)] (hh, t, nbs) = Some (hh', t\<lparr>nonideal_items := w\<rparr>, nbs') \<and>
    chains hh' nbs' (num_buckets t * 2) {e \<in> S. bkt_of hh n e < length (buckets t)} \<and> same_order hh hh'"
  using assms
proof (induction "length (buckets t) - i" arbitrary: i hh t nbs)
  case 0
  have "expand_loop [i..<length (buckets t)] (hh, t, nbs) = Some (hh, t\<lparr>nonideal_items := nonideal_items t\<rparr>, nbs)"
    using 0 by simp
  moreover have "chains hh nbs (num_buckets t * 2) {e \<in> S. bkt_of hh n e < length (buckets t)}" using 0(1,2,3) by simp
  ultimately show ?case unfolding same_order_def by blast
next
  case (Suc d)
  then have i: "i < length (buckets t)" by simp
  obtain c where c: "hh_head (buckets t ! i) = first_of c None" "nseg (hh_next hh) c" "distinct c" "set c = {e \<in> S. bkt_of hh n e = i}"
    using Suc.prems(3) [OF order_refl i] by blast
  have un: "{e \<in> S. bkt_of hh n e < i} \<union> set c = {e \<in> S. bkt_of hh n e < Suc i}" unfolding c(4) by auto
  have dj: "set c \<inter> {e \<in> S. bkt_of hh n e < i} = {}" unfolding c(4) by auto
  obtain hh1 w1 nbs1 where one: "expand_chain (first_of c None) (hh, t, nbs) = Some (hh1, t\<lparr>nonideal_items := w1\<rparr>, nbs1)"
      "chains hh1 nbs1 (num_buckets t * 2) {e \<in> S. bkt_of hh n e < Suc i}" "same_order hh hh1"
      "\<forall>x. x \<notin> {e \<in> S. bkt_of hh n e < Suc i} \<longrightarrow> hh_next hh1 x = hh_next hh x"
    using expand_chain_chains [OF Suc.prems(1) c(2,3) dj Suc.prems(4,5)] unfolding un by blast
  have bk: "bkt_of hh1 n x = bkt_of hh n x" for x using one(3) by (simp add: same_order_def bkt_of_def)
  let ?t = "t\<lparr>nonideal_items := w1\<rparr>"
  have "\<exists>hh' w nbs'. expand_loop [Suc i..<length (buckets ?t)] (hh1, ?t, nbs1) = Some (hh', ?t\<lparr>nonideal_items := w\<rparr>, nbs') \<and>
    chains hh' nbs' (num_buckets ?t * 2) {e \<in> S. bkt_of hh1 n e < length (buckets ?t)} \<and> same_order hh1 hh'"
  proof (rule Suc.hyps(1))
    show "d = length (buckets ?t) - Suc i" using Suc.hyps(2) by simp
    show "chains hh1 nbs1 (num_buckets ?t * 2) {e \<in> S. bkt_of hh1 n e < Suc i}" using one(2) by (simp add: bk)
    fix j assume j: "Suc i \<le> j" "j < length (buckets ?t)"
    from j have j': "i \<le> j" "j < length (buckets t)" by simp_all
    obtain c' where c': "hh_head (buckets t ! j) = first_of c' None" "nseg (hh_next hh) c'" "distinct c'"
        "set c' = {e \<in> S. bkt_of hh n e = j}" using Suc.prems(3) [OF j'] by blast
    have "nseg (hh_next hh1) c' = nseg (hh_next hh) c'" by (rule nseg_cong) (use one(4) c'(4) j in auto)
    with c' show "\<exists>c. hh_head (buckets ?t ! j) = first_of c None \<and> nseg (hh_next hh1) c \<and> distinct c \<and> set c = {e \<in> S. bkt_of hh1 n e = j}"
      by (auto simp: bk)
  qed (use i Suc.prems in auto)
  then obtain hh2 w2 nbs2 where two:
      "expand_loop [Suc i..<length (buckets t)] (hh1, t\<lparr>nonideal_items := w1\<rparr>, nbs1) = Some (hh2, t\<lparr>nonideal_items := w2\<rparr>, nbs2)"
      "chains hh2 nbs2 (num_buckets t * 2) {e \<in> S. bkt_of hh n e < length (buckets t)}" "same_order hh1 hh2" by (auto simp: bk)
  have "expand_loop [i..<length (buckets t)] (hh, t, nbs) = Some (hh2, t\<lparr>nonideal_items := w2\<rparr>, nbs2)"
    using i one(1) two(1) c(1) by (simp add: upt_conv_Cons Let_def)
  with two(2) same_order_trans [OF one(3) two(3)] show ?case by blast
qed

lemma ideal_nonzero:
  fixes x :: u32
  assumes "x \<noteq> 0" and "k < 32"
  shows "drop_bit k x + (if x AND (2 ^ k - 1) \<noteq> 0 then 1 else 0) \<noteq> 0"
proof (cases "x AND (2 ^ k - 1) = 0")
  case True
  then have "take_bit k x = 0" by (simp add: take_bit_eq_mask mask_eq_exp_minus_1)
  with bits_ident [of k x] assms(1) True show ?thesis by auto
next
  case False
  then have "k \<noteq> 0" by (cases k) auto
  have "unat (drop_bit k x) < 2 ^ 31"
  proof -
    have "unat (drop_bit k x) = unat x div 2 ^ k" by (simp only: unat_drop_bit_eq drop_bit_eq_div [of k "unat x"])
    also have "\<dots> \<le> unat x div 2 ^ 1" using \<open>k \<noteq> 0\<close> by (intro div_le_mono2 power_increasing) auto
    also have "\<dots> < 2 ^ 31" using unsigned_less [of x, where 'a = nat] by simp
    finally show ?thesis .
  qed
  then have "unat (drop_bit k x + 1) \<noteq> 0" by (subst unat_add_lem [THEN iffD1]) auto
  with False show ?thesis by auto
qed

definition tbl_ok :: "UT_hash_table \<Rightarrow> bool" where
  "tbl_ok t \<longleftrightarrow> unat (log2_num_buckets t) < 32 \<and> num_buckets t = 2 ^ unat (log2_num_buckets t)"

lemma HASH_EXPAND_BUCKETS_chains:
  assumes ch: "chains hh (buckets t) (num_buckets t) S" and "tbl_ok t" and lg: "unat (log2_num_buckets t) < 31"
    and items: "num_items t \<noteq> 0"
  shows "\<exists>hh' t'. HASH_EXPAND_BUCKETS (hh, t) = Some (hh', t') \<and> chains hh' (buckets t') (num_buckets t') S \<and>
    same_order hh hh' \<and> tbl_ok t' \<and> num_items t' = num_items t \<and> tail t' = tail t"
proof -
  let ?k = "unat (log2_num_buckets t)"
  have nb: "num_buckets t = 2 ^ ?k" using assms(2) by (simp add: tbl_ok_def)
  have lg1: "unat (log2_num_buckets t + 1) = Suc ?k" using lg by (simp add: unat_add_lem [THEN iffD1])
  have nb2: "num_buckets t * 2 = 2 ^ Suc ?k" using nb by simp
  have n2: "num_buckets t * 2 \<noteq> 0" unfolding nb2 using lg by (subst exp_eq_zero_iff) simp
  let ?t = "t\<lparr>ideal_chain_maxlen := drop_bit (unat (log2_num_buckets t + 1)) (num_items t)
      + (if num_items t AND (num_buckets t * 2 - 1) \<noteq> 0 then 1 else 0), nonideal_items := 0\<rparr>"
  let ?nbs = "replicate (unat (2 * num_buckets t)) empty_bucket"
  have "ideal_chain_maxlen ?t \<noteq> 0" using ideal_nonzero [OF items, of "Suc ?k"] lg by (simp add: lg1 nb2)
  moreover have "chains hh ?nbs (num_buckets ?t * 2) {e \<in> S. bkt_of hh (num_buckets t) e < 0}"
    by (auto simp: chains_def chain_def empty_bucket_def mult.commute)
  moreover have "\<exists>c. hh_head (buckets ?t ! j) = first_of c None \<and> nseg (hh_next hh) c \<and> distinct c \<and>
      set c = {e \<in> S. bkt_of hh (num_buckets t) e = j}" if j: "j < length (buckets ?t)" for j
  proof -
    obtain c where "chain hh (buckets t ! j) c" "set c = {e \<in> S. bkt_of hh (num_buckets t) e = j}"
      using chainsD [OF ch, of j] j by auto
    then show ?thesis by (auto simp: chain_def dest: nseg_dseg)
  qed
  ultimately obtain hh' w nbs' where loop: "expand_loop [0..<length (buckets t)] (hh, ?t, ?nbs) = Some (hh', ?t\<lparr>nonideal_items := w\<rparr>, nbs')"
      "chains hh' nbs' (num_buckets t * 2) {e \<in> S. bkt_of hh (num_buckets t) e < length (buckets t)}" "same_order hh hh'"
    using expand_loop_chains [of hh ?nbs ?t S "num_buckets t" 0] n2 by auto
  have len: "length (buckets t) = unat (num_buckets t)" using ch by (simp add: chains_def)
  have n1: "num_buckets t \<noteq> 0" using n2 by auto
  have "{e \<in> S. bkt_of hh (num_buckets t) e < length (buckets t)} = S"
    using HASH_TO_BKT_less [OF n1] by (auto simp: len bkt_of_def)
  with loop(2) have ch': "chains hh' nbs' (num_buckets t * 2) S" by simp
  let ?t' = "?t\<lparr>nonideal_items := w, num_buckets := num_buckets t * 2, log2_num_buckets := log2_num_buckets t + 1, buckets := nbs',
      ineff_expands := (if w > drop_bit 1 (num_items t) then ineff_expands t + 1 else 0)\<rparr>"
  have "HASH_EXPAND_BUCKETS (hh, t) = Some (hh', if ineff_expands ?t' > 1 then ?t'\<lparr>noexpand := 1\<rparr> else ?t')"
    using loop(1) by (simp add: HASH_EXPAND_BUCKETS_def len Let_def)
  moreover have "tbl_ok ?t'" using lg by (simp add: tbl_ok_def lg1 nb)
  ultimately show ?thesis using ch' loop(3) by (simp add: tbl_ok_def)
qed

lemma HASH_ADD_TO_BKT_chains:
  assumes ch: "chains hh (buckets t) (num_buckets t) S" and ok: "tbl_ok t" "unat (log2_num_buckets t) < 31" "num_items t \<noteq> 0"
    and e: "e \<notin> S" and b: "b = bkt_of hh (num_buckets t) e"
  shows "\<exists>hh' t'. HASH_ADD_TO_BKT b e (hh, t) = Some (hh', t') \<and> chains hh' (buckets t') (num_buckets t') (insert e S) \<and>
    same_order hh hh' \<and> tbl_ok t' \<and> num_items t' = num_items t \<and> tail t' = tail t"
proof -
  have "num_buckets t \<noteq> 0" using ok by (auto simp: tbl_ok_def)
  then have bl: "b < length (buckets t)" using ch HASH_TO_BKT_less [of "num_buckets t"] by (simp add: b bkt_of_def chains_def)
  let ?k = "(buckets t ! b)\<lparr>bkt_count := bkt_count (buckets t ! b) + 1, hh_head := Some e\<rparr>"
  let ?hh = "link_front e (hh_head (buckets t ! b)) hh" and ?t = "t\<lparr>buckets := (buckets t)[b := ?k]\<rparr>"
  have ch': "chains ?hh (buckets ?t) (num_buckets ?t) (insert e S)"
    using chains_link_front [OF ch e b bl, of ?k] by simp
  have same: "same_order hh ?hh" by (simp add: same_order_def)
  have st: "HASH_ADD_TO_BKT b e (hh, t) =
      (if bkt_count ?k \<ge> (expand_mult ?k + 1) * HASH_BKT_CAPACITY_THRESH \<and> noexpand ?t \<noteq> 1
       then HASH_EXPAND_BUCKETS (?hh, ?t) else Some (?hh, ?t))"
    using bl by (simp add: HASH_ADD_TO_BKT_def Let_def)
  have ok': "tbl_ok ?t" using ok(1) by (simp add: tbl_ok_def)
  obtain hh1 t1 where ex: "HASH_EXPAND_BUCKETS (?hh, ?t) = Some (hh1, t1)" "chains hh1 (buckets t1) (num_buckets t1) (insert e S)"
      "same_order ?hh hh1" "tbl_ok t1" "num_items t1 = num_items t" "tail t1 = tail t"
    using HASH_EXPAND_BUCKETS_chains [OF ch' ok'] ok(2,3) by auto
  show ?thesis
  proof (cases "bkt_count ?k \<ge> (expand_mult ?k + 1) * HASH_BKT_CAPACITY_THRESH \<and> noexpand ?t \<noteq> 1")
    case True
    then have "HASH_ADD_TO_BKT b e (hh, t) = Some (hh1, t1)" unfolding st ex(1) by (rule if_P)
    with ex same_order_trans [OF same ex(3)] show ?thesis by blast
  next
    case False
    then have "HASH_ADD_TO_BKT b e (hh, t) = Some (?hh, ?t)" unfolding st by (rule if_not_P)
    then show ?thesis using ch' same ok' by fastforce
  qed
qed

subsection \<open>The table a structure stands for\<close>

text \<open>
  The elements in the order of insertion are linked by \<open>prev\<close> and \<open>next\<close>, every one carries the hash of
  its key and is in the chain of its bucket, and the counters and the tail pointer are right.
\<close>

definition uthash_list :: "uthash \<Rightarrow> nat list \<Rightarrow> bool" where
  "uthash_list u es \<longleftrightarrow>
     u_head u = first_of es None \<and> distinct es \<and> dseg (h_next (u_hh u)) (h_prev (u_hh u)) None es None \<and>
     (\<forall>e\<in>set es. h_hashv (u_hh u) e = HASH_JEN (h_key (u_hh u) e)) \<and>
     (es \<noteq> [] \<longrightarrow> (\<exists>t. u_tbl u = Some t \<and> tbl_ok t \<and> chains (u_hh u) (buckets t) (num_buckets t) (set es) \<and>
        num_items t = of_nat (length es) \<and> tail t = last es))"

definition uthash_abs :: "uthash \<Rightarrow> nat list \<Rightarrow> (bytes, nat) table" where
  "uthash_abs u es = map (\<lambda>e. (h_key (u_hh u) e, e)) es"

text \<open>One more element can be added: the counter of elements and that of buckets do not overflow.\<close>

definition uthash_room :: "uthash \<Rightarrow> nat list \<Rightarrow> bool" where
  "uthash_room u es \<longleftrightarrow> Suc (length es) < 2 ^ 32 \<and> (\<forall>t. u_tbl u = Some t \<longrightarrow> u_head u \<noteq> None \<longrightarrow> unat (log2_num_buckets t) < 31)"

lemma HASH_FIND_list:
  assumes u: "uthash_list u es" and keys: "distinct (map (h_key (u_hh u)) es)"
  shows "HASH_FIND key u = Some (hash_find (uthash_abs u es) key)"
proof (cases "es = []")
  case True
  with u show ?thesis by (simp add: HASH_FIND_def uthash_list_def hash_find_def uthash_abs_def)
next
  case False
  obtain t where t: "u_tbl u = Some t" "tbl_ok t" "chains (u_hh u) (buckets t) (num_buckets t) (set es)"
    and hv: "\<forall>e\<in>set es. h_hashv (u_hh u) e = HASH_JEN (h_key (u_hh u) e)" and hd: "u_head u = first_of es None"
    using u False by (auto simp: uthash_list_def)
  let ?b = "unat (HASH_TO_BKT (HASH_JEN key) (num_buckets t))" and ?P = "\<lambda>e. h_key (u_hh u) e = key"
  have "num_buckets t \<noteq> 0" using t(2) by (auto simp: tbl_ok_def)
  then have bl: "?b < length (buckets t)" using t(3) HASH_TO_BKT_less by (simp add: chains_def)
  obtain c where c: "chain (u_hh u) (buckets t ! ?b) c" "set c = {e \<in> set es. bkt_of (u_hh u) (num_buckets t) e = ?b}"
    using chainsD [OF t(3) bl] .
  have "HASH_FIND_IN_BKT (u_hh u) key (hh_head (buckets t ! ?b)) = Some (find ?P c)"
    using c(1) HASH_FIND_IN_BKT_dseg [of "u_hh u" "hh_prev (u_hh u)" None c key] by (simp add: chain_def)
  then have "HASH_FIND key u = Some (find ?P c)"
    using hd False t(1) bl by (simp add: HASH_FIND_def first_of_def Let_def)
  moreover have "find ?P c = find ?P es"
  proof (cases "find ?P es")
    case None
    then have "find ?P c = None" using c(2) by (auto simp: find_None_iff)
    with None show ?thesis by simp
  next
    case (Some e)
    then have e: "e \<in> set es" "h_key (u_hh u) e = key" by (auto simp: find_Some_iff)
    then have "e \<in> set c" using hv unfolding c(2) by (simp add: bkt_of_def)
    moreover have "?P x \<longleftrightarrow> x = e" if "x \<in> set c" for x
      using that keys e unfolding c(2) by (auto simp: distinct_map inj_on_def)
    ultimately show ?thesis using Some by (simp add: find_unique)
  qed
  ultimately show ?thesis by (simp add: hash_find_def uthash_abs_def map_of_find)
qed

lemma chains_cong:
  "hh_next hh' = hh_next hh \<Longrightarrow> hh_prev hh' = hh_prev hh \<Longrightarrow> (\<And>x. x \<in> S \<Longrightarrow> h_hashv hh' x = h_hashv hh x) \<Longrightarrow>
     chains hh' bks n S = chains hh bks n S"
  by (simp add: chains_def chain_def bkt_of_def cong: conj_cong)

lemma chains_empty: "chains hh (replicate (unat n) empty_bucket) n {}"
  by (auto simp: chains_def chain_def empty_bucket_def)

lemma HASH_ADD_list:
  assumes u: "uthash_list u es" and room: "uthash_room u es" and e: "e \<notin> set es"
  shows "\<exists>u'. HASH_ADD key e u = Some u' \<and> uthash_list u' (es @ [e]) \<and> uthash_abs u' (es @ [e]) = hash_add (uthash_abs u es) key e"
proof -
  let ?hh0 = "(u_hh u)\<lparr>h_next := (h_next (u_hh u))(e := None), h_key := (h_key (u_hh u))(e := key)\<rparr>"
  obtain hd1 hh1 t1 where link:
      "(case u_head u of None \<Rightarrow> Some (e, ?hh0\<lparr>h_prev := (h_prev ?hh0)(e := None)\<rparr>, HASH_MAKE_TABLE e)
        | Some h \<Rightarrow> u_tbl u \<bind> (\<lambda>t. Some (h, ?hh0\<lparr>h_next := (h_next ?hh0)(tail t := Some e), h_prev := (h_prev ?hh0)(e := Some (tail t))\<rparr>,
           t\<lparr>tail := e\<rparr>))) = Some (hd1, hh1, t1)"
    and hd1: "Some hd1 = first_of (es @ [e]) None" and seg: "dseg (h_next hh1) (h_prev hh1) None (es @ [e]) None"
    and ok1: "tbl_ok t1" "unat (log2_num_buckets t1) < 31" and ch1: "chains hh1 (buckets t1) (num_buckets t1) (set es)"
    and it1: "num_items t1 = of_nat (length es)" and tl1: "tail t1 = e"
    and keys1: "h_key hh1 = (h_key (u_hh u))(e := key)" and hv1: "h_hashv hh1 = h_hashv (u_hh u)"
  proof (cases es rule: rev_cases)
    case Nil
    show thesis
      by (rule that [of e "?hh0\<lparr>h_prev := (h_prev ?hh0)(e := None)\<rparr>" "HASH_MAKE_TABLE e"])
        (use u Nil chains_empty [of _ "of_nat HASH_INITIAL_NUM_BUCKETS"] in
          \<open>simp_all add: uthash_list_def HASH_MAKE_TABLE_def tbl_ok_def HASH_INITIAL_NUM_BUCKETS_def HASH_INITIAL_NUM_BUCKETS_LOG2_def\<close>)
  next
    case (snoc fs l)
    let ?hh = "?hh0\<lparr>h_next := (h_next ?hh0)(l := Some e), h_prev := (h_prev ?hh0)(e := Some l)\<rparr>"
    obtain t where t: "u_tbl u = Some t" "tbl_ok t" "chains (u_hh u) (buckets t) (num_buckets t) (set es)"
        "num_items t = of_nat (length es)" "tail t = l" and hd: "u_head u = first_of es None"
      using u snoc by (auto simp: uthash_list_def)
    have seg': "dseg (h_next ?hh) (h_prev ?hh) None (es @ [e]) None"
      by (rule dseg_snoc [of "h_next (u_hh u)" "h_prev (u_hh u)" None es None])
        (use u e snoc in \<open>auto simp: uthash_list_def\<close>)
    have "chains ?hh (buckets t) (num_buckets t) (set es)" using t(3) by (subst chains_cong [of _ "u_hh u"]) simp_all
    then show thesis
      using t hd seg' snoc room
      by (intro that [of "hd es" ?hh "t\<lparr>tail := e\<rparr>"]) (simp_all add: uthash_room_def first_of_def tbl_ok_def hd_append)
  qed
  let ?t = "t1\<lparr>num_items := num_items t1 + 1\<rparr>" and ?hh = "hh1\<lparr>h_hashv := (h_hashv hh1)(e := HASH_JEN key)\<rparr>"
  have ch: "chains ?hh (buckets ?t) (num_buckets ?t) (set es)" using ch1 e by (subst chains_cong [of _ hh1]) auto
  have items: "num_items ?t = of_nat (Suc (length es))" using it1 by simp
  have "unat (num_items ?t) = Suc (length es)"
    using room unfolding items uthash_room_def by (simp only: unat_of_nat) simp
  then have nz: "num_items ?t \<noteq> 0" by auto
  obtain hh2 t2 where add: "HASH_ADD_TO_BKT (bkt_of ?hh (num_buckets ?t) e) e (?hh, ?t) = Some (hh2, t2)"
      "chains hh2 (buckets t2) (num_buckets t2) (insert e (set es))" "same_order ?hh hh2" "tbl_ok t2"
      "num_items t2 = num_items ?t" "tail t2 = tail ?t"
    using HASH_ADD_TO_BKT_chains [OF ch _ _ nz e refl] ok1 by (auto simp: tbl_ok_def)
  let ?u = "\<lparr>u_head = Some hd1, u_tbl = Some t2, u_hh = hh2\<rparr>"
  have "HASH_ADD key e u = Some ?u"
    using link add(1) by (simp add: HASH_ADD_def Let_def bkt_of_def)
  moreover have "uthash_list ?u (es @ [e])"
    using hd1 seg add(2-6) u e it1 tl1 keys1 hv1 by (auto simp: uthash_list_def same_order_def)
  moreover have "uthash_abs ?u (es @ [e]) = hash_add (uthash_abs u es) key e"
    using add(3) keys1 e by (auto simp: uthash_abs_def hash_add_def same_order_def)
  ultimately show ?thesis by blast
qed

lemma HASH_DELETE_unlink:
  assumes "head_tbl u = Some t" and "\<not> (h_prev (u_hh u) e = None \<and> h_next (u_hh u) e = None)"
    and "(if e = tail t then h_prev (u_hh u) e \<bind> (\<lambda>p. Some (t\<lparr>tail := p\<rparr>)) else Some t) = Some t1"
    and "hh1 = (case h_prev (u_hh u) e of Some p \<Rightarrow> (u_hh u)\<lparr>h_next := (h_next (u_hh u))(p := h_next (u_hh u) e)\<rparr> | None \<Rightarrow> u_hh u)"
    and "hh = (case h_next hh1 e of Some n \<Rightarrow> hh1\<lparr>h_prev := (h_prev hh1)(n := h_prev hh1 e)\<rparr> | None \<Rightarrow> hh1)"
    and "hd1 = (case h_prev (u_hh u) e of Some p \<Rightarrow> u_head u | None \<Rightarrow> h_next (u_hh u) e)"
    and "HASH_DEL_IN_BKT (unat (HASH_TO_BKT (h_hashv hh e) (num_buckets t1))) e (hh, t1) = Some (hh2, t2)"
  shows "HASH_DELETE e u = Some \<lparr>u_head = hd1, u_tbl = Some (t2\<lparr>num_items := num_items t2 - 1\<rparr>), u_hh = hh2\<rparr>"
proof -
  have "(case h_prev (u_hh u) e of Some p \<Rightarrow> (u_head u, (u_hh u)\<lparr>h_next := (h_next (u_hh u))(p := h_next (u_hh u) e)\<rparr>)
      | None \<Rightarrow> (h_next (u_hh u) e, u_hh u)) = (hd1, hh1)" unfolding assms(4,6) by (simp split: option.split)
  then show ?thesis using assms(1,2,3,7) unfolding HASH_DELETE_def Let_def assms(5) by (simp only: bind.simps if_False prod.case)
qed

lemma HASH_DELETE_list:
  assumes u: "uthash_list u es" and e: "e \<in> set es"
  shows "\<exists>u'. HASH_DELETE e u = Some u' \<and> uthash_list u' (remove1 e es) \<and>
    h_key (u_hh u') = h_key (u_hh u) \<and> (\<forall>x. x \<noteq> e \<longrightarrow> x \<notin> set es \<longrightarrow> h_next (u_hh u') x = h_next (u_hh u) x)"
proof -
  obtain xs ys where s: "es = xs @ e # ys" using e by (meson split_list)
  have dis: "distinct (xs @ e # ys)" and d: "dseg (h_next (u_hh u)) (h_prev (u_hh u)) None (xs @ e # ys) None"
    using u s by (simp_all add: uthash_list_def)
  have rm: "remove1 e es = xs @ ys" "set es - {e} = set (xs @ ys)" using s dis by (auto simp: remove1_append)
  obtain t where t: "u_tbl u = Some t" "tbl_ok t" "chains (u_hh u) (buckets t) (num_buckets t) (set es)"
      "num_items t = of_nat (length es)" "tail t = last es" and hd: "u_head u = first_of es None"
    and hv: "\<forall>x\<in>set es. h_hashv (u_hh u) x = HASH_JEN (h_key (u_hh u) x)"
    using u s by (auto simp: uthash_list_def)
  have ht: "head_tbl u = Some t" using t(1) hd s by (simp add: head_tbl_def first_of_def)
  have pv: "h_prev (u_hh u) e = last_of None xs" and nx: "h_next (u_hh u) e = first_of ys None" using d by simp_all
  show ?thesis
  proof (cases "xs @ ys = []")
    case True
    then have "HASH_DELETE e u = Some (u\<lparr>u_head := None, u_tbl := None\<rparr>)" using pv nx by (simp add: HASH_DELETE_def ht Let_def)
    with True show ?thesis by (auto simp: uthash_list_def rm(1))
  next
    case False
    let ?hh1 = "case h_prev (u_hh u) e of Some p \<Rightarrow> (u_hh u)\<lparr>h_next := (h_next (u_hh u))(p := h_next (u_hh u) e)\<rparr> | None \<Rightarrow> u_hh u"
    let ?hh = "case h_next ?hh1 e of Some n \<Rightarrow> ?hh1\<lparr>h_prev := (h_prev ?hh1)(n := h_prev ?hh1 e)\<rparr> | None \<Rightarrow> ?hh1"
    have ne: "last_of None xs \<noteq> Some e" "first_of ys None \<noteq> Some e"
      using dis by (auto simp: last_of_def first_of_def split: if_splits)
    obtain hh where hh: "hh = ?hh"
      and nx': "\<And>x. h_next hh x = (if Some x = last_of None xs then first_of ys None else h_next (u_hh u) x)"
      and pv': "\<And>x. h_prev hh x = (if Some x = first_of ys None then last_of None xs else h_prev (u_hh u) x)"
      and rest: "hh_prev hh = hh_prev (u_hh u)" "hh_next hh = hh_next (u_hh u)" "h_key hh = h_key (u_hh u)" "h_hashv hh = h_hashv (u_hh u)"
      by (rule that [OF refl]) (use pv nx ne in \<open>auto split: option.splits\<close>)
    have seg: "dseg (h_next hh) (h_prev hh) None (xs @ ys) None"
      by (rule dseg_unlink [OF d dis]) (simp_all add: nx' pv' nx pv)
    have ch: "chains hh (buckets t) (num_buckets t) (set es)" using t(3) rest by (subst chains_cong [of _ "u_hh u"]) simp_all
    have "num_buckets t \<noteq> 0" using t(2) by (auto simp: tbl_ok_def)
    then have bl: "bkt_of hh (num_buckets t) e < length (buckets t)" using t(3) HASH_TO_BKT_less by (simp add: bkt_of_def chains_def)
    let ?tl = "if e = tail t then the (last_of None xs) else tail t"
    let ?t = "t\<lparr>tail := ?tl\<rparr>"
    have tl: "?tl = last (xs @ ys)" using t(5) s dis False by (auto simp: last_of_def)
    have tl': "(if e = tail t then h_prev (u_hh u) e \<bind> (\<lambda>p. Some (t\<lparr>tail := p\<rparr>)) else Some t) = Some ?t"
      using t(5) s dis False pv by (auto simp: last_of_def split: if_splits)
    obtain hh2 k where del: "HASH_DEL_IN_BKT (bkt_of hh (num_buckets t) e) e (hh, ?t) =
          Some (hh2, ?t\<lparr>buckets := (buckets t)[bkt_of hh (num_buckets t) e := k]\<rparr>)"
        "chains hh2 ((buckets t)[bkt_of hh (num_buckets t) e := k]) (num_buckets t) (set (xs @ ys))"
        "h_prev hh2 = h_prev hh" "h_next hh2 = h_next hh" "h_key hh2 = h_key hh" "h_hashv hh2 = h_hashv hh"
      using chains_unlink [OF ch e refl bl, of ?t] unfolding rm(2) by auto
    let ?t2 = "?t\<lparr>buckets := (buckets t)[bkt_of hh (num_buckets t) e := k], num_items := num_items t - 1\<rparr>"
    let ?hd = "case h_prev (u_hh u) e of Some p \<Rightarrow> u_head u | None \<Rightarrow> h_next (u_hh u) e"
    have hd': "?hd = first_of (xs @ ys) None" using pv nx hd s by (auto simp: last_of_def first_of_def)
    let ?u = "\<lparr>u_head = ?hd, u_tbl = Some ?t2, u_hh = hh2\<rparr>"
    have "HASH_DELETE e u = Some ?u"
      using HASH_DELETE_unlink [OF ht _ tl' refl hh refl, of hh2] False pv nx del(1)
      by (simp add: bkt_of_def last_of_def first_of_def)
    moreover have "uthash_list ?u (xs @ ys)"
      unfolding uthash_list_def
      using hd' seg del dis t tl hv rest s False by (simp add: tbl_ok_def)
    moreover have "\<forall>x. x \<noteq> e \<longrightarrow> x \<notin> set es \<longrightarrow> h_next hh2 x = h_next (u_hh u) x"
      using del(4) nx' s by (auto simp: last_of_def)
    ultimately show ?thesis using del(5) rest(3) rm(1) by auto
  qed
qed

text \<open>
  A loop over the table: with a body that leaves the table alone it visits the elements in order, and
  with \<open>HASH_DELETE\<close> as its body it empties the table, reading no element it has deleted.
\<close>

lemma hash_iter_visit:
  "dseg (h_next (u_hh u)) pv p es None \<Longrightarrow>
     hash_iter fst (\<lambda>e (u, acc). Some (u, acc @ [e])) (first_of es None)
       (case first_of es None of Some h \<Rightarrow> h_next (u_hh u) h | None \<Rightarrow> None) (u, acc) = Some (u, acc @ es)"
proof (induction es arbitrary: p acc)
  case Nil
  then show ?case by (simp add: hash_iter.simps)
next
  case (Cons e es)
  from Cons.IH [of "Some e" "acc @ [e]"] Cons.prems show ?case by (simp add: hash_iter.simps [of _ _ "Some e"] cong: option.case_cong)
qed

lemma HASH_ITER_visit:
  assumes "uthash_list u es"
  shows "HASH_ITER fst (\<lambda>e (u, acc). Some (u, acc @ [e])) (u, []) = Some (u, es)"
  using assms hash_iter_visit [of u "h_prev (u_hh u)" None es "[]"]
  by (simp add: HASH_ITER_def uthash_list_def cong: option.case_cong)

lemma hash_iter_delete:
  "uthash_list u es \<Longrightarrow>
     \<exists>u'. hash_iter (\<lambda>u. u) HASH_DELETE (first_of es None)
       (case first_of es None of Some h \<Rightarrow> h_next (u_hh u) h | None \<Rightarrow> None) u = Some u' \<and> uthash_list u' []"
proof (induction es arbitrary: u)
  case Nil
  then show ?case by (simp add: hash_iter.simps)
next
  case (Cons e es)
  obtain u1 where d: "HASH_DELETE e u = Some u1" "uthash_list u1 es"
    using HASH_DELETE_list [OF Cons.prems, of e] by auto
  have "h_next (u_hh u) e = first_of es None" using Cons.prems by (simp add: uthash_list_def)
  with Cons.IH [OF d(2)] d(1) show ?case by (simp add: hash_iter.simps [of _ _ "Some e"])
qed

lemma HASH_ITER_delete: "uthash_list u es \<Longrightarrow> \<exists>u'. HASH_ITER (\<lambda>u. u) HASH_DELETE u = Some u' \<and> uthash_list u' []"
  using hash_iter_delete [of u es] by (simp add: HASH_ITER_def uthash_list_def)

lemma hash_del_abs:
  assumes "e \<in> set es" and "distinct es" and "distinct (map (h_key (u_hh u)) es)" and "h_key (u_hh u') = h_key (u_hh u)"
  shows "uthash_abs u' (remove1 e es) = hash_del (uthash_abs u es) (h_key (u_hh u) e)"
proof -
  have "filter (\<lambda>x. h_key (u_hh u) x \<noteq> h_key (u_hh u) e) es = filter (\<lambda>x. x \<noteq> e) es"
    by (rule filter_cong) (use assms in \<open>auto simp: distinct_map inj_on_def\<close>)
  with assms show ?thesis
    by (simp add: uthash_abs_def hash_del_def filter_map o_def distinct_remove1_removeAll removeAll_filter_not_eq eq_commute)
qed

text \<open>
  C25. The hash tables are the tables the rest of the development uses: on a structure whose pointers,
  chains and counters are right, with different keys, \<open>HASH_FIND\<close> is the lookup of the key,
  \<open>HASH_ADD\<close> of a new element appends the key and the element, even when it expands the table,
  \<open>HASH_DELETE\<close> of any of its elements takes its key out, \<open>HASH_ITER\<close> visits the elements once and
  in the order they were added, and the loop that deletes each of them empties the table; each of them
  ends, uses no bad pointer and leaves a structure that is right again.
\<close>

theorem uthash_refines_table:
  assumes "uthash_list u es" and "distinct (map (h_key (u_hh u)) es)"
  shows "(\<forall>k. HASH_FIND k u = Some (hash_find (uthash_abs u es) k)) \<and>
    (\<forall>k e. e \<notin> set es \<longrightarrow> uthash_room u es \<longrightarrow>
       (\<exists>u'. HASH_ADD k e u = Some u' \<and> uthash_list u' (es @ [e]) \<and> uthash_abs u' (es @ [e]) = hash_add (uthash_abs u es) k e)) \<and>
    (\<forall>e. e \<in> set es \<longrightarrow>
       (\<exists>u'. HASH_DELETE e u = Some u' \<and> uthash_list u' (remove1 e es) \<and>
          uthash_abs u' (remove1 e es) = hash_del (uthash_abs u es) (h_key (u_hh u) e))) \<and>
    HASH_ITER fst (\<lambda>e (u, acc). Some (u, acc @ [e])) (u, []) = Some (u, es) \<and>
    (\<exists>u'. HASH_ITER (\<lambda>u. u) HASH_DELETE u = Some u' \<and> uthash_list u' [])"
proof (intro conjI allI impI)
  fix e assume e: "e \<in> set es"
  obtain u' where d: "HASH_DELETE e u = Some u'" "uthash_list u' (remove1 e es)" "h_key (u_hh u') = h_key (u_hh u)"
    using HASH_DELETE_list [OF assms(1) e] by blast
  have "distinct es" using assms(1) by (simp add: uthash_list_def)
  with d hash_del_abs [OF e _ assms(2) d(3)]
  show "\<exists>u'. HASH_DELETE e u = Some u' \<and> uthash_list u' (remove1 e es) \<and>
      uthash_abs u' (remove1 e es) = hash_del (uthash_abs u es) (h_key (u_hh u) e)" by blast
qed (use assms HASH_FIND_list HASH_ADD_list HASH_ITER_visit HASH_ITER_delete in auto)

definition uthash_empty :: uthash where
  "uthash_empty =
     \<lparr>u_head = None, u_tbl = None,
      u_hh = \<lparr>h_prev = \<lambda>_. None, h_next = \<lambda>_. None, hh_prev = \<lambda>_. None, hh_next = \<lambda>_. None, h_key = \<lambda>_. [], h_hashv = \<lambda>_. 0\<rparr>\<rparr>"

theorem uthash_refines_table_witness:
  "\<exists>u. HASH_ADD [1, 2, 3, 4] 7 uthash_empty = Some u \<and> HASH_FIND [1, 2, 3, 4] u = Some (Some 7) \<and> HASH_FIND [9] u = Some None"
proof -
  have "uthash_list uthash_empty []" "uthash_room uthash_empty []"
    by (simp_all add: uthash_list_def uthash_empty_def uthash_room_def)
  then have "\<forall>k e. \<exists>u'. HASH_ADD k e uthash_empty = Some u' \<and> uthash_list u' [e] \<and> uthash_abs u' [e] = hash_add [] k e"
    using uthash_refines_table [of uthash_empty "[]"] by (simp add: uthash_abs_def)
  then obtain u where u: "HASH_ADD [1, 2, 3, 4] 7 uthash_empty = Some u" "uthash_list u [7]"
      "uthash_abs u [7] = hash_add [] [1, 2, 3, 4] 7" by blast
  have "HASH_FIND k u = Some (hash_find (hash_add [] [1, 2, 3, 4] 7) k)" for k
    using uthash_refines_table [OF u(2)] u(3) by simp
  with u(1) show ?thesis by (auto simp: hash_find_def hash_add_def)
qed

end
