(* ===== verification/Utlist.thy ===== *)
theory Utlist
  imports Linked "HOL-Library.Monad_Syntax"
begin

text \<open>
  The doubly linked lists of utlist.h, which hold the interfaces and the destinations that wait for
  their packets to be sent: the macros the program uses, and that they are the operations on lists by
  which the models of these parts describe them. The \<open>prev\<close> pointer of the first element is the last
  element. \<open>None\<close> is an access through \<open>NULL\<close>.
\<close>

record dl =
  dl_head :: ref
  dl_next :: "nat \<Rightarrow> ref"
  dl_prev :: "nat \<Rightarrow> ref"

definition set_next :: "nat \<Rightarrow> ref \<Rightarrow> dl \<Rightarrow> dl" where
  "set_next e r st = st\<lparr>dl_next := (dl_next st)(e := r)\<rparr>"

definition set_prev :: "nat \<Rightarrow> ref \<Rightarrow> dl \<Rightarrow> dl" where
  "set_prev e r st = st\<lparr>dl_prev := (dl_prev st)(e := r)\<rparr>"

definition DL_PREPEND :: "nat \<Rightarrow> dl \<Rightarrow> dl" where
  "DL_PREPEND e st =
     (let st = set_next e (dl_head st) st;
          st = (case dl_head st of
                  Some h \<Rightarrow> set_prev h (Some e) (set_prev e (dl_prev st h) st)
                | None \<Rightarrow> set_prev e (Some e) st)
      in st\<lparr>dl_head := Some e\<rparr>)"

definition DL_APPEND :: "nat \<Rightarrow> dl \<Rightarrow> dl option" where
  "DL_APPEND e st =
     (case dl_head st of
        Some h \<Rightarrow>
          do {
            let st = set_prev e (dl_prev st h) st;
            t \<leftarrow> dl_prev st h;
            let st = set_next t (Some e) st;
            Some (set_next e None (set_prev h (Some e) st))
          }
      | None \<Rightarrow> Some (set_next e None (set_prev e (Some e) (st\<lparr>dl_head := Some e\<rparr>))))"

definition DL_DELETE :: "nat \<Rightarrow> dl \<Rightarrow> dl option" where
  "DL_DELETE e st =
     (if dl_prev st e = None then None
      else if dl_prev st e = Some e then Some (st\<lparr>dl_head := None\<rparr>)
      else if dl_head st = Some e then
        do {
          n \<leftarrow> dl_next st e;
          Some ((set_prev n (dl_prev st e) st)\<lparr>dl_head := dl_next st e\<rparr>)
        }
      else
        do {
          p \<leftarrow> dl_prev st e;
          let st = set_next p (dl_next st e) st;
          (case dl_next st e of
             Some n \<Rightarrow> Some (set_prev n (dl_prev st e) st)
           | None \<Rightarrow> do { h \<leftarrow> dl_head st; Some (set_prev h (dl_prev st e) st) })
        })"

text \<open>The elements a loop visits, and a loop whose body may delete the element it is at.\<close>

partial_function (option) dl_foreach :: "(nat \<Rightarrow> ref) \<Rightarrow> ref \<Rightarrow> nat list option" where
  "dl_foreach nx el =
     (case el of None \<Rightarrow> Some [] | Some e \<Rightarrow> do { es \<leftarrow> dl_foreach nx (nx e); Some (e # es) })"

partial_function (option) dl_foreach_safe :: "(nat \<Rightarrow> dl \<Rightarrow> dl option) \<Rightarrow> ref \<Rightarrow> dl \<Rightarrow> dl option" where
  "dl_foreach_safe body el st =
     (case el of
        None \<Rightarrow> Some st
      | Some e \<Rightarrow> let tmp = dl_next st e in do { st \<leftarrow> body e st; dl_foreach_safe body tmp st })"

definition DL_FOREACH :: "dl \<Rightarrow> nat list option" where
  "DL_FOREACH st = dl_foreach (dl_next st) (dl_head st)"

definition DL_FOREACH_SAFE :: "(nat \<Rightarrow> dl \<Rightarrow> dl option) \<Rightarrow> dl \<Rightarrow> dl option" where
  "DL_FOREACH_SAFE body st = dl_foreach_safe body (dl_head st) st"

lemma set_next_simps [simp]:
  "dl_next (set_next e r st) = (dl_next st)(e := r)" "dl_prev (set_next e r st) = dl_prev st"
  "dl_head (set_next e r st) = dl_head st"
  by (simp_all add: set_next_def)

lemma set_prev_simps [simp]:
  "dl_prev (set_prev e r st) = (dl_prev st)(e := r)" "dl_next (set_prev e r st) = dl_next st"
  "dl_head (set_prev e r st) = dl_head st"
  by (simp_all add: set_prev_def)

subsection \<open>The list a structure stands for\<close>

definition dl_list :: "dl \<Rightarrow> nat list \<Rightarrow> bool" where
  "dl_list st xs \<longleftrightarrow>
     distinct xs \<and> dl_head st = first_of xs None \<and> dseg (dl_next st) (dl_prev st) (last_of None xs) xs None"

lemma DL_PREPEND_list:
  assumes "dl_list st xs" and "e \<notin> set xs"
  shows "dl_list (DL_PREPEND e st) (e # xs)"
proof (cases xs)
  case Nil
  with assms show ?thesis by (simp add: dl_list_def DL_PREPEND_def)
next
  case (Cons y ys)
  have "dseg (dl_next (DL_PREPEND e st)) (dl_prev (DL_PREPEND e st)) (Some y) ys None = dseg (dl_next st) (dl_prev st) (Some y) ys None"
    by (rule dseg_cong) (use assms Cons in \<open>auto simp: dl_list_def DL_PREPEND_def\<close>)
  with assms Cons show ?thesis by (auto simp: dl_list_def DL_PREPEND_def)
qed

lemma DL_APPEND_list:
  assumes l: "dl_list st xs" and e: "e \<notin> set xs"
  shows "\<exists>st'. DL_APPEND e st = Some st' \<and> dl_list st' (xs @ [e])"
proof (cases xs)
  case Nil
  with assms show ?thesis by (simp add: dl_list_def DL_APPEND_def)
next
  case (Cons y ys)
  have h: "dl_head st = Some y" "dl_prev st y = Some (last xs)" using l Cons by (simp_all add: dl_list_def last_of_def)
  let ?st = "set_next e None (set_prev y (Some e) (set_next (last xs) (Some e) (set_prev e (Some (last xs)) st)))"
  have a: "DL_APPEND e st = Some ?st" using h e Cons by (auto simp: DL_APPEND_def)
  have "dseg (dl_next ?st) ((dl_prev ?st)(y := Some (last xs))) (Some (last xs)) (xs @ [e]) None"
  proof (rule dseg_snoc)
    show "dseg (dl_next st) (dl_prev st) (Some (last xs)) xs None" using l Cons by (simp add: dl_list_def last_of_def)
  qed (use l e Cons h in \<open>auto simp: dl_list_def last_of_def\<close>)
  then have "dseg (dl_next ?st) ((dl_prev ?st)(y := Some (last xs))) (Some (last xs)) (y # ys @ [e]) None"
    unfolding Cons append_Cons .
  moreover have "y \<notin> set (ys @ [e])" using l e Cons by (auto simp: dl_list_def)
  ultimately have "dseg (dl_next ?st) (((dl_prev ?st)(y := Some (last xs)))(y := Some e)) (Some e) (y # ys @ [e]) None"
    by (rule dseg_prev)
  moreover have "((dl_prev ?st)(y := Some (last xs)))(y := Some e) = dl_prev ?st"
    by (auto simp: fun_eq_iff)
  ultimately have "dl_list ?st (xs @ [e])" using l e Cons h(1) by (auto simp: dl_list_def)
  with a show ?thesis by blast
qed

lemma DL_DELETE_list:
  assumes l: "dl_list st (xs @ e # ys)"
  shows "\<exists>st'. DL_DELETE e st = Some st' \<and> dl_list st' (xs @ ys)"
proof -
  have dis: "distinct (xs @ e # ys)" and d: "dseg (dl_next st) (dl_prev st) (Some (last (e # ys))) (xs @ e # ys) None"
    and h: "dl_head st = first_of xs (Some e)"
    using l by (simp_all add: dl_list_def last_of_def split: if_splits)
  have pv: "dl_prev st e = last_of (Some (last (e # ys))) xs" and nx: "dl_next st e = first_of ys None" using d by simp_all
  show ?thesis
  proof (cases xs)
    case Nil
    show ?thesis
    proof (cases ys)
      case Nil
      with \<open>xs = []\<close> pv h show ?thesis by (simp add: DL_DELETE_def dl_list_def)
    next
      case (Cons y zs)
      have "dl_prev st e = Some (last ys)" using pv \<open>xs = []\<close> Cons by simp
      moreover have "last ys \<noteq> e" using dis Cons by (metis distinct.simps(2) \<open>xs = []\<close> append_Nil last_in_set list.distinct(1))
      moreover have "dl_list ((set_prev y (Some (last ys)) st)\<lparr>dl_head := Some y\<rparr>) ys"
        using dseg_prev [of "dl_next st" "dl_prev st" "Some e" y zs None "Some (last ys)"] d dis Cons \<open>xs = []\<close>
        by (simp add: dl_list_def last_of_def)
      ultimately show ?thesis using \<open>xs = []\<close> Cons h nx by (simp add: DL_DELETE_def)
    qed
  next
    case (Cons a as)
    have pe: "dl_prev st e = Some (last xs)" using pv Cons by (simp add: last_of_def)
    have ne: "last xs \<noteq> e" "a \<noteq> e" using dis Cons by (auto dest: last_in_set)
    show ?thesis
    proof (cases ys)
      case Nil
      let ?st = "set_prev a (Some (last xs)) (set_next (last xs) None st)"
      have xs: "xs = butlast xs @ [last xs]" using Cons by simp
      have "last xs \<notin> set (butlast xs)" using dis xs by (metis distinct_append not_distinct_conv_prefix)
      moreover have "dseg (dl_next st) (dl_prev st) (Some e) (butlast xs @ [last xs]) (Some e)" using d Nil by (simp flip: xs)
      ultimately have "dseg ((dl_next st)(last xs := None)) (dl_prev st) (Some e) (butlast xs @ [last xs]) None" by (intro dseg_next)
      then have "dseg (dl_next ?st) (dl_prev st) (Some e) xs None" by (simp flip: xs)
      then have "dseg (dl_next ?st) ((dl_prev st)(a := Some (last xs))) (Some (last xs)) xs None"
        using dis Cons by (intro dseg_prev [of _ _ "Some e" a as, folded Cons]) (auto simp: Cons)
      then have "dl_list ?st xs" using dis h Cons by (simp add: dl_list_def last_of_def)
      moreover have "DL_DELETE e st = Some ?st" using pe ne h nx Cons Nil by (simp add: DL_DELETE_def)
      ultimately show ?thesis using Nil by simp
    next
      case ys: (Cons y zs)
      let ?st = "set_prev y (Some (last xs)) (set_next (last xs) (Some y) st)"
      have "DL_DELETE e st = Some ?st" using pe ne h nx Cons ys by (simp add: DL_DELETE_def)
      have "dseg (dl_next ?st) (dl_prev ?st) (Some (last (e # ys))) (xs @ ys) None"
        by (rule dseg_unlink [OF d dis]) (use pe nx Cons ys in \<open>auto simp: last_of_def\<close>)
      moreover have "dl_head ?st = first_of (xs @ ys) None" using h Cons by simp
      ultimately have "dl_list ?st (xs @ ys)" using dis ys by (simp only: dl_list_def) (simp add: last_of_def)
      with \<open>DL_DELETE e st = Some ?st\<close> show ?thesis by blast
    qed
  qed
qed

lemma dl_foreach_dseg: "dseg nx pv p xs None \<Longrightarrow> dl_foreach nx (first_of xs None) = Some xs"
proof (induction xs arbitrary: p)
  case Nil
  then show ?case by (simp add: dl_foreach.simps)
next
  case (Cons x xs)
  from Cons.IH [of "Some x"] Cons.prems show ?case by (simp add: dl_foreach.simps [of nx "Some x"])
qed

lemma dl_delete_all:
  "dl_list st xs \<Longrightarrow> \<exists>st'. dl_foreach_safe DL_DELETE (first_of xs None) st = Some st' \<and> dl_list st' []"
proof (induction xs arbitrary: st)
  case Nil
  then show ?case by (simp add: dl_foreach_safe.simps)
next
  case (Cons x xs)
  obtain st1 where d: "DL_DELETE x st = Some st1" "dl_list st1 xs" using DL_DELETE_list [of st "[]" x xs] Cons.prems by auto
  have "dl_next st x = first_of xs None" using Cons.prems by (simp add: dl_list_def)
  with Cons.IH [OF d(2)] d(1) show ?case by (simp add: dl_foreach_safe.simps [of _ "Some x"])
qed

text \<open>
  C26. The doubly linked lists are lists: with elements that are not yet in it, prepending and appending
  add at the two ends, deleting takes out an element wherever it is, a loop visits every element once
  and in order, and the loop that deletes every element it visits empties the list.
\<close>

theorem utlist_refines_lists:
  assumes "dl_list st xs"
  shows "(\<forall>e. e \<notin> set xs \<longrightarrow> dl_list (DL_PREPEND e st) (e # xs) \<and> (\<exists>st'. DL_APPEND e st = Some st' \<and> dl_list st' (xs @ [e]))) \<and>
    (\<forall>e. e \<in> set xs \<longrightarrow> (\<exists>st'. DL_DELETE e st = Some st' \<and> dl_list st' (remove1 e xs))) \<and>
    DL_FOREACH st = Some xs \<and> (\<exists>st'. DL_FOREACH_SAFE DL_DELETE st = Some st' \<and> dl_list st' [])"
proof -
  have "\<exists>st'. DL_DELETE e st = Some st' \<and> dl_list st' (remove1 e xs)" if "e \<in> set xs" for e
  proof -
    obtain as bs where "xs = as @ e # bs" "e \<notin> set as" using split_list_first [OF \<open>e \<in> set xs\<close>] by blast
    with DL_DELETE_list [of st as e bs] assms show ?thesis by (simp add: remove1_append)
  qed
  with assms DL_PREPEND_list DL_APPEND_list dl_delete_all [OF assms] dl_foreach_dseg show ?thesis
    by (auto simp: DL_FOREACH_def DL_FOREACH_SAFE_def dl_list_def)
qed

theorem utlist_refines_lists_witness:
  "\<exists>st. dl_list st [7] \<and> DL_FOREACH st = Some [7] \<and> (\<exists>st'. DL_APPEND 8 st = Some st' \<and> dl_list st' [7, 8])"
proof -
  let ?st = "\<lparr>dl_head = Some 7, dl_next = (\<lambda>_. None), dl_prev = (\<lambda>_. Some 7)\<rparr>"
  have "dl_list ?st [7]" by (simp add: dl_list_def)
  from utlist_refines_lists [OF this] this show ?thesis by auto
qed

end
