(* ===== verification/DplaySetup.thy ===== *)
theory DplaySetup
  imports Config "HOL-Library.Monad_Syntax"
begin

text \<open>
  The registration of IPX with DirectPlay (dplay-setup.c): the program that adds the service provider
  and the service to the registry, or corrects them. The registry calls are a parameter, with what
  Windows documents of them as a hypothesis of the theorems. \<open>None\<close> is a run that does not end or that
  reads past the end of a buffer.
\<close>

definition HKEY_LOCAL_MACHINE :: hkey where "HKEY_LOCAL_MACHINE = 0x80000002"
definition REG_EXPAND_SZ :: u32 where "REG_EXPAND_SZ = 2"

definition key_path :: "string list \<Rightarrow> string" where
  "key_path parts = foldr (\<lambda>p r. if r = [] then p else p @ [CHR 0x5C] @ r) parts []"

definition SERVICE_PROVIDERS_PATH :: string where
  "SERVICE_PROVIDERS_PATH = key_path [''Software'', ''Microsoft'', ''DirectPlay'', ''Service Providers'']"

definition SERVICE_PROVIDER_DEFAULT_NAME :: string where
  "SERVICE_PROVIDER_DEFAULT_NAME = ''IPX Connection For DirectPlay''"

definition SERVICE_PROVIDER_GUID_STRING :: string where
  "SERVICE_PROVIDER_GUID_STRING = ''{685BC400-9D2C-11cf-A9CD-00AA006886E3}''"

definition SERVICE_PROVIDER_PATH :: string where "SERVICE_PROVIDER_PATH = ''dpwsockx.dll''"
definition SERVICE_PROVIDER_RESERVED1 :: u32 where "SERVICE_PROVIDER_RESERVED1 = 50"
definition SERVICE_PROVIDER_RESERVED2 :: u32 where "SERVICE_PROVIDER_RESERVED2 = 0"

definition SERVICE_KEY_PATH :: string where
  "SERVICE_KEY_PATH = key_path [''Software'', ''Microsoft'', ''DirectPlay'', ''Services'', ''{5146ab8cb6b1ce11920c00aa006c4972}'']"

definition SERVICE_NAME :: string where "SERVICE_NAME = ''WinSock IPX Connection For DirectPlay''"
definition SERVICE_PATH :: string where "SERVICE_PATH = ''dpwsockx.dll''"

text \<open>The calls of the registry with the enumeration of the keys below a key.\<close>

record 'w setup_api = "'w reg_api" +
  RegEnumKeyEx :: "hkey \<Rightarrow> nat \<Rightarrow> 'w \<Rightarrow> u32 \<times> string"

text \<open>A text with its terminator, and the comparison of texts that ignores case.\<close>

definition sz :: "string \<Rightarrow> bytes" where
  "sz s = str_bytes s @ [0]"

definition stricmp_eq :: "string \<Rightarrow> string \<Rightarrow> bool" where
  "stricmp_eq a b \<longleftrightarrow> upper a = upper b"

text \<open>
  A query of a value of a given type into a buffer of \<open>n\<close> bytes, which held \<open>stack\<close>, and the comparison
  with a text. Windows does not terminate the text; without a terminator in the buffer the comparison
  reads past its end.
\<close>

definition value_is :: "'w setup_api \<Rightarrow> bytes \<Rightarrow> nat \<Rightarrow> u32 \<Rightarrow> hkey \<Rightarrow> string \<Rightarrow> string \<Rightarrow> 'w \<Rightarrow> bool option" where
  "value_is api stack n ty key name text w =
     (case RegQueryValueEx api key name w of (err, type, data) \<Rightarrow>
        let err = (if err = ERROR_SUCCESS \<and> length data > n then ERROR_MORE_DATA else err) in
        if err \<noteq> ERROR_SUCCESS \<or> type \<noteq> ty then Some False
        else
          let buf = data @ drop (length data) (take n stack) in
          if 0 \<notin> set buf then None
          else Some (stricmp_eq (bytes_str (takeWhile (\<lambda>c. c \<noteq> 0) buf)) text))"

text \<open>
  Every provider is opened and its GUID read until it is the one of IPX; the result is its handle, \<open>0\<close>
  when there is none, or \<open>Inl\<close> when the program exits because one cannot be opened.
\<close>

partial_function (option) provider_loop ::
  "'w setup_api \<Rightarrow> bytes \<Rightarrow> hkey \<Rightarrow> nat \<Rightarrow> 'w \<Rightarrow> (('w + hkey \<times> 'w)) option" where
  "provider_loop api stack providers i w =
     (case RegEnumKeyEx api providers i w of (err, name) \<Rightarrow>
        if err = ERROR_NO_MORE_ITEMS then Some (Inr (0, w))
        else if err = ERROR_SUCCESS then
          (case RegOpenKeyEx api providers name w of ((err, key), w) \<Rightarrow>
             if err \<noteq> ERROR_SUCCESS then Some (Inl w)
             else do {
               found \<leftarrow> value_is api stack 40 REG_SZ key ''Guid'' SERVICE_PROVIDER_GUID_STRING w;
               if found then Some (Inr (key, w)) else provider_loop api stack providers (Suc i) (RegCloseKey api key w)
             })
        else provider_loop api stack providers (Suc i) w)"

definition open_service_provider_key :: "'w setup_api \<Rightarrow> bytes \<Rightarrow> hkey \<Rightarrow> 'w \<Rightarrow> (('w + hkey \<times> 'w)) option" where
  "open_service_provider_key api stack providers w = provider_loop api stack providers 0 w"

text \<open>Writing a list of values; the first failure ends it.\<close>

definition set_values :: "'w setup_api \<Rightarrow> hkey \<Rightarrow> (string \<times> u32 \<times> bytes) list \<Rightarrow> 'w \<Rightarrow> bool \<times> 'w" where
  "set_values api key vs w =
     all_ok (map (\<lambda>(name, ty, data) w. case RegSetValueEx api key name ty data w of (err, w) \<Rightarrow> (err = ERROR_SUCCESS, w)) vs) w"

definition provider_values :: "(string \<times> u32 \<times> bytes) list" where
  "provider_values =
     [(''DescriptionA'', REG_SZ, sz SERVICE_PROVIDER_DEFAULT_NAME), (''DescriptionW'', REG_SZ, sz SERVICE_PROVIDER_DEFAULT_NAME),
      (''dwReserved1'', REG_DWORD, le_bytes 4 SERVICE_PROVIDER_RESERVED1), (''dwReserved2'', REG_DWORD, le_bytes 4 SERVICE_PROVIDER_RESERVED2),
      (''Guid'', REG_SZ, sz SERVICE_PROVIDER_GUID_STRING)]"

text \<open>
  The changes that are needed: the two keys and their paths. \<open>Inl\<close> is an exit code, with the handles
  still open, as the program ends there.
\<close>

definition fix_provider :: "'w setup_api \<Rightarrow> bool \<Rightarrow> bool \<Rightarrow> hkey \<Rightarrow> hkey \<Rightarrow> 'w \<Rightarrow> ('w + hkey \<times> 'w)" where
  "fix_provider api add fix providers key w =
     (let r = (if add then
                 case RegCreateKeyEx api providers SERVICE_PROVIDER_DEFAULT_NAME w of ((err, key), w) \<Rightarrow>
                   if err \<noteq> ERROR_SUCCESS then Inl w
                   else case set_values api key provider_values w of (ok, w) \<Rightarrow> if ok then Inr (key, w) else Inl w
               else Inr (key, w))
      in case r of
           Inl w \<Rightarrow> Inl w
         | Inr (key, w) \<Rightarrow>
             if add \<or> fix then
               case set_values api key [(''Path'', REG_SZ, sz SERVICE_PROVIDER_PATH)] w of (ok, w) \<Rightarrow> if ok then Inr (key, w) else Inl w
             else Inr (key, w))"

definition fix_service :: "'w setup_api \<Rightarrow> bool \<Rightarrow> bool \<Rightarrow> hkey \<Rightarrow> 'w \<Rightarrow> ('w + hkey \<times> 'w)" where
  "fix_service api add fix key w =
     (let r = (if add then
                 case RegCreateKeyEx api HKEY_LOCAL_MACHINE SERVICE_KEY_PATH w of ((err, key), w) \<Rightarrow>
                   if err \<noteq> ERROR_SUCCESS then Inl w
                   else case set_values api key [(''Description'', REG_SZ, sz SERVICE_NAME)] w of (ok, w) \<Rightarrow>
                          if ok then Inr (key, w) else Inl w
               else Inr (key, w))
      in case r of
           Inl w \<Rightarrow> Inl w
         | Inr (key, w) \<Rightarrow>
             if add \<or> fix then
               case set_values api key [(''Path'', REG_EXPAND_SZ, sz SERVICE_PATH)] w of (ok, w) \<Rightarrow> if ok then Inr (key, w) else Inl w
             else Inr (key, w))"

definition close_all :: "'w setup_api \<Rightarrow> hkey \<Rightarrow> hkey \<Rightarrow> hkey \<Rightarrow> 'w \<Rightarrow> 'w" where
  "close_all api service provider providers w =
     RegCloseKey api providers (RegCloseKey api provider (RegCloseKey api service w))"

text \<open>The question, the changes and the end, once the two keys have been looked at.\<close>

definition setup_finish :: "'w setup_api \<Rightarrow> bool \<Rightarrow> bool \<Rightarrow> hkey \<Rightarrow> hkey \<Rightarrow> hkey \<Rightarrow> bool \<Rightarrow> bool \<Rightarrow> bool \<Rightarrow> 'w \<Rightarrow> (nat \<times> 'w) option" where
  "setup_finish api quiet yes providers provider service fix_path add_service fix_service_path w =
     (let needed = (provider = 0 \<or> fix_path \<or> add_service \<or> fix_service_path) in
      if \<not> quiet \<and> (\<not> needed \<or> \<not> yes) then Some (0, close_all api service provider providers w)
      else
        case fix_provider api (provider = 0) fix_path providers provider w of
          Inl w \<Rightarrow> Some (1, w)
        | Inr (provider, w) \<Rightarrow>
            (case fix_service api add_service fix_service_path service w of
               Inl w \<Rightarrow> Some (1, w)
             | Inr (service, w) \<Rightarrow> Some (0, close_all api service provider providers w)))"

text \<open>
  What is wrong with the path of the provider and with the service. \<open>junk\<close> is what the variable of the
  service's handle holds when the key could not be opened.
\<close>

definition setup_service :: "'w setup_api \<Rightarrow> bytes \<Rightarrow> hkey \<Rightarrow> bool \<Rightarrow> bool \<Rightarrow> hkey \<Rightarrow> hkey \<Rightarrow> 'w \<Rightarrow> (nat \<times> 'w) option" where
  "setup_service api stack junk quiet yes providers provider w =
     do {
       need_to_fix_path \<leftarrow>
         (if provider \<noteq> 0
          then map_option Not (value_is api stack 16 REG_SZ provider ''Path'' SERVICE_PROVIDER_PATH w)
          else Some False);
       case RegOpenKeyEx api HKEY_LOCAL_MACHINE SERVICE_KEY_PATH w of ((err, service), w) \<Rightarrow>
         if err = ERROR_FILE_NOT_FOUND then setup_finish api quiet yes providers provider junk need_to_fix_path True False w
         else if err \<noteq> ERROR_SUCCESS then Some (1, w)
         else do {
           same \<leftarrow> value_is api stack 16 REG_EXPAND_SZ service ''Path'' SERVICE_PATH w;
           setup_finish api quiet yes providers provider service need_to_fix_path False (\<not> same) w
         }
     }"

text \<open>The program: \<open>args\<close> are its arguments, \<open>yes\<close> the answer to its question. The result is the exit code.\<close>

definition setup_main :: "'w setup_api \<Rightarrow> bytes \<Rightarrow> hkey \<Rightarrow> string list \<Rightarrow> bool \<Rightarrow> 'w \<Rightarrow> (nat \<times> 'w) option" where
  "setup_main api stack junk args yes w =
     (let quiet = (args = [''/q'']) in
      if \<not> quiet \<and> args \<noteq> [] then Some (1, w)
      else
        case RegOpenKeyEx api HKEY_LOCAL_MACHINE SERVICE_PROVIDERS_PATH w of ((err, providers), w) \<Rightarrow>
        if err \<noteq> ERROR_SUCCESS then Some (1, w)
        else do {
          r \<leftarrow> open_service_provider_key api stack providers w;
          case r of Inl w \<Rightarrow> Some (1, w) | Inr (provider, w) \<Rightarrow> setup_service api stack junk quiet yes providers provider w
        })"

subsection \<open>What Windows documents\<close>

text \<open>
  \<open>hk\<close> and \<open>va\<close> are those of \<open>Registry\<close>; \<open>sub w p\<close> are the names of the keys below a key, in the order
  they are enumerated. Creating a key may add it to the keys below its parents, and to no other key.
\<close>

type_synonym 'w sub_map = "'w \<Rightarrow> string \<Rightarrow> string list"

definition creates_below :: "'w setup_api \<Rightarrow> 'w handle_map \<Rightarrow> 'w sub_map \<Rightarrow> bool" where
  "creates_below api hk sub \<longleftrightarrow>
     (\<forall>parent p q w. hk w parent = Some p \<longrightarrow>
        (\<forall>r. take (length r) (sub_path p q) \<noteq> r \<longrightarrow> sub (snd (RegCreateKeyEx api parent q w)) r = sub w r) \<and>
        (fst (fst (RegCreateKeyEx api parent q w)) = ERROR_SUCCESS \<longrightarrow> CHR 0x5C \<notin> set q \<longrightarrow>
           (\<exists>n\<in>set (sub (snd (RegCreateKeyEx api parent q w)) p). upper n = upper q) \<and>
           set (sub (snd (RegCreateKeyEx api parent q w)) p) \<subseteq> insert q (set (sub w p))))"

definition setup_laws :: "'w setup_api \<Rightarrow> string \<Rightarrow> 'w handle_map \<Rightarrow> 'w value_map \<Rightarrow> 'w sub_map \<Rightarrow> bool" where
  "setup_laws api root hk va sub \<longleftrightarrow>
     (\<forall>w. hk w HKEY_LOCAL_MACHINE = Some root \<and> hk w 0 = None) \<and>
     opens_key (RegCreateKeyEx api) hk va \<and> opens_key (RegOpenKeyEx api) hk va \<and>
     (\<forall>parent q w. sub (snd (RegOpenKeyEx api parent q w)) = sub w) \<and>
     (\<forall>parent p q w name. hk w parent = Some p \<longrightarrow> fst (fst (RegOpenKeyEx api parent q w)) = ERROR_FILE_NOT_FOUND \<longrightarrow>
        va w (sub_path p q) name = None) \<and>
     creates_below api hk sub \<and>
     (\<forall>w key. key \<noteq> HKEY_LOCAL_MACHINE \<longrightarrow>
        hk (RegCloseKey api key w) = (hk w)(key := None) \<and> va (RegCloseKey api key w) = va w \<and> sub (RegCloseKey api key w) = sub w) \<and>
     (\<forall>w key p name. hk w key = Some p \<longrightarrow>
        (case va w p (upper name) of
           None \<Rightarrow> fst (RegQueryValueEx api key name w) = ERROR_FILE_NOT_FOUND
         | Some (ty, data) \<Rightarrow> RegQueryValueEx api key name w = (ERROR_SUCCESS, ty, data))) \<and>
     (\<forall>w key p name ty data w'. hk w key = Some p \<longrightarrow> RegSetValueEx api key name ty data w = (ERROR_SUCCESS, w') \<longrightarrow>
        hk w' = hk w \<and> sub w' = sub w \<and> va w' = (va w)(p := (va w p)(upper name \<mapsto> (ty, data)))) \<and>
     (\<forall>w key p i. hk w key = Some p \<longrightarrow>
        (if i < length (sub w p) then RegEnumKeyEx api key i w = (ERROR_SUCCESS, sub w p ! i)
         else fst (RegEnumKeyEx api key i w) = ERROR_NO_MORE_ITEMS))"

lemma setup_laws_handles: "setup_laws api root hk va sub \<Longrightarrow> hk w HKEY_LOCAL_MACHINE = Some root \<and> hk w 0 = None"
  by (simp add: setup_laws_def)

lemma setup_laws_open:
  assumes "setup_laws api root hk va sub" and "hk w parent = Some p" and "RegOpenKeyEx api parent q w = ((err, key), w')"
  shows "va w' = va w \<and> sub w' = sub w \<and>
    (if err = ERROR_SUCCESS then key \<noteq> 0 \<and> hk w key = None \<and> hk w' = (hk w)(key \<mapsto> sub_path p q) else hk w' = hk w)"
proof -
  have o: "opens_key (RegOpenKeyEx api) hk va" and s: "sub (snd (RegOpenKeyEx api parent q w)) = sub w"
    using assms(1) by (simp_all add: setup_laws_def)
  from opens_keyD [OF o assms(2,3)] s assms(3) show ?thesis by simp
qed

lemma setup_laws_absent:
  assumes "setup_laws api root hk va sub" and "hk w parent = Some p" and "RegOpenKeyEx api parent q w = ((ERROR_FILE_NOT_FOUND, key), w')"
  shows "va w (sub_path p q) name = None"
proof -
  have "\<forall>parent p q w name. hk w parent = Some p \<longrightarrow> fst (fst (RegOpenKeyEx api parent q w)) = ERROR_FILE_NOT_FOUND \<longrightarrow>
      va w (sub_path p q) name = None" using assms(1) by (simp add: setup_laws_def)
  with assms(2,3) show ?thesis by (metis fst_conv)
qed

lemma setup_laws_create:
  assumes "setup_laws api root hk va sub" and "hk w parent = Some p" and "RegCreateKeyEx api parent q w = ((err, key), w')"
  shows "va w' = va w \<and> (if err = ERROR_SUCCESS then key \<noteq> 0 \<and> hk w key = None \<and> hk w' = (hk w)(key \<mapsto> sub_path p q) else hk w' = hk w)"
    and "take (length r) (sub_path p q) \<noteq> r \<Longrightarrow> sub w' r = sub w r"
    and "err = ERROR_SUCCESS \<Longrightarrow> CHR 0x5C \<notin> set q \<Longrightarrow>
      (\<exists>n\<in>set (sub w' p). upper n = upper q) \<and> set (sub w' p) \<subseteq> insert q (set (sub w p))"
proof -
  have "opens_key (RegCreateKeyEx api) hk va" using assms(1) by (simp add: setup_laws_def)
  from opens_keyD [OF this assms(2,3)]
  show "va w' = va w \<and> (if err = ERROR_SUCCESS then key \<noteq> 0 \<and> hk w key = None \<and> hk w' = (hk w)(key \<mapsto> sub_path p q) else hk w' = hk w)" .
  have c: "creates_below api hk sub" using assms(1) by (simp add: setup_laws_def)
  show "take (length r) (sub_path p q) \<noteq> r \<Longrightarrow> sub w' r = sub w r"
    using c assms(2,3) unfolding creates_below_def by (metis snd_conv)
  show "err = ERROR_SUCCESS \<Longrightarrow> CHR 0x5C \<notin> set q \<Longrightarrow>
      (\<exists>n\<in>set (sub w' p). upper n = upper q) \<and> set (sub w' p) \<subseteq> insert q (set (sub w p))"
    using c assms(2,3) unfolding creates_below_def by (metis fst_conv snd_conv)
qed

lemma setup_laws_close:
  "setup_laws api root hk va sub \<Longrightarrow> key \<noteq> HKEY_LOCAL_MACHINE \<Longrightarrow>
     hk (RegCloseKey api key w) = (hk w)(key := None) \<and> va (RegCloseKey api key w) = va w \<and> sub (RegCloseKey api key w) = sub w"
  by (simp add: setup_laws_def)

lemma setup_laws_query:
  assumes "setup_laws api root hk va sub" and "hk w key = Some p"
  shows "case va w p (upper name) of
           None \<Rightarrow> fst (RegQueryValueEx api key name w) = ERROR_FILE_NOT_FOUND
         | Some (ty, data) \<Rightarrow> RegQueryValueEx api key name w = (ERROR_SUCCESS, ty, data)"
  using assms by (simp add: setup_laws_def)

lemma setup_laws_set:
  assumes "setup_laws api root hk va sub" and "hk w key = Some p" and "RegSetValueEx api key name ty data w = (ERROR_SUCCESS, w')"
  shows "hk w' = hk w \<and> sub w' = sub w \<and> va w' = (va w)(p := (va w p)(upper name \<mapsto> (ty, data)))"
  using assms unfolding setup_laws_def by blast

lemma setup_laws_enum:
  assumes "setup_laws api root hk va sub" and "hk w key = Some p"
  shows "if i < length (sub w p) then RegEnumKeyEx api key i w = (ERROR_SUCCESS, sub w p ! i)
         else fst (RegEnumKeyEx api key i w) = ERROR_NO_MORE_ITEMS"
  using assms by (simp add: setup_laws_def)

text \<open>A value that is a given text, and a registry whose texts are terminated.\<close>

definition text_is :: "u32 \<Rightarrow> nat \<Rightarrow> string \<Rightarrow> (u32 \<times> bytes) option \<Rightarrow> bool" where
  "text_is ty n text v \<longleftrightarrow>
     (case v of Some (t, data) \<Rightarrow> t = ty \<and> length data \<le> n \<and> stricmp_eq (bytes_str (takeWhile (\<lambda>c. c \<noteq> 0) data)) text | None \<Rightarrow> False)"

definition terminated :: "'w value_map \<Rightarrow> 'w \<Rightarrow> bool" where
  "terminated va w \<longleftrightarrow> (\<forall>p name ty data. va w p name = Some (ty, data) \<longrightarrow> ty = REG_SZ \<or> ty = REG_EXPAND_SZ \<longrightarrow> 0 \<in> set data)"

lemma value_is_text:
  assumes "setup_laws api root hk va sub" and "hk w key = Some p" and "terminated va w" and "ty = REG_SZ \<or> ty = REG_EXPAND_SZ"
  shows "value_is api stack n ty key name text w = Some (text_is ty n text (va w p (upper name)))"
proof (cases "va w p (upper name)")
  case None
  with setup_laws_query [OF assms(1,2), of name] show ?thesis
    by (auto simp: value_is_def text_is_def reg_codes split: prod.split)
next
  case (Some v)
  obtain t data where v: "v = (t, data)" by (cases v)
  have q: "RegQueryValueEx api key name w = (ERROR_SUCCESS, t, data)" using setup_laws_query [OF assms(1,2), of name] Some v by simp
  have z: "0 \<in> set data" if "t = ty" using assms(3,4) Some that unfolding terminated_def v by blast
  then have "takeWhile (\<lambda>c. c \<noteq> 0) (data @ xs) = takeWhile (\<lambda>c. c \<noteq> 0) data" if "t = ty" for xs
    using that by (intro takeWhile_append1 [of 0]) auto
  with q Some v z show ?thesis by (auto simp: value_is_def text_is_def reg_codes Let_def)
qed

subsection \<open>The registration\<close>

definition PROVIDERS :: "string \<Rightarrow> string" where "PROVIDERS root = sub_path root SERVICE_PROVIDERS_PATH"
definition SERVICE :: "string \<Rightarrow> string" where "SERVICE root = sub_path root SERVICE_KEY_PATH"

definition is_provider :: "'w value_map \<Rightarrow> 'w \<Rightarrow> string \<Rightarrow> bool" where
  "is_provider va w p \<longleftrightarrow> text_is REG_SZ 40 SERVICE_PROVIDER_GUID_STRING (va w p (upper ''Guid''))"

definition found_provider :: "string \<Rightarrow> 'w value_map \<Rightarrow> 'w sub_map \<Rightarrow> 'w \<Rightarrow> string option" where
  "found_provider P va sub w = find (\<lambda>n. is_provider va w (sub_path P n)) (sub w P)"

definition provider_path_ok :: "string \<Rightarrow> 'w value_map \<Rightarrow> 'w \<Rightarrow> string \<Rightarrow> bool" where
  "provider_path_ok P va w n \<longleftrightarrow> text_is REG_SZ 16 SERVICE_PROVIDER_PATH (va w (sub_path P n) (upper ''Path''))"

definition provider_ready :: "string \<Rightarrow> 'w value_map \<Rightarrow> 'w sub_map \<Rightarrow> 'w \<Rightarrow> bool" where
  "provider_ready P va sub w \<longleftrightarrow> (case found_provider P va sub w of None \<Rightarrow> False | Some n \<Rightarrow> provider_path_ok P va w n)"

definition service_ready :: "string \<Rightarrow> 'w value_map \<Rightarrow> 'w \<Rightarrow> bool" where
  "service_ready S va w \<longleftrightarrow> text_is REG_EXPAND_SZ 16 SERVICE_PATH (va w S (upper ''Path''))"

definition registered :: "string \<Rightarrow> 'w value_map \<Rightarrow> 'w sub_map \<Rightarrow> 'w \<Rightarrow> bool" where
  "registered root va sub w \<longleftrightarrow> provider_ready (PROVIDERS root) va sub w \<and> service_ready (SERVICE root) va w"

lemma provider_loop_finds:
  assumes laws: "setup_laws api root hk va sub" and "hk w providers = Some P" and "terminated va w"
    and "providers \<noteq> HKEY_LOCAL_MACHINE" and "i \<le> length (sub w P)"
  shows "\<exists>r. provider_loop api stack providers i w = Some r \<and>
    (case r of Inl w' \<Rightarrow> va w' = va w
     | Inr (key, w') \<Rightarrow>
         va w' = va w \<and> sub w' = sub w \<and> hk w' providers = Some P \<and> key \<noteq> HKEY_LOCAL_MACHINE \<and>
         (case find (\<lambda>n. is_provider va w (sub_path P n)) (drop i (sub w P)) of
            None \<Rightarrow> key = 0
          | Some n \<Rightarrow> key \<noteq> 0 \<and> key \<noteq> providers \<and> hk w' key = Some (sub_path P n)))"
  using assms(2-5)
proof (induction "length (sub w P) - i" arbitrary: i w)
  case 0
  then have i: "i = length (sub w P)" by simp
  obtain name where e: "RegEnumKeyEx api providers i w = (ERROR_NO_MORE_ITEMS, name)"
    using setup_laws_enum [OF laws 0(2), of i] i by (cases "RegEnumKeyEx api providers i w") simp
  have "drop i (sub w P) = []" using i by simp
  then show ?case using 0(2) by (subst provider_loop.simps) (simp add: e HKEY_LOCAL_MACHINE_def)
next
  case (Suc d)
  let ?n = "sub w P ! i"
  have i: "i < length (sub w P)" using Suc.hyps(2) by simp
  have e: "RegEnumKeyEx api providers i w = (ERROR_SUCCESS, ?n)" using setup_laws_enum [OF laws Suc.prems(1), of i] i by simp
  have d: "drop i (sub w P) = ?n # drop (Suc i) (sub w P)" using i by (simp add: Cons_nth_drop_Suc)
  obtain err key w1 where o: "RegOpenKeyEx api providers ?n w = ((err, key), w1)" by (metis prod.exhaust)
  note ol = setup_laws_open [OF laws Suc.prems(1) o]
  show ?case
  proof (cases "err = ERROR_SUCCESS")
    case False
    then have "provider_loop api stack providers i w = Some (Inl w1)"
      by (subst provider_loop.simps) (simp add: e o reg_codes)
    then show ?thesis using ol by simp
  next
    case True
    have k: "hk w1 key = Some (sub_path P ?n)" "key \<noteq> 0" "key \<noteq> providers" "hk w1 providers = Some P" "key \<noteq> HKEY_LOCAL_MACHINE"
      and same: "va w1 = va w" "sub w1 = sub w"
      using ol True Suc.prems(1) setup_laws_handles [OF laws, of w] by auto
    have t: "terminated va w1" using Suc.prems(2) same by (simp add: terminated_def)
    have f: "value_is api stack 40 REG_SZ key ''Guid'' SERVICE_PROVIDER_GUID_STRING w1 = Some (is_provider va w (sub_path P ?n))"
      using value_is_text [OF laws k(1) t, of REG_SZ] same by (simp add: is_provider_def)
    show ?thesis
    proof (cases "is_provider va w (sub_path P ?n)")
      case found: True
      then have "provider_loop api stack providers i w = Some (Inr (key, w1))"
        using True f by (subst provider_loop.simps) (simp add: e o reg_codes)
      with found k same show ?thesis by (simp add: d)
    next
      case False
      let ?w = "RegCloseKey api key w1"
      have c: "hk ?w = (hk w1)(key := None)" "va ?w = va w" "sub ?w = sub w" using setup_laws_close [OF laws k(5)] same by auto
      have IH: "\<exists>r. provider_loop api stack providers (Suc i) ?w = Some r \<and>
        (case r of Inl w' \<Rightarrow> va w' = va ?w
         | Inr (key, w') \<Rightarrow>
             va w' = va ?w \<and> sub w' = sub ?w \<and> hk w' providers = Some P \<and> key \<noteq> HKEY_LOCAL_MACHINE \<and>
             (case find (\<lambda>n. is_provider va ?w (sub_path P n)) (drop (Suc i) (sub ?w P)) of
                None \<Rightarrow> key = 0
              | Some n \<Rightarrow> key \<noteq> 0 \<and> key \<noteq> providers \<and> hk w' key = Some (sub_path P n)))"
        using Suc.hyps(2) Suc.prems(2,3) c k i
        by (intro Suc.hyps(1)) (auto simp: terminated_def)
      have step: "provider_loop api stack providers i w = provider_loop api stack providers (Suc i) ?w"
        using True f False by (subst provider_loop.simps) (simp add: e o reg_codes)
      have g: "is_provider va ?w = is_provider va w" by (simp add: is_provider_def fun_eq_iff c)
      have "find (\<lambda>n. is_provider va w (sub_path P n)) (drop i (sub w P)) =
          find (\<lambda>n. is_provider va w (sub_path P n)) (drop (Suc i) (sub w P))" using False by (simp add: d)
      with IH [unfolded c(2,3) g] show ?thesis unfolding step by presburger
    qed
  qed
qed

text \<open>Writing values into one key.\<close>

lemma set_values_writes:
  assumes laws: "setup_laws api root hk va sub" and "hk w key = Some p" and "set_values api key vs w = (True, w')"
  shows "hk w' = hk w \<and> sub w' = sub w \<and> va w' = (va w)(p := put_values vs (va w p))"
  using assms(2,3)
proof (induction vs arbitrary: w)
  case Nil
  then show ?case by (simp add: set_values_def)
next
  case (Cons v vs)
  obtain name ty data where v: "v = (name, ty, data)" by (cases v)
  obtain w1 where s: "RegSetValueEx api key name ty data w = (ERROR_SUCCESS, w1)" "set_values api key vs w1 = (True, w')"
    using Cons.prems(2) by (auto simp: set_values_def v split: prod.splits if_splits)
  note l = setup_laws_set [OF laws Cons.prems(1) s(1)]
  with Cons.IH [OF _ s(2)] Cons.prems(1) show ?case by (simp add: v fun_upd_def cong: if_cong)
qed

lemma text_is_sz: "length text < n \<Longrightarrow> CHR 0x00 \<notin> set text \<Longrightarrow> text_is ty n text (Some (ty, sz text))"
proof -
  assume n: "length text < n" and z: "CHR 0x00 \<notin> set text"
  have "takeWhile (\<lambda>c. c \<noteq> 0) (sz text) = str_bytes text"
    using str_bytes_nonzero [OF z] unfolding sz_def by (subst takeWhile_append2) auto
  with n show ?thesis by (simp add: text_is_def sz_def stricmp_eq_def) (simp add: str_bytes_def)
qed

lemma path_texts:
  "text_is REG_SZ 40 SERVICE_PROVIDER_GUID_STRING (Some (REG_SZ, sz SERVICE_PROVIDER_GUID_STRING))"
  "text_is REG_SZ 16 SERVICE_PROVIDER_PATH (Some (REG_SZ, sz SERVICE_PROVIDER_PATH))"
  "text_is REG_EXPAND_SZ 16 SERVICE_PATH (Some (REG_EXPAND_SZ, sz SERVICE_PATH))"
  by (rule text_is_sz; simp add: SERVICE_PROVIDER_GUID_STRING_def SERVICE_PROVIDER_PATH_def SERVICE_PATH_def)+

lemma upper_setup_names:
  "upper ''Guid'' = ''GUID''" "upper ''Path'' = ''PATH''" "upper ''DescriptionA'' = ''DESCRIPTIONA''"
  "upper ''DescriptionW'' = ''DESCRIPTIONW''" "upper ''dwReserved1'' = ''DWRESERVED1''" "upper ''dwReserved2'' = ''DWRESERVED2''"
  "upper ''Description'' = ''DESCRIPTION''"
  by (simp_all add: upper_def to_upper_def char_of_def bit_0)

text \<open>The two keys are different, and the service is not below the providers.\<close>

lemma upper_append: "upper (a @ b) = upper a @ upper b"
  by (simp add: upper_def)

lemma paths_apart:
  "take (length (PROVIDERS root)) (SERVICE root) \<noteq> PROVIDERS root" "sub_path (PROVIDERS root) n \<noteq> SERVICE root"
proof -
  have apart: "take (length (root @ CHR 0x5C # a)) (root @ CHR 0x5C # b) = root @ CHR 0x5C # take (length a) b" for a b :: string by simp
  have "take (length (upper SERVICE_PROVIDERS_PATH)) (upper SERVICE_KEY_PATH) \<noteq> upper SERVICE_PROVIDERS_PATH"
    by (simp add: SERVICE_PROVIDERS_PATH_def SERVICE_KEY_PATH_def key_path_def upper_def to_upper_def char_of_def bit_0)
  then show *: "take (length (PROVIDERS root)) (SERVICE root) \<noteq> PROVIDERS root"
    by (simp add: PROVIDERS_def SERVICE_def sub_path_def)
  show "sub_path (PROVIDERS root) n \<noteq> SERVICE root"
  proof
    assume "sub_path (PROVIDERS root) n = SERVICE root"
    then have "take (length (PROVIDERS root)) (SERVICE root) = PROVIDERS root" by (metis append_eq_conv_conj sub_path_def)
    with * show False ..
  qed
qed

text \<open>The changes leave a provider that is found, with its path, and touch nothing that is in order.\<close>

lemma fix_provider_ready:
  assumes laws: "setup_laws api root hk va sub" and P: "hk w providers = Some P"
    and found: "case found_provider P va sub w of None \<Rightarrow> key = 0 | Some n \<Rightarrow> key \<noteq> 0 \<and> hk w key = Some (sub_path P n)"
    and needed: "needed \<longleftrightarrow> key \<noteq> 0 \<and> \<not> provider_ready P va sub w"
    and r: "fix_provider api (key = 0) needed providers key w = Inr (key', w')"
  shows "provider_ready P va sub w' \<and> (\<forall>k q. hk w k = Some q \<longrightarrow> hk w' k = Some q) \<and>
    (\<forall>q. take (length P) q \<noteq> P \<longrightarrow> va w' q = va w q) \<and> (provider_ready P va sub w \<longrightarrow> w' = w) \<and> hk w' key' \<noteq> None \<and> (key = 0 \<longrightarrow> hk w key' = None)
    \<and> (key \<noteq> 0 \<longrightarrow> key' = key)"
proof (cases "found_provider P va sub w")
  case (Some n)
  then have k: "key \<noteq> 0" "hk w key = Some (sub_path P n)" using found by auto
  have below: "take (length P) (sub_path P n) = P" by (simp add: sub_path_def)
  show ?thesis
  proof (cases needed)
    case False
    then show ?thesis using r k needed by (auto simp: fix_provider_def)
  next
    case True
    have s: "set_values api key [(''Path'', REG_SZ, sz SERVICE_PROVIDER_PATH)] w = (True, w')" "key' = key"
      using r True k by (auto simp: fix_provider_def split: prod.splits if_splits)
    note l = set_values_writes [OF laws k(2) s(1)]
    have "is_provider va w' q = is_provider va w q" for q
      using l by (simp add: is_provider_def upper_setup_names)
    with l have "found_provider P va sub w' = Some n" using Some by (simp add: found_provider_def)
    moreover have "provider_path_ok P va w' n" using l by (simp add: provider_path_ok_def path_texts)
    ultimately have "provider_ready P va sub w'" by (simp add: provider_ready_def)
    moreover have "va w' q = va w q" if "take (length P) q \<noteq> P" for q using l below that by auto
    ultimately show ?thesis using True needed l k s(2) by auto
  qed
next
  case None
  let ?q = SERVICE_PROVIDER_DEFAULT_NAME
  have k: "key = 0" using found None by simp
  with needed have "\<not> needed" by simp
  with r k obtain w1 w2 where c: "RegCreateKeyEx api providers ?q w = ((ERROR_SUCCESS, key'), w1)"
    and s1: "set_values api key' provider_values w1 = (True, w2)"
    and s2: "set_values api key' [(''Path'', REG_SZ, sz SERVICE_PROVIDER_PATH)] w2 = (True, w')"
    by (auto simp: fix_provider_def split: prod.splits if_splits)
  note cl = setup_laws_create(1) [OF laws P c]
  have h1: "hk w1 key' = Some (sub_path P ?q)" "hk w key' = None" and v1: "va w1 = va w" using cl by auto
  note l1 = set_values_writes [OF laws h1(1) s1]
  then have h2: "hk w2 key' = Some (sub_path P ?q)" using h1 by simp
  note l2 = set_values_writes [OF laws h2 s2]
  have "CHR 0x5C \<notin> set ?q" by (simp add: SERVICE_PROVIDER_DEFAULT_NAME_def)
  from setup_laws_create(3) [OF laws P c _ this]
  have names: "\<exists>n\<in>set (sub w' P). upper n = upper ?q" "set (sub w' P) \<subseteq> insert ?q (set (sub w P))" using l1 l2 by auto
  have guid: "is_provider va w' (sub_path P ?q)" "provider_path_ok P va w' n" if "sub_path P n = sub_path P ?q" for n
    using l1 l2 that by (auto simp: is_provider_def provider_path_ok_def provider_values_def path_texts upper_setup_names)
  have other: "\<not> is_provider va w' (sub_path P n)" if "n \<in> set (sub w P)" "sub_path P n \<noteq> sub_path P ?q" for n
    using None that l1 l2 v1 by (auto simp: found_provider_def find_None_iff is_provider_def)
  obtain n where n: "n \<in> set (sub w' P)" "upper n = upper ?q" using names(1) by blast
  then have sp: "sub_path P n = sub_path P ?q" by (simp add: sub_path_def)
  have "found_provider P va sub w' \<noteq> None"
    using n(1) guid(1) [OF sp] sp unfolding found_provider_def find_None_iff by metis
  then obtain m where m: "found_provider P va sub w' = Some m" by blast
  then have "m \<in> set (sub w' P)" "is_provider va w' (sub_path P m)"
    by (auto simp: found_provider_def find_Some_iff)
  then have "sub_path P m = sub_path P ?q" using names(2) other by blast
  then have "provider_ready P va sub w'" using m guid(2) by (simp add: provider_ready_def)
  moreover have "va w' q = va w q" if "take (length P) q \<noteq> P" for q using l1 l2 v1 that by (auto simp: sub_path_def)
  moreover have "hk w' k = Some q" if "hk w k = Some q" for k q using that l1 l2 cl by auto
  moreover have "\<not> provider_ready P va sub w" using None by (simp add: provider_ready_def)
  ultimately show ?thesis using h1 h2 l2 k by auto
qed

lemma fix_service_ready:
  assumes laws: "setup_laws api root hk va sub"
    and opened: "\<not> add \<longrightarrow> hk w key = Some (SERVICE root)"
    and needed: "needed \<longleftrightarrow> \<not> add \<and> \<not> service_ready (SERVICE root) va w"
    and r: "fix_service api add needed key w = Inr (key', w')"
  shows "service_ready (SERVICE root) va w' \<and> (\<forall>k q. hk w k = Some q \<longrightarrow> hk w' k = Some q) \<and> hk w' key' \<noteq> None \<and>
    (provider_ready (PROVIDERS root) va sub w \<longrightarrow> provider_ready (PROVIDERS root) va sub w') \<and> (add \<or> needed \<or> w' = w)
    \<and> (add \<longrightarrow> hk w key' = None) \<and> (\<not> add \<longrightarrow> key' = key)"
proof -
  let ?P = "PROVIDERS root" and ?S = "SERVICE root"
  have kept: "provider_ready ?P va sub w'" if "provider_ready ?P va sub w" "\<And>q. q \<noteq> ?S \<Longrightarrow> va w' q = va w q" "sub w' ?P = sub w ?P"
    using that paths_apart(2) [of root]
    by (auto simp: provider_ready_def found_provider_def is_provider_def provider_path_ok_def split: option.splits)
  have path: "service_ready ?S va w'" if "va w' ?S = (m(upper ''Path'' \<mapsto> (REG_EXPAND_SZ, sz SERVICE_PATH)))" for m
    using that by (simp add: service_ready_def path_texts)
  show ?thesis
  proof (cases add)
    case False
    then have k: "hk w key = Some ?S" using opened by simp
    show ?thesis
    proof (cases needed)
      case False
      with \<open>\<not> add\<close> r k needed show ?thesis by (auto simp: fix_service_def)
    next
      case True
      have s: "set_values api key [(''Path'', REG_EXPAND_SZ, sz SERVICE_PATH)] w = (True, w')" "key' = key"
        using r True False by (auto simp: fix_service_def split: prod.splits if_splits)
      note l = set_values_writes [OF laws k s(1)]
      then have "service_ready ?S va w'" by (intro path) simp
      with l True False s(2) k show ?thesis by (auto intro!: kept)
    qed
  next
    case True
    with r needed obtain w1 w2 where c: "RegCreateKeyEx api HKEY_LOCAL_MACHINE SERVICE_KEY_PATH w = ((ERROR_SUCCESS, key'), w1)"
      and s1: "set_values api key' [(''Description'', REG_SZ, sz SERVICE_NAME)] w1 = (True, w2)"
      and s2: "set_values api key' [(''Path'', REG_EXPAND_SZ, sz SERVICE_PATH)] w2 = (True, w')"
      by (auto simp: fix_service_def split: prod.splits if_splits)
    have root: "hk w HKEY_LOCAL_MACHINE = Some root" using setup_laws_handles [OF laws] by simp
    note cl = setup_laws_create(1) [OF laws root c]
    have h1: "hk w1 key' = Some ?S" "hk w key' = None" "va w1 = va w" using cl by (auto simp: SERVICE_def)
    note l1 = set_values_writes [OF laws h1(1) s1]
    then have h2: "hk w2 key' = Some ?S" using h1 by simp
    note l2 = set_values_writes [OF laws h2 s2]
    have "sub w1 ?P = sub w ?P"
      by (rule setup_laws_create(2) [OF laws root c]) (use paths_apart(1) [of root] in \<open>simp add: SERVICE_def\<close>)
    then have same: "sub w' ?P = sub w ?P" using l1 l2 by simp
    have "service_ready ?S va w'" using l2 by (intro path) simp
    moreover have "va w' q = va w q" if "q \<noteq> ?S" for q using l1 l2 h1(3) that by simp
    moreover have "hk w' k = Some q" if "hk w k = Some q" for k q using that l1 l2 cl by auto
    ultimately show ?thesis using True h1 h2 l2 kept same by auto
  qed
qed

lemma close_all_same:
  assumes "setup_laws api root hk va sub" and "\<forall>k\<in>{a, b, c}. k \<noteq> HKEY_LOCAL_MACHINE"
  shows "va (close_all api a b c w) = va w \<and> sub (close_all api a b c w) = sub w"
  using assms(2) by (simp add: close_all_def setup_laws_close [OF assms(1)])

lemma registered_same: "va w' = va w \<Longrightarrow> sub w' = sub w \<Longrightarrow> registered root va sub w' = registered root va sub w"
  by (auto simp: registered_def provider_ready_def found_provider_def is_provider_def provider_path_ok_def service_ready_def
      split: option.splits)

lemma setup_finish_registers:
  assumes laws: "setup_laws api root hk va sub" and P: "hk w providers = Some (PROVIDERS root)" "providers \<noteq> HKEY_LOCAL_MACHINE"
    and found: "case found_provider (PROVIDERS root) va sub w of None \<Rightarrow> provider = 0
      | Some n \<Rightarrow> provider \<noteq> 0 \<and> provider \<noteq> HKEY_LOCAL_MACHINE \<and> hk w provider = Some (sub_path (PROVIDERS root) n)"
    and fix_path: "fix_path \<longleftrightarrow> provider \<noteq> 0 \<and> \<not> provider_ready (PROVIDERS root) va sub w"
    and opened: "\<not> add \<longrightarrow> hk w service = Some (SERVICE root) \<and> service \<noteq> HKEY_LOCAL_MACHINE"
    and fix_service_path: "fixs \<longleftrightarrow> \<not> add \<and> \<not> service_ready (SERVICE root) va w"
    and absent: "add \<longrightarrow> \<not> service_ready (SERVICE root) va w"
    and yes: "quiet \<or> yes"
  shows "\<exists>code w'. setup_finish api quiet yes providers provider service fix_path add fixs w = Some (code, w') \<and>
    (code = 0 \<longrightarrow> registered root va sub w') \<and> (registered root va sub w \<longrightarrow> va w' = va w)"
proof -
  let ?P = "PROVIDERS root" and ?S = "SERVICE root"
  have H: "hk u HKEY_LOCAL_MACHINE = Some root" for u using setup_laws_handles [OF laws] by simp
  have found': "case found_provider ?P va sub w of None \<Rightarrow> provider = 0 | Some n \<Rightarrow> provider \<noteq> 0 \<and> hk w provider = Some (sub_path ?P n)"
    using found by (auto split: option.splits)
  have ready: "provider_ready ?P va sub w \<Longrightarrow> provider \<noteq> 0" using found by (auto simp: provider_ready_def split: option.splits)
  have unneeded: "\<not> (provider = 0 \<or> fix_path \<or> add \<or> fixs) \<longleftrightarrow> registered root va sub w"
    using fix_path fix_service_path absent ready by (auto simp: registered_def)
  show ?thesis
  proof (cases "\<not> quiet \<and> registered root va sub w")
    case True
    then have "\<forall>k\<in>{service, provider, providers}. k \<noteq> HKEY_LOCAL_MACHINE"
      using found P opened unneeded by (auto split: option.splits)
    note c = close_all_same [OF laws this, of w]
    have "setup_finish api quiet yes providers provider service fix_path add fixs w = Some (0, close_all api service provider providers w)"
      using True unneeded by (simp add: setup_finish_def)
    with c True registered_same [of va _ w sub root] show ?thesis by blast
  next
    case False
    then have fin: "setup_finish api quiet yes providers provider service fix_path add fixs w =
        (case fix_provider api (provider = 0) fix_path providers provider w of
          Inl w \<Rightarrow> Some (1, w)
        | Inr (provider, w) \<Rightarrow>
            (case fix_service api add fixs service w of
               Inl w \<Rightarrow> Some (1, w)
             | Inr (service, w) \<Rightarrow> Some (0, close_all api service provider providers w)))"
      using yes unneeded by (auto simp: setup_finish_def)
    show ?thesis
    proof (cases "fix_provider api (provider = 0) fix_path providers provider w")
      case (Inl u)
      then have "provider = 0 \<or> fix_path" by (rule_tac ccontr) (simp add: fix_provider_def)
      then have "\<not> registered root va sub w" using unneeded by blast
      then show ?thesis by (simp add: fin Inl)
    next
      case (Inr r)
      obtain provider' w1 where r: "r = (provider', w1)" by (cases r)
      note fp = fix_provider_ready [OF laws P(1) found' fix_path Inr [unfolded r]]
      have sr: "service_ready ?S va w1 = service_ready ?S va w"
        using fp paths_apart(1) [of root] by (simp add: service_ready_def)
      show ?thesis
      proof (cases "fix_service api add fixs service w1")
        case Inl': (Inl u)
        then have "add \<or> fixs" by (rule_tac ccontr) (simp add: fix_service_def)
        then have "\<not> registered root va sub w" using unneeded by blast
        then show ?thesis by (simp add: fin Inr r Inl')
      next
        case Inr': (Inr r')
        obtain service' w2 where r': "r' = (service', w2)" by (cases r')
        have fs: "service_ready ?S va w2 \<and> (\<forall>k q. hk w1 k = Some q \<longrightarrow> hk w2 k = Some q) \<and> hk w2 service' \<noteq> None \<and>
          (provider_ready ?P va sub w1 \<longrightarrow> provider_ready ?P va sub w2) \<and> (add \<or> fixs \<or> w2 = w1)
          \<and> (add \<longrightarrow> hk w1 service' = None) \<and> (\<not> add \<longrightarrow> service' = service)"
          by (rule fix_service_ready [OF laws _ _ Inr' [unfolded r']]) (use fp opened fix_service_path sr in auto)
        have "provider' \<noteq> HKEY_LOCAL_MACHINE" using fp found H [of w] by (cases "provider = 0") (auto split: option.splits)
        moreover have "service' \<noteq> HKEY_LOCAL_MACHINE" using fs opened H [of w1] by (cases add) auto
        ultimately have "\<forall>k\<in>{service', provider', providers}. k \<noteq> HKEY_LOCAL_MACHINE" using P by simp
        note c = close_all_same [OF laws this, of w2]
        have "registered root va sub w2" using fp fs unfolding registered_def by blast
        then have "registered root va sub (close_all api service' provider' providers w2)"
          using c registered_same [of va _ w2 sub root] by blast
        moreover have "registered root va sub w \<Longrightarrow> w2 = w" using fp fs unneeded unfolding registered_def by blast
        then have "registered root va sub w \<Longrightarrow> va (close_all api service' provider' providers w2) = va w" using c by simp
        ultimately show ?thesis by (simp add: fin Inr r Inr' r')
      qed
    qed
  qed
qed

lemma setup_service_registers:
  assumes laws: "setup_laws api root hk va sub" and w: "terminated va w" "hk w providers = Some (PROVIDERS root)"
    and P: "providers \<noteq> HKEY_LOCAL_MACHINE" and yes: "quiet \<or> yes"
    and found: "case found_provider (PROVIDERS root) va sub w of None \<Rightarrow> provider = 0
      | Some n \<Rightarrow> provider \<noteq> 0 \<and> provider \<noteq> HKEY_LOCAL_MACHINE \<and> hk w provider = Some (sub_path (PROVIDERS root) n)"
  shows "\<exists>code w'. setup_service api stack junk quiet yes providers provider w = Some (code, w') \<and>
    (code = 0 \<longrightarrow> registered root va sub w') \<and> (registered root va sub w \<longrightarrow> va w' = va w)"
proof -
  let ?P = "PROVIDERS root" and ?S = "SERVICE root"
  have H: "hk w HKEY_LOCAL_MACHINE = Some root" using setup_laws_handles [OF laws] by simp
  have fix_path: "value_is api stack 16 REG_SZ provider ''Path'' SERVICE_PROVIDER_PATH w = Some (provider_ready ?P va sub w)"
    if "provider > 0"
    using found that value_is_text [OF laws _ w(1), of provider _ REG_SZ stack 16 "''Path''" SERVICE_PROVIDER_PATH]
    by (auto simp: provider_ready_def provider_path_ok_def split: option.splits)
  obtain err service w1 where o: "RegOpenKeyEx api HKEY_LOCAL_MACHINE SERVICE_KEY_PATH w = ((err, service), w1)"
    by (metis prod.exhaust)
  note l = setup_laws_open [OF laws H o]
  have w1: "va w1 = va w" "sub w1 = sub w" "hk w1 providers = Some ?P" using l w(2) by (auto split: if_splits)
  have ready: "provider_ready ?P va sub w1 = provider_ready ?P va sub w" "found_provider ?P va sub w1 = found_provider ?P va sub w"
    using w1 by (auto simp: provider_ready_def found_provider_def is_provider_def provider_path_ok_def split: option.splits)
  have found1: "case found_provider ?P va sub w1 of None \<Rightarrow> provider = 0
      | Some n \<Rightarrow> provider \<noteq> 0 \<and> provider \<noteq> HKEY_LOCAL_MACHINE \<and> hk w1 provider = Some (sub_path ?P n)"
    using found l unfolding ready by (auto split: option.splits if_splits)
  note finish = setup_finish_registers [OF laws w1(3) P found1 refl _ _ _ yes] registered_same [OF w1(1,2), of root]
  have codes: "ERROR_FILE_NOT_FOUND \<noteq> ERROR_SUCCESS" by (simp add: reg_codes)
  consider "err = ERROR_SUCCESS" | "err = ERROR_FILE_NOT_FOUND" | "err \<noteq> ERROR_SUCCESS" "err \<noteq> ERROR_FILE_NOT_FOUND" by blast
  then show ?thesis
  proof cases
    case 1
    have S: "hk w1 service = Some ?S" "service \<noteq> HKEY_LOCAL_MACHINE" using l 1 H by (auto simp: SERVICE_def)
    have "terminated va w1" using w(1) w1(1) by (simp add: terminated_def)
    then have "value_is api stack 16 REG_EXPAND_SZ service ''Path'' SERVICE_PATH w1 = Some (service_ready ?S va w1)"
      using value_is_text [OF laws S(1)] by (simp add: service_ready_def)
    then have "setup_service api stack junk quiet yes providers provider w = setup_finish api quiet yes providers provider service
        (provider \<noteq> 0 \<and> \<not> provider_ready ?P va sub w1) False (\<not> service_ready ?S va w1) w1"
      using 1 codes [symmetric] by (simp add: setup_service_def o fix_path ready)
    with finish(1) [of False service] finish(2) S w1(1) show ?thesis by simp
  next
    case 2
    have "va w ?S name = None" for name using setup_laws_absent [OF laws H o [unfolded 2], of name] by (simp add: SERVICE_def)
    then have "\<not> service_ready ?S va w1" using w1(1) by (simp add: service_ready_def text_is_def)
    moreover have "setup_service api stack junk quiet yes providers provider w = setup_finish api quiet yes providers provider junk
        (provider \<noteq> 0 \<and> \<not> provider_ready ?P va sub w1) True False w1"
      using 2 codes by (simp add: setup_service_def o fix_path ready)
    ultimately show ?thesis using finish(1) [of True junk False] finish(2) w1(1) by simp
  next
    case 3
    then have "setup_service api stack junk quiet yes providers provider w = Some (1, w1)"
      by (simp add: setup_service_def o fix_path)
    then show ?thesis using w1(1) by simp
  qed
qed

subsection \<open>A registry that obeys the laws\<close>

text \<open>The open handles, the values and the keys below every key, and the next handle. It opens any key.\<close>

type_synonym dir_reg =
  "(hkey \<Rightarrow> string option) \<times> (string \<Rightarrow> string \<Rightarrow> (u32 \<times> bytes) option) \<times> (string \<Rightarrow> string list) \<times> hkey"

definition dir_hk :: "dir_reg handle_map" where
  "dir_hk w key = (if key = HKEY_LOCAL_MACHINE then Some [] else if key = 0 then None else fst w key)"

definition dir_va :: "dir_reg value_map" where "dir_va w = fst (snd w)"
definition dir_sub :: "dir_reg sub_map" where "dir_sub w = fst (snd (snd w))"

definition dir_open :: "bool \<Rightarrow> hkey \<Rightarrow> string \<Rightarrow> dir_reg \<Rightarrow> (u32 \<times> hkey) \<times> dir_reg" where
  "dir_open create parent q w =
     (case dir_hk w parent of None \<Rightarrow> ((6, 0), w)
      | Some p \<Rightarrow>
          let key = snd (snd (snd w)) in
          if key = 0 \<or> dir_hk w key \<noteq> None then ((8, 0), w)
          else ((ERROR_SUCCESS, key), ((fst w)(key \<mapsto> sub_path p q), dir_va w,
                  if create \<and> CHR 0x5C \<notin> set q then (dir_sub w)(p := dir_sub w p @ [q]) else dir_sub w, Suc key)))"

definition dir_api :: "dir_reg setup_api" where
  "dir_api =
     \<lparr>RegCreateKeyEx = dir_open True, RegOpenKeyEx = dir_open False,
      RegCloseKey = (\<lambda>key w. ((fst w)(key := None), snd w)),
      RegQueryValueEx = (\<lambda>key name w.
        case dir_hk w key of None \<Rightarrow> (6, 0, [])
        | Some p \<Rightarrow> (case dir_va w p (upper name) of None \<Rightarrow> (ERROR_FILE_NOT_FOUND, 0, [])
                    | Some (ty, data) \<Rightarrow> (ERROR_SUCCESS, ty, data))),
      RegSetValueEx = (\<lambda>key name ty data w.
        case dir_hk w key of None \<Rightarrow> (6, w)
        | Some p \<Rightarrow> (ERROR_SUCCESS, (fst w,
            (dir_va w)(p := (dir_va w p)(upper name \<mapsto> (ty, data))), snd (snd w)))),
      RegEnumValue = (\<lambda>key index w. (ERROR_NO_MORE_ITEMS, [], [])),
      RegEnumKeyEx = (\<lambda>key i w.
        case dir_hk w key of None \<Rightarrow> (6, [])
        | Some p \<Rightarrow> if i < length (dir_sub w p) then (ERROR_SUCCESS, dir_sub w p ! i) else (ERROR_NO_MORE_ITEMS, []))\<rparr>"

definition dir_init :: dir_reg where
  "dir_init = ((\<lambda>_. None), (\<lambda>_ _. None), (\<lambda>_. []), 1)"

lemma dir_api_simps [simp]:
  "RegCreateKeyEx dir_api = dir_open True" "RegOpenKeyEx dir_api = dir_open False"
  "RegCloseKey dir_api key w = ((fst w)(key := None), snd w)"
  "RegSetValueEx dir_api key name ty data w = (case dir_hk w key of None \<Rightarrow> (6, w)
        | Some p \<Rightarrow> (ERROR_SUCCESS, (fst w, (dir_va w)(p := (dir_va w p)(upper name \<mapsto> (ty, data))), snd (snd w))))"
  by (simp_all add: dir_api_def)

lemma dir_creates_below: "creates_below dir_api dir_hk dir_sub"
  by (auto simp: creates_below_def dir_open_def dir_sub_def dir_hk_def Let_def sub_path_def reg_codes split: option.splits if_splits)

lemma dir_laws: "setup_laws dir_api [] dir_hk dir_va dir_sub"
proof -
  have opens: "opens_key (dir_open c) dir_hk dir_va" for c
    by (auto simp: opens_key_def dir_open_def dir_hk_def dir_va_def Let_def fun_eq_iff reg_codes split: if_splits)
  have open_sub: "dir_sub (snd (dir_open False parent q w)) = dir_sub w" for parent q w
    by (simp add: dir_open_def dir_sub_def Let_def split: option.split)
  have present: "fst (fst (dir_open False parent q w)) \<noteq> ERROR_FILE_NOT_FOUND" for parent q w
    by (simp add: dir_open_def Let_def reg_codes split: option.split)
  show ?thesis
    unfolding setup_laws_def
    by (intro conjI; (simp add: opens open_sub present dir_creates_below)?)
      (auto simp: dir_api_def dir_hk_def dir_va_def dir_sub_def HKEY_LOCAL_MACHINE_def fun_eq_iff split: option.splits if_splits)
qed



text \<open>
  An error of the enumeration other than the end of the keys that does not go away, such as a name longer
  than the buffer at every index, is retried forever: the search for the provider does not return.
\<close>

theorem provider_search_hangs:
  assumes "\<And>i. fst (RegEnumKeyEx api providers i w) \<notin> {ERROR_SUCCESS, ERROR_NO_MORE_ITEMS}"
  shows "open_service_provider_key api stack providers w = None"
proof -
  have e: "e \<noteq> ERROR_SUCCESS \<and> e \<noteq> ERROR_NO_MORE_ITEMS" if "RegEnumKeyEx api providers i w = (e, n)" for i e n
    using assms [of i] that by simp
  have "a = api \<longrightarrow> k = providers \<longrightarrow> u = w \<longrightarrow> False" if some: "provider_loop a s k i u = Some r" for a s k i u r
    by (rule provider_loop.raw_induct [where P = "\<lambda>a s k i u r. a = api \<longrightarrow> k = providers \<longrightarrow> u = w \<longrightarrow> False", OF _ some])
      (auto dest!: e split: prod.splits if_splits)
  then show ?thesis unfolding open_service_provider_key_def by (metis option.exhaust)
qed

lemma provider_search_hangs_witness:
  "open_service_provider_key (dir_api\<lparr>RegEnumKeyEx := \<lambda>_ _ _. (ERROR_MORE_DATA, [])\<rparr>) [] 1 dir_init = None"
  by (rule provider_search_hangs) (simp add: reg_codes)

end
