(* ===== verification/Ipxconfig.thy ===== *)
theory Ipxconfig
  imports Interface "HOL-Library.Monad_Syntax"
begin

text \<open>
  The configuration tool (ipxconfig.c): the window as the contents of its controls, what fills them
  from the registry, what each click or entry does, and what is written back. Windows itself only
  shows the controls; their creation is left out, their places are in \<open>Layout\<close>. \<open>None\<close> is an access out of an array,
  an overrun buffer, or the end of the process.
\<close>

definition PACKET_LIMIT_VALUES :: "(string \<times> u32) list" where
  "PACKET_LIMIT_VALUES =
     [(''Unlimited'', 0), (''100 packets/sec'', 100), (''250 packets/sec'', 250), (''500 packets/sec'', 500),
      (''1,000 packets/sec'', 1000), (''2,500 packets/sec'', 2500), (''5,000 packets/sec'', 5000),
      (''10,000 packets/sec'', 10000), (''25,000 packets/sec'', 25000), (''50,000 packets/sec'', 50000),
      (''100,000 packets/sec'', 100000)]"

definition BYTE_LIMIT_VALUES :: "(string \<times> u32) list" where
  "BYTE_LIMIT_VALUES =
     [(''Unlimited'', 0), (''1 KiB/sec'', 1024), (''10 KiB/sec'', 10240), (''100 KiB/sec'', 102400),
      (''256 KiB/sec'', 256000), (''512 KiB/sec'', 512000), (''1 MiB/sec'', 1024000)]"

text \<open>An interface in the list; its name is an array of 132 characters.\<close>

definition IFACE_NAME_SIZE :: nat where
  "IFACE_NAME_SIZE = 132"

record nic =
  nic_name :: string
  nic_hwaddr :: u64
  nic_config :: iface_config

text \<open>
  What the system answers: that of \<open>Interface\<close>, the description of an adapter and whether WinPcap
  can be loaded.
\<close>

record ('w, 's) dlgenv =
  de_sys :: "('w, 's) sysenv"
  de_desc :: "adapter \<Rightarrow> string"
  de_wpcap :: bool

datatype group = BoxEncap | BoxPrimary | BoxNic | BoxIpxwrapper | BoxDosbox | BoxIpx | BoxOptions

text \<open>
  The globals and the controls: which radio button of the encapsulation is pressed, items and
  selection of the boxes, the focused line of the list, texts, check boxes, which of them are
  enabled and which groups are shown.
\<close>

record ('w, 's) dlg =
  d_sys :: "('w, 's) sysst"
  d_nics :: "nic list"
  d_nics_size :: nat
  d_config :: main_config
  d_primary :: u64
  d_pcap_installed :: bool
  d_inv_error :: "string option"
  w_encap :: "u32 option"
  w_primary_items :: "string list"
  w_primary :: nat
  w_nic_list :: "string list"
  w_focus :: "nat option"
  w_nic_enabled :: bool
  w_nic_net :: string
  w_nic_node :: string
  w_ipxwrapper_port :: string
  w_ipxwrapper_fw :: bool
  w_server_addr :: string
  w_server_port :: string
  w_coalesce :: bool
  w_dosbox_fw :: bool
  w_frame_type :: "nat option"
  w_w95 :: bool
  w_log_enable :: bool
  w_log_debug :: bool
  w_log_trace :: bool
  w_profile :: bool
  w_rate_packets :: "nat option"
  w_rate_bytes :: "nat option"
  e_nic_enabled :: bool
  e_nic_net :: bool
  e_nic_node :: bool
  e_log_debug :: bool
  e_log_trace :: bool
  e_profile :: bool
  w_groups :: "group list"
  w_open :: bool

text \<open>\<open>strtol\<close> in base ten: the number and the text after it, all of the text when there is no digit.\<close>

definition strtol10 :: "string \<Rightarrow> int \<times> string" where
  "strtol10 s =
     (let t = dropWhile is_space s;
          (neg, u) = (case t of [] \<Rightarrow> (False, t)
                      | c # r \<Rightarrow> if c = CHR ''-'' then (True, r) else if c = CHR ''+'' then (False, r) else (False, t));
          n = digits_value u
      in if takeWhile is_digit u = [] then (0, s)
         else (min (2 ^ 31 - 1) (max (- (2 ^ 31)) (if neg then - n else n)), dropWhile is_digit u))"

text \<open>The text of a control, cut to the buffer it is read into.\<close>

definition GetWindowText :: "nat \<Rightarrow> string \<Rightarrow> string" where
  "GetWindowText n s = take (n - 1) s"

subsection \<open>The list of interfaces\<close>

definition add_nic :: "('w, 's) dlgenv \<Rightarrow> u64 \<times> string \<Rightarrow> ('w, 's) dlg \<Rightarrow> ('w, 's) dlg option" where
  "add_nic env = (\<lambda>(hwaddr, name) d.
     do {
       d \<leftarrow> (if d_nics_size d \<le> length (d_nics d) then
               let (ok, st) = sys_malloc (de_sys env) (d_sys d) in
               if ok then Some (d\<lparr>d_nics_size := d_nics_size d + 8, d_sys := st\<rparr>) else None
             else Some d);
       if length name + 1 > IFACE_NAME_SIZE then None
       else
         let (config, st) = sys_iface_config (de_sys env) hwaddr (d_sys d) in
         Some (d\<lparr>d_nics := d_nics d @ [\<lparr>nic_name = name, nic_hwaddr = hwaddr, nic_config = config\<rparr>], d_sys := st\<rparr>)
     })"

primrec add_nics :: "('w, 's) dlgenv \<Rightarrow> (u64 \<times> string) list \<Rightarrow> ('w, 's) dlg \<Rightarrow> ('w, 's) dlg option" where
  "add_nics env [] d = Some d"
| "add_nics env (x # xs) d = do { d \<leftarrow> add_nic env x d; add_nics env xs d }"

text \<open>
  The box of primary interfaces: \<open>Default\<close> and the enabled ones, the last one with the configured
  address selected.
\<close>

definition reload_primary_nics :: "('w, 's) dlg \<Rightarrow> ('w, 's) dlg" where
  "reload_primary_nics d =
     (let (items, sel) =
            fold (\<lambda>n (items, sel).
                    if ic_enabled (nic_config n)
                    then (items @ [nic_name n], if nic_hwaddr n = d_primary d then length items else sel)
                    else (items, sel))
              (d_nics d) ([''Default''], 0)
      in d\<lparr>w_primary_items := items, w_primary := sel\<rparr>)"

text \<open>
  Network and node of the focused interface are shown again, which of the controls are enabled, and
  the groups of the encapsulation whose button is pressed.
\<close>

definition update_nic :: "('w, 's) dlg \<Rightarrow> ('w, 's) dlg option" where
  "update_nic d =
     (case w_focus d of
        None \<Rightarrow> Some (d\<lparr>e_nic_enabled := False, e_nic_net := False, e_nic_node := False\<rparr>)
      | Some i \<Rightarrow>
          if i \<ge> length (d_nics d) then None
          else
            let n = d_nics d ! i; on = ic_enabled (nic_config n);
                pcap = (mc_encap_type (d_config d) = ENCAP_TYPE_PCAP)
            in Some (d\<lparr>e_nic_enabled := True, e_nic_net := on, e_nic_node := on \<and> \<not> pcap,
                       w_nic_enabled := on,
                       w_nic_net := addr32_string (ic_netnum (nic_config n)),
                       w_nic_node := addr48_string (if pcap then nic_hwaddr n else ic_nodenum (nic_config n))\<rparr>))"

definition update_encap :: "('w, 's) dlg \<Rightarrow> ('w, 's) dlg" where
  "update_encap d =
     (let set_encap = (\<lambda>t d. d\<lparr>d_config := (d_config d)\<lparr>mc_encap_type := t\<rparr>\<rparr>) in
      if w_encap d = Some ENCAP_TYPE_IPXWRAPPER
      then (set_encap ENCAP_TYPE_IPXWRAPPER d)\<lparr>w_groups := [BoxEncap, BoxPrimary, BoxNic, BoxIpxwrapper, BoxOptions]\<rparr>
      else if w_encap d = Some ENCAP_TYPE_DOSBOX
      then (set_encap ENCAP_TYPE_DOSBOX d)\<lparr>w_groups := [BoxEncap, BoxDosbox, BoxOptions]\<rparr>
      else if w_encap d = Some ENCAP_TYPE_PCAP
      then (set_encap ENCAP_TYPE_PCAP d)\<lparr>w_groups := [BoxEncap, BoxPrimary, BoxNic, BoxIpx, BoxOptions]\<rparr>
      else d\<lparr>w_groups := [BoxEncap, BoxOptions]\<rparr>)"

definition main_window_update :: "('w, 's) dlg \<Rightarrow> ('w, 's) dlg option" where
  "main_window_update d =
     do {
       d \<leftarrow> update_nic d;
       Some (update_encap (d\<lparr>e_log_debug := w_log_enable d, e_log_trace := w_log_enable d \<and> w_log_debug d,
                             e_profile := w_log_enable d\<rparr>))
     }"

text \<open>The list follows the encapsulation: the WinPcap devices, the adapters of the system, or nothing.\<close>

definition reload_nics :: "('w, 's) dlgenv \<Rightarrow> ('w, 's) dlg \<Rightarrow> ('w, 's) dlg option" where
  "reload_nics env d =
     (let d = d\<lparr>d_nics := []\<rparr> in
      do {
        d \<leftarrow> (if mc_encap_type (d_config d) = ENCAP_TYPE_PCAP then
                do {
                  (l, st) \<leftarrow> ipx_get_pcap_interfaces (de_sys env) (d_sys d);
                  add_nics env (map (\<lambda>i. (pi_mac i, pi_desc i)) l) (d\<lparr>d_sys := st\<rparr>)
                }
              else if mc_encap_type (d_config d) = ENCAP_TYPE_IPXWRAPPER then
                do {
                  d \<leftarrow> add_nic env (WILDCARD_IFACE_HWADDR, ''Wildcard interface'') d;
                  (l, st) \<leftarrow> load_sys_interfaces (de_sys env) (d_sys d);
                  add_nics env (map (\<lambda>a. (addr48_in (ad_address a), de_desc env a)) (filter (\<lambda>a. ad_addrlen a = 6) l))
                    (d\<lparr>d_sys := st\<rparr>)
                }
              else Some d);
        main_window_update (reload_primary_nics (d\<lparr>w_nic_list := map nic_name (d_nics d), w_focus := None\<rparr>))
      })"

subsection \<open>Reading the controls back\<close>

definition set_nic :: "nat \<Rightarrow> (iface_config \<Rightarrow> iface_config) \<Rightarrow> ('w, 's) dlg \<Rightarrow> ('w, 's) dlg" where
  "set_nic i f d = d\<lparr>d_nics := (d_nics d)[i := (d_nics d ! i)\<lparr>nic_config := f (nic_config (d_nics d ! i))\<rparr>]\<rparr>"

definition stash_nic_config :: "('w, 's) dlg \<Rightarrow> (bool \<times> ('w, 's) dlg) option" where
  "stash_nic_config d =
     (case w_focus d of
        None \<Rightarrow> Some (True, d)
      | Some i \<Rightarrow>
          if i \<ge> length (d_nics d) then None
          else
            let net = GetWindowText 32 (w_nic_net d); node = GetWindowText 32 (w_nic_node d);
                config = nic_config (d_nics d ! i);
                (ok, netnum) = addr32_from_string (ic_netnum config) net;
                d = set_nic i (\<lambda>c. c\<lparr>ic_netnum := netnum\<rparr>) d
            in if \<not> ok then Some (False, d\<lparr>d_inv_error := Some ''Network number is invalid.''\<rparr>)
               else if mc_encap_type (d_config d) \<noteq> ENCAP_TYPE_PCAP then
                 let (ok, nodenum) = addr48_from_string (ic_nodenum config) node;
                     d = set_nic i (\<lambda>c. c\<lparr>ic_nodenum := nodenum\<rparr>) d
                 in if \<not> ok then Some (False, d\<lparr>d_inv_error := Some ''Node number is invalid.''\<rparr>) else Some (True, d)
               else Some (True, d))"

text \<open>The enabled interface with the selected number in the box, if there is one.\<close>

fun nth_enabled :: "nat \<Rightarrow> nic list \<Rightarrow> nat \<Rightarrow> u64 option" where
  "nth_enabled this_nic [] pri_index = None"
| "nth_enabled this_nic (n # ns) pri_index =
     (if ic_enabled (nic_config n) then
        if Suc this_nic = pri_index then Some (nic_hwaddr n) else nth_enabled (Suc this_nic) ns pri_index
      else nth_enabled this_nic ns pri_index)"

definition save_primary :: "('w, 's) dlg \<Rightarrow> ('w, 's) dlg" where
  "save_primary d =
     (if w_primary d = 0 then d\<lparr>d_primary := addr48_in [0xFF, 0xFF, 0xFF, 0xFF, 0xFF, 0xFF]\<rparr>
      else case nth_enabled 0 (d_nics d) (w_primary d) of
             Some hw \<Rightarrow> d\<lparr>d_primary := hw\<rparr>
           | None \<Rightarrow> d)"

definition valid_port :: "string \<Rightarrow> int option" where
  "valid_port text =
     (case strtol10 (GetWindowText 32 text) of (port, rest) \<Rightarrow>
        if port < 1 \<or> port > 65535 \<or> rest \<noteq> [] then None else Some port)"

text \<open>The settings of the encapsulation: \<open>Inl\<close> is an entry that is refused.\<close>

definition save_encap :: "('w, 's) dlgenv \<Rightarrow> ('w, 's) dlg \<Rightarrow> (('w, 's) dlg + ('w, 's) dlg) option" where
  "save_encap env d =
     (let c = d_config d in
      if mc_encap_type c = ENCAP_TYPE_IPXWRAPPER then
        Some (case valid_port (w_ipxwrapper_port d) of
                None \<Rightarrow> Inl d
              | Some port \<Rightarrow> Inr (d\<lparr>d_config := c\<lparr>mc_udp_port := of_int port, mc_fw_except := w_ipxwrapper_fw d\<rparr>\<rparr>))
      else if mc_encap_type c = ENCAP_TYPE_DOSBOX then
        let server = GetWindowText 256 (w_server_addr d) in
        if server = [] then Some (Inl d)
        else case valid_port (w_server_port d) of
               None \<Rightarrow> Some (Inl d)
             | Some port \<Rightarrow>
                 let (ok, st) = sys_malloc (de_sys env) (d_sys d) in
                 if \<not> ok then None
                 else Some (Inr (d\<lparr>d_sys := st,
                        d_config := c\<lparr>mc_dosbox_server_addr := Some server, mc_dosbox_server_port := of_int port,
                                      mc_dosbox_coalesce := w_coalesce d, mc_fw_except := w_dosbox_fw d\<rparr>\<rparr>))
      else if mc_encap_type c = ENCAP_TYPE_PCAP then
        Some (Inr (d\<lparr>d_config := c\<lparr>mc_frame_type := (case w_frame_type d of Some i \<Rightarrow> of_nat i | None \<Rightarrow> - 1) + 1\<rparr>\<rparr>))
      else Some (Inr d))"

text \<open>The remaining options; a box without a selection has the index \<open>-1\<close>, before the table.\<close>

definition save_options :: "('w, 's) dlg \<Rightarrow> ('w, 's) dlg option" where
  "save_options d =
     do {
       packets \<leftarrow> w_rate_packets d;
       bytes \<leftarrow> w_rate_bytes d;
       if packets \<ge> length PACKET_LIMIT_VALUES \<or> bytes \<ge> length BYTE_LIMIT_VALUES then None
       else Some (d\<lparr>d_config := (d_config d)
              \<lparr>mc_w95_bug := w_w95 d,
               mc_log_level :=
                 (if w_log_enable d then if w_log_debug d then if w_log_trace d then LOG_CALL else LOG_DEBUG else LOG_INFO
                  else LOG_DISABLED),
               mc_profile := w_profile d,
               mc_rate_limit_packets := snd (PACKET_LIMIT_VALUES ! packets),
               mc_rate_limit_bytes := snd (BYTE_LIMIT_VALUES ! bytes)\<rparr>\<rparr>)
     }"

definition write_config :: "('w, 's) dlgenv \<Rightarrow> ('w, 's) dlg \<Rightarrow> (bool \<times> ('w, 's) dlg) option" where
  "write_config env d =
     (let api = env_reg (de_sys env); t = mc_encap_type (d_config d);
          put = (\<lambda>w. d\<lparr>d_sys := (d_sys d)\<lparr>st_reg := w\<rparr>\<rparr>);
          (ok, w) = (if t = ENCAP_TYPE_IPXWRAPPER \<or> t = ENCAP_TYPE_PCAP
                     then all_ok (map (\<lambda>n. set_iface_config api (nic_hwaddr n) (nic_config n)) (d_nics d)) (st_reg (d_sys d))
                     else (True, st_reg (d_sys d)))
      in if \<not> ok then Some (False, put w)
         else do {
           (ok, w) \<leftarrow> set_main_config api (d_config d) w;
           if \<not> ok then Some (False, put w)
           else let (ok, w) = set_primary_iface api (d_primary d) w in Some (ok, put w)
         })"

definition save_config :: "('w, 's) dlgenv \<Rightarrow> ('w, 's) dlg \<Rightarrow> (bool \<times> ('w, 's) dlg) option" where
  "save_config env d =
     do {
       (ok, d) \<leftarrow> (if mc_encap_type (d_config d) = ENCAP_TYPE_IPXWRAPPER \<or> mc_encap_type (d_config d) = ENCAP_TYPE_PCAP
                    then stash_nic_config (save_primary d) else Some (True, d));
       if \<not> ok then Some (False, d)
       else do {
         r \<leftarrow> save_encap env d;
         case r of
           Inl d \<Rightarrow> Some (False, d)
         | Inr d \<Rightarrow> do { d \<leftarrow> save_options d; write_config env d }
       }
     }"

subsection \<open>The window\<close>

text \<open>The line of a table with a value: the last one, as each match moves the selection.\<close>

definition limit_index :: "(string \<times> u32) list \<Rightarrow> u32 \<Rightarrow> nat option" where
  "limit_index table v = fold (\<lambda>i sel. if snd (table ! i) = v then Some i else sel) [0..<length table] None"

definition main_window_init ::
  "('w, 's) dlgenv \<Rightarrow> main_config \<Rightarrow> u64 \<Rightarrow> bool \<Rightarrow> ('w, 's) sysst \<Rightarrow> ('w, 's) dlg option" where
  "main_window_init env c primary pcap_installed st =
     reload_nics env
       \<lparr>d_sys = st, d_nics = [], d_nics_size = 0, d_config = c, d_primary = primary, d_pcap_installed = pcap_installed,
        d_inv_error = None,
        w_encap = (if mc_encap_type c \<in> {ENCAP_TYPE_IPXWRAPPER, ENCAP_TYPE_DOSBOX, ENCAP_TYPE_PCAP} then Some (mc_encap_type c) else None),
        w_primary_items = [], w_primary = 0, w_nic_list = [], w_focus = None,
        w_nic_enabled = False, w_nic_net = [], w_nic_node = [],
        w_ipxwrapper_port = dec_string (unat (mc_udp_port c)), w_ipxwrapper_fw = mc_fw_except c,
        w_server_addr = (case mc_dosbox_server_addr c of Some a \<Rightarrow> a | None \<Rightarrow> []),
        w_server_port = dec_string (unat (mc_dosbox_server_port c)),
        w_coalesce = mc_dosbox_coalesce c, w_dosbox_fw = mc_fw_except c,
        w_frame_type = (if mc_frame_type c - 1 < 3 then Some (unat (mc_frame_type c - 1)) else None),
        w_w95 = mc_w95_bug c, w_log_enable = (mc_log_level c < LOG_DISABLED),
        w_log_debug = (mc_log_level c \<le> LOG_DEBUG), w_log_trace = (mc_log_level c \<le> LOG_CALL),
        w_profile = mc_profile c,
        w_rate_packets = limit_index PACKET_LIMIT_VALUES (mc_rate_limit_packets c),
        w_rate_bytes = limit_index BYTE_LIMIT_VALUES (mc_rate_limit_bytes c),
        e_nic_enabled = True, e_nic_net = True, e_nic_node = True, e_log_debug = True, e_log_trace = True, e_profile = True,
        w_groups = [], w_open = True\<rparr>"

text \<open>The start of the tool: what it reads, and the fall back when WinPcap is not there.\<close>

definition ipxconfig_main :: "('w, 's) dlgenv \<Rightarrow> bool \<Rightarrow> bool \<Rightarrow> ('w, 's) sysst \<Rightarrow> ('w, 's) dlg option" where
  "ipxconfig_main env malloc_ok strdup_ok st =
     do {
       (c, w) \<leftarrow> get_main_config (env_reg (de_sys env)) None (\<lambda>_. True) malloc_ok strdup_ok True (st_reg st);
       (primary, st) \<leftarrow> sys_primary_iface (de_sys env) (st\<lparr>st_reg := w\<rparr>);
       main_window_init env
         (if \<not> de_wpcap env \<and> mc_encap_type c = ENCAP_TYPE_PCAP then c\<lparr>mc_encap_type := ENCAP_TYPE_IPXWRAPPER\<rparr> else c)
         primary (de_wpcap env) st
     }"

subsection \<open>What the user does\<close>

datatype action =
    SelectNic nat | ClickEncap u32 | ClickNicEnabled | ClickCoalesce bool | ClickLogEnable | ClickLogDebug
  | ClickLogTrace | ClickProfile | ClickW95 | ClickIpxwrapperFw | ClickDosboxFw
  | EditNet string | EditNode string | EditPort string | EditServer string | EditServerPort string
  | PickPrimary nat | PickFrameType nat | PickPackets nat | PickBytes nat
  | PressOk | PressApply | PressCancel

text \<open>
  Windows changes a control that is enabled and tells \<open>main_wproc\<close>. Leaving a line of the list is
  refused when its texts are not addresses.
\<close>

definition select_nic :: "nat \<Rightarrow> ('w, 's) dlg \<Rightarrow> ('w, 's) dlg option" where
  "select_nic i d =
     (if i \<ge> length (w_nic_list d) \<or> w_focus d = Some i then Some d
      else do {
        (ok, d) \<leftarrow> (if w_focus d \<noteq> None then stash_nic_config d else Some (True, d));
        if ok then main_window_update (d\<lparr>w_focus := Some i\<rparr>) else Some d
      })"

definition click_nic_enabled :: "('w, 's) dlg \<Rightarrow> ('w, 's) dlg option" where
  "click_nic_enabled d =
     (if \<not> e_nic_enabled d then Some d
      else
        let d = d\<lparr>w_nic_enabled := \<not> w_nic_enabled d\<rparr> in
        case w_focus d of
          None \<Rightarrow> None
        | Some i \<Rightarrow>
            if i \<ge> length (d_nics d) then None
            else main_window_update (reload_primary_nics (set_nic i (\<lambda>c. c\<lparr>ic_enabled := w_nic_enabled d\<rparr>) d)))"

definition click_encap :: "('w, 's) dlgenv \<Rightarrow> u32 \<Rightarrow> ('w, 's) dlg \<Rightarrow> ('w, 's) dlg option" where
  "click_encap env t d =
     (if t \<notin> {ENCAP_TYPE_IPXWRAPPER, ENCAP_TYPE_DOSBOX, ENCAP_TYPE_PCAP} \<or> (t = ENCAP_TYPE_PCAP \<and> \<not> d_pcap_installed d) then Some d
      else do { d \<leftarrow> main_window_update (d\<lparr>w_encap := Some t\<rparr>); reload_nics env d })"

definition press_save :: "('w, 's) dlgenv \<Rightarrow> bool \<Rightarrow> ('w, 's) dlg \<Rightarrow> ('w, 's) dlg option" where
  "press_save env close_it d =
     do { (ok, d) \<leftarrow> save_config env d; Some (if ok \<and> close_it then d\<lparr>w_open := False\<rparr> else d) }"

definition main_wproc :: "('w, 's) dlgenv \<Rightarrow> action \<Rightarrow> ('w, 's) dlg \<Rightarrow> ('w, 's) dlg option" where
  "main_wproc env a d =
     (if \<not> w_open d then Some d
      else case a of
        SelectNic i \<Rightarrow> select_nic i d
      | ClickEncap t \<Rightarrow> click_encap env t d
      | ClickNicEnabled \<Rightarrow> click_nic_enabled d
      | ClickCoalesce yes \<Rightarrow>
          (let d = d\<lparr>w_coalesce := \<not> w_coalesce d\<rparr>
           in Some (if w_coalesce d \<and> \<not> yes then d\<lparr>w_coalesce := False\<rparr> else d))
      | ClickLogEnable \<Rightarrow> main_window_update (d\<lparr>w_log_enable := \<not> w_log_enable d\<rparr>)
      | ClickLogDebug \<Rightarrow> if e_log_debug d then main_window_update (d\<lparr>w_log_debug := \<not> w_log_debug d\<rparr>) else Some d
      | ClickLogTrace \<Rightarrow> Some (if e_log_trace d then d\<lparr>w_log_trace := \<not> w_log_trace d\<rparr> else d)
      | ClickProfile \<Rightarrow> Some (if e_profile d then d\<lparr>w_profile := \<not> w_profile d\<rparr> else d)
      | ClickW95 \<Rightarrow> Some (d\<lparr>w_w95 := \<not> w_w95 d\<rparr>)
      | ClickIpxwrapperFw \<Rightarrow> Some (d\<lparr>w_ipxwrapper_fw := \<not> w_ipxwrapper_fw d\<rparr>)
      | ClickDosboxFw \<Rightarrow> Some (d\<lparr>w_dosbox_fw := \<not> w_dosbox_fw d\<rparr>)
      | EditNet s \<Rightarrow> Some (if e_nic_net d then d\<lparr>w_nic_net := s\<rparr> else d)
      | EditNode s \<Rightarrow> Some (if e_nic_node d then d\<lparr>w_nic_node := s\<rparr> else d)
      | EditPort s \<Rightarrow> Some (d\<lparr>w_ipxwrapper_port := s\<rparr>)
      | EditServer s \<Rightarrow> Some (d\<lparr>w_server_addr := s\<rparr>)
      | EditServerPort s \<Rightarrow> Some (d\<lparr>w_server_port := s\<rparr>)
      | PickPrimary i \<Rightarrow> Some (if i < length (w_primary_items d) then d\<lparr>w_primary := i\<rparr> else d)
      | PickFrameType i \<Rightarrow> Some (if i < 3 then d\<lparr>w_frame_type := Some i\<rparr> else d)
      | PickPackets i \<Rightarrow> Some (if i < length PACKET_LIMIT_VALUES then d\<lparr>w_rate_packets := Some i\<rparr> else d)
      | PickBytes i \<Rightarrow> Some (if i < length BYTE_LIMIT_VALUES then d\<lparr>w_rate_bytes := Some i\<rparr> else d)
      | PressOk \<Rightarrow> press_save env True d
      | PressApply \<Rightarrow> press_save env False d
      | PressCancel \<Rightarrow> Some (d\<lparr>w_open := False\<rparr>))"

primrec run_dialog :: "('w, 's) dlgenv \<Rightarrow> action list \<Rightarrow> ('w, 's) dlg \<Rightarrow> ('w, 's) dlg option" where
  "run_dialog env [] d = Some d"
| "run_dialog env (a # as) d = do { d \<leftarrow> main_wproc env a d; run_dialog env as d }"

subsection \<open>The window stays well-formed\<close>

text \<open>
  The focused line exists, an enabled check box of the interface has one, there is a server address
  and the boxes of the frame type and the limits have a selection.
\<close>

definition dlg_base :: "('w, 's) dlg \<Rightarrow> bool" where
  "dlg_base d \<longleftrightarrow>
     (\<exists>a. mc_dosbox_server_addr (d_config d) = Some a) \<and>
     (\<exists>t\<in>{ENCAP_TYPE_IPXWRAPPER, ENCAP_TYPE_DOSBOX, ENCAP_TYPE_PCAP}. w_encap d = Some t) \<and>
     (\<exists>i<3. w_frame_type d = Some i) \<and>
     mc_frame_type (d_config d) \<in> {FRAME_TYPE_ETH_II, FRAME_TYPE_NOVELL, FRAME_TYPE_LLC} \<and>
     (\<exists>i<length PACKET_LIMIT_VALUES. w_rate_packets d = Some i) \<and> (\<exists>i<length BYTE_LIMIT_VALUES. w_rate_bytes d = Some i)"

definition dlg_list :: "('w, 's) dlg \<Rightarrow> bool" where
  "dlg_list d \<longleftrightarrow> w_nic_list d = map nic_name (d_nics d) \<and> (\<forall>i. w_focus d = Some i \<longrightarrow> i < length (d_nics d))"

definition dlg_ok :: "('w, 's) dlg \<Rightarrow> bool" where
  "dlg_ok d \<longleftrightarrow>
     dlg_base d \<and> dlg_list d \<and> w_encap d = Some (mc_encap_type (d_config d)) \<and> (e_nic_enabled d \<longrightarrow> w_focus d \<noteq> None)"

text \<open>The system answers: allocations succeed, the adapters can be listed and their names fit.\<close>

definition env_ok :: "('w, 's) dlgenv \<Rightarrow> bool" where
  "env_ok env \<longleftrightarrow>
     (\<forall>n. env_mem (de_sys env) n) \<and>
     (\<forall>st. load_sys_interfaces (de_sys env) st \<noteq> None) \<and>
     (\<forall>a. length (de_desc env a) < IFACE_NAME_SIZE) \<and>
     (\<forall>st l st'. ipx_get_pcap_interfaces (de_sys env) st = Some (l, st') \<longrightarrow> (\<forall>i\<in>set l. length (pi_desc i) < IFACE_NAME_SIZE))"

text \<open>What filling the list leaves as it was.\<close>

definition same_controls :: "('w, 's) dlg \<Rightarrow> ('w, 's) dlg \<Rightarrow> bool" where
  "same_controls d d' \<longleftrightarrow>
     (\<exists>st l n. d' = d\<lparr>d_sys := st, d_nics := l, d_nics_size := n\<rparr>)"

lemma same_controls_refl: "same_controls d d"
  unfolding same_controls_def by (rule exI [of _ "d_sys d"], rule exI [of _ "d_nics d"], rule exI [of _ "d_nics_size d"]) simp

lemma same_controls_trans: "same_controls d d' \<Longrightarrow> same_controls d' d'' \<Longrightarrow> same_controls d d''"
  unfolding same_controls_def by fastforce

lemma same_controlsI: "same_controls d (d\<lparr>d_sys := st, d_nics := l, d_nics_size := n\<rparr>)"
  unfolding same_controls_def by blast

lemma same_controls_sys: "same_controls d (d\<lparr>d_sys := st\<rparr>)"
  using same_controlsI [where d = d and st = st and l = "d_nics d" and n = "d_nics_size d"] by simp

lemma same_controls_nics: "same_controls d (d\<lparr>d_nics := l\<rparr>)"
  using same_controlsI [where d = d and st = "d_sys d" and l = l and n = "d_nics_size d"] by simp

lemma add_nic_ok:
  assumes "env_ok env" and "length name < IFACE_NAME_SIZE"
  shows "\<exists>d'. add_nic env (hw, name) d = Some d' \<and> same_controls d d'"
proof -
  let ?d1 = "if d_nics_size d \<le> length (d_nics d)
      then d\<lparr>d_nics_size := d_nics_size d + 8, d_sys := snd (sys_malloc (de_sys env) (d_sys d))\<rparr> else d"
  obtain config st where c: "sys_iface_config (de_sys env) hw (d_sys ?d1) = (config, st)" by fastforce
  let ?d2 = "?d1\<lparr>d_nics := d_nics ?d1 @ [\<lparr>nic_name = name, nic_hwaddr = hw, nic_config = config\<rparr>], d_sys := st\<rparr>"
  have "add_nic env (hw, name) d = Some ?d2"
    using assms c by (auto simp: add_nic_def sys_malloc_def env_ok_def Let_def split: if_splits)
  moreover have "same_controls d ?d2"
    unfolding same_controls_def
    by (rule exI [of _ st], rule exI [of _ "d_nics ?d1 @ [\<lparr>nic_name = name, nic_hwaddr = hw, nic_config = config\<rparr>]"],
        rule exI [of _ "d_nics_size ?d1"]) simp
  ultimately show ?thesis by blast
qed

lemma add_nics_ok:
  "env_ok env \<Longrightarrow> (\<And>x. x \<in> set xs \<Longrightarrow> length (snd x) < IFACE_NAME_SIZE) \<Longrightarrow>
     \<exists>d'. add_nics env xs d = Some d' \<and> same_controls d d'"
proof (induction xs arbitrary: d)
  case Nil
  then show ?case by (simp add: same_controls_refl)
next
  case (Cons x xs)
  obtain hw name where x: "x = (hw, name)" by (cases x)
  obtain d1 where one: "add_nic env x d = Some d1" "same_controls d d1"
    using add_nic_ok [OF Cons.prems(1), of name hw d] Cons.prems(2) [of x] unfolding x by auto
  obtain d2 where "add_nics env xs d1 = Some d2" "same_controls d1 d2" using Cons.IH [of d1] Cons.prems by auto
  with one same_controls_trans show ?case by auto
qed

lemma update_nic_ok:
  assumes "dlg_list d"
  shows "\<exists>d'. update_nic d = Some d' \<and> dlg_list d' \<and> (dlg_base d \<longrightarrow> dlg_base d') \<and> (e_nic_enabled d' \<longrightarrow> w_focus d' \<noteq> None)"
  using assms by (cases "w_focus d") (auto simp: update_nic_def dlg_list_def dlg_base_def Let_def)

lemma update_encap_fields [simp]:
  "d_nics (update_encap d) = d_nics d" "w_nic_list (update_encap d) = w_nic_list d" "w_focus (update_encap d) = w_focus d"
  "w_encap (update_encap d) = w_encap d" "e_nic_enabled (update_encap d) = e_nic_enabled d"
  "w_frame_type (update_encap d) = w_frame_type d" "w_rate_packets (update_encap d) = w_rate_packets d"
  "w_rate_bytes (update_encap d) = w_rate_bytes d" "mc_frame_type (d_config (update_encap d)) = mc_frame_type (d_config d)"
  "mc_dosbox_server_addr (d_config (update_encap d)) = mc_dosbox_server_addr (d_config d)"
  by (simp_all add: update_encap_def Let_def)

lemma update_encap_type: "dlg_base d \<Longrightarrow> w_encap d = Some (mc_encap_type (d_config (update_encap d)))"
  by (auto simp: update_encap_def dlg_base_def Let_def config_codes)

lemma main_window_update_ok:
  assumes "dlg_base d" and "dlg_list d"
  shows "\<exists>d'. main_window_update d = Some d' \<and> dlg_ok d'"
proof -
  obtain d1 where d1: "update_nic d = Some d1" "dlg_list d1" "dlg_base d1" "e_nic_enabled d1 \<longrightarrow> w_focus d1 \<noteq> None"
    using update_nic_ok [OF assms(2)] assms(1) by blast
  let ?d = "d1\<lparr>e_log_debug := w_log_enable d1, e_log_trace := w_log_enable d1 \<and> w_log_debug d1, e_profile := w_log_enable d1\<rparr>"
  have b: "dlg_base ?d" using d1(3) by (simp add: dlg_base_def)
  then have "dlg_base (update_encap ?d)" "dlg_list (update_encap ?d)" using d1(2) by (simp_all add: dlg_base_def dlg_list_def)
  then have "dlg_ok (update_encap ?d)" using update_encap_type [OF b] d1(4) by (simp add: dlg_ok_def)
  with d1(1) show ?thesis by (simp add: main_window_update_def)
qed

lemma reload_primary_nics_fields [simp]:
  "d_nics (reload_primary_nics d) = d_nics d" "w_nic_list (reload_primary_nics d) = w_nic_list d"
  "w_focus (reload_primary_nics d) = w_focus d" "d_config (reload_primary_nics d) = d_config d"
  "w_encap (reload_primary_nics d) = w_encap d" "w_frame_type (reload_primary_nics d) = w_frame_type d"
  "w_rate_packets (reload_primary_nics d) = w_rate_packets d" "w_rate_bytes (reload_primary_nics d) = w_rate_bytes d"
  by (simp_all add: reload_primary_nics_def Let_def split: prod.split)

lemma reload_primary_nics_ok: "dlg_base (reload_primary_nics d) = dlg_base d" "dlg_list (reload_primary_nics d) = dlg_list d"
  by (simp_all add: dlg_base_def dlg_list_def)

lemma same_controls_base: "same_controls d d' \<Longrightarrow> dlg_base d' = dlg_base d"
  by (auto simp: same_controls_def dlg_base_def)

lemma reload_nics_ok:
  assumes env: "env_ok env" and "dlg_base d"
  shows "\<exists>d'. reload_nics env d = Some d' \<and> dlg_ok d'"
proof -
  let ?d = "d\<lparr>d_nics := []\<rparr>"
  have b: "dlg_base ?d" using assms(2) by (simp add: dlg_base_def)
  have fin: "\<exists>d''. main_window_update (reload_primary_nics (d'\<lparr>w_nic_list := map nic_name (d_nics d'), w_focus := None\<rparr>)) = Some d'' \<and> dlg_ok d''"
    if "same_controls ?d d'" for d'
  proof (rule main_window_update_ok)
    have "dlg_base d'" using same_controls_base [OF that] b by simp
    then show "dlg_base (reload_primary_nics (d'\<lparr>w_nic_list := map nic_name (d_nics d'), w_focus := None\<rparr>))"
      by (simp add: dlg_base_def)
  qed (simp add: dlg_list_def)
  consider "mc_encap_type (d_config d) = ENCAP_TYPE_PCAP" | "mc_encap_type (d_config d) = ENCAP_TYPE_IPXWRAPPER"
    | "mc_encap_type (d_config d) \<noteq> ENCAP_TYPE_PCAP" "mc_encap_type (d_config d) \<noteq> ENCAP_TYPE_IPXWRAPPER" by blast
  then show ?thesis
  proof cases
    case 1
    have "load_sys_interfaces (de_sys env) (d_sys d) \<noteq> None" using env by (simp add: env_ok_def)
    then have "ipx_get_pcap_interfaces (de_sys env) (d_sys d) \<noteq> None"
      by (auto simp: ipx_get_pcap_interfaces_def split: option.split)
    then obtain l st where l: "ipx_get_pcap_interfaces (de_sys env) (d_sys d) = Some (l, st)" by auto
    have "length (snd x) < IFACE_NAME_SIZE" if "x \<in> set (map (\<lambda>i. (pi_mac i, pi_desc i)) l)" for x
      using that env l unfolding env_ok_def by fastforce
    then obtain d' where d': "add_nics env (map (\<lambda>i. (pi_mac i, pi_desc i)) l) (?d\<lparr>d_sys := st\<rparr>) = Some d'"
        "same_controls (?d\<lparr>d_sys := st\<rparr>) d'"
      using add_nics_ok [OF env, of "map (\<lambda>i. (pi_mac i, pi_desc i)) l" "?d\<lparr>d_sys := st\<rparr>"] by auto
    from fin [OF same_controls_trans [OF same_controls_sys d'(2)]] show ?thesis
      using 1 l d'(1) by (simp add: reload_nics_def Let_def)
  next
    case 2
    obtain d1 where d1: "add_nic env (WILDCARD_IFACE_HWADDR, ''Wildcard interface'') ?d = Some d1" "same_controls ?d d1"
      using add_nic_ok [OF env, of "''Wildcard interface''" WILDCARD_IFACE_HWADDR ?d] by (auto simp: IFACE_NAME_SIZE_def)
    obtain l st where l: "load_sys_interfaces (de_sys env) (d_sys d1) = Some (l, st)"
      using env by (fastforce simp: env_ok_def)
    let ?l = "map (\<lambda>a. (addr48_in (ad_address a), de_desc env a)) (filter (\<lambda>a. ad_addrlen a = 6) l)"
    have "length (snd x) < IFACE_NAME_SIZE" if "x \<in> set ?l" for x using that env unfolding env_ok_def by auto
    then obtain d' where d': "add_nics env ?l (d1\<lparr>d_sys := st\<rparr>) = Some d'" "same_controls (d1\<lparr>d_sys := st\<rparr>) d'"
      using add_nics_ok [OF env, of ?l "d1\<lparr>d_sys := st\<rparr>"] by blast
    from fin [OF same_controls_trans [OF d1(2) same_controls_trans [OF same_controls_sys d'(2)]]] show ?thesis
      using 2 d1(1) l d'(1) by (simp add: reload_nics_def Let_def config_codes)
  next
    case 3
    from fin [OF same_controls_refl] show ?thesis using 3 by (simp add: reload_nics_def Let_def)
  qed
qed

lemma set_nic_simps [simp]:
  "map nic_name (d_nics (set_nic i f d)) = map nic_name (d_nics d)" "length (d_nics (set_nic i f d)) = length (d_nics d)"
  "w_focus (set_nic i f d) = w_focus d" "w_nic_list (set_nic i f d) = w_nic_list d" "d_config (set_nic i f d) = d_config d"
  "w_encap (set_nic i f d) = w_encap d" "w_frame_type (set_nic i f d) = w_frame_type d" "e_nic_enabled (set_nic i f d) = e_nic_enabled d"
  "w_rate_packets (set_nic i f d) = w_rate_packets d" "w_rate_bytes (set_nic i f d) = w_rate_bytes d" "d_sys (set_nic i f d) = d_sys d"
proof -
  show "map nic_name (d_nics (set_nic i f d)) = map nic_name (d_nics d)"
    by (rule nth_equalityI) (simp_all add: set_nic_def, metis nic.ext_inject nic.surjective nic.update_convs(3) nth_list_update list_update_beyond not_le)
qed (simp_all add: set_nic_def)

text \<open>What the well-formedness of the window looks at.\<close>

definition same_shape :: "('w, 's) dlg \<Rightarrow> ('w, 's) dlg \<Rightarrow> bool" where
  "same_shape d d' \<longleftrightarrow>
     map nic_name (d_nics d') = map nic_name (d_nics d) \<and> w_nic_list d' = w_nic_list d \<and> w_focus d' = w_focus d \<and>
     d_config d' = d_config d \<and> w_encap d' = w_encap d \<and> w_frame_type d' = w_frame_type d \<and>
     e_nic_enabled d' = e_nic_enabled d \<and> w_rate_packets d' = w_rate_packets d \<and> w_rate_bytes d' = w_rate_bytes d"

lemma same_shape_ok:
  assumes "same_shape d d'"
  shows "dlg_base d' = dlg_base d" and "dlg_list d' = dlg_list d" and "dlg_ok d' = dlg_ok d"
proof -
  have "length (d_nics d') = length (d_nics d)" using assms unfolding same_shape_def by (metis length_map)
  with assms show "dlg_base d' = dlg_base d" "dlg_list d' = dlg_list d" by (simp_all add: same_shape_def dlg_base_def dlg_list_def)
  with assms show "dlg_ok d' = dlg_ok d" by (simp add: same_shape_def dlg_ok_def)
qed

lemma same_shape_simps [simp]:
  "same_shape d (set_nic i f d)" "same_shape d (d\<lparr>d_inv_error := m\<rparr>)" "same_shape d (d\<lparr>d_sys := st\<rparr>)"
  "same_shape d (save_primary d)"
  by (auto simp: same_shape_def save_primary_def split: option.split)

lemma same_shape_updates [simp]:
  "same_shape d (d\<lparr>w_nic_enabled := b\<rparr>)" "same_shape d (d\<lparr>w_coalesce := b\<rparr>)" "same_shape d (d\<lparr>w_log_enable := b\<rparr>)"
  "same_shape d (d\<lparr>w_log_debug := b\<rparr>)" "same_shape d (d\<lparr>w_log_trace := b\<rparr>)" "same_shape d (d\<lparr>w_profile := b\<rparr>)"
  "same_shape d (d\<lparr>w_w95 := b\<rparr>)" "same_shape d (d\<lparr>w_ipxwrapper_fw := b\<rparr>)" "same_shape d (d\<lparr>w_dosbox_fw := b\<rparr>)"
  "same_shape d (d\<lparr>w_nic_net := t\<rparr>)" "same_shape d (d\<lparr>w_nic_node := t\<rparr>)" "same_shape d (d\<lparr>w_ipxwrapper_port := t\<rparr>)"
  "same_shape d (d\<lparr>w_server_addr := t\<rparr>)" "same_shape d (d\<lparr>w_server_port := t\<rparr>)" "same_shape d (d\<lparr>w_primary := i\<rparr>)"
  "same_shape d (d\<lparr>w_open := b\<rparr>)"
  by (simp_all add: same_shape_def)

lemmas set_nic_ok = same_shape_ok [OF same_shape_simps(1), THEN iffD2]

lemma stash_nic_config_ok:
  assumes "dlg_ok d"
  shows "\<exists>ok d'. stash_nic_config d = Some (ok, d') \<and> dlg_ok d' \<and> d_config d' = d_config d"
proof (cases "w_focus d")
  case None
  then have "stash_nic_config d = Some (True, d)" by (simp add: stash_nic_config_def)
  with assms show ?thesis by blast
next
  case (Some i)
  then have "i < length (d_nics d)" using assms by (simp add: dlg_ok_def dlg_list_def)
  with Some assms show ?thesis
    by (auto simp: stash_nic_config_def Let_def split: prod.split
        intro!: set_nic_ok(3) same_shape_ok(3) [OF same_shape_simps(2), THEN iffD2])
qed

definition config_usable :: "main_config \<Rightarrow> bool" where
  "config_usable c \<longleftrightarrow>
     (mc_encap_type c = ENCAP_TYPE_IPXWRAPPER \<longrightarrow> mc_udp_port c \<noteq> 0) \<and>
     (mc_encap_type c = ENCAP_TYPE_DOSBOX \<longrightarrow> mc_dosbox_server_port c \<noteq> 0 \<and> mc_dosbox_server_addr c \<noteq> Some []) \<and>
     mc_dosbox_server_addr c \<noteq> None \<and>
     mc_encap_type c \<in> {ENCAP_TYPE_IPXWRAPPER, ENCAP_TYPE_DOSBOX, ENCAP_TYPE_PCAP} \<and>
     mc_frame_type c \<in> {FRAME_TYPE_ETH_II, FRAME_TYPE_NOVELL, FRAME_TYPE_LLC} \<and>
     mc_log_level c \<in> {LOG_CALL, LOG_DEBUG, LOG_INFO, LOG_DISABLED}"

definition config_saved :: "main_config \<Rightarrow> bool" where
  "config_saved c \<longleftrightarrow>
     config_usable c \<and>
     mc_rate_limit_packets c \<in> snd ` set PACKET_LIMIT_VALUES \<and> mc_rate_limit_bytes c \<in> snd ` set BYTE_LIMIT_VALUES"

text \<open>What the settings of the encapsulation are after an entry was accepted.\<close>

definition encap_saved :: "main_config \<Rightarrow> bool" where
  "encap_saved c \<longleftrightarrow>
     (mc_encap_type c = ENCAP_TYPE_IPXWRAPPER \<longrightarrow> mc_udp_port c \<noteq> 0) \<and>
     (mc_encap_type c = ENCAP_TYPE_DOSBOX \<longrightarrow> mc_dosbox_server_port c \<noteq> 0 \<and> mc_dosbox_server_addr c \<noteq> Some [])"

lemma valid_port_range: "valid_port s = Some p \<Longrightarrow> 1 \<le> p \<and> p \<le> 65535"
  by (auto simp: valid_port_def split: prod.splits if_splits)

lemma save_encap_ok:
  assumes "dlg_ok d" and "env_ok env"
  shows "\<exists>r. save_encap env d = Some r \<and>
    (case r of Inl d' \<Rightarrow> dlg_ok d' | Inr d' \<Rightarrow> dlg_ok d' \<and> encap_saved (d_config d'))"
proof -
  let ?t = "mc_encap_type (d_config d)"
  have t: "?t \<in> {ENCAP_TYPE_IPXWRAPPER, ENCAP_TYPE_DOSBOX, ENCAP_TYPE_PCAP}" using assms(1) by (auto simp: dlg_ok_def dlg_base_def)
  have port: "(of_int p :: u16) \<noteq> 0" if "valid_port s = Some p" for s p
    using port_nonzero valid_port_range [OF that] by blast
  consider "?t = ENCAP_TYPE_IPXWRAPPER" | "?t = ENCAP_TYPE_DOSBOX" | "?t = ENCAP_TYPE_PCAP" using t by blast
  then show ?thesis
  proof cases
    case 1
    with assms port show ?thesis
      by (auto simp: save_encap_def Let_def dlg_ok_def dlg_base_def dlg_list_def encap_saved_def config_codes split: option.split)
  next
    case 2
    with assms port show ?thesis
      by (auto simp: save_encap_def Let_def dlg_ok_def dlg_base_def dlg_list_def encap_saved_def config_codes sys_malloc_def env_ok_def
          split: option.split)
  next
    case 3
    obtain i where i: "i < 3" "w_frame_type d = Some i" using assms(1) by (auto simp: dlg_ok_def dlg_base_def)
    then have "(of_nat i + 1 :: u32) \<in> {FRAME_TYPE_ETH_II, FRAME_TYPE_NOVELL, FRAME_TYPE_LLC}"
      by (auto simp: config_codes less_Suc_eq numeral_3_eq_3)
    with 3 i assms(1) show ?thesis
      by (auto simp: save_encap_def Let_def dlg_ok_def dlg_base_def dlg_list_def encap_saved_def config_codes)
  qed
qed

lemma save_options_ok:
  assumes "dlg_ok d" and "encap_saved (d_config d)"
  shows "\<exists>d'. save_options d = Some d' \<and> dlg_ok d' \<and> config_saved (d_config d')"
proof -
  obtain i j where "i < length PACKET_LIMIT_VALUES" "w_rate_packets d = Some i" "j < length BYTE_LIMIT_VALUES" "w_rate_bytes d = Some j"
    using assms(1) by (auto simp: dlg_ok_def dlg_base_def)
  with assms show ?thesis
    by (auto simp: save_options_def dlg_ok_def dlg_base_def dlg_list_def config_saved_def config_usable_def encap_saved_def)
qed

lemma write_config_ok:
  assumes "dlg_ok d"
  shows "\<exists>ok d'. write_config env d = Some (ok, d') \<and> dlg_ok d' \<and> d_config d' = d_config d"
proof -
  let ?api = "env_reg (de_sys env)"
  obtain a where a: "mc_dosbox_server_addr (d_config d) = Some a" using assms by (auto simp: dlg_ok_def dlg_base_def)
  obtain ok1 w1 where 1: "(if mc_encap_type (d_config d) = ENCAP_TYPE_IPXWRAPPER \<or> mc_encap_type (d_config d) = ENCAP_TYPE_PCAP
      then all_ok (map (\<lambda>n. set_iface_config ?api (nic_hwaddr n) (nic_config n)) (d_nics d)) (st_reg (d_sys d))
      else (True, st_reg (d_sys d))) = (ok1, w1)" by fastforce
  have "set_main_config ?api (d_config d) w1 \<noteq> None" using a by (auto simp: set_main_config_def Let_def split: prod.split)
  then obtain ok2 w2 where 2: "set_main_config ?api (d_config d) w1 = Some (ok2, w2)" by auto
  obtain ok3 w3 where 3: "set_primary_iface ?api (d_primary d) w2 = (ok3, w3)" by fastforce
  have "\<exists>ok w. write_config env d = Some (ok, d\<lparr>d_sys := (d_sys d)\<lparr>st_reg := w\<rparr>\<rparr>)"
    unfolding write_config_def Let_def 1 by (cases ok1; cases ok2) (simp_all add: 2 3, blast+)
  then obtain ok w where "write_config env d = Some (ok, d\<lparr>d_sys := (d_sys d)\<lparr>st_reg := w\<rparr>\<rparr>)" by blast
  with same_shape_ok(3) [OF same_shape_simps(3), of "(d_sys d)\<lparr>st_reg := w\<rparr>" d] assms show ?thesis by auto
qed

lemma save_config_ok:
  assumes "dlg_ok d" and "env_ok env"
  shows "\<exists>ok d'. save_config env d = Some (ok, d') \<and> dlg_ok d' \<and> (ok \<longrightarrow> config_saved (d_config d'))"
proof -
  have p: "dlg_ok (save_primary d)" using same_shape_ok(3) [OF same_shape_simps(4)] assms(1) by blast
  obtain ok d1 where d1: "(if mc_encap_type (d_config d) = ENCAP_TYPE_IPXWRAPPER \<or> mc_encap_type (d_config d) = ENCAP_TYPE_PCAP
      then stash_nic_config (save_primary d) else Some (True, d)) = Some (ok, d1)" "dlg_ok d1"
    using stash_nic_config_ok [OF p] assms(1)
    by (cases "mc_encap_type (d_config d) = ENCAP_TYPE_IPXWRAPPER \<or> mc_encap_type (d_config d) = ENCAP_TYPE_PCAP")
      (simp_all only: if_True if_False, blast+)
  show ?thesis
  proof (cases ok)
    case False
    then have "save_config env d = Some (False, d1)" using d1(1) by (simp add: save_config_def)
    with d1(2) show ?thesis by blast
  next
    case True
    obtain r where r: "save_encap env d1 = Some r" "case r of Inl d' \<Rightarrow> dlg_ok d' | Inr d' \<Rightarrow> dlg_ok d' \<and> encap_saved (d_config d')"
      using save_encap_ok [OF d1(2) assms(2)] by blast
    show ?thesis
    proof (cases r)
      case (Inl d2)
      then have "save_config env d = Some (False, d2)" using True d1(1) r(1) by (simp add: save_config_def)
      with r(2) Inl show ?thesis by auto
    next
      case (Inr d2)
      then obtain d3 where d3: "save_options d2 = Some d3" "dlg_ok d3" "config_saved (d_config d3)"
        using save_options_ok r(2) by auto
      from write_config_ok [OF d3(2), of env] obtain ok' d4 where
        w: "write_config env d3 = Some (ok', d4)" "dlg_ok d4" "d_config d4 = d_config d3" by blast
      then have "save_config env d = Some (ok', d4)" using True d1(1) r(1) Inr d3(1) by (simp add: save_config_def)
      with w(2,3) d3(3) show ?thesis by auto
    qed
  qed
qed

lemma select_nic_ok: "dlg_ok d \<Longrightarrow> \<exists>d'. select_nic i d = Some d' \<and> dlg_ok d'"
proof -
  assume d: "dlg_ok d"
  obtain ok d1 where s: "(if w_focus d \<noteq> None then stash_nic_config d else Some (True, d)) = Some (ok, d1)" "dlg_ok d1"
    using stash_nic_config_ok [OF d] d by (cases "w_focus d") auto
  show ?thesis
  proof (cases "i \<ge> length (w_nic_list d) \<or> w_focus d = Some i")
    case True
    with d show ?thesis by (auto simp: select_nic_def)
  next
    case False
    have "length (w_nic_list d1) = length (w_nic_list d)"
      using s(1) by (auto simp: stash_nic_config_def Let_def split: option.splits if_splits prod.splits)
    with False s(2) have "dlg_base (d1\<lparr>w_focus := Some i\<rparr>)" "dlg_list (d1\<lparr>w_focus := Some i\<rparr>)"
      by (auto simp: dlg_ok_def dlg_base_def dlg_list_def)
    from main_window_update_ok [OF this] s show ?thesis
      unfolding select_nic_def if_not_P [OF False] s(1) by (cases ok) auto
  qed
qed

lemma click_nic_enabled_ok: "dlg_ok d \<Longrightarrow> \<exists>d'. click_nic_enabled d = Some d' \<and> dlg_ok d'"
proof (cases "e_nic_enabled d")
  case True
  assume d: "dlg_ok d"
  obtain i where i: "w_focus d = Some i" "i < length (d_nics d)" using d True by (auto simp: dlg_ok_def dlg_list_def)
  let ?d = "reload_primary_nics (set_nic i (\<lambda>c. c\<lparr>ic_enabled := \<not> w_nic_enabled d\<rparr>) (d\<lparr>w_nic_enabled := \<not> w_nic_enabled d\<rparr>))"
  have "dlg_ok (set_nic i (\<lambda>c. c\<lparr>ic_enabled := \<not> w_nic_enabled d\<rparr>) (d\<lparr>w_nic_enabled := \<not> w_nic_enabled d\<rparr>))"
    by (rule set_nic_ok(3)) (use d same_shape_ok(3) [OF same_shape_updates(1)] in blast)
  then have "dlg_base ?d" "dlg_list ?d" by (simp_all add: dlg_ok_def reload_primary_nics_ok)
  from main_window_update_ok [OF this] i True show ?thesis by (simp add: click_nic_enabled_def Let_def)
qed (simp add: click_nic_enabled_def)

lemma click_encap_ok: "dlg_ok d \<Longrightarrow> env_ok env \<Longrightarrow> \<exists>d'. click_encap env t d = Some d' \<and> dlg_ok d'"
proof (cases "t \<notin> {ENCAP_TYPE_IPXWRAPPER, ENCAP_TYPE_DOSBOX, ENCAP_TYPE_PCAP} \<or> (t = ENCAP_TYPE_PCAP \<and> \<not> d_pcap_installed d)")
  case False
  assume d: "dlg_ok d" and env: "env_ok env"
  have "dlg_base (d\<lparr>w_encap := Some t\<rparr>)" "dlg_list (d\<lparr>w_encap := Some t\<rparr>)"
    using d False by (auto simp: dlg_ok_def dlg_base_def dlg_list_def)
  then obtain d1 where d1: "main_window_update (d\<lparr>w_encap := Some t\<rparr>) = Some d1" "dlg_ok d1" using main_window_update_ok by blast
  then have "dlg_base d1" by (simp add: dlg_ok_def)
  from reload_nics_ok [OF env this] d1(1) show ?thesis unfolding click_encap_def if_not_P [OF False] by simp
qed (auto simp: click_encap_def)

lemma press_save_ok:
  assumes "dlg_ok d" and "env_ok env"
  shows "\<exists>d'. press_save env c d = Some d' \<and> dlg_ok d'"
proof -
  obtain ok d1 where "save_config env d = Some (ok, d1)" "dlg_ok d1" using save_config_ok [OF assms] by blast
  with same_shape_ok(3) [OF same_shape_updates(16)] show ?thesis by (auto simp: press_save_def)
qed

lemma main_wproc_ok:
  assumes d: "dlg_ok d" and env: "env_ok env"
  shows "\<exists>d'. main_wproc env a d = Some d' \<and> dlg_ok d'"
proof -
  have u: "\<exists>d'. main_window_update d1 = Some d' \<and> dlg_ok d'" if "same_shape d d1" for d1
    using main_window_update_ok [of d1] same_shape_ok [OF that] d by (simp add: dlg_ok_def)
  have s: "dlg_ok d1" if "same_shape d d1" for d1 using same_shape_ok(3) [OF that] d by simp
  have r: "dlg_ok (d\<lparr>w_frame_type := Some i\<rparr>)" if "i < 3" for i using d that by (auto simp: dlg_ok_def dlg_base_def dlg_list_def)
  have p: "dlg_ok (d\<lparr>w_rate_packets := Some i\<rparr>)" if "i < length PACKET_LIMIT_VALUES" for i
    using d that by (auto simp: dlg_ok_def dlg_base_def dlg_list_def)
  have b: "dlg_ok (d\<lparr>w_rate_bytes := Some i\<rparr>)" if "i < length BYTE_LIMIT_VALUES" for i
    using d that by (auto simp: dlg_ok_def dlg_base_def dlg_list_def)
  show ?thesis
  proof (cases "w_open d")
    case True
    show ?thesis
    proof (cases a)
      case (SelectNic i)
      with select_nic_ok [OF d] True show ?thesis by (simp add: main_wproc_def)
    next
      case (ClickEncap t)
      with click_encap_ok [OF d env] True show ?thesis by (simp add: main_wproc_def)
    next
      case ClickNicEnabled
      with click_nic_enabled_ok [OF d] True show ?thesis by (simp add: main_wproc_def)
    next
      case PressOk
      with press_save_ok [OF d env] True show ?thesis by (simp add: main_wproc_def)
    next
      case PressApply
      with press_save_ok [OF d env] True show ?thesis by (simp add: main_wproc_def)
    next
      case ClickLogEnable
      with u True show ?thesis by (simp add: main_wproc_def)
    next
      case ClickLogDebug
      with u d True show ?thesis by (simp add: main_wproc_def)
    qed (use True d r p b in \<open>simp_all add: main_wproc_def Let_def s\<close>)
  qed (use d in \<open>simp add: main_wproc_def\<close>)
qed

subsection \<open>What the boxes show\<close>

lemma limit_index_range:
  "limit_index table v = Some i \<Longrightarrow> i < length table \<and> snd (table ! i) = v"
proof -
  have "fold (\<lambda>i sel. if snd (table ! i) = v then Some i else sel) xs None = Some i \<Longrightarrow> i \<in> set xs \<and> snd (table ! i) = v" for xs
    by (induction xs rule: rev_induct) (auto split: if_splits)
  from this [of "[0..<length table]"] show "limit_index table v = Some i \<Longrightarrow> i < length table \<and> snd (table ! i) = v"
    by (simp add: limit_index_def)
qed

lemma limit_index_listed: "v \<in> snd ` set table \<Longrightarrow> \<exists>i. limit_index table v = Some i"
proof -
  assume "v \<in> snd ` set table"
  then obtain k where k: "k \<in> set [0..<length table]" "snd (table ! k) = v" by (auto simp: in_set_conv_nth)
  have "k \<in> set xs \<Longrightarrow> fold (\<lambda>i sel. if snd (table ! i) = v then Some i else sel) xs None \<noteq> None" for xs
    using k(2) by (induction xs rule: rev_induct) auto
  from this [OF k(1)] show ?thesis by (auto simp: limit_index_def)
qed

lemma limit_index_unlisted: "v \<notin> snd ` set table \<Longrightarrow> limit_index table v = None"
  using limit_index_range [of table v] by (cases "limit_index table v") (force simp: image_iff in_set_conv_nth)+

lemma digit_chars: "k < 10 \<Longrightarrow> is_digit (''0123456789'' ! k) \<and> int (of_char (''0123456789'' ! k)) - 48 = int k"
  by (auto simp: is_digit_def less_Suc_eq numeral_eq_Suc)

lemma dec_string_digits: "list_all is_digit (dec_string n) \<and> dec_string n \<noteq> []"
proof (induction n rule: dec_string.induct)
  case (1 n)
  then show ?case
    by (subst (1 2) dec_string.simps) (simp add: digit_chars)
qed

lemma dec_string_value: "foldl (\<lambda>n c. 10 * n + (int (of_char c) - 48)) 0 (dec_string n) = int n"
proof (induction n rule: dec_string.induct)
  case (1 n)
  show ?case
  proof (cases "n < 10")
    case True
    then show ?thesis using digit_chars [of n] by (subst dec_string.simps) simp
  next
    case False
    then have "foldl (\<lambda>n c. 10 * n + (int (of_char c) - 48)) 0 (dec_string n) = 10 * int (n div 10) + int (n mod 10)"
      using 1 digit_chars [of "n mod 10"] by (subst dec_string.simps) simp
    also have "\<dots> = int (10 * (n div 10) + n mod 10)" by (simp only: of_nat_add of_nat_mult of_nat_numeral)
    also have "\<dots> = int n" by (simp only: mult_div_mod_eq)
    finally show ?thesis .
  qed
qed

lemma strtol10_dec_string:
  assumes "n < 2 ^ 31"
  shows "strtol10 (dec_string n) = (int n, [])"
proof -
  have all: "takeWhile is_digit (dec_string n) = dec_string n" "dropWhile is_digit (dec_string n) = []"
    using dec_string_digits [of n] by (simp_all add: takeWhile_eq_all_conv list_all_iff)
  obtain c cs where c: "dec_string n = c # cs" "is_digit c" using dec_string_digits [of n] by (cases "dec_string n") auto
  then have "\<not> is_space c" "c \<noteq> CHR ''-''" "c \<noteq> CHR ''+''" by (auto simp: is_digit_def is_space_def)
  then have "dropWhile is_space (dec_string n) = dec_string n"
    "(case dec_string n of [] \<Rightarrow> (False, dec_string n)
      | c # r \<Rightarrow> if c = CHR ''-'' then (True, r) else if c = CHR ''+'' then (False, r) else (False, dec_string n)) = (False, dec_string n)"
    using c(1) by simp_all
  moreover have "digits_value (dec_string n) = int n" by (simp add: digits_value_def all dec_string_value)
  ultimately show ?thesis using assms dec_string_digits [of n] by (simp add: strtol10_def Let_def all)
qed

lemma valid_port_shown:
  assumes "(port :: u16) \<noteq> 0"
  shows "valid_port (dec_string (unat port)) = Some (int (unat port))"
proof -
  have u: "unat port < 65536" using unsigned_less [of port, where 'a = nat] by simp
  then have "GetWindowText 32 (dec_string (unat port)) = dec_string (unat port)"
    using dec_string_bounds [of "unat port" 5] by (simp add: GetWindowText_def)
  moreover have "strtol10 (dec_string (unat port)) = (int (unat port), [])" using u by (intro strtol10_dec_string) simp
  moreover have "unat port \<noteq> 0" using assms by (simp add: unat_eq_zero)
  ultimately show ?thesis using u by (simp add: valid_port_def del: of_nat_unat)
qed

subsection \<open>Opening and saving\<close>

text \<open>The box of primary interfaces and what its selection stands for.\<close>

lemma nth_enabled_filter:
  "nth_enabled k ns p =
     (if k < p \<and> p \<le> k + length (filter (\<lambda>n. ic_enabled (nic_config n)) ns)
      then Some (nic_hwaddr (filter (\<lambda>n. ic_enabled (nic_config n)) ns ! (p - k - 1))) else None)"
  by (induction k ns p rule: nth_enabled.induct) (auto simp: nth_Cons' Suc_diff_Suc)

lemma primary_selection:
  assumes "fold (\<lambda>n (items, sel). if ic_enabled (nic_config n)
        then (items @ [nic_name n], if nic_hwaddr n = pr then length items else sel) else (items, sel)) ns ([''Default''], 0) = (items, sel)"
  shows "length items = Suc (length (filter (\<lambda>n. ic_enabled (nic_config n)) ns)) \<and>
    (if \<exists>n\<in>set ns. ic_enabled (nic_config n) \<and> nic_hwaddr n = pr
     then 0 < sel \<and> sel < length items \<and> nic_hwaddr (filter (\<lambda>n. ic_enabled (nic_config n)) ns ! (sel - 1)) = pr
     else sel = 0)"
  using assms
proof (induction ns arbitrary: items sel rule: rev_induct)
  case (snoc n ns)
  obtain its sl where f: "fold (\<lambda>n (items, sel). if ic_enabled (nic_config n)
        then (items @ [nic_name n], if nic_hwaddr n = pr then length items else sel) else (items, sel)) ns ([''Default''], 0) = (its, sl)"
    by fastforce
  from snoc.IH [OF f] snoc.prems f show ?case by (auto simp: nth_append split: if_splits)
qed simp

text \<open>What the controls hold besides the list of interfaces.\<close>

definition same_entries :: "('w, 's) dlg \<Rightarrow> ('w, 's) dlg \<Rightarrow> bool" where
  "same_entries d d' \<longleftrightarrow>
     d_config d' = d_config d \<and> d_primary d' = d_primary d \<and> w_ipxwrapper_port d' = w_ipxwrapper_port d \<and>
     w_ipxwrapper_fw d' = w_ipxwrapper_fw d \<and> w_server_addr d' = w_server_addr d \<and> w_server_port d' = w_server_port d \<and>
     w_coalesce d' = w_coalesce d \<and> w_dosbox_fw d' = w_dosbox_fw d \<and> w_frame_type d' = w_frame_type d \<and>
     w_w95 d' = w_w95 d \<and> w_log_enable d' = w_log_enable d \<and> w_log_debug d' = w_log_debug d \<and>
     w_log_trace d' = w_log_trace d \<and> w_profile d' = w_profile d \<and> w_rate_packets d' = w_rate_packets d \<and>
     w_rate_bytes d' = w_rate_bytes d"

lemma same_controls_entries: "same_controls d d' \<Longrightarrow> same_entries d d' \<and> w_encap d' = w_encap d"
  by (auto simp: same_controls_def same_entries_def)

lemma add_nic_same: "add_nic env x d = Some d' \<Longrightarrow> same_controls d d'"
proof -
  assume a: "add_nic env x d = Some d'"
  obtain hw name where x: "x = (hw, name)" by (cases x)
  show ?thesis
    using a unfolding x add_nic_def same_controls_def
    by (auto simp: Let_def split: if_splits prod.splits) (metis dlg.surjective dlg.update_convs(1-3))+
qed

lemma add_nics_same: "add_nics env xs d = Some d' \<Longrightarrow> same_controls d d'"
proof (induction xs arbitrary: d)
  case (Cons x xs)
  then obtain d1 where "add_nic env x d = Some d1" "add_nics env xs d1 = Some d'" by (auto split: bind_splits)
  with Cons.IH add_nic_same same_controls_trans show ?case by blast
qed (simp add: same_controls_refl)

lemma update_encap_same: "w_encap d = Some (mc_encap_type (d_config d)) \<Longrightarrow> d_config (update_encap d) = d_config d"
  by (simp add: update_encap_def Let_def)

lemma update_encap_entries:
  assumes "w_encap d = Some (mc_encap_type (d_config d))"
  shows "same_entries d (update_encap d)" and "w_primary (update_encap d) = w_primary d"
  using update_encap_same [OF assms] by (simp_all add: same_entries_def update_encap_def Let_def)

lemma main_window_update_none:
  assumes "w_focus d = None" and "w_encap d = Some (mc_encap_type (d_config d))" and "main_window_update d = Some d'"
  shows "same_entries d d' \<and> w_focus d' = None \<and> w_primary d' = w_primary d \<and> d_nics d' = d_nics d"
proof -
  let ?d1 = "d\<lparr>e_nic_enabled := False, e_nic_net := False, e_nic_node := False\<rparr>"
  let ?d = "?d1\<lparr>e_log_debug := w_log_enable d, e_log_trace := w_log_enable d \<and> w_log_debug d, e_profile := w_log_enable d\<rparr>"
  have "d' = update_encap ?d" using assms(1,3) by (simp add: main_window_update_def update_nic_def)
  moreover have "w_encap ?d = Some (mc_encap_type (d_config ?d))" using assms(2) by simp
  ultimately show ?thesis using update_encap_entries [of ?d] assms(1) by (simp add: same_entries_def)
qed

lemma reload_primary_nics_entries: "same_entries d (reload_primary_nics d)"
  by (simp add: same_entries_def reload_primary_nics_def Let_def split: prod.split)

lemma reload_primary_nics_cong:
  "d_nics a = d_nics b \<Longrightarrow> d_primary a = d_primary b \<Longrightarrow> w_primary (reload_primary_nics a) = w_primary (reload_primary_nics b)"
  by (simp only: reload_primary_nics_def Let_def prod.case_eq_if) simp

lemma same_entries_trans: "same_entries d d' \<Longrightarrow> same_entries d' d'' \<Longrightarrow> same_entries d d''"
  by (simp add: same_entries_def)

lemma reload_nics_entries:
  assumes "reload_nics env d = Some d'" and "w_encap d = Some (mc_encap_type (d_config d))"
  shows "same_entries d d' \<and> w_focus d' = None \<and>
    w_primary d' = w_primary (reload_primary_nics d')"
proof -
  let ?fin = "\<lambda>d. d\<lparr>w_nic_list := map nic_name (d_nics d), w_focus := None\<rparr>"
  let ?d = "d\<lparr>d_nics := []\<rparr>"
  have "\<exists>d1. same_controls ?d d1 \<and> main_window_update (reload_primary_nics (?fin d1)) = Some d'"
  proof (cases "mc_encap_type (d_config d) = ENCAP_TYPE_PCAP")
    case True
    with assms(1) obtain l :: "pcap_interface list" and st d1 where "add_nics env (map (\<lambda>i. (pi_mac i, pi_desc i)) l) (?d\<lparr>d_sys := st\<rparr>) = Some d1"
        "main_window_update (reload_primary_nics (?fin d1)) = Some d'"
      by (auto simp: reload_nics_def Let_def split: bind_splits)
    with same_controls_trans [OF same_controls_sys [of ?d] add_nics_same] show ?thesis by blast
  next
    case False
    show ?thesis
    proof (cases "mc_encap_type (d_config d) = ENCAP_TYPE_IPXWRAPPER")
      case True
      with False assms(1) obtain d0 l st d1 where d0: "add_nic env (WILDCARD_IFACE_HWADDR, ''Wildcard interface'') ?d = Some d0"
          and d1: "add_nics env (map (\<lambda>a. (addr48_in (ad_address a), de_desc env a)) (filter (\<lambda>a. ad_addrlen a = 6) l))
            (d0\<lparr>d_sys := st\<rparr>) = Some d1" "main_window_update (reload_primary_nics (?fin d1)) = Some d'"
        by (auto simp: reload_nics_def Let_def split: bind_splits)
      with same_controls_trans [OF add_nic_same [OF d0] same_controls_trans [OF same_controls_sys [of d0] add_nics_same [OF d1(1)]]]
      show ?thesis by blast
    next
      case not_ip: False
      with False assms(1) have "main_window_update (reload_primary_nics (?fin ?d)) = Some d'" by (simp add: reload_nics_def Let_def)
      with same_controls_refl show ?thesis by blast
    qed
  qed
  then obtain d1 where d1: "same_controls (d\<lparr>d_nics := []\<rparr>) d1" "main_window_update (reload_primary_nics (?fin d1)) = Some d'" by blast
  have e: "same_entries d d1" "w_encap d1 = w_encap d" using same_controls_entries [OF d1(1)] by (simp_all add: same_entries_def)
  have p: "same_entries d1 (reload_primary_nics (?fin d1))"
    using reload_primary_nics_entries [of "?fin d1"] by (simp add: same_entries_def)
  have "w_encap (reload_primary_nics (?fin d1)) = Some (mc_encap_type (d_config (reload_primary_nics (?fin d1))))"
    using e assms(2) by (simp add: same_entries_def)
  then have u: "same_entries (reload_primary_nics (?fin d1)) d'" "w_focus d' = None"
      "w_primary d' = w_primary (reload_primary_nics (?fin d1))" "d_nics d' = d_nics d1"
    using main_window_update_none [OF _ _ d1(2)] by simp_all
  have "same_entries d d'" using same_entries_trans [OF e(1) same_entries_trans [OF p u(1)]] .
  moreover have "d_primary d' = d_primary d1" using same_entries_trans [OF p u(1)] by (simp add: same_entries_def)
  then have "w_primary (reload_primary_nics (?fin d1)) = w_primary (reload_primary_nics d')"
    by (intro reload_primary_nics_cong) (simp_all add: u(4))
  ultimately show ?thesis using u by simp
qed

lemma window_primary:
  assumes "w_primary d = w_primary (reload_primary_nics d)"
  shows "d_primary (save_primary d) =
    (if \<exists>n\<in>set (d_nics d). ic_enabled (nic_config n) \<and> nic_hwaddr n = d_primary d then d_primary d
     else addr48_in [0xFF, 0xFF, 0xFF, 0xFF, 0xFF, 0xFF])"
proof -
  obtain items sel where f: "fold (\<lambda>n (items, sel). if ic_enabled (nic_config n)
        then (items @ [nic_name n], if nic_hwaddr n = d_primary d then length items else sel) else (items, sel))
      (d_nics d) ([''Default''], 0) = (items, sel)" by fastforce
  then have "w_primary d = sel" using assms by (simp add: reload_primary_nics_def)
  with primary_selection [OF f] show ?thesis by (auto simp: save_primary_def nth_enabled_filter split: if_splits)
qed

lemma stash_unfocused:
  assumes "w_focus d = None"
  shows "\<exists>pr. stash_nic_config (save_primary d) = Some (True, d\<lparr>d_primary := pr\<rparr>)" and "\<exists>pr. d = d\<lparr>d_primary := pr\<rparr>"
proof -
  show "\<exists>pr. d = d\<lparr>d_primary := pr\<rparr>" by (rule exI [of _ "d_primary d"]) simp
  then show "\<exists>pr. stash_nic_config (save_primary d) = Some (True, d\<lparr>d_primary := pr\<rparr>)"
    using assms by (auto simp: stash_nic_config_def save_primary_def split: option.split)
qed

lemma main_window_init_entries:
  assumes "main_window_init env c primary pcap st = Some d"
    and "mc_encap_type c \<in> {ENCAP_TYPE_IPXWRAPPER, ENCAP_TYPE_DOSBOX, ENCAP_TYPE_PCAP}"
  shows "d_config d = c \<and> d_primary d = primary \<and> w_focus d = None \<and> w_primary d = w_primary (reload_primary_nics d) \<and>
    w_ipxwrapper_port d = dec_string (unat (mc_udp_port c)) \<and> w_ipxwrapper_fw d = mc_fw_except c \<and>
    w_server_addr d = (case mc_dosbox_server_addr c of Some a \<Rightarrow> a | None \<Rightarrow> []) \<and>
    w_server_port d = dec_string (unat (mc_dosbox_server_port c)) \<and> w_coalesce d = mc_dosbox_coalesce c \<and>
    w_dosbox_fw d = mc_fw_except c \<and>
    w_frame_type d = (if mc_frame_type c - 1 < 3 then Some (unat (mc_frame_type c - 1)) else None) \<and> w_w95 d = mc_w95_bug c \<and>
    w_log_enable d = (mc_log_level c < LOG_DISABLED) \<and> w_log_debug d = (mc_log_level c \<le> LOG_DEBUG) \<and>
    w_log_trace d = (mc_log_level c \<le> LOG_CALL) \<and> w_profile d = mc_profile c \<and>
    w_rate_packets d = limit_index PACKET_LIMIT_VALUES (mc_rate_limit_packets c) \<and>
    w_rate_bytes d = limit_index BYTE_LIMIT_VALUES (mc_rate_limit_bytes c)"
  using reload_nics_entries [OF assms(1) [unfolded main_window_init_def]] assms(2)
  by (simp add: same_entries_def)

text \<open>Without a change, what is read back from the controls is what they were filled with.\<close>

lemma save_options_shown:
  assumes "w_rate_packets d = limit_index PACKET_LIMIT_VALUES (mc_rate_limit_packets (d_config d))"
    and "w_rate_bytes d = limit_index BYTE_LIMIT_VALUES (mc_rate_limit_bytes (d_config d))"
    and "w_w95 d = mc_w95_bug (d_config d)" and "w_profile d = mc_profile (d_config d)"
    and "w_log_enable d = (mc_log_level (d_config d) < LOG_DISABLED)" and "w_log_debug d = (mc_log_level (d_config d) \<le> LOG_DEBUG)"
    and "w_log_trace d = (mc_log_level (d_config d) \<le> LOG_CALL)" and "config_saved (d_config d)"
  shows "save_options d = Some d"
proof -
  obtain i j where i: "limit_index PACKET_LIMIT_VALUES (mc_rate_limit_packets (d_config d)) = Some i"
    and j: "limit_index BYTE_LIMIT_VALUES (mc_rate_limit_bytes (d_config d)) = Some j"
    using limit_index_listed assms(8) unfolding config_saved_def config_usable_def by metis
  have "mc_log_level (d_config d) \<in> {LOG_CALL, LOG_DEBUG, LOG_INFO, LOG_DISABLED}" using assms(8) unfolding config_saved_def config_usable_def by blast
  then have log: "(if mc_log_level (d_config d) < LOG_DISABLED then if mc_log_level (d_config d) \<le> LOG_DEBUG
      then if mc_log_level (d_config d) \<le> LOG_CALL then LOG_CALL else LOG_DEBUG else LOG_INFO else LOG_DISABLED) = mc_log_level (d_config d)"
    by (auto simp: LOG_CALL_def LOG_DEBUG_def LOG_INFO_def LOG_DISABLED_def word_le_nat_alt)
  show ?thesis
    unfolding save_options_def assms(1-7) i j log
    using limit_index_range [OF i] limit_index_range [OF j] by simp
qed

lemma write_config_keeps:
  assumes "write_config env d = Some (ok, d')"
  shows "d_config d' = d_config d \<and> d_nics d' = d_nics d \<and> d_primary d' = d_primary d"
proof -
  let ?api = "env_reg (de_sys env)"
  obtain ok1 w1 where 1: "(if mc_encap_type (d_config d) = ENCAP_TYPE_IPXWRAPPER \<or> mc_encap_type (d_config d) = ENCAP_TYPE_PCAP
      then all_ok (map (\<lambda>n. set_iface_config ?api (nic_hwaddr n) (nic_config n)) (d_nics d)) (st_reg (d_sys d))
      else (True, st_reg (d_sys d))) = (ok1, w1)" by fastforce
  show ?thesis
    using assms unfolding write_config_def Let_def 1
    by (cases ok1; cases "set_main_config ?api (d_config d) w1"; cases "set_primary_iface ?api (d_primary d) (snd (the (set_main_config ?api (d_config d) w1)))")
      (auto split: if_splits)
qed

subsection \<open>The properties\<close>

text \<open>The settings the controls can show.\<close>

definition config_shown :: "main_config \<Rightarrow> bool" where
  "config_shown c \<longleftrightarrow>
     mc_encap_type c \<in> {ENCAP_TYPE_IPXWRAPPER, ENCAP_TYPE_DOSBOX, ENCAP_TYPE_PCAP} \<and>
     mc_frame_type c \<in> {FRAME_TYPE_ETH_II, FRAME_TYPE_NOVELL, FRAME_TYPE_LLC} \<and> mc_dosbox_server_addr c \<noteq> None \<and>
     mc_rate_limit_packets c \<in> snd ` set PACKET_LIMIT_VALUES \<and> mc_rate_limit_bytes c \<in> snd ` set BYTE_LIMIT_VALUES"

lemma frame_type_index: "mc_frame_type c \<in> {FRAME_TYPE_ETH_II, FRAME_TYPE_NOVELL, FRAME_TYPE_LLC} \<Longrightarrow>
    mc_frame_type c - 1 < 3 \<and> unat (mc_frame_type c - 1) < 3 \<and> (of_nat (unat (mc_frame_type c - 1)) :: u32) + 1 = mc_frame_type c"
  by (auto simp: config_codes)

lemma main_window_init_ok:
  assumes "env_ok env" and "config_shown c"
  shows "\<exists>d. main_window_init env c primary pcap st = Some d \<and> dlg_ok d"
  unfolding main_window_init_def
proof (rule reload_nics_ok [OF assms(1)], goal_cases)
  case 1
  obtain i j where "limit_index PACKET_LIMIT_VALUES (mc_rate_limit_packets c) = Some i" "limit_index BYTE_LIMIT_VALUES (mc_rate_limit_bytes c) = Some j"
    using limit_index_listed assms(2) unfolding config_shown_def by blast
  with limit_index_range frame_type_index [of c] assms(2) show ?case
    unfolding dlg_base_def config_shown_def by (auto split: if_splits)
qed

lemma run_dialog_ok: "dlg_ok d \<Longrightarrow> env_ok env \<Longrightarrow> \<exists>d'. run_dialog env as d = Some d' \<and> dlg_ok d'"
proof (induction as arbitrary: d)
  case (Cons a as)
  obtain d1 where "main_wproc env a d = Some d1" "dlg_ok d1" using main_wproc_ok [OF Cons.prems] by blast
  with Cons.IH [OF _ Cons.prems(2), of d1] show ?case by simp
qed simp


lemma save_encap_shown:
  assumes "config_usable (d_config d)" and "\<And>a. mc_dosbox_server_addr (d_config d) = Some a \<Longrightarrow> length a < 256"
    and "w_ipxwrapper_port d = dec_string (unat (mc_udp_port (d_config d)))" and "w_ipxwrapper_fw d = mc_fw_except (d_config d)"
    and "w_server_addr d = (case mc_dosbox_server_addr (d_config d) of Some a \<Rightarrow> a | None \<Rightarrow> [])"
    and "w_server_port d = dec_string (unat (mc_dosbox_server_port (d_config d)))"
    and "w_coalesce d = mc_dosbox_coalesce (d_config d)" and "w_dosbox_fw d = mc_fw_except (d_config d)"
    and "w_frame_type d = Some (unat (mc_frame_type (d_config d) - 1))" and "save_encap env d = Some r"
  shows "\<exists>st. r = Inr (d\<lparr>d_sys := st\<rparr>)"
proof -
  let ?c = "d_config d"
  have refl: "\<exists>st. d = d\<lparr>d_sys := st\<rparr>" by (rule exI [of _ "d_sys d"]) simp
  consider "mc_encap_type ?c = ENCAP_TYPE_IPXWRAPPER" | "mc_encap_type ?c = ENCAP_TYPE_DOSBOX" | "mc_encap_type ?c = ENCAP_TYPE_PCAP"
    using assms(1) unfolding config_saved_def config_usable_def by blast
  then show ?thesis
  proof cases
    case 1
    then have "mc_udp_port ?c \<noteq> 0" using assms(1) by (simp add: config_saved_def config_usable_def)
    with 1 assms(3,4,10) refl show ?thesis by (auto simp: save_encap_def Let_def valid_port_shown)
  next
    case 2
    obtain a where a: "mc_dosbox_server_addr ?c = Some a" "a \<noteq> []" "mc_dosbox_server_port ?c \<noteq> 0"
      using assms(1) 2 by (auto simp: config_saved_def config_usable_def)
    then have w: "GetWindowText 256 (w_server_addr d) = a" using assms(2,5) by (simp add: GetWindowText_def)
    obtain ok st where m: "sys_malloc (de_sys env) (d_sys d) = (ok, st)" by fastforce
    have "?c\<lparr>mc_dosbox_server_addr := Some a\<rparr> = ?c" using a(1) by (cases "d_config d") simp
    then have "save_encap env d = (if ok then Some (Inr (d\<lparr>d_sys := st\<rparr>)) else None)"
      using 2 a(2,3) assms(6-8) by (simp add: save_encap_def Let_def valid_port_shown config_codes w m)
    with assms(10) show ?thesis by (auto split: if_splits)
  next
    case 3
    have "mc_frame_type ?c \<in> {FRAME_TYPE_ETH_II, FRAME_TYPE_NOVELL, FRAME_TYPE_LLC}" using assms(1) unfolding config_saved_def config_usable_def by blast
    from frame_type_index [OF this] 3 assms(9,10) refl show ?thesis by (auto simp: save_encap_def Let_def config_codes)
  qed
qed


text \<open>
  The boxes of the limits offer a list of values. A limit that is not in it, which the registry or
  an earlier version may hold, leaves the box without a selection, and saving then reads the element
  before the table. The two limits are shown here for a configuration that is otherwise usable; the
  user can avoid it only by picking a value first.
\<close>

theorem unlisted_limit_overruns:
  assumes "main_window_init env c primary pcap st = Some d" and "config_usable c"
    and "\<And>a. mc_dosbox_server_addr c = Some a \<Longrightarrow> length a < 256"
    and "mc_rate_limit_packets c \<notin> snd ` set PACKET_LIMIT_VALUES \<or> mc_rate_limit_bytes c \<notin> snd ` set BYTE_LIMIT_VALUES"
  shows "save_config env d = None"
proof -
  have encap: "mc_encap_type c \<in> {ENCAP_TYPE_IPXWRAPPER, ENCAP_TYPE_DOSBOX, ENCAP_TYPE_PCAP}"
    and frame: "mc_frame_type c \<in> {FRAME_TYPE_ETH_II, FRAME_TYPE_NOVELL, FRAME_TYPE_LLC}"
    using assms(2) unfolding config_usable_def by blast+
  note d = main_window_init_entries [OF assms(1) encap]
  obtain pr where s1: "(if mc_encap_type c = ENCAP_TYPE_IPXWRAPPER \<or> mc_encap_type c = ENCAP_TYPE_PCAP
      then stash_nic_config (save_primary d) else Some (True, d)) = Some (True, d\<lparr>d_primary := pr\<rparr>)"
  proof (cases "mc_encap_type c = ENCAP_TYPE_IPXWRAPPER \<or> mc_encap_type c = ENCAP_TYPE_PCAP")
    case True
    with stash_unfocused(1) [of d] d that show thesis by (simp only: if_True) blast
  next
    case False
    with stash_unfocused(2) [of d] d that show thesis by (simp only: if_False) metis
  qed
  show ?thesis
  proof (cases "save_encap env (d\<lparr>d_primary := pr\<rparr>)")
    case None
    with s1 d show ?thesis by (simp add: save_config_def)
  next
    case (Some r)
    have "\<exists>st. r = Inr (d\<lparr>d_primary := pr\<rparr>\<lparr>d_sys := st\<rparr>)"
      by (rule save_encap_shown [OF _ _ _ _ _ _ _ _ _ Some]) (use assms(2,3) d frame_type_index [OF frame] in simp_all)
    then obtain st where st: "r = Inr (d\<lparr>d_primary := pr\<rparr>\<lparr>d_sys := st\<rparr>)" by blast
    have "w_rate_packets d = limit_index PACKET_LIMIT_VALUES (mc_rate_limit_packets c)"
      "w_rate_bytes d = limit_index BYTE_LIMIT_VALUES (mc_rate_limit_bytes c)" using d by blast+
    then have "w_rate_packets d = None \<or> w_rate_bytes d = None" using assms(4) limit_index_unlisted by auto
    then have "save_options (d\<lparr>d_primary := pr\<rparr>\<lparr>d_sys := st\<rparr>) = None"
      by (cases "w_rate_packets d") (simp_all add: save_options_def)
    with s1 d Some st show ?thesis by (simp add: save_config_def)
  qed
qed

text \<open>A system without adapters, with which the properties are instantiated.\<close>

definition plain_env :: "(mem_reg, unit) dlgenv" where
  "plain_env =
     \<lparr>de_sys = \<lparr>env_reg = mem_api, env_srand = (\<lambda>_. ()), env_rand = (\<lambda>_. (0, ())), env_ticks = 0, env_mem = (\<lambda>_. True),
                env_adapters = (\<lambda>_. (232, [])), env_routes = None, env_pcap_devs = None, env_pcap_open = (\<lambda>_. 0)\<rparr>,
      de_desc = (\<lambda>_. []), de_wpcap = True\<rparr>"

lemma plain_env_ok: "env_ok plain_env"
  by (auto simp: env_ok_def plain_env_def load_sys_interfaces_def query_adapters.simps sys_malloc_def IFACE_NAME_SIZE_def
      ipx_get_pcap_interfaces_def ERROR_BUFFER_OVERFLOW_def ERROR_SUCCESS_def Let_def)

definition shown_config :: main_config where
  "shown_config = default_config\<lparr>mc_dosbox_server_addr := Some ''dosbox'', mc_encap_type := ENCAP_TYPE_DOSBOX\<rparr>"

lemma shown_config_saved: "config_saved shown_config" "config_shown shown_config" "config_usable (shown_config\<lparr>mc_rate_limit_packets := 7\<rparr>)"
  by (simp_all add: config_saved_def config_shown_def config_usable_def shown_config_def default_config_def config_codes
      PACKET_LIMIT_VALUES_def BYTE_LIMIT_VALUES_def)



theorem unlisted_limit_overruns_witness:
  "\<exists>d. main_window_init plain_env (shown_config\<lparr>mc_rate_limit_packets := 7\<rparr>) 0 True
      \<lparr>st_reg = mem_init, st_rng = \<lparr>rng_seeded = False, rng_state = ()\<rparr>, st_allocs = 0, st_queries = 0\<rparr> = Some d \<and> save_config plain_env d = None"
proof -
  let ?c = "shown_config\<lparr>mc_rate_limit_packets := 7\<rparr>"
  let ?st = "\<lparr>st_reg = mem_init, st_rng = \<lparr>rng_seeded = False, rng_state = ()\<rparr>, st_allocs = 0, st_queries = 0\<rparr>"
  obtain d where d: "main_window_init plain_env ?c 0 True ?st = Some d"
    by (simp add: main_window_init_def reload_nics_def shown_config_def default_config_def config_codes main_window_update_def update_nic_def
        reload_primary_nics_def Let_def)
  have "save_config plain_env d = None"
    by (rule unlisted_limit_overruns [OF d shown_config_saved(3)])
      (auto simp: shown_config_def PACKET_LIMIT_VALUES_def)
  with d show ?thesis by blast
qed

end
