(* ===== verification/Layout.thy ===== *)
theory Layout
  imports Ipxconfig
begin

text \<open>
  Where the controls of the configuration window are (the second half of \<open>main_window_init\<close>, and
  \<open>main_window_layout\<close>, in ipxconfig.c). The sizes of texts and borders are parameters.
\<close>

record rect =
  rx :: int
  ry :: int
  rw :: int
  rh :: int

definition rect_at :: "int \<Rightarrow> int \<Rightarrow> int \<Rightarrow> int \<Rightarrow> rect" where
  "rect_at x y w h = \<lparr>rx = x, ry = y, rw = w, rh = h\<rparr>"

datatype control =
    EncapIpxwrapper | EncapDosbox | EncapIpx | Primary
  | NicList | NicNodeLbl | NicNode | NicNetLbl | NicNet | NicEnabled
  | PortLbl | Port | IpxwrapperFw
  | ServerAddrLbl | ServerAddr | ServerPortLbl | ServerPort | Coalesce | DosboxFw
  | FrameTypeLbl | FrameType
  | OptW95 | OptLogEnable | OptLogDebug | OptLogTrace | OptProfile | PacketsLbl | Packets | BytesLbl | Bytes

text \<open>The width of the window, the width of a border and of the labels and fields, the height of a text.\<close>

record metrics =
  mt_width :: int
  mt_edge :: int
  mt_text_h :: int
  mt_lbl_w :: int
  mt_lbl_w2 :: int
  mt_port_w :: int
  mt_node_w :: int
  mt_frame_w :: int

definition edit_h :: "metrics \<Rightarrow> int" where "edit_h m = mt_text_h m + 2 * mt_edge m"
definition BOX_BOTTOM_PAD :: int where "BOX_BOTTOM_PAD = 6"
definition BOX_SIDE_PAD :: int where "BOX_SIDE_PAD = 10"
definition BOX_SIDE_MARGIN :: int where "BOX_SIDE_MARGIN = 10"
definition BOX_WIDTH :: "metrics \<Rightarrow> int" where "BOX_WIDTH m = mt_width m - BOX_SIDE_MARGIN * 2"
definition BOX_INNER_WIDTH :: "metrics \<Rightarrow> int" where "BOX_INNER_WIDTH m = BOX_WIDTH m - BOX_SIDE_PAD * 2"

text \<open>The controls of a group, and the height of its box.\<close>

type_synonym box = "(control \<times> rect) list \<times> int"

definition layout_encap :: "metrics \<Rightarrow> box" where
  "layout_encap m =
     (let t = mt_text_h m; w = BOX_INNER_WIDTH m; y = t in
      let y1 = y + t * 3; y2 = y1 + t * 3; y3 = y2 + t * 2 in
      ([(EncapIpxwrapper, rect_at BOX_SIDE_PAD y w (t * 2)), (EncapDosbox, rect_at BOX_SIDE_PAD y1 w (t * 2)),
        (EncapIpx, rect_at BOX_SIDE_PAD y2 w (t * 2))], y3 + BOX_BOTTOM_PAD))"

definition layout_primary :: "metrics \<Rightarrow> box" where
  "layout_primary m =
     ([(Primary, rect_at BOX_SIDE_PAD (mt_text_h m) (BOX_INNER_WIDTH m) 300)], mt_text_h m + edit_h m + BOX_BOTTOM_PAD)"

definition layout_nic :: "metrics \<Rightarrow> box" where
  "layout_nic m =
     (let t = mt_text_h m; e = mt_edge m; w = BOX_INNER_WIDTH m; l = mt_lbl_w m; n = mt_node_w m; nic_list_h = 5 * t + 2 * e; y = t in
      let y1 = y + nic_list_h + 2; y2 = y1 + edit_h m + 2; y3 = y2 + edit_h m + 2; y4 = y3 + edit_h m + 2 in
      ([(NicList, rect_at BOX_SIDE_PAD y w nic_list_h),
        (NicNodeLbl, rect_at BOX_SIDE_PAD (y1 + e) l t), (NicNode, rect_at (BOX_SIDE_PAD + 5 + l) y1 n (edit_h m)),
        (NicNetLbl, rect_at BOX_SIDE_PAD (y2 + e) l t), (NicNet, rect_at (BOX_SIDE_PAD + 5 + l) y2 n (edit_h m)),
        (NicEnabled, rect_at BOX_SIDE_PAD y3 w t)], y4 + BOX_BOTTOM_PAD))"

definition layout_ipxwrapper :: "metrics \<Rightarrow> box" where
  "layout_ipxwrapper m =
     (let t = mt_text_h m; l = mt_lbl_w m; y = t; y1 = y + edit_h m; y2 = y1 + t in
      ([(PortLbl, rect_at BOX_SIDE_PAD y l t), (Port, rect_at (BOX_SIDE_PAD + 5 + l) y (mt_port_w m) (edit_h m)),
        (IpxwrapperFw, rect_at BOX_SIDE_PAD y1 (BOX_INNER_WIDTH m) t)], y2 + BOX_BOTTOM_PAD))"

definition layout_dosbox :: "metrics \<Rightarrow> box" where
  "layout_dosbox m =
     (let t = mt_text_h m; l = mt_lbl_w2 m; w = mt_width m - 20; y = t; y1 = y + edit_h m;
          y2 = y1 + edit_h m + t; y3 = y2 + t; y4 = y3 + t in
      ([(ServerAddrLbl, rect_at BOX_SIDE_PAD y l t), (ServerAddr, rect_at (15 + l) y (mt_node_w m) (edit_h m)),
        (ServerPortLbl, rect_at BOX_SIDE_PAD y1 l t), (ServerPort, rect_at (15 + l) y1 (mt_port_w m) (edit_h m)),
        (Coalesce, rect_at BOX_SIDE_PAD y2 w t), (DosboxFw, rect_at BOX_SIDE_PAD y3 w t)], y4 + BOX_BOTTOM_PAD))"

definition layout_ipx :: "metrics \<Rightarrow> box" where
  "layout_ipx m =
     (let t = mt_text_h m; l = mt_lbl_w m; y = t; y1 = y + edit_h m in
      ([(FrameTypeLbl, rect_at BOX_SIDE_PAD y l t), (FrameType, rect_at (15 + l) y (mt_frame_w m) (edit_h m * 10))],
       y1 + BOX_BOTTOM_PAD))"

definition layout_options :: "metrics \<Rightarrow> box" where
  "layout_options m =
     (let t = mt_text_h m; w = BOX_INNER_WIDTH m; l = mt_lbl_w2 m; n = mt_node_w m; row = (\<lambda>i. t + i * (t + 2)); y = row 5 in
      let y1 = y + edit_h m + 2; y2 = y1 + edit_h m + 2 in
      ([(OptW95, rect_at BOX_SIDE_PAD (row 0) w t), (OptLogEnable, rect_at BOX_SIDE_PAD (row 1) w t),
        (OptLogDebug, rect_at BOX_SIDE_PAD (row 2) w t), (OptLogTrace, rect_at BOX_SIDE_PAD (row 3) w t),
        (OptProfile, rect_at BOX_SIDE_PAD (row 4) w t),
        (PacketsLbl, rect_at BOX_SIDE_PAD y l t), (Packets, rect_at (15 + l) y n 300),
        (BytesLbl, rect_at BOX_SIDE_PAD y1 l t), (Bytes, rect_at (15 + l) y1 n 300)], y2 + BOX_BOTTOM_PAD))"

definition layout_group :: "metrics \<Rightarrow> group \<Rightarrow> box" where
  "layout_group m g =
     (case g of BoxEncap \<Rightarrow> layout_encap m | BoxPrimary \<Rightarrow> layout_primary m | BoxNic \<Rightarrow> layout_nic m
      | BoxIpxwrapper \<Rightarrow> layout_ipxwrapper m | BoxDosbox \<Rightarrow> layout_dosbox m | BoxIpx \<Rightarrow> layout_ipx m | BoxOptions \<Rightarrow> layout_options m)"

definition init_boxes :: "metrics \<Rightarrow> group \<Rightarrow> rect" where
  "init_boxes m g = rect_at BOX_SIDE_MARGIN 0 (BOX_WIDTH m) (snd (layout_group m g))"

text \<open>
  The groups that are shown are put below each other, the buttons below them, and the window is made as
  high as that: \<open>pad\<close> is the size of its frame. The result: the boxes, the three buttons, the window.
\<close>

fun stack_groups :: "(group \<Rightarrow> rect) \<Rightarrow> group list \<Rightarrow> int \<Rightarrow> (group \<Rightarrow> rect) \<times> int" where
  "stack_groups boxes [] y = (boxes, y)"
| "stack_groups boxes (g # gs) y = stack_groups (boxes(g := (boxes g)\<lparr>ry := y\<rparr>)) gs (y + rh (boxes g))"

definition BTN_PAD :: int where "BTN_PAD = 6"

definition main_window_layout :: "int \<times> int \<Rightarrow> group list \<Rightarrow> (group \<Rightarrow> rect) \<Rightarrow> rect \<Rightarrow> (group \<Rightarrow> rect) \<times> rect list \<times> rect" where
  "main_window_layout pad groups boxes window =
     (let (boxes, y) = stack_groups boxes groups 0;
          width = rw window - fst pad;
          y = y + BTN_PAD; btn_w = 75; btn_h = 23;
          button = (\<lambda>n. rect_at (width - n * btn_w - n * BTN_PAD) y btn_w btn_h);
          y' = y + btn_h + BTN_PAD
      in (boxes, [button 3, button 2, button 1], window\<lparr>rw := width + fst pad, rh := y' + snd pad\<rparr>))"

subsection \<open>Nothing overlaps\<close>

text \<open>What is seen of a control: of a closed box with a list only its field.\<close>

definition shown :: "metrics \<Rightarrow> control \<times> rect \<Rightarrow> rect" where
  "shown m = (\<lambda>(c, r). if c \<in> {Primary, FrameType, Packets, Bytes} then r\<lparr>rh := edit_h m\<rparr> else r)"

definition apart :: "rect \<Rightarrow> rect \<Rightarrow> bool" where
  "apart a b \<longleftrightarrow> rx a + rw a \<le> rx b \<or> rx b + rw b \<le> rx a \<or> ry a + rh a \<le> ry b \<or> ry b + rh b \<le> ry a"

definition box_fits :: "metrics \<Rightarrow> box \<Rightarrow> bool" where
  "box_fits m b \<longleftrightarrow>
     sorted_wrt apart (map (shown m) (fst b)) \<and>
     (\<forall>r\<in>set (map (shown m) (fst b)). mt_text_h m \<le> ry r \<and> ry r + rh r \<le> snd b - BOX_BOTTOM_PAD)"

definition metrics_ok :: "metrics \<Rightarrow> bool" where
  "metrics_ok m \<longleftrightarrow> 0 \<le> mt_edge m \<and> 0 \<le> mt_text_h m"

lemmas box_defs = box_fits_def shown_def apart_def rect_at_def edit_h_def BOX_BOTTOM_PAD_def Let_def

lemma layout_group_fits: "metrics_ok m \<Longrightarrow> box_fits m (layout_group m g)"
  by (cases g)
    (simp_all add: layout_group_def layout_encap_def layout_primary_def layout_nic_def layout_ipxwrapper_def layout_dosbox_def
      layout_ipx_def layout_options_def metrics_ok_def box_defs BOX_SIDE_PAD_def)

lemma layout_group_height: "metrics_ok m \<Longrightarrow> 0 \<le> snd (layout_group m g)"
  by (cases g)
    (simp_all add: layout_group_def layout_encap_def layout_primary_def layout_nic_def layout_ipxwrapper_def layout_dosbox_def
      layout_ipx_def layout_options_def metrics_ok_def edit_h_def BOX_BOTTOM_PAD_def Let_def)

lemma stack_groups_stacked:
  assumes "distinct gs" and "\<And>g. 0 \<le> rh (boxes g)"
  shows "(\<forall>g. g \<notin> set gs \<longrightarrow> fst (stack_groups boxes gs y) g = boxes g) \<and>
    (\<forall>g. (fst (stack_groups boxes gs y) g)\<lparr>ry := 0\<rparr> = (boxes g)\<lparr>ry := 0\<rparr>) \<and>
    sorted_wrt (\<lambda>a b. ry a + rh a \<le> ry b) (map (fst (stack_groups boxes gs y)) gs) \<and>
    (\<forall>g\<in>set gs. y \<le> ry (fst (stack_groups boxes gs y) g) \<and>
       ry (fst (stack_groups boxes gs y) g) + rh (fst (stack_groups boxes gs y) g) \<le> snd (stack_groups boxes gs y)) \<and>
    snd (stack_groups boxes gs y) = y + sum_list (map (rh \<circ> boxes) gs)"
  using assms
proof (induction gs arbitrary: boxes y)
  case (Cons g gs)
  define b where "b = boxes(g := (boxes g)\<lparr>ry := y\<rparr>)"
  have bs: "b g = (boxes g)\<lparr>ry := y\<rparr>" "\<And>x. x \<noteq> g \<Longrightarrow> b x = boxes x" by (simp_all add: b_def)
  let ?s = "stack_groups b gs (y + rh (boxes g))"
  have h: "0 \<le> rh (b x)" for x using Cons.prems(2) by (cases "x = g") (simp_all add: bs)
  have d: "distinct gs" "g \<notin> set gs" using Cons.prems(1) by simp_all
  note I = Cons.IH [of b "y + rh (boxes g)", OF d(1) h]
  note IH = I [THEN conjunct1] I [THEN conjunct2, THEN conjunct1] I [THEN conjunct2, THEN conjunct2, THEN conjunct1]
    I [THEN conjunct2, THEN conjunct2, THEN conjunct2, THEN conjunct1] I [THEN conjunct2, THEN conjunct2, THEN conjunct2, THEN conjunct2]
  have same: "map (rh \<circ> b) gs = map (rh \<circ> boxes) gs" using d(2) bs(2) by (metis (mono_tags, lifting) comp_apply map_eq_conv)
  have nonneg: "0 \<le> sum_list (map (rh \<circ> boxes) gs)" using Cons.prems(2) by (intro sum_list_nonneg) auto
  have g: "fst ?s g = (boxes g)\<lparr>ry := y\<rparr>" using IH(1) d(2) bs(1) by simp
  have out: "fst ?s x = boxes x" if "x \<notin> set (g # gs)" for x using IH(1) that bs(2) by simp
  have keep: "(fst ?s x)\<lparr>ry := 0\<rparr> = (boxes x)\<lparr>ry := 0\<rparr>" for x using IH(2) bs by (cases "x = g") simp_all
  have total: "snd ?s = y + rh (boxes g) + sum_list (map (rh \<circ> boxes) gs)" using IH(5) unfolding same .
  have ins: "y \<le> ry (fst ?s x) \<and> ry (fst ?s x) + rh (fst ?s x) \<le> snd ?s" if "x \<in> set (g # gs)" for x
  proof (cases "x = g")
    case True
    then show ?thesis using g total nonneg by simp
  next
    case False
    then have "x \<in> set gs" using that by simp
    then show ?thesis using IH(4) Cons.prems(2) [of g] by fastforce
  qed
  have step: "stack_groups boxes (g # gs) y = ?s" by (simp add: b_def)
  have first: "\<forall>b\<in>set (map (fst ?s) gs). ry (fst ?s g) + rh (fst ?s g) \<le> ry b" using IH(4) g by auto
  show ?case
    unfolding step using out keep ins total IH(3) first by (simp add: algebra_simps o_def)
qed simp

text \<open>
  In the configuration window no two controls of a group overlap, each is below the title and above the
  lower border of its group, the groups that are shown are below each other in their order, and the
  buttons below all of them and inside the window, whatever the size of a text and of a border.
\<close>

theorem window_layout_fits:
  assumes "metrics_ok m" and "distinct groups"
    and "main_window_layout pad groups (init_boxes m) window = (boxes, buttons, window')"
  shows "(\<forall>g. box_fits m (layout_group m g) \<and> rh (boxes g) = snd (layout_group m g)) \<and>
    sorted_wrt (\<lambda>a b. ry a + rh a \<le> ry b) (map boxes groups) \<and>
    (\<forall>g\<in>set groups. 0 \<le> ry (boxes g) \<and> (\<forall>b\<in>set buttons. ry (boxes g) + rh (boxes g) < ry b)) \<and>
    sorted_wrt apart buttons \<and> (\<forall>b\<in>set buttons. ry b + rh b < rh window' - snd pad) \<and> rw window' = rw window"
proof -
  have h: "0 \<le> rh (init_boxes m g)" for g using layout_group_height [OF assms(1)] by (simp add: init_boxes_def rect_at_def)
  obtain y where y: "stack_groups (init_boxes m) groups 0 = (boxes, y)"
    using assms(3) by (auto simp: main_window_layout_def Let_def split: prod.splits)
  note S = stack_groups_stacked [where boxes = "init_boxes m", OF assms(2) h, where y = 0, unfolded y fst_conv snd_conv]
  have "rh (boxes g) = snd (layout_group m g)" for g
  proof -
    have "rh ((boxes g)\<lparr>ry := 0\<rparr>) = rh ((init_boxes m g)\<lparr>ry := 0\<rparr>)" using S by presburger
    then show ?thesis by (simp add: init_boxes_def rect_at_def)
  qed
  moreover have b: "buttons = map (\<lambda>n. rect_at (rw window - fst pad - n * 75 - n * BTN_PAD) (y + BTN_PAD) 75 23) [3, 2, 1]"
    "rh window' = y + BTN_PAD + 23 + BTN_PAD + snd pad" "rw window' = rw window"
    using assms(3) by (auto simp: main_window_layout_def y Let_def)
  have "sorted_wrt apart buttons" by (simp add: b(1) apart_def rect_at_def BTN_PAD_def)
  moreover have "ry (boxes g) + rh (boxes g) < ry b" if "g \<in> set groups" "b \<in> set buttons" for g b
  proof -
    have "ry (boxes g) + rh (boxes g) \<le> y" using S that(1) by blast
    moreover have "ry b = y + 6" using that(2) by (auto simp: b(1) rect_at_def BTN_PAD_def)
    ultimately show ?thesis by simp
  qed
  moreover have "ry b + rh b < rh window' - snd pad" if "b \<in> set buttons" for b
    using that by (auto simp: b(1,2) rect_at_def BTN_PAD_def)
  ultimately show ?thesis using S layout_group_fits [OF assms(1)] b(3) by blast
qed

lemma window_layout_fits_witness:
  "let m = \<lparr>mt_width = 400, mt_edge = 2, mt_text_h = 13, mt_lbl_w = 90, mt_lbl_w2 = 140, mt_port_w = 54, mt_node_w = 150, mt_frame_w = 120\<rparr>;
       r = main_window_layout (6, 32) [BoxEncap, BoxDosbox, BoxOptions] (init_boxes m) (rect_at 0 0 406 445)
   in sorted_wrt (\<lambda>a b. ry a + rh a \<le> ry b) (map (fst r) [BoxEncap, BoxDosbox, BoxOptions]) \<and> rw (snd (snd r)) = 406"
proof -
  let ?m = "\<lparr>mt_width = 400, mt_edge = 2, mt_text_h = 13, mt_lbl_w = 90, mt_lbl_w2 = 140, mt_port_w = 54, mt_node_w = 150, mt_frame_w = 120\<rparr>"
  let ?gs = "[BoxEncap, BoxDosbox, BoxOptions]"
  obtain boxes buttons window' where r: "main_window_layout (6, 32) ?gs (init_boxes ?m) (rect_at 0 0 406 445) = (boxes, buttons, window')"
    by (metis prod.exhaust)
  have m: "metrics_ok ?m" and d: "distinct ?gs" by (simp_all add: metrics_ok_def)
  have "sorted_wrt (\<lambda>a b. ry a + rh a \<le> ry b) (map boxes ?gs) \<and> rw window' = rw (rect_at 0 0 406 445)"
    using window_layout_fits [OF m d r] by blast
  then show ?thesis unfolding Let_def r fst_conv snd_conv by (simp only: rect_at_def rect.simps)
qed

end
