(* ===== verification/Logging.thy ===== *)
theory Logging
  imports Addr
begin

text \<open>
  The log (log.c): any number of threads, in any number of programs that use the library, append to the
  same file. Every call of \<open>log_printf\<close> goes through the program counters below; a step is one call of the
  system, whose outcome is given with it. \<open>None\<close> is a step that has to wait.
\<close>

subsection \<open>A line\<close>

text \<open>What a call is given, with the text \<open>vsnprintf\<close> makes of it, and what it reads at its start.\<close>

record log_call =
  lc_level :: u32
  lc_text :: string
  lc_ticks :: u32
  lc_thread :: u32

definition dec2 :: "nat \<Rightarrow> string" where
  "dec2 n = (if n < 10 then ''0'' @ dec_string n else dec_string n)"

definition log_stamp :: "log_call \<Rightarrow> string" where
  "log_stamp c =
     take 63 (''['' @ dec_string (unat (lc_ticks c div 1000)) @ ''.'' @ dec2 (unat (lc_ticks c mod 1000 div 10)) @
       '', thread '' @ dec_string (unat (lc_thread c)) @ ''] '')"

definition log_parts :: "log_call \<Rightarrow> string list" where
  "log_parts c = [log_stamp c, take 1023 (lc_text c), [CHR 0x0D, CHR 0x0A]]"

subsection \<open>State\<close>

text \<open>
  Where a call is: at the mutex, at the file, at its lock, writing (with the outcome of the writes so
  far), and on its way out. The writes of a call are numbered by the length of that list.
\<close>

datatype log_pc =
    LIdle
  | LEntered log_call
  | LOpened log_call
  | LLocked log_call
  | LWriting log_call "bool list"
  | LUnlocking log_call "bool list"
  | LLeaving

text \<open>
  The mutex, the handle and its file pointer belong to a program (more exactly, to one of the DLLs in it that
  contain this code), the file and the lock on it to the system.
\<close>

type_synonym tid = nat
type_synonym pid = nat

record logger =
  lg_pc :: "tid \<Rightarrow> log_pc"
  lg_mutex :: "pid \<Rightarrow> tid option"
  lg_fh :: "pid \<Rightarrow> bool"
  lg_pos :: "pid \<Rightarrow> nat"
  lg_lock :: "tid option"
  lg_file :: string

datatype log_choice = LCall log_call | LOk | LFail

definition write_at :: "string \<Rightarrow> nat \<Rightarrow> string \<Rightarrow> string" where
  "write_at file pos text =
     (let file = file @ replicate (pos - length file) (CHR 0x00)
      in take pos file @ text @ drop (pos + length text) file)"

definition goto :: "tid \<Rightarrow> log_pc \<Rightarrow> logger \<Rightarrow> logger" where
  "goto t pc s = s\<lparr>lg_pc := (lg_pc s)(t := pc)\<rparr>"

subsection \<open>Steps\<close>

definition log_enter :: "u32 \<Rightarrow> (tid \<Rightarrow> pid) \<Rightarrow> tid \<Rightarrow> log_call \<Rightarrow> logger \<Rightarrow> logger option" where
  "log_enter min_level proc t c s =
     (if lc_level c < min_level then Some s
      else if lg_mutex s (proc t) \<noteq> None then None
      else Some (goto t (LEntered c) (s\<lparr>lg_mutex := (lg_mutex s)(proc t \<mapsto> t)\<rparr>)))"

text \<open>\<open>log_open\<close>: a new handle starts at the beginning of the file; without one there is nothing to write to.\<close>

definition log_open :: "pid \<Rightarrow> bool \<Rightarrow> logger \<Rightarrow> logger" where
  "log_open p ok s = (if ok then s\<lparr>lg_fh := (lg_fh s)(p := True), lg_pos := (lg_pos s)(p := 0)\<rparr> else s)"

definition log_opened :: "(tid \<Rightarrow> pid) \<Rightarrow> tid \<Rightarrow> log_call \<Rightarrow> bool \<Rightarrow> logger \<Rightarrow> logger" where
  "log_opened proc t c ok s =
     (let s = (if lg_fh s (proc t) then s else log_open (proc t) ok s)
      in goto t (if lg_fh s (proc t) then LOpened c else LLeaving) s)"

definition log_lock_file :: "tid \<Rightarrow> log_call \<Rightarrow> bool \<Rightarrow> logger \<Rightarrow> logger option" where
  "log_lock_file t c ok s =
     (if \<not> ok then Some (goto t LLeaving s)
      else if lg_lock s \<noteq> None then None
      else Some (goto t (LLocked c) (s\<lparr>lg_lock := Some t\<rparr>)))"

definition log_seek :: "(tid \<Rightarrow> pid) \<Rightarrow> tid \<Rightarrow> log_call \<Rightarrow> bool \<Rightarrow> logger \<Rightarrow> logger" where
  "log_seek proc t c ok s =
     (if ok then goto t (LWriting c []) (s\<lparr>lg_pos := (lg_pos s)(proc t := length (lg_file s))\<rparr>)
      else goto t (LUnlocking c []) s)"

text \<open>One \<open>WriteFile\<close>, whose result is not looked at.\<close>

definition log_write :: "(tid \<Rightarrow> pid) \<Rightarrow> tid \<Rightarrow> log_call \<Rightarrow> bool list \<Rightarrow> bool \<Rightarrow> logger \<Rightarrow> logger" where
  "log_write proc t c oks ok s =
     (let text = log_parts c ! length oks; pos = lg_pos s (proc t);
          s = (if ok then s\<lparr>lg_file := write_at (lg_file s) pos text, lg_pos := (lg_pos s)(proc t := pos + length text)\<rparr> else s);
          oks = oks @ [ok]
      in goto t (if length oks = 3 then LUnlocking c oks else LWriting c oks) s)"

definition log_step :: "u32 \<Rightarrow> (tid \<Rightarrow> pid) \<Rightarrow> tid \<Rightarrow> log_choice \<Rightarrow> logger \<Rightarrow> logger option" where
  "log_step min_level proc t choice s =
     (let ok = (choice = LOk) in
      case lg_pc s t of
        LIdle \<Rightarrow> (case choice of LCall c \<Rightarrow> log_enter min_level proc t c s | _ \<Rightarrow> Some s)
      | LEntered c \<Rightarrow> Some (log_opened proc t c ok s)
      | LOpened c \<Rightarrow> log_lock_file t c ok s
      | LLocked c \<Rightarrow> Some (log_seek proc t c ok s)
      | LWriting c oks \<Rightarrow> Some (log_write proc t c oks ok s)
      | LUnlocking c oks \<Rightarrow> Some (goto t LLeaving (s\<lparr>lg_lock := None\<rparr>))
      | LLeaving \<Rightarrow> Some (goto t LIdle (s\<lparr>lg_mutex := (lg_mutex s)(proc t := None)\<rparr>)))"

text \<open>The file at the start and no call in progress.\<close>

definition log_start :: "string \<Rightarrow> logger" where
  "log_start base =
     \<lparr>lg_pc = \<lambda>_. LIdle, lg_mutex = \<lambda>_. None, lg_fh = \<lambda>_. False, lg_pos = \<lambda>_. 0, lg_lock = None, lg_file = base\<rparr>"

text \<open>The runs, with the calls that have given up the file, in that order, and the outcome of their writes.\<close>

definition log_done :: "logger \<Rightarrow> tid \<Rightarrow> (log_call \<times> bool list) list" where
  "log_done s t = (case lg_pc s t of LUnlocking c oks \<Rightarrow> [(c, oks)] | _ \<Rightarrow> [])"

inductive log_run :: "u32 \<Rightarrow> (tid \<Rightarrow> pid) \<Rightarrow> string \<Rightarrow> logger \<Rightarrow> (log_call \<times> bool list) list \<Rightarrow> bool"
  for min_level proc base where
  start: "log_run min_level proc base (log_start base) []"
| step: "log_run min_level proc base s calls \<Longrightarrow> log_step min_level proc t choice s = Some s' \<Longrightarrow>
    log_run min_level proc base s' (calls @ log_done s t)"

text \<open>Runs given by the thread and the outcome of every step.\<close>

primrec log_exec :: "u32 \<Rightarrow> (tid \<Rightarrow> pid) \<Rightarrow> (tid \<times> log_choice) list \<Rightarrow> logger \<Rightarrow> (logger \<times> (log_call \<times> bool list) list) option" where
  "log_exec min_level proc [] s = Some (s, [])"
| "log_exec min_level proc (x # xs) s =
     (case x of (t, choice) \<Rightarrow>
        case log_step min_level proc t choice s of None \<Rightarrow> None
        | Some s' \<Rightarrow> map_option (\<lambda>(s'', calls). (s'', log_done s t @ calls)) (log_exec min_level proc xs s'))"

lemma log_exec_run:
  "log_exec min_level proc xs s = Some (s', calls) \<Longrightarrow> log_run min_level proc base s before \<Longrightarrow> log_run min_level proc base s' (before @ calls)"
proof (induction xs arbitrary: s before calls)
  case (Cons x xs)
  then obtain t choice u more where u: "x = (t, choice)" "log_step min_level proc t choice s = Some u"
    "log_exec min_level proc xs u = Some (s', more)" "calls = log_done s t @ more"
    by (cases x) (auto split: option.splits)
  from Cons.IH [OF u(3) log_run.step [OF Cons.prems(2) u(2)]] u(4) show ?case by simp
qed simp

subsection \<open>Every line is whole\<close>

text \<open>What a call has written when its writes had the outcomes \<open>oks\<close>.\<close>

definition log_entry :: "log_call \<times> bool list \<Rightarrow> string" where
  "log_entry = (\<lambda>(c, oks). concat (map fst (filter snd (zip (log_parts c) oks))))"

definition in_file :: "log_pc \<Rightarrow> bool" where
  "in_file pc \<longleftrightarrow> (case pc of LLocked c \<Rightarrow> True | LWriting c oks \<Rightarrow> True | LUnlocking c oks \<Rightarrow> True | _ \<Rightarrow> False)"

definition written :: "log_pc \<Rightarrow> string" where
  "written pc = (case pc of LWriting c oks \<Rightarrow> log_entry (c, oks) | LUnlocking c oks \<Rightarrow> log_entry (c, oks) | _ \<Rightarrow> [])"

definition pc_ok :: "u32 \<Rightarrow> log_pc \<Rightarrow> bool" where
  "pc_ok min_level pc \<longleftrightarrow>
     (case pc of
        LIdle \<Rightarrow> True | LLeaving \<Rightarrow> True
      | LEntered c \<Rightarrow> min_level \<le> lc_level c
      | LOpened c \<Rightarrow> min_level \<le> lc_level c
      | LLocked c \<Rightarrow> min_level \<le> lc_level c
      | LWriting c oks \<Rightarrow> min_level \<le> lc_level c \<and> length oks < 3
      | LUnlocking c oks \<Rightarrow> min_level \<le> lc_level c \<and> length oks \<le> 3)"

text \<open>
  Inside a call its thread has the mutex of its program, in the file also the lock on it; the one that is
  writing has its file pointer at the end, and only its own text is after that of the calls that are done.
\<close>

definition log_inv :: "u32 \<Rightarrow> (tid \<Rightarrow> pid) \<Rightarrow> string \<Rightarrow> logger \<Rightarrow> (log_call \<times> bool list) list \<Rightarrow> bool" where
  "log_inv min_level proc base s calls \<longleftrightarrow>
     (\<forall>t. lg_pc s t \<noteq> LIdle \<longleftrightarrow> lg_mutex s (proc t) = Some t) \<and>
     (\<forall>t. in_file (lg_pc s t) \<longleftrightarrow> lg_lock s = Some t) \<and>
     (\<forall>t. pc_ok min_level (lg_pc s t)) \<and>
     (\<forall>t c oks. lg_pc s t = LWriting c oks \<longrightarrow> lg_pos s (proc t) = length (lg_file s)) \<and>
     lg_file s = base @ concat (map log_entry calls) @ (case lg_lock s of None \<Rightarrow> [] | Some t \<Rightarrow> written (lg_pc s t)) \<and>
     (\<forall>(c, oks)\<in>set calls. min_level \<le> lc_level c)"

lemma log_invD:
  assumes "log_inv min_level proc base s calls"
  shows "lg_pc s t \<noteq> LIdle \<longleftrightarrow> lg_mutex s (proc t) = Some t" and "in_file (lg_pc s t) \<longleftrightarrow> lg_lock s = Some t"
    and "pc_ok min_level (lg_pc s t)" and "lg_pc s t = LWriting c oks \<Longrightarrow> lg_pos s (proc t) = length (lg_file s)"
    and "lg_file s = base @ concat (map log_entry calls) @ (case lg_lock s of None \<Rightarrow> [] | Some t \<Rightarrow> written (lg_pc s t))"
    and "(c, oks) \<in> set calls \<Longrightarrow> min_level \<le> lc_level c"
  using assms unfolding log_inv_def by blast+

lemma goto_simps [simp]:
  "lg_pc (goto t pc s) u = (if u = t then pc else lg_pc s u)" "lg_mutex (goto t pc s) = lg_mutex s" "lg_fh (goto t pc s) = lg_fh s"
  "lg_pos (goto t pc s) = lg_pos s" "lg_lock (goto t pc s) = lg_lock s" "lg_file (goto t pc s) = lg_file s"
  by (simp_all add: goto_def)

lemma log_entry_snoc:
  "length oks < 3 \<Longrightarrow> log_entry (c, oks @ [ok]) = log_entry (c, oks) @ (if ok then log_parts c ! length oks else [])"
  by (auto simp: numeral_3_eq_3 less_Suc_eq length_Suc_conv log_entry_def log_parts_def)

lemma write_at_end: "write_at f (length f) text = f @ text"
  by (simp add: write_at_def)

text \<open>A step moves one thread; the others keep what the invariant says of them.\<close>

lemma log_inv_goto:
  assumes inv: "log_inv min_level proc base s calls" and pc: "pc_ok min_level pc"
    and mutex: "lg_mutex s' = (lg_mutex s)(proc t := (if pc = LIdle then None else Some t))"
    and lock: "lg_lock s' = (if in_file pc then Some t else if in_file (lg_pc s t) then None else lg_lock s)"
    and mine: "lg_pc s t \<noteq> LIdle \<or> lg_mutex s (proc t) = None" and free: "in_file pc \<Longrightarrow> in_file (lg_pc s t) \<or> lg_lock s = None"
    and pos: "\<And>u. proc u \<noteq> proc t \<Longrightarrow> lg_pos s' (proc u) = lg_pos s (proc u)"
    and own: "\<And>c oks. pc = LWriting c oks \<Longrightarrow> lg_pos s' (proc t) = length (lg_file s')"
    and content: "lg_file s' = base @ concat (map log_entry calls') @ (if in_file pc then written pc else case lg_lock s' of None \<Rightarrow> [] | Some u \<Rightarrow> written (lg_pc s u))"
    and same: "in_file (lg_pc s t) \<or> lg_file s' = lg_file s"
    and pcs: "lg_pc s' = (lg_pc s)(t := pc)"
    and calls: "\<forall>(c, oks)\<in>set calls'. min_level \<le> lc_level c"
  shows "log_inv min_level proc base s' calls'"
proof -
  note I = log_invD [OF inv]
  have other: "u \<noteq> t \<Longrightarrow> lg_pc s u \<noteq> LIdle \<Longrightarrow> proc u \<noteq> proc t" for u
    using I(1) [of u] I(1) [of t] mine by (metis option.inject option.distinct(1))
  have m: "lg_pc s' u \<noteq> LIdle \<longleftrightarrow> lg_mutex s' (proc u) = Some u" for u
    using I(1) [of u] other [of u] by (auto simp: mutex pcs)
  have l: "in_file (lg_pc s' u) \<longleftrightarrow> lg_lock s' = Some u" for u
    using I(2) [of u] I(2) [of t] free by (auto simp: lock pcs)
  have w: "lg_pos s' (proc u) = length (lg_file s')" if "lg_pc s' u = LWriting c oks" for u c oks
  proof (cases "u = t")
    case True
    then show ?thesis using own that by (simp add: pcs)
  next
    case False
    then have u: "lg_pc s u = LWriting c oks" using that by (simp add: pcs)
    then have "lg_lock s = Some u" using I(2) [of u] by (simp add: in_file_def)
    then have "\<not> in_file (lg_pc s t)" using I(2) [of t] False by simp
    with same have "lg_file s' = lg_file s" by simp
    moreover have "proc u \<noteq> proc t" using other [OF False] u by simp
    ultimately show ?thesis using I(4) [OF u] pos by simp
  qed
  have "(case lg_lock s' of None \<Rightarrow> [] | Some u \<Rightarrow> written (lg_pc s' u)) =
      (if in_file pc then written pc else case lg_lock s' of None \<Rightarrow> [] | Some u \<Rightarrow> written (lg_pc s u))"
    using I(2) [of t] by (auto simp: lock pcs split: option.split)
  with content have f: "lg_file s' = base @ concat (map log_entry calls') @ (case lg_lock s' of None \<Rightarrow> [] | Some u \<Rightarrow> written (lg_pc s' u))"
    by simp
  have "pc_ok min_level (lg_pc s' u)" for u using I(3) [of u] pc by (simp add: pcs)
  with m l w f calls show ?thesis unfolding log_inv_def by blast
qed

lemma log_inv_entered:
  assumes inv: "log_inv min_level proc base s calls" and step: "log_step min_level proc t choice s = Some s'"
    and LEntered: "lg_pc s t = LEntered c"
  shows "log_inv min_level proc base s' (calls @ log_done s t)"
proof -
  note I = log_invD [OF inv]
  note P = I(3) [of t] and F = I(5) and L = I(2) [of t]
  have calls: "\<forall>(c, oks)\<in>set calls. min_level \<le> lc_level c" using I(6) by blast
  have m: "lg_mutex s (proc t) = Some t" using I(1) [of t] LEntered by simp
  have s': "s' = log_opened proc t c (choice = LOk) s" using step LEntered by (simp add: log_step_def)
  consider "s' = goto t LLeaving s" | u where "s' = goto t (LOpened c) u"
    "lg_pc u = lg_pc s" "lg_mutex u = lg_mutex s" "lg_lock u = lg_lock s" "lg_file u = lg_file s"
    "\<And>p. p \<noteq> proc t \<Longrightarrow> lg_pos u p = lg_pos s p"
  proof (cases "lg_fh s (proc t) \<or> choice = LOk")
    case True
    define u where "u = (if lg_fh s (proc t) then s else log_open (proc t) (choice = LOk) s)"
    have "s' = goto t (LOpened c) u" using True by (auto simp: s' log_opened_def log_open_def u_def)
    then show thesis by (rule that(2)) (auto simp: u_def log_open_def)
  next
    case False
    then show thesis using that(1) by (simp add: s' log_opened_def log_open_def)
  qed
  then show ?thesis
  proof cases
    case 1
    show ?thesis
      by (rule log_inv_goto [OF inv, where t = t and pc = LLeaving])
        (use 1 F P m calls LEntered in \<open>auto simp: pc_ok_def in_file_def log_done_def goto_def\<close>)
  next
    case 2
    show ?thesis
      by (rule log_inv_goto [OF inv, where t = t and pc = "LOpened c"])
        (use 2 F P m calls LEntered in \<open>auto simp: pc_ok_def in_file_def log_done_def goto_def\<close>)
  qed
qed

lemma log_inv_opened:
  assumes inv: "log_inv min_level proc base s calls" and step: "log_step min_level proc t choice s = Some s'"
    and LOpened: "lg_pc s t = LOpened c"
  shows "log_inv min_level proc base s' (calls @ log_done s t)"
proof -
  note I = log_invD [OF inv]
  note P = I(3) [of t] and F = I(5) and L = I(2) [of t]
  have calls: "\<forall>(c, oks)\<in>set calls. min_level \<le> lc_level c" using I(6) by blast
  have m: "lg_mutex s (proc t) = Some t" using I(1) [of t] LOpened by simp
  show ?thesis
  proof (cases "choice = LOk")
    case True
    then have s': "lg_lock s = None" "s' = goto t (LLocked c) (s\<lparr>lg_lock := Some t\<rparr>)"
      using step LOpened by (auto simp: log_step_def log_lock_file_def split: if_splits)
    show ?thesis
      by (rule log_inv_goto [OF inv, where t = t and pc = "LLocked c"])
        (use s' F P m calls LOpened in \<open>auto simp: pc_ok_def in_file_def log_done_def written_def goto_def\<close>)
  next
    case False
    then have s': "s' = goto t LLeaving s" using step LOpened by (auto simp: log_step_def log_lock_file_def)
    show ?thesis
      by (rule log_inv_goto [OF inv, where t = t and pc = LLeaving])
        (use s' F P m calls LOpened in \<open>auto simp: pc_ok_def in_file_def log_done_def goto_def\<close>)
  qed
qed

lemma log_inv_locked:
  assumes inv: "log_inv min_level proc base s calls" and step: "log_step min_level proc t choice s = Some s'"
    and LLocked: "lg_pc s t = LLocked c"
  shows "log_inv min_level proc base s' (calls @ log_done s t)"
proof -
  note I = log_invD [OF inv]
  note P = I(3) [of t] and F = I(5) and L = I(2) [of t]
  have calls: "\<forall>(c, oks)\<in>set calls. min_level \<le> lc_level c" using I(6) by blast
  have m: "lg_mutex s (proc t) = Some t" "lg_lock s = Some t" using I(1) [of t] L LLocked by (simp_all add: in_file_def)
  have s': "s' = log_seek proc t c (choice = LOk) s" using step LLocked by (simp add: log_step_def)
  show ?thesis
    by (rule log_inv_goto [OF inv, where t = t and pc = "if choice = LOk then LWriting c [] else LUnlocking c []"])
      (use s' F P m calls LLocked in \<open>auto simp: pc_ok_def in_file_def log_done_def written_def log_entry_def log_seek_def goto_def split: if_splits\<close>)
qed

lemma log_inv_writing:
  assumes inv: "log_inv min_level proc base s calls" and step: "log_step min_level proc t choice s = Some s'"
    and LWriting: "lg_pc s t = LWriting c oks"
  shows "log_inv min_level proc base s' (calls @ log_done s t)"
proof -
  note I = log_invD [OF inv]
  note P = I(3) [of t] and F = I(5) and L = I(2) [of t]
  have calls: "\<forall>(c, oks)\<in>set calls. min_level \<le> lc_level c" using I(6) by blast
  have m: "lg_mutex s (proc t) = Some t" "lg_lock s = Some t" using I(1) [of t] L LWriting by (simp_all add: in_file_def)
  have n: "length oks < 3" "min_level \<le> lc_level c" using P LWriting by (simp_all add: pc_ok_def)
  let ?oks = "oks @ [choice = LOk]"
  have s': "s' = log_write proc t c oks (choice = LOk) s" using step LWriting by (simp add: log_step_def)
  have f: "lg_file s = base @ concat (map log_entry calls) @ log_entry (c, oks)" using F m LWriting by (simp add: written_def)
  have "lg_file s' = lg_file s @ (if choice = LOk then log_parts c ! length oks else [])"
    by (simp add: s' log_write_def Let_def I(4) [OF LWriting] write_at_end)
  then have e: "lg_file s' = base @ concat (map log_entry calls) @ log_entry (c, ?oks)"
    unfolding f log_entry_snoc [OF n(1)] by simp
  let ?pc = "if length ?oks = 3 then LUnlocking c ?oks else LWriting c ?oks"
  have s2: "lg_pos s' (proc t) = length (lg_file s')" "lg_pc s' = (lg_pc s)(t := ?pc)" "lg_mutex s' = lg_mutex s" "lg_lock s' = lg_lock s"
    "\<And>p. p \<noteq> proc t \<Longrightarrow> lg_pos s' p = lg_pos s p"
    by (simp_all add: s' log_write_def Let_def I(4) [OF LWriting] write_at_end goto_def)
  have pc: "in_file ?pc" "pc_ok min_level ?pc" "written ?pc = log_entry (c, ?oks)" "?pc \<noteq> LIdle" "in_file (lg_pc s t)"
    using n LWriting by (auto simp: in_file_def pc_ok_def written_def)
  show ?thesis
    by (rule log_inv_goto [OF inv, where t = t and pc = ?pc], unfold s2 e)
      (use pc n m calls LWriting in \<open>auto simp: log_done_def e [symmetric] s2(1)\<close>)
qed

lemma log_inv_step:
  assumes inv: "log_inv min_level proc base s calls" and step: "log_step min_level proc t choice s = Some s'"
  shows "log_inv min_level proc base s' (calls @ log_done s t)"
proof -
  note I = log_invD [OF inv]
  note P = I(3) [of t] and F = I(5) and L = I(2) [of t]
  have calls: "\<forall>(c, oks)\<in>set calls. min_level \<le> lc_level c" using I(6) by blast
  show ?thesis
  proof (cases "lg_pc s t")
    case LIdle
    show ?thesis
    proof (cases "s' = s")
      case True
      then show ?thesis using inv LIdle by (simp add: log_done_def)
    next
      case False
      then obtain c where c: "min_level \<le> lc_level c" "lg_mutex s (proc t) = None"
          "s' = goto t (LEntered c) (s\<lparr>lg_mutex := (lg_mutex s)(proc t \<mapsto> t)\<rparr>)"
        using step LIdle by (auto simp: log_step_def log_enter_def Let_def not_less split: log_choice.splits if_splits)
      show ?thesis
        by (rule log_inv_goto [OF inv, where t = t and pc = "LEntered c"])
          (use c F calls LIdle in \<open>auto simp: pc_ok_def in_file_def log_done_def goto_def\<close>)
    qed
  next
    case (LEntered c)
    then show ?thesis by (rule log_inv_entered [OF inv step])
  next
    case (LOpened c)
    then show ?thesis by (rule log_inv_opened [OF inv step])
  next
    case (LLocked c)
    then show ?thesis by (rule log_inv_locked [OF inv step])
  next
    case (LWriting c oks)
    then show ?thesis by (rule log_inv_writing [OF inv step])
  next
    case (LUnlocking c oks)
    have m: "lg_mutex s (proc t) = Some t" "lg_lock s = Some t" using I(1) [of t] L LUnlocking by (simp_all add: in_file_def)
    have s': "s' = goto t LLeaving (s\<lparr>lg_lock := None\<rparr>)" using step LUnlocking by (simp add: log_step_def)
    show ?thesis
      by (rule log_inv_goto [OF inv, where t = t and pc = LLeaving])
        (use s' F P m calls LUnlocking in \<open>auto simp: pc_ok_def in_file_def log_done_def written_def goto_def\<close>)
  next
    case LLeaving
    have m: "lg_mutex s (proc t) = Some t" using I(1) [of t] LLeaving by simp
    have s': "s' = goto t LIdle (s\<lparr>lg_mutex := (lg_mutex s)(proc t := None)\<rparr>)" using step LLeaving by (simp add: log_step_def)
    show ?thesis
      by (rule log_inv_goto [OF inv, where t = t and pc = LIdle])
        (use s' F P m calls LLeaving in \<open>auto simp: pc_ok_def in_file_def log_done_def goto_def\<close>)
  qed
qed

lemma log_run_inv: "log_run min_level proc base s calls \<Longrightarrow> log_inv min_level proc base s calls"
proof (induction rule: log_run.induct)
  case start
  then show ?case by (simp add: log_inv_def log_start_def in_file_def pc_ok_def)
next
  case (step s calls t choice s')
  from log_inv_step [OF step.IH step.hyps(2)] show ?case .
qed

text \<open>
  C20. However the threads of all the programs interleave and whatever calls of the system fail, the log is
  what it was followed by the lines of the calls, each in one piece, in the order in which they had the
  file, and at its end what the one call that has the file has written. Only calls at or above the log
  level leave a line, and one whose writes succeed leaves its time stamp, its message cut to 1,023
  characters and an end of line.
\<close>

theorem log_lines_whole:
  assumes "log_run min_level proc base s calls"
  shows "\<exists>rest. lg_file s = base @ concat (map log_entry calls) @ rest \<and> (lg_lock s = None \<longrightarrow> rest = []) \<and>
    (\<forall>t. lg_lock s = Some t \<longrightarrow> lg_mutex s (proc t) = Some t \<and> rest = written (lg_pc s t)) \<and>
    (\<forall>(c, oks)\<in>set calls. min_level \<le> lc_level c \<and>
       (oks = [True, True, True] \<longrightarrow> log_entry (c, oks) = log_stamp c @ take 1023 (lc_text c) @ [CHR 0x0D, CHR 0x0A]))"
proof -
  note I = log_invD [OF log_run_inv [OF assms]]
  let ?rest = "case lg_lock s of None \<Rightarrow> [] | Some t \<Rightarrow> written (lg_pc s t)"
  have "lg_mutex s (proc t) = Some t" if "lg_lock s = Some t" for t
    using that I(2) [of t] I(1) [of t] by (auto simp: in_file_def split: log_pc.splits)
  moreover have "log_entry (c, [True, True, True]) = log_stamp c @ take 1023 (lc_text c) @ [CHR 0x0D, CHR 0x0A]" for c
    by (simp add: log_entry_def log_parts_def)
  ultimately show ?thesis using I(5,6) by (intro exI [of _ ?rest]) auto
qed

text \<open>How many steps a call still needs; at most eight.\<close>

definition remaining :: "log_pc \<Rightarrow> nat" where
  "remaining pc =
     (case pc of LIdle \<Rightarrow> 0 | LLeaving \<Rightarrow> 1 | LUnlocking c oks \<Rightarrow> 2 | LWriting c oks \<Rightarrow> 5 - length oks | LLocked c \<Rightarrow> 6
      | LOpened c \<Rightarrow> 7 | LEntered c \<Rightarrow> 8)"

text \<open>
  C21. Calls of the log never wait for each other for ever: as long as any thread is in \<open>log_printf\<close>, one that
  is can take its next step, whatever the system answers, and this brings it nearer to its end, of which
  it is at most eight steps away.
\<close>

theorem log_never_stuck:
  assumes "log_run min_level proc base s calls" and "lg_pc s t \<noteq> LIdle"
  shows "\<exists>u. lg_pc s u \<noteq> LIdle \<and> remaining (lg_pc s u) \<le> 8 \<and>
    (\<forall>choice. \<exists>s'. log_step min_level proc u choice s = Some s' \<and> remaining (lg_pc s' u) < remaining (lg_pc s u))"
proof -
  note inv = log_run_inv [OF assms(1)]
  define u where "u = (case lg_lock s of None \<Rightarrow> t | Some u \<Rightarrow> u)"
  have inside: "lg_pc s u \<noteq> LIdle" and free: "\<And>c. lg_pc s u = LOpened c \<Longrightarrow> lg_lock s = None"
    using assms(2) log_invD(2) [OF inv, of u] by (auto simp: u_def in_file_def split: option.splits log_pc.splits)
  have "\<exists>s'. log_step min_level proc u choice s = Some s' \<and> remaining (lg_pc s' u) < remaining (lg_pc s u)" for choice
    using inside free log_invD(3) [OF inv, of u]
    by (cases "lg_pc s u")
      (auto simp: log_step_def log_opened_def log_lock_file_def log_seek_def log_write_def remaining_def pc_ok_def Let_def)
  moreover have "remaining pc \<le> 8" for pc by (cases pc) (simp_all add: remaining_def)
  ultimately show ?thesis using inside by blast
qed

text \<open>Two threads of two programs, the second of which gets the file first.\<close>

definition sample_call :: "string \<Rightarrow> log_call" where
  "sample_call text = \<lparr>lc_level = 4, lc_text = text, lc_ticks = 12345, lc_thread = 7\<rparr>"

definition sample_schedule :: "(tid \<times> log_choice) list" where
  "sample_schedule =
     [(0, LCall (sample_call ''one'')), (1, LCall (sample_call ''two'')), (0, LOk), (1, LOk), (1, LOk), (1, LOk), (1, LOk), (1, LOk),
      (1, LOk), (1, LOk), (0, LOk), (0, LOk), (0, LOk)]"

lemma sample_schedule_runs:
  "\<exists>s. log_exec 4 id sample_schedule (log_start ''old.'') = Some (s, [(sample_call ''two'', [True, True, True])]) \<and>
    lg_lock s = Some 0 \<and> lg_pc s 0 = LWriting (sample_call ''one'') [True]"
  by (simp add: sample_schedule_def log_start_def log_step_def log_enter_def log_opened_def log_open_def log_lock_file_def log_seek_def
      log_write_def goto_def log_done_def Let_def sample_call_def)

lemma log_lines_whole_witness:
  "\<exists>s rest. log_exec 4 id sample_schedule (log_start ''old.'') = Some (s, [(sample_call ''two'', [True, True, True])]) \<and>
    lg_file s = ''old.'' @ log_entry (sample_call ''two'', [True, True, True]) @ rest"
proof -
  obtain s where s: "log_exec 4 id sample_schedule (log_start ''old.'') = Some (s, [(sample_call ''two'', [True, True, True])])"
    using sample_schedule_runs by blast
  have "log_run 4 id ''old.'' s ([] @ [(sample_call ''two'', [True, True, True])])" by (rule log_exec_run [OF s log_run.start])
  from log_lines_whole [OF this] s show ?thesis by auto
qed

lemma log_never_stuck_witness:
  "\<exists>s u. log_exec 4 id sample_schedule (log_start ''old.'') = Some (s, [(sample_call ''two'', [True, True, True])]) \<and>
    lg_pc s u \<noteq> LIdle \<and> (\<exists>s'. log_step 4 id u LFail s = Some s')"
proof -
  obtain s where s: "log_exec 4 id sample_schedule (log_start ''old.'') = Some (s, [(sample_call ''two'', [True, True, True])])"
      "lg_pc s 0 = LWriting (sample_call ''one'') [True]"
    using sample_schedule_runs by blast
  have "log_run 4 id ''old.'' s ([] @ [(sample_call ''two'', [True, True, True])])" by (rule log_exec_run [OF s(1) log_run.start])
  moreover have "lg_pc s 0 \<noteq> LIdle" using s(2) by simp
  ultimately obtain u where "lg_pc s u \<noteq> LIdle" "\<forall>choice. \<exists>s'. log_step 4 id u choice s = Some s' \<and> remaining (lg_pc s' u) < remaining (lg_pc s u)"
    using log_never_stuck [of 4 id "''old.''" s _ 0] by blast
  with s(1) show ?thesis by blast
qed

end
