(* ===== verification/Profile.thy ===== *)
theory Profile
  imports Modules Config
begin

text \<open>
  The profiler (funcprof.c): the calls of a function and their times, which every stub records and a thread
  reports and clears every ten seconds (\<open>prof_thread_main\<close> in stubdll.c). The floating point numbers are
  any ordered type, with the rounding of the conversion, the sum and the two divisions as a parameter.
\<close>

subsection \<open>The statistics of a function\<close>

record 'f float_ops =
  fl_zero :: 'f
  fl_of_ticks :: "int \<Rightarrow> 'f"
  fl_add :: "'f \<Rightarrow> 'f \<Rightarrow> 'f"
  fl_usec :: "'f \<Rightarrow> 'f"
  fl_avg :: "'f \<Rightarrow> u32 \<Rightarrow> 'f"

record 'f func_stats =
  fs_name :: string
  fs_min :: 'f
  fs_max :: 'f
  fs_total :: 'f
  fs_calls :: u32

definition fprof_init :: "'f float_ops \<Rightarrow> 'f func_stats list \<Rightarrow> 'f func_stats list" where
  "fprof_init fl fstats = map (\<lambda>s. s\<lparr>fs_min := fl_zero fl, fs_max := fl_zero fl, fs_total := fl_zero fl, fs_calls := 0\<rparr>) fstats"

definition this_time :: "'f float_ops \<Rightarrow> u64 \<times> u64 \<Rightarrow> 'f" where
  "this_time fl = (\<lambda>(start, end). fl_of_ticks fl (sint (end - start)))"

definition fprof_record_timed :: "'f::linorder float_ops \<Rightarrow> u64 \<times> u64 \<Rightarrow> 'f func_stats \<Rightarrow> 'f func_stats" where
  "fprof_record_timed fl time s =
     (let t = this_time fl time;
          s = (if fs_calls s = 0 then s\<lparr>fs_min := t, fs_max := t, fs_total := t\<rparr>
               else
                 let s = (if t < fs_min s then s\<lparr>fs_min := t\<rparr> else s);
                     s = (if fs_max s < t then s\<lparr>fs_max := t\<rparr> else s)
                 in s\<lparr>fs_total := fl_add fl (fs_total s) t\<rparr>)
      in s\<lparr>fs_calls := fs_calls s + 1\<rparr>)"

definition fprof_record_untimed :: "'f func_stats \<Rightarrow> 'f func_stats" where
  "fprof_record_untimed s = s\<lparr>fs_calls := fs_calls s + 1\<rparr>"

text \<open>A line of the report: the calls, with their total, shortest, longest and average time when there is one.\<close>

datatype 'f prof_line = ProfLine string u32 "('f \<times> 'f \<times> 'f \<times> 'f) option"

definition report_one :: "'f::linorder float_ops \<Rightarrow> 'f func_stats \<Rightarrow> 'f prof_line list \<times> 'f func_stats" where
  "report_one fl s =
     (let n = fs_calls s in
      (if n > 0 then
         [ProfLine (fs_name s) n
            (if fs_total s > fl_zero fl
             then Some (fl_usec fl (fs_total s), fl_usec fl (fs_min s), fl_usec fl (fs_max s), fl_usec fl (fl_avg fl (fs_total s) n))
             else None)]
       else [],
       s\<lparr>fs_calls := 0\<rparr>))"

definition fprof_report :: "'f::linorder float_ops \<Rightarrow> 'f func_stats list \<Rightarrow> 'f prof_line list \<times> 'f func_stats list" where
  "fprof_report fl fstats = (concat (map (fst \<circ> report_one fl) fstats), map (snd \<circ> report_one fl) fstats)"

text \<open>
  The thread: \<open>waits\<close> tells of each wait whether it timed out, \<open>calls i\<close> what the other threads do meanwhile.
  It ends at the first wait that does not.
\<close>

primrec prof_thread_main ::
  "'f::linorder float_ops \<Rightarrow> (nat \<Rightarrow> 'f func_stats list \<Rightarrow> 'f func_stats list) \<Rightarrow> bool list \<Rightarrow> 'f func_stats list \<Rightarrow>
     'f prof_line list \<times> 'f func_stats list" where
  "prof_thread_main fl calls [] fstats = ([], fstats)"
| "prof_thread_main fl calls (timeout # waits) fstats =
     (let fstats = calls (length waits) fstats in
      if timeout then
        case fprof_report fl fstats of (lines, fstats) \<Rightarrow>
          (case prof_thread_main fl calls waits fstats of (rest, fstats) \<Rightarrow> (lines @ rest, fstats))
      else ([], fstats))"

subsection \<open>The reports are exact\<close>

text \<open>What happens to one function, each event under its critical section.\<close>

datatype prof_event = Timed "u64 \<times> u64" | Untimed | Report

definition prof_step :: "'f::linorder float_ops \<Rightarrow> prof_event \<Rightarrow> 'f func_stats \<Rightarrow> 'f prof_line list \<times> 'f func_stats" where
  "prof_step fl e s =
     (case e of Timed t \<Rightarrow> ([], fprof_record_timed fl t s) | Untimed \<Rightarrow> ([], fprof_record_untimed s) | Report \<Rightarrow> report_one fl s)"

primrec prof_run :: "'f::linorder float_ops \<Rightarrow> prof_event list \<Rightarrow> 'f func_stats \<Rightarrow> 'f prof_line list \<times> 'f func_stats" where
  "prof_run fl [] s = ([], s)"
| "prof_run fl (e # es) s =
     (case prof_step fl e s of (lines, s) \<Rightarrow> case prof_run fl es s of (rest, s) \<Rightarrow> (lines @ rest, s))"

text \<open>The reference: the times between two reports, and the line that is to be written of them.\<close>

primrec batches :: "prof_event list \<Rightarrow> (u64 \<times> u64) list \<Rightarrow> (u64 \<times> u64) list list" where
  "batches [] cur = []"
| "batches (e # es) cur = (case e of Timed t \<Rightarrow> batches es (cur @ [t]) | Untimed \<Rightarrow> batches es cur | Report \<Rightarrow> cur # batches es [])"

definition sum_times :: "'f float_ops \<Rightarrow> 'f list \<Rightarrow> 'f" where
  "sum_times fl ts = foldl (fl_add fl) (hd ts) (tl ts)"

definition batch_lines :: "'f::linorder float_ops \<Rightarrow> string \<Rightarrow> (u64 \<times> u64) list \<Rightarrow> 'f prof_line list" where
  "batch_lines fl name batch =
     (let ts = map (this_time fl) batch; n = of_nat (length ts); total = sum_times fl ts in
      if ts = [] then []
      else [ProfLine name n
              (if total > fl_zero fl
               then Some (fl_usec fl total, fl_usec fl (Min (set ts)), fl_usec fl (Max (set ts)), fl_usec fl (fl_avg fl total n))
               else None)])"

definition stats_of :: "'f::linorder float_ops \<Rightarrow> (u64 \<times> u64) list \<Rightarrow> 'f func_stats \<Rightarrow> bool" where
  "stats_of fl batch s \<longleftrightarrow>
     (let ts = map (this_time fl) batch in
      length ts < 2 ^ 32 \<and> fs_calls s = of_nat (length ts) \<and>
      (ts \<noteq> [] \<longrightarrow> fs_min s = Min (set ts) \<and> fs_max s = Max (set ts) \<and> fs_total s = sum_times fl ts))"

lemma stats_of_calls: "stats_of fl batch s \<Longrightarrow> fs_calls s = 0 \<longleftrightarrow> batch = []"
proof -
  assume s: "stats_of fl batch s"
  then have "unat (fs_calls s) = length batch" by (simp add: stats_of_def Let_def unat_of_nat take_bit_nat_eq_self)
  then show ?thesis by (auto simp: unat_eq_zero)
qed

lemma record_timed_stats:
  assumes "stats_of fl batch s" and "Suc (length batch) < 2 ^ 32"
  shows "stats_of fl (batch @ [t]) (fprof_record_timed fl t s)" and "fs_name (fprof_record_timed fl t s) = fs_name s"
proof -
  show "stats_of fl (batch @ [t]) (fprof_record_timed fl t s)"
  proof (cases "batch = []")
    case True
    then show ?thesis using assms stats_of_calls [OF assms(1)]
      by (simp add: stats_of_def fprof_record_timed_def Let_def sum_times_def)
  next
    case False
    then have n: "fs_calls s \<noteq> 0" using stats_of_calls [OF assms(1)] by simp
    let ?ts = "map (this_time fl) batch" and ?t = "this_time fl t"
    have m: "fs_min s = Min (set ?ts)" "fs_max s = Max (set ?ts)" "fs_total s = sum_times fl ?ts" "fs_calls s = of_nat (length batch)"
      using assms(1) False by (simp_all add: stats_of_def Let_def)
    have "Min (insert ?t (set ?ts)) = min ?t (Min (set ?ts))" "Max (insert ?t (set ?ts)) = max ?t (Max (set ?ts))"
      using False by (simp_all add: Min_insert Max_insert)
    moreover have "sum_times fl (?ts @ [?t]) = fl_add fl (sum_times fl ?ts) ?t" using False by (simp add: sum_times_def)
    ultimately show ?thesis using n m assms(2)
      by (auto simp: stats_of_def fprof_record_timed_def Let_def min_def max_def)
  qed
  show "fs_name (fprof_record_timed fl t s) = fs_name s" by (simp add: fprof_record_timed_def Let_def)
qed

lemma report_one_stats:
  assumes "stats_of fl batch s"
  shows "fst (report_one fl s) = batch_lines fl (fs_name s) batch" and "stats_of fl [] (snd (report_one fl s))"
    and "fs_name (snd (report_one fl s)) = fs_name s"
  using assms stats_of_calls [OF assms]
  by (auto simp: report_one_def batch_lines_def stats_of_def Let_def word_gt_0)

text \<open>
  C22. The reports on a function whose calls are timed lose and repeat nothing: the lines are exactly those
  of the calls between one report and the next, with their number, sum, smallest and largest time, and
  there is no line when there was no call. It must be called less than 2^32 times between two reports.
\<close>

theorem reports_exact:
  assumes "Untimed \<notin> set es" and "length es < 2 ^ 32" and "s \<in> set (fprof_init fl fstats)"
  shows "fst (prof_run fl es s) = concat (map (batch_lines fl (fs_name s)) (batches es []))"
proof -
  have gen: "fst (prof_run fl es s) = concat (map (batch_lines fl (fs_name s)) (batches es batch))"
    if "stats_of fl batch s" "length batch + length es < 2 ^ 32" "Untimed \<notin> set es" for batch es s
    using that
  proof (induction es arbitrary: batch s)
    case (Cons e es)
    show ?case
    proof (cases e)
      case (Timed t)
      have "Suc (length batch) < 2 ^ 32" using Cons.prems(2) by simp
      note r = record_timed_stats [OF Cons.prems(1) this, of t]
      then show ?thesis using Cons.IH [OF r(1)] Cons.prems(2,3) Timed by (simp add: prof_step_def split: prod.split)
    next
      case Untimed
      then show ?thesis using Cons.prems(3) by simp
    next
      case Report
      note r = report_one_stats [OF Cons.prems(1)]
      then show ?thesis using Cons.IH [OF r(2)] Cons.prems(2,3) Report
        by (simp add: prof_step_def split: prod.split) (metis fst_conv snd_conv)
    qed
  qed simp
  have "stats_of fl [] s" using assms(3) by (auto simp: stats_of_def fprof_init_def)
  from gen [OF this _ assms(1)] assms(2) show ?thesis by simp
qed

definition int_float :: "int float_ops" where
  "int_float = \<lparr>fl_zero = 0, fl_of_ticks = \<lambda>t. t, fl_add = (+), fl_usec = \<lambda>t. t div 10, fl_avg = \<lambda>t n. t div uint n\<rparr>"

definition sample_stats :: "int func_stats" where
  "sample_stats = \<lparr>fs_name = ''send'', fs_min = 0, fs_max = 0, fs_total = 0, fs_calls = 0\<rparr>"

lemma reports_exact_witness:
  "fst (prof_run int_float [Timed (0, 90), Timed (100, 130), Report, Report, Timed (5, 25), Report] sample_stats) =
    [ProfLine ''send'' 2 (Some (12, 3, 9, 6)), ProfLine ''send'' 1 (Some (2, 2, 2, 2))]"
proof -
  have s: "sample_stats \<in> set (fprof_init int_float [sample_stats])"
    by (simp add: fprof_init_def sample_stats_def int_float_def)
  show ?thesis
    by (subst reports_exact [OF _ _ s])
      (simp_all add: batch_lines_def sum_times_def this_time_def int_float_def sample_stats_def Let_def)
qed

end
