(* ===== verification/Stubs.thy ===== *)
theory Stubs
  imports Profile "HOL-Library.Monad_Syntax" "HOL-Library.Multiset"
begin

text \<open>
  The stub DLLs (stubdll.c) and the start and end of dpwsockx.dll (\<open>DllMain\<close> of directplay.c): what such a
  DLL gets from the system when it is loaded, what its functions add, and what it gives back. \<open>None\<close> is
  an abort. A handle of 0 is \<open>NULL\<close>. The wait for the thread of the profiler, which the code does without a
  limit, is taken to end.
\<close>

record ('w, 'f) stub_dll =
  sd_reg :: 'w
  sd_stats :: "'f func_stats list"
  sd_log_mutex :: nat
  sd_log_fh :: nat
  sd_min_level :: u32
  sd_profile :: bool
  sd_prof_exit :: nat
  sd_prof_thread :: nat
  sd_dlls :: dll_state
  sd_handles :: "nat list"
  sd_lines :: "'f prof_line list"

text \<open>What the system answers: the ini file and the memory of \<open>get_main_config\<close>, and the handles.\<close>

record stub_sys =
  ss_ini :: "string option"
  ss_mem :: "nat \<Rightarrow> bool"
  ss_malloc :: bool
  ss_strdup :: bool
  ss_mutex :: nat
  ss_event :: nat
  ss_thread :: nat

definition log_init :: "stub_sys \<Rightarrow> ('w, 'f) stub_dll \<Rightarrow> ('w, 'f) stub_dll option" where
  "log_init sys d =
     (if ss_mutex sys = 0 then None
      else Some (d\<lparr>sd_log_mutex := ss_mutex sys, sd_handles := ss_mutex sys # sd_handles d\<rparr>))"

text \<open>The file is opened by the first line that is written; \<open>h\<close> is its handle, 0 when that fails.\<close>

definition open_log :: "nat \<Rightarrow> ('w, 'f) stub_dll \<Rightarrow> ('w, 'f) stub_dll" where
  "open_log h d =
     (if sd_log_fh d = 0 \<and> h \<noteq> 0 then d\<lparr>sd_log_fh := h, sd_handles := h # sd_handles d\<rparr> else d)"

definition close_handle :: "nat \<Rightarrow> ('w, 'f) stub_dll \<Rightarrow> ('w, 'f) stub_dll" where
  "close_handle h d = d\<lparr>sd_handles := remove1 h (sd_handles d)\<rparr>"

definition log_close :: "('w, 'f) stub_dll \<Rightarrow> ('w, 'f) stub_dll" where
  "log_close d =
     (let d = (if sd_log_fh d \<noteq> 0 then (close_handle (sd_log_fh d) d)\<lparr>sd_log_fh := 0\<rparr> else d)
      in if sd_log_mutex d \<noteq> 0 then (close_handle (sd_log_mutex d) d)\<lparr>sd_log_mutex := 0\<rparr> else d)"

text \<open>The first steps of both DLLs.\<close>

definition dll_load ::
  "'f float_ops \<Rightarrow> 'w reg_api \<Rightarrow> stub_sys \<Rightarrow> ('w, 'f) stub_dll \<Rightarrow> (main_config \<times> ('w, 'f) stub_dll) option" where
  "dll_load fl api sys d =
     do {
       d \<leftarrow> log_init sys (d\<lparr>sd_stats := fprof_init fl (sd_stats d)\<rparr>);
       (config, reg) \<leftarrow> get_main_config api (ss_ini sys) (ss_mem sys) (ss_malloc sys) (ss_strdup sys) False (sd_reg d);
       Some (config, d\<lparr>sd_reg := reg, sd_min_level := mc_log_level config\<rparr>)
     }"

definition start_prof :: "stub_sys \<Rightarrow> ('w, 'f) stub_dll \<Rightarrow> ('w, 'f) stub_dll" where
  "start_prof sys d =
     (let d = d\<lparr>sd_profile := True, sd_prof_exit := ss_event sys\<rparr> in
      if ss_event sys = 0 then d
      else
        let d = d\<lparr>sd_handles := ss_event sys # sd_handles d, sd_prof_thread := ss_thread sys\<rparr>
        in if ss_thread sys = 0 then d else d\<lparr>sd_handles := ss_thread sys # sd_handles d\<rparr>)"

definition stub_attach ::
  "'f float_ops \<Rightarrow> 'w reg_api \<Rightarrow> stub_sys \<Rightarrow> ('w, 'f) stub_dll \<Rightarrow> ('w, 'f) stub_dll option" where
  "stub_attach fl api sys d =
     do { (config, d) \<leftarrow> dll_load fl api sys d; Some (if mc_profile config then start_prof sys d else d) }"

text \<open>dpwsockx.dll has no profiler of its own.\<close>

definition dpwsockx_attach ::
  "'f float_ops \<Rightarrow> 'w reg_api \<Rightarrow> stub_sys \<Rightarrow> ('w, 'f) stub_dll \<Rightarrow> ('w, 'f) stub_dll option" where
  "dpwsockx_attach fl api sys d = map_option snd (dll_load fl api sys d)"

definition stop_prof :: "('w, 'f) stub_dll \<Rightarrow> ('w, 'f) stub_dll" where
  "stop_prof d =
     (if sd_prof_exit d = 0 then d
      else
        let d = (if sd_prof_thread d \<noteq> 0 then (close_handle (sd_prof_thread d) d)\<lparr>sd_prof_thread := 0\<rparr> else d)
        in (close_handle (sd_prof_exit d) d)\<lparr>sd_prof_exit := 0\<rparr>)"

definition report_stats :: "'f::linorder float_ops \<Rightarrow> ('w, 'f) stub_dll \<Rightarrow> ('w, 'f) stub_dll" where
  "report_stats fl d =
     (case fprof_report fl (sd_stats d) of (lines, stats) \<Rightarrow> d\<lparr>sd_stats := stats, sd_lines := sd_lines d @ lines\<rparr>)"

text \<open>When the process ends (\<open>terminating\<close>) nothing is touched.\<close>

definition stub_detach :: "'f::linorder float_ops \<Rightarrow> bool \<Rightarrow> ('w, 'f) stub_dll \<Rightarrow> ('w, 'f) stub_dll" where
  "stub_detach fl terminating d =
     (if terminating then d
      else
        let d = stop_prof d; d = d\<lparr>sd_dlls := unload_dlls (sd_dlls d)\<rparr>
        in log_close (if sd_profile d then report_stats fl d else d))"

definition dpwsockx_detach :: "bool \<Rightarrow> ('w, 'f) stub_dll \<Rightarrow> ('w, 'f) stub_dll" where
  "dpwsockx_detach terminating d =
     (if terminating then d else log_close (d\<lparr>sd_dlls := unload_dlls (sd_dlls d)\<rparr>))"

text \<open>
  Between them: a stub looks up the function it stands for, calls are recorded, the profiler reports and
  the first line of the log opens its file.
\<close>

inductive stub_run :: "loader \<Rightarrow> 'f::linorder float_ops \<Rightarrow> ('w, 'f) stub_dll \<Rightarrow> ('w, 'f) stub_dll \<Rightarrow> bool"
  for ld fl d0 where
  start: "stub_run ld fl d0 d0"
| sym: "stub_run ld fl d0 d \<Longrightarrow> find_sym ld n s (sd_dlls d) = Some (p, dlls) \<Longrightarrow> stub_run ld fl d0 (d\<lparr>sd_dlls := dlls\<rparr>)"
| timed: "stub_run ld fl d0 d \<Longrightarrow> i < length (sd_stats d) \<Longrightarrow>
    stub_run ld fl d0 (d\<lparr>sd_stats := (sd_stats d)[i := fprof_record_timed fl t (sd_stats d ! i)]\<rparr>)"
| untimed: "stub_run ld fl d0 d \<Longrightarrow> i < length (sd_stats d) \<Longrightarrow>
    stub_run ld fl d0 (d\<lparr>sd_stats := (sd_stats d)[i := fprof_record_untimed (sd_stats d ! i)]\<rparr>)"
| report: "stub_run ld fl d0 d \<Longrightarrow> sd_prof_thread d \<noteq> 0 \<Longrightarrow> stub_run ld fl d0 (report_stats fl d)"
| log: "stub_run ld fl d0 d \<Longrightarrow> stub_run ld fl d0 (open_log h d)"

subsection \<open>What is given back\<close>

text \<open>The open handles are those the DLL knows of and the others the process had.\<close>

definition held :: "('w, 'f) stub_dll \<Rightarrow> nat multiset" where
  "held d = filter_mset (\<lambda>h. h \<noteq> 0) {#sd_log_mutex d, sd_log_fh d, sd_prof_exit d, sd_prof_thread d#}"

definition stub_inv :: "loader \<Rightarrow> nat list \<Rightarrow> ('w, 'f) stub_dll \<Rightarrow> bool" where
  "stub_inv ld others d \<longleftrightarrow>
     mset (sd_handles d) = held d + mset others \<and> (sd_prof_exit d = 0 \<longrightarrow> sd_prof_thread d = 0) \<and>
     dll_reach ld (sd_dlls d) \<and> sd_log_mutex d \<noteq> 0"

definition not_loaded :: "('w, 'f) stub_dll \<Rightarrow> bool" where
  "not_loaded d \<longleftrightarrow>
     sd_log_mutex d = 0 \<and> sd_log_fh d = 0 \<and> sd_prof_exit d = 0 \<and> sd_prof_thread d = 0 \<and> dll_open (sd_dlls d) = []"

lemma report_stats_simps [simp]:
  "sd_handles (report_stats fl d) = sd_handles d" "sd_log_mutex (report_stats fl d) = sd_log_mutex d"
  "sd_log_fh (report_stats fl d) = sd_log_fh d" "sd_prof_exit (report_stats fl d) = sd_prof_exit d"
  "sd_prof_thread (report_stats fl d) = sd_prof_thread d" "sd_dlls (report_stats fl d) = sd_dlls d"
  by (simp_all add: report_stats_def split: prod.split)

lemma dll_load_inv:
  assumes "dll_load fl api sys d = Some (config, d')" and "not_loaded d" and "dll_reach ld (sd_dlls d)"
  shows "stub_inv ld (sd_handles d) d' \<and> sd_prof_exit d' = 0 \<and> sd_prof_thread d' = 0 \<and> sd_log_fh d' = 0"
  using assms
  by (auto simp: dll_load_def log_init_def stub_inv_def not_loaded_def held_def split: if_splits prod.splits bind_splits)

lemma start_prof_inv:
  assumes "stub_inv ld others d" and "sd_prof_exit d = 0 \<and> sd_prof_thread d = 0"
  shows "stub_inv ld others (start_prof sys d)"
  using assms by (auto simp: start_prof_def stub_inv_def held_def Let_def)

lemma stub_run_inv: "stub_run ld fl d0 d \<Longrightarrow> stub_inv ld others d0 \<Longrightarrow> stub_inv ld others d"
proof (induction rule: stub_run.induct)
  case (sym d n s p dlls)
  then show ?case by (auto simp: stub_inv_def held_def intro: dll_reach.sym)
qed (auto simp: stub_inv_def held_def open_log_def)

lemma stub_run_prof:
  "stub_run ld fl d0 d \<Longrightarrow> sd_prof_exit d = sd_prof_exit d0 \<and> sd_prof_thread d = sd_prof_thread d0"
  by (induction rule: stub_run.induct) (auto simp: open_log_def)

lemma stop_prof_inv:
  assumes "stub_inv ld others d"
  shows "stub_inv ld others (stop_prof d) \<and> sd_prof_exit (stop_prof d) = 0 \<and> sd_prof_thread (stop_prof d) = 0 \<and>
    sd_dlls (stop_prof d) = sd_dlls d"
  using assms by (auto simp: stop_prof_def stub_inv_def held_def close_handle_def Let_def)

lemma log_close_all:
  assumes "mset (sd_handles d) = held d + mset others" and "sd_prof_exit d = 0 \<and> sd_prof_thread d = 0" and "dll_open (sd_dlls d) = []"
  shows "not_loaded (log_close d) \<and> mset (sd_handles (log_close d)) = mset others"
  using assms by (auto simp: log_close_def not_loaded_def held_def close_handle_def Let_def)

lemma unload_all:
  assumes "stub_inv ld others d" and "sd_prof_exit d = 0 \<and> sd_prof_thread d = 0"
  shows "not_loaded (log_close (d\<lparr>sd_dlls := unload_dlls (sd_dlls d)\<rparr>)) \<and>
    mset (sd_handles (log_close (d\<lparr>sd_dlls := unload_dlls (sd_dlls d)\<rparr>))) = mset others"
  by (rule log_close_all) (use assms dlls_unloaded [of ld "sd_dlls d"] in \<open>auto simp: stub_inv_def held_def\<close>)

lemma stub_detach_all:
  assumes "stub_inv ld others d"
  shows "not_loaded (stub_detach fl False d) \<and> mset (sd_handles (stub_detach fl False d)) = mset others"
proof -
  let ?d = "(stop_prof d)\<lparr>sd_dlls := unload_dlls (sd_dlls (stop_prof d))\<rparr>"
  let ?e = "if sd_profile ?d then report_stats fl ?d else ?d"
  note s = stop_prof_inv [OF assms]
  have "mset (sd_handles ?e) = held ?e + mset others" "sd_prof_exit ?e = 0 \<and> sd_prof_thread ?e = 0"
    using s by (simp_all add: stub_inv_def held_def)
  moreover have "dll_open (sd_dlls ?e) = []" using s assms dlls_unloaded [of ld "sd_dlls d"] by (simp add: stub_inv_def)
  ultimately show ?thesis using log_close_all [of ?e others] by (simp add: stub_detach_def Let_def)
qed

text \<open>
  A stub DLL that is unloaded has given back every handle it got and every library it loaded, whatever
  calls, reports and lines of the log came between, with a profiler or without; so has dpwsockx.dll. When
  the process ends nothing is touched.
\<close>

theorem stubs_give_back:
  assumes "not_loaded d" and "dll_reach ld (sd_dlls d)"
  shows "(stub_attach fl api sys d = Some d1 \<and> stub_run ld fl d1 d2 \<longrightarrow>
      not_loaded (stub_detach fl False d2) \<and> mset (sd_handles (stub_detach fl False d2)) = mset (sd_handles d)) \<and>
    (dpwsockx_attach fl api sys d = Some d1 \<and> stub_run ld fl d1 d2 \<longrightarrow>
      not_loaded (dpwsockx_detach False d2) \<and> mset (sd_handles (dpwsockx_detach False d2)) = mset (sd_handles d)) \<and>
    stub_detach fl True d2 = d2 \<and> dpwsockx_detach True d2 = d2"
proof -
  have "not_loaded (stub_detach fl False d2) \<and> mset (sd_handles (stub_detach fl False d2)) = mset (sd_handles d)"
    if a: "stub_attach fl api sys d = Some d1" and r: "stub_run ld fl d1 d2"
  proof -
    obtain config d' where l: "dll_load fl api sys d = Some (config, d')" "d1 = (if mc_profile config then start_prof sys d' else d')"
      using a by (auto simp: stub_attach_def split: bind_splits)
    have "stub_inv ld (sd_handles d) d1"
      using dll_load_inv [OF l(1) assms] start_prof_inv [of ld "sd_handles d" d' sys] l(2) by auto
    from stub_detach_all [OF stub_run_inv [OF r this]] show ?thesis .
  qed
  moreover have "not_loaded (dpwsockx_detach False d2) \<and> mset (sd_handles (dpwsockx_detach False d2)) = mset (sd_handles d)"
    if a: "dpwsockx_attach fl api sys d = Some d1" and r: "stub_run ld fl d1 d2"
  proof -
    obtain config where "dll_load fl api sys d = Some (config, d1)" using a by (auto simp: dpwsockx_attach_def)
    from dll_load_inv [OF this assms] have i: "stub_inv ld (sd_handles d) d1" "sd_prof_exit d2 = 0 \<and> sd_prof_thread d2 = 0"
      using stub_run_prof [OF r] by simp_all
    from unload_all [OF stub_run_inv [OF r i(1)] i(2)] show ?thesis by (simp add: dpwsockx_detach_def)
  qed
  ultimately show ?thesis by (simp add: stub_detach_def dpwsockx_detach_def)
qed

definition sample_stub :: "(mem_reg, int) stub_dll" where
  "sample_stub =
     \<lparr>sd_reg = mem_init, sd_stats = [sample_stats], sd_log_mutex = 0, sd_log_fh = 0, sd_min_level = 4, sd_profile = False,
      sd_prof_exit = 0, sd_prof_thread = 0, sd_dlls = dll_start, sd_handles = [100], sd_lines = []\<rparr>"

definition sample_stub_sys :: stub_sys where
  "sample_stub_sys =
     \<lparr>ss_ini = Some [], ss_mem = \<lambda>_. True, ss_malloc = True, ss_strdup = True, ss_mutex = 4, ss_event = 8, ss_thread = 12\<rparr>"

lemma stubs_give_back_witness:
  "\<exists>d. stub_attach int_float mem_api sample_stub_sys sample_stub = Some d \<and> sd_handles d \<noteq> [100] \<and>
    mset (sd_handles (stub_detach int_float False (open_log 16 d))) = {#100#}"
proof -
  obtain config d where l: "dll_load int_float mem_api sample_stub_sys sample_stub = Some (config, d)" "sd_handles d = [4, 100]"
    by (auto simp: dll_load_def log_init_def sample_stub_def sample_stub_sys_def get_main_config_def)
  let ?d = "if mc_profile config then start_prof sample_stub_sys d else d"
  have a: "stub_attach int_float mem_api sample_stub_sys sample_stub = Some ?d" using l(1) by (simp add: stub_attach_def)
  have r: "stub_run (sample_loader) int_float ?d (open_log 16 ?d)" by (intro stub_run.log stub_run.start)
  have s: "not_loaded sample_stub" "dll_reach sample_loader (sd_dlls sample_stub)"
    by (auto simp: not_loaded_def sample_stub_def dll_start_def intro: dll_reach.start [unfolded dll_start_def])
  have h: "length (sd_handles ?d) \<ge> 2" using l(2) by (simp add: start_prof_def Let_def)
  then have "sd_handles ?d \<noteq> [100]" by auto
  with stubs_give_back [OF s, of int_float mem_api sample_stub_sys ?d "open_log 16 ?d"] a r show ?thesis
    by (simp add: sample_stub_def)
qed

end
