(* ===== verification/Firewall.thy ===== *)
theory Firewall
  imports Modules "HOL-Library.Monad_Syntax"
begin

text \<open>
  The exception for the Windows firewall (firewall.c): the objects, strings, buffers and libraries the code
  gets on its way to the list of authorised programs and gives back, and the entry it adds. The answers of
  Windows are a parameter. What is got and given back is a trace; the texts are lists of characters.
\<close>

datatype fw_resource = ComLibrary | ComObject string | Buffer | BString | Shell32

datatype fw_event = Got fw_resource | Gave fw_resource

text \<open>A trace is well nested when what is given back is what was got last; the result is what is still held.\<close>

fun nested :: "fw_event list \<Rightarrow> fw_resource list \<Rightarrow> fw_resource list option" where
  "nested [] held = Some held"
| "nested (Got r # es) held = nested es (r # held)"
| "nested (Gave r # es) held = (case held of [] \<Rightarrow> None | h # hs \<Rightarrow> if h = r then nested es hs else None)"

record fw_sys =
  fw_shell32 :: bool
  fw_IsUserAnAdmin :: "bool option"
  fw_mgr :: u32
  fw_policy :: u32
  fw_profile :: u32
  fw_apps :: u32
  fw_app :: u32
  fw_put_path :: u32
  fw_put_name :: u32
  fw_add :: u32
  fw_exe :: string
  fw_path_mem :: "nat \<Rightarrow> bool"
  fw_mem :: "nat \<Rightarrow> bool"
  fw_bstr :: "string \<Rightarrow> bool"
  fw_ver_size :: nat
  fw_ver_ok :: bool
  fw_translations :: "(u16 \<times> u16) list option"
  fw_description :: "u16 \<times> u16 \<Rightarrow> string option"

definition S_OK :: u32 where "S_OK = 0"

text \<open>Where the function is missing, and where the library is, everybody is taken for an administrator.\<close>

definition IsUserAnAdmin :: "fw_sys \<Rightarrow> bool \<times> fw_event list" where
  "IsUserAnAdmin sys =
     (if \<not> fw_shell32 sys then (True, [])
      else (case fw_IsUserAnAdmin sys of Some admin \<Rightarrow> admin | None \<Rightarrow> True, [Got Shell32, Gave Shell32]))"

text \<open>The first description that there is, and that can be copied, in the order of the languages of the file.\<close>

fun first_description :: "fw_sys \<Rightarrow> (u16 \<times> u16) list \<Rightarrow> string option" where
  "first_description sys [] = None"
| "first_description sys (tr # trs) =
     (case fw_description sys tr of
        Some desc \<Rightarrow> if fw_bstr sys desc then Some desc else first_description sys trs
      | None \<Rightarrow> first_description sys trs)"

definition get_exe_desc :: "fw_sys \<Rightarrow> string option \<times> fw_event list" where
  "get_exe_desc sys =
     (if fw_ver_size sys = 0 then (None, [])
      else if \<not> fw_mem sys (fw_ver_size sys) then (None, [])
      else
        let desc = (if fw_ver_ok sys
                    then (case fw_translations sys of Some trs \<Rightarrow> first_description sys trs | None \<Rightarrow> None)
                    else None)
        in (desc, [Got Buffer] @ [Gave Buffer] @ (if desc = None then [] else [Got BString])))"

text \<open>
  The buffer for the path is doubled until the path and its terminator fit. A \<open>realloc\<close> gives the old
  buffer back, except when it fails: then it is lost.
\<close>

partial_function (option) exe_path_loop :: "fw_sys \<Rightarrow> nat \<Rightarrow> bool \<Rightarrow> (bool \<times> fw_event list) option" where
  "exe_path_loop sys sz first =
     (let sz = sz * 2 in
      if \<not> fw_path_mem sys (2 * sz) then Some (False, [])
      else
        let es = (if first then [] else [Gave Buffer]) @ [Got Buffer] in
        if length (fw_exe sys) \<ge> sz
        then do { (ok, rest) \<leftarrow> exe_path_loop sys sz False; Some (ok, es @ rest) }
        else Some (True, es))"

text \<open>The entry: the path of the program and its name, the description or else the path.\<close>

definition fill_this_exe :: "fw_sys \<Rightarrow> ((string \<times> string) option \<times> fw_event list) option" where
  "fill_this_exe sys =
     do {
       (ok, es) \<leftarrow> exe_path_loop sys 256 True;
       if \<not> ok then Some (None, es)
       else
         let path = fw_exe sys; have_path = fw_bstr sys path;
             (desc, es') = get_exe_desc sys;
             ok = (have_path \<and> fw_put_path sys = S_OK \<and> fw_put_name sys = S_OK)
         in Some (if ok then Some (path, case desc of Some d \<Rightarrow> d | None \<Rightarrow> path) else None,
                  es @ (if have_path then [Got BString] else []) @ es' @
                  (if desc = None then [] else [Gave BString]) @ (if have_path then [Gave BString] else []) @ [Gave Buffer])
     }"

text \<open>An object is got when the call that returns it succeeds, used, and released.\<close>

definition with_object ::
  "u32 \<Rightarrow> string \<Rightarrow> ((string \<times> string) list \<Rightarrow> ((string \<times> string) list \<times> fw_event list) option) \<Rightarrow> (string \<times> string) list \<Rightarrow>
     ((string \<times> string) list \<times> fw_event list) option" where
  "with_object err name body apps =
     (if err \<noteq> S_OK then Some (apps, [])
      else map_option (\<lambda>(apps, es). (apps, [Got (ComObject name)] @ es @ [Gave (ComObject name)])) (body apps))"

definition add_self_to_firewall :: "fw_sys \<Rightarrow> (string \<times> string) list \<Rightarrow> ((string \<times> string) list \<times> fw_event list) option" where
  "add_self_to_firewall sys apps =
     (case IsUserAnAdmin sys of (admin, es) \<Rightarrow>
        if \<not> admin then Some (apps, es)
        else do {
          (apps, es') \<leftarrow>
            with_object (fw_mgr sys) ''INetFwMgr''
             (with_object (fw_policy sys) ''INetFwPolicy''
               (with_object (fw_profile sys) ''INetFwProfile''
                 (with_object (fw_apps sys) ''INetFwAuthorizedApplications''
                   (with_object (fw_app sys) ''INetFwAuthorizedApplication''
                     (\<lambda>apps. do {
                        (entry, es) \<leftarrow> fill_this_exe sys;
                        Some (case entry of
                                Some e \<Rightarrow> (if fw_add sys = S_OK then apps @ [e] else apps, es)
                              | None \<Rightarrow> (apps, es))
                      }))))) apps;
          Some (apps, es @ [Got ComLibrary] @ es' @ [Gave ComLibrary])
        })"

subsection \<open>Everything is given back\<close>

lemma nested_append: "nested (es @ es') held = Option.bind (nested es held) (nested es')"
  by (induction es held rule: nested.induct) (auto split: list.splits)

lemma exe_path_loop_returns:
  assumes "\<And>n. fw_path_mem sys n" and "0 < sz"
  shows "\<exists>es. exe_path_loop sys sz first = Some (True, es) \<and> nested es (if first then held else Buffer # held) = Some (Buffer # held)"
  using assms(2)
proof (induction "length (fw_exe sys) - sz" arbitrary: sz first rule: less_induct)
  case less
  show ?case
  proof (cases "length (fw_exe sys) \<ge> sz * 2")
    case False
    then show ?thesis using assms(1) by (subst exe_path_loop.simps) (auto simp: Let_def)
  next
    case True
    then have "\<exists>es. exe_path_loop sys (sz * 2) False = Some (True, es) \<and> nested es (Buffer # held) = Some (Buffer # held)"
      using less.hyps [of "sz * 2" False] less.prems by auto
    then show ?thesis using True assms(1) by (subst exe_path_loop.simps) (auto simp: Let_def nested_append)
  qed
qed

definition usable :: "fw_sys \<Rightarrow> u16 \<times> u16 \<Rightarrow> bool" where
  "usable sys tr \<longleftrightarrow> (case fw_description sys tr of Some d \<Rightarrow> fw_bstr sys d | None \<Rightarrow> False)"

lemma first_description_find:
  "first_description sys trs = map_option (\<lambda>tr. the (fw_description sys tr)) (find (usable sys) trs)"
  by (induction trs) (auto simp: usable_def split: option.splits)

text \<open>The languages whose descriptions are looked at, and the name of the entry.\<close>

definition languages :: "fw_sys \<Rightarrow> (u16 \<times> u16) list" where
  "languages sys =
     (if fw_ver_size sys = 0 \<or> \<not> fw_mem sys (fw_ver_size sys) \<or> \<not> fw_ver_ok sys then []
      else case fw_translations sys of Some trs \<Rightarrow> trs | None \<Rightarrow> [])"

definition entry_name :: "fw_sys \<Rightarrow> string" where
  "entry_name sys = (case find (usable sys) (languages sys) of Some tr \<Rightarrow> the (fw_description sys tr) | None \<Rightarrow> fw_exe sys)"

lemma get_exe_desc_name:
  "(case fst (get_exe_desc sys) of Some d \<Rightarrow> d | None \<Rightarrow> fw_exe sys) = entry_name sys"
  by (auto simp: get_exe_desc_def entry_name_def languages_def first_description_find Let_def split: option.splits)

lemma get_exe_desc_nested:
  "nested (snd (get_exe_desc sys)) held = Some (if fst (get_exe_desc sys) = None then held else BString # held)"
  by (simp add: get_exe_desc_def Let_def)

lemma fill_this_exe_returns:
  assumes "\<And>n. fw_path_mem sys n"
  shows "\<exists>es. fill_this_exe sys =
      Some (if fw_bstr sys (fw_exe sys) \<and> fw_put_path sys = S_OK \<and> fw_put_name sys = S_OK
            then Some (fw_exe sys, entry_name sys) else None, es) \<and>
    nested es held = Some held"
proof -
  obtain es where es: "exe_path_loop sys 256 True = Some (True, es)" "nested es held = Some (Buffer # held)"
    using exe_path_loop_returns [OF assms, of 256 True held] by auto
  obtain desc es' where d: "get_exe_desc sys = (desc, es')" by (cases "get_exe_desc sys")
  then have "(case desc of Some d \<Rightarrow> d | None \<Rightarrow> fw_exe sys) = entry_name sys"
    "\<And>held. nested es' held = Some (if desc = None then held else BString # held)"
    using get_exe_desc_name [of sys] get_exe_desc_nested [of sys] by simp_all
  then show ?thesis using es d by (simp add: fill_this_exe_def Let_def nested_append)
qed

text \<open>A step that always returns, with the list it makes, and gives back what it got.\<close>

definition balanced ::
  "((string \<times> string) list \<Rightarrow> ((string \<times> string) list \<times> fw_event list) option) \<Rightarrow> ((string \<times> string) list \<Rightarrow> (string \<times> string) list) \<Rightarrow> bool" where
  "balanced body f \<longleftrightarrow> (\<forall>apps held. \<exists>es. body apps = Some (f apps, es) \<and> nested es held = Some held)"

lemma with_object_balanced:
  assumes "balanced body f"
  shows "balanced (with_object err name body) (\<lambda>apps. if err = S_OK then f apps else apps)"
  unfolding balanced_def
proof (intro allI)
  fix apps held
  obtain es where "body apps = Some (f apps, es)" "nested es (ComObject name # held) = Some (ComObject name # held)"
    using assms unfolding balanced_def by blast
  then show "\<exists>es. with_object err name body apps = Some (if err = S_OK then f apps else apps, es) \<and> nested es held = Some held"
    by (auto simp: with_object_def nested_append)
qed

definition fw_admin :: "fw_sys \<Rightarrow> bool" where
  "fw_admin sys \<longleftrightarrow> \<not> fw_shell32 sys \<or> fw_IsUserAnAdmin sys \<noteq> Some False"

definition fw_ready :: "fw_sys \<Rightarrow> bool" where
  "fw_ready sys \<longleftrightarrow>
     fw_admin sys \<and> (\<forall>err\<in>{fw_mgr sys, fw_policy sys, fw_profile sys, fw_apps sys, fw_app sys, fw_put_path sys, fw_put_name sys, fw_add sys}. err = S_OK) \<and>
     fw_bstr sys (fw_exe sys)"

text \<open>
  C23. Adding the exception returns whatever Windows answers, and adds at most one entry: the program's path
  and its description in the first of its languages that has one, or the path again; it is added exactly
  when the user may do so and every step succeeds. The COM library, every object, string, buffer and
  library is given back, the last one got first, on every path, as long as the buffer for the path can
  be allocated.
\<close>

theorem firewall_exception_added:
  assumes "\<And>n. fw_path_mem sys n"
  shows "\<exists>es. add_self_to_firewall sys apps =
      Some (if fw_ready sys then apps @ [(fw_exe sys, entry_name sys)] else apps, es) \<and> nested es [] = Some []"
proof -
  let ?add = "\<lambda>apps. do {
       (entry, es) \<leftarrow> fill_this_exe sys;
       Some (case entry of Some e \<Rightarrow> (if fw_add sys = S_OK then apps @ [e] else apps, es) | None \<Rightarrow> (apps, es))
     }"
  let ?f = "\<lambda>apps. if fw_bstr sys (fw_exe sys) \<and> fw_put_path sys = S_OK \<and> fw_put_name sys = S_OK \<and> fw_add sys = S_OK
    then apps @ [(fw_exe sys, entry_name sys)] else apps"
  let ?os = "with_object (fw_mgr sys) ''INetFwMgr''
             (with_object (fw_policy sys) ''INetFwPolicy''
               (with_object (fw_profile sys) ''INetFwProfile''
                 (with_object (fw_apps sys) ''INetFwAuthorizedApplications''
                   (with_object (fw_app sys) ''INetFwAuthorizedApplication'' ?add))))"
  have "\<exists>es. ?add apps = Some (?f apps, es) \<and> nested es held = Some held" for apps held
    using fill_this_exe_returns [OF assms, of held] by auto
  then have add: "balanced ?add ?f" unfolding balanced_def by blast
  obtain es where es: "?os apps = Some (if fw_mgr sys = S_OK then if fw_policy sys = S_OK then if fw_profile sys = S_OK then
      if fw_apps sys = S_OK then if fw_app sys = S_OK then ?f apps else apps else apps else apps else apps else apps, es)"
    "nested es [ComLibrary] = Some [ComLibrary]"
    using with_object_balanced [OF with_object_balanced [OF with_object_balanced [OF with_object_balanced [OF with_object_balanced [OF add]]]],
        of "fw_mgr sys" "''INetFwMgr''" "fw_policy sys" "''INetFwPolicy''" "fw_profile sys" "''INetFwProfile''" "fw_apps sys"
        "''INetFwAuthorizedApplications''" "fw_app sys" "''INetFwAuthorizedApplication''"]
    unfolding balanced_def by blast
  obtain admin es0 where a: "IsUserAnAdmin sys = (admin, es0)" by (cases "IsUserAnAdmin sys")
  then have "admin = fw_admin sys" "nested es0 [] = Some []"
    by (auto simp: IsUserAnAdmin_def fw_admin_def split: if_splits option.splits)
  then show ?thesis using es by (auto simp: add_self_to_firewall_def a fw_ready_def nested_append)
qed

definition sample_fw :: fw_sys where
  "sample_fw =
     \<lparr>fw_shell32 = True, fw_IsUserAnAdmin = Some True, fw_mgr = 0, fw_policy = 0, fw_profile = 0, fw_apps = 0, fw_app = 0,
      fw_put_path = 0, fw_put_name = 0, fw_add = 0, fw_exe = ''game.exe'', fw_path_mem = \<lambda>_. True, fw_mem = \<lambda>_. True,
      fw_bstr = \<lambda>_. True, fw_ver_size = 100, fw_ver_ok = True, fw_translations = Some [(0x407, 1200), (0x409, 1200)],
      fw_description = (\<lambda>tr. if tr = (0x409, 1200) then Some ''The game'' else None)\<rparr>"

lemma firewall_exception_added_witness:
  "\<exists>es. add_self_to_firewall sample_fw [] = Some ([(''game.exe'', ''The game'')], es) \<and> nested es [] = Some []"
proof -
  have "fw_path_mem sample_fw n" for n by (simp add: sample_fw_def)
  from firewall_exception_added [OF this, of "[]"] show ?thesis
    by (simp add: fw_ready_def fw_admin_def entry_name_def languages_def usable_def sample_fw_def S_OK_def)
qed

end
